(* ===== verification/PyText.thy ===== *)
theory PyText
  imports Prelude
begin

text \<open>
  The string operations of Python the sources use, as functions on \<open>string\<close>: stripping,
  splitting, joining, \<^verbatim>\<open>int(...)\<close> and \<^verbatim>\<open>float(...)\<close> as parsers that raise
  \<open>ValueError\<close>, \<^verbatim>\<open>str\<close> of an integer and the fixed-point format
  \<^verbatim>\<open>%.<d>f\<close>. A character is a code point below 256.

  The lemmas are the round trips: \<open>py_int_str\<close> (an integer prints and parses to itself),
  \<open>split_on_join\<close> and \<open>split_by_join\<close> (joining pieces without the separator and splitting
  gives the pieces back) and \<open>py_float_trimmed\<close> (a fixed-point rendering with its trailing
  zeros stripped still parses to the rounded value).
\<close>

named_theorems text_simps \<open>evaluation of strings\<close>

abbreviation nl :: char where "nl \<equiv> CHR 0x0A"
abbreviation tab :: char where "tab \<equiv> CHR 0x09"

section \<open>Stripping and splitting\<close>

definition is_space :: "char \<Rightarrow> bool" where
  "is_space c = (let n = of_char c :: nat
     in (9 \<le> n \<and> n \<le> 13) \<or> (28 \<le> n \<and> n \<le> 32) \<or> n = 133 \<or> n = 160)"

definition is_digit :: "char \<Rightarrow> bool" where
  "is_digit c = (let n = of_char c :: nat in 48 \<le> n \<and> n \<le> 57)"

definition to_lower :: "char \<Rightarrow> char" where
  "to_lower c = (let n = of_char c :: nat in if 65 \<le> n \<and> n \<le> 90 then char_of (n + 32) else c)"

definition str_lower :: "string \<Rightarrow> string" where
  "str_lower s = map to_lower s"

definition rstrip_by :: "(char \<Rightarrow> bool) \<Rightarrow> string \<Rightarrow> string" where
  "rstrip_by P s = rev (dropWhile P (rev s))"

definition strip_by :: "(char \<Rightarrow> bool) \<Rightarrow> string \<Rightarrow> string" where
  "strip_by P s = rstrip_by P (dropWhile P s)"

definition str_strip :: "string \<Rightarrow> string" where
  "str_strip s = strip_by is_space s"

definition str_rstrip :: "string \<Rightarrow> string" where
  "str_rstrip s = rstrip_by is_space s"

text \<open>\<open>split_by P\<close> cuts at every character with \<open>P\<close>; \<^verbatim>\<open>s.split(c)\<close> is \<open>split_on c s\<close>, which
  is never empty, and \<^verbatim>\<open>s.split()\<close> is \<open>split_ws s\<close>.\<close>

fun split_by :: "(char \<Rightarrow> bool) \<Rightarrow> string \<Rightarrow> string list" where
  "split_by P [] = [[]]"
| "split_by P (c # cs) =
    (if P c then [] # split_by P cs
     else (case split_by P cs of [] \<Rightarrow> [[c]] | p # ps \<Rightarrow> (c # p) # ps))"

definition split_on :: "char \<Rightarrow> string \<Rightarrow> string list" where
  "split_on c s = split_by (\<lambda>x. x = c) s"

definition split_ws :: "string \<Rightarrow> string list" where
  "split_ws s = filter (\<lambda>p. p \<noteq> []) (split_by is_space s)"

text \<open>\<^verbatim>\<open>s.split(c, 1)\<close> where \<open>c\<close> occurs, and \<open>None\<close> where it does not.\<close>

definition split_first :: "char \<Rightarrow> string \<Rightarrow> (string \<times> string) option" where
  "split_first c s =
    (case dropWhile (\<lambda>x. x \<noteq> c) s of [] \<Rightarrow> None | _ # rest \<Rightarrow> Some (takeWhile (\<lambda>x. x \<noteq> c) s, rest))"

fun str_join :: "string \<Rightarrow> string list \<Rightarrow> string" where
  "str_join sep [] = []"
| "str_join sep [p] = p"
| "str_join sep (p # q # ps) = p @ sep @ str_join sep (q # ps)"

definition starts_with :: "string \<Rightarrow> string \<Rightarrow> bool" where
  "starts_with pre s \<longleftrightarrow> take (length pre) s = pre"

fun str_contains :: "string \<Rightarrow> string \<Rightarrow> bool" where
  "str_contains p [] = (p = [])"
| "str_contains p (c # cs) = (starts_with p (c # cs) \<or> str_contains p cs)"

text \<open>The lines of a text file without their terminators (a final newline ends the last line).\<close>

definition file_lines :: "string \<Rightarrow> string list" where
  "file_lines s = (let ps = split_on nl s in if last ps = [] then butlast ps else ps)"

section \<open>Numbers\<close>

definition digit_val :: "char \<Rightarrow> nat" where
  "digit_val c = of_char c - 48"

definition digit_char :: "nat \<Rightarrow> char" where
  "digit_char n = char_of (48 + n)"

definition nat_val :: "string \<Rightarrow> nat" where
  "nat_val s = foldl (\<lambda>n c. 10 * n + digit_val c) 0 s"

fun str_nat :: "nat \<Rightarrow> string" where
  "str_nat n = (if n < 10 then [digit_char n] else str_nat (n div 10) @ [digit_char (n mod 10)])"

declare str_nat.simps [simp del]

definition py_str_int :: "int \<Rightarrow> string" where
  "py_str_int i = (if i < 0 then CHR ''-'' # str_nat (nat (- i)) else str_nat (nat i))"

text \<open>Digits, with single underscores allowed between them.\<close>

definition digit_groups :: "string \<Rightarrow> string option" where
  "digit_groups s =
    (let ps = split_on (CHR ''_'') s
     in if \<forall>p \<in> set ps. p \<noteq> [] \<and> list_all is_digit p then Some (concat ps) else None)"

definition split_sign :: "string \<Rightarrow> int \<times> string" where
  "split_sign s =
    (case s of [] \<Rightarrow> (1, [])
     | c # cs \<Rightarrow> if c = CHR ''-'' then (-1, cs) else if c = CHR ''+'' then (1, cs) else (1, s))"

definition py_int :: "string \<Rightarrow> int res" where
  "py_int s =
    (let (sg, u) = split_sign (str_strip s)
     in case digit_groups u of None \<Rightarrow> Inl ValueError | Some ds \<Rightarrow> Inr (sg * int (nat_val ds)))"

definition opt_groups :: "string \<Rightarrow> string option" where
  "opt_groups s = (if s = [] then Some [] else digit_groups s)"

definition dec_val :: "string \<Rightarrow> string \<Rightarrow> real" where
  "dec_val ip fp = real (nat_val (ip @ fp)) / 10 ^ length fp"

definition parse_mantissa :: "string \<Rightarrow> real option" where
  "parse_mantissa s =
    (case split_first (CHR ''.'') s of
       None \<Rightarrow> map_option (\<lambda>ip. dec_val ip []) (digit_groups s)
     | Some (ip, fp) \<Rightarrow>
         if ip = [] \<and> fp = [] then None
         else (case (opt_groups ip, opt_groups fp) of
                 (Some i, Some f) \<Rightarrow> Some (dec_val i f) | _ \<Rightarrow> None))"

definition is_exp :: "char \<Rightarrow> bool" where
  "is_exp c \<longleftrightarrow> c = CHR ''e'' \<or> c = CHR ''E''"

definition parse_exponent :: "string \<Rightarrow> real option" where
  "parse_exponent s =
    (case s of [] \<Rightarrow> Some 1
     | _ # t \<Rightarrow>
        (let (sg, u) = split_sign t
         in map_option (\<lambda>ds. if sg < 0 then 1 / 10 ^ nat_val ds else 10 ^ nat_val ds) (digit_groups u)))"

definition py_float :: "string \<Rightarrow> pyfloat res" where
  "py_float s =
    (let (sg, u) = split_sign (str_strip s); w = str_lower u
     in if w = ''inf'' \<or> w = ''infinity'' then Inr (if sg < 0 then NegInf else PosInf)
        else if w = ''nan'' then Inr NaN
        else (case (parse_mantissa (takeWhile (\<lambda>c. \<not> is_exp c) u), parse_exponent (dropWhile (\<lambda>c. \<not> is_exp c) u)) of
                (Some m, Some e) \<Rightarrow> Inr (Fin (of_int sg * m * e)) | _ \<Rightarrow> Inl ValueError))"

definition pad_zeros :: "nat \<Rightarrow> string \<Rightarrow> string" where
  "pad_zeros d s = replicate (d - length s) (CHR ''0'') @ s"

text \<open>\<^verbatim>\<open>'%.<d>f' % x\<close>.\<close>

definition fmt_fixed :: "nat \<Rightarrow> real \<Rightarrow> string" where
  "fmt_fixed d x =
    (let n = nat (py_round (\<bar>x\<bar> * 10 ^ d))
     in (if x < 0 then ''-'' else [])
        @ str_nat (n div 10 ^ d) @ (if d = 0 then [] else CHR ''.'' # pad_zeros d (str_nat (n mod 10 ^ d))))"

text \<open>\<^verbatim>\<open>.rstrip('0').rstrip('.')\<close>.\<close>

definition trim_fixed :: "string \<Rightarrow> string" where
  "trim_fixed s = rstrip_by (\<lambda>c. c = CHR ''.'') (rstrip_by (\<lambda>c. c = CHR ''0'') s)"

section \<open>Lemmas\<close>

lemma is_space_digit: "is_digit c \<Longrightarrow> \<not> is_space c"
  by (auto simp: is_digit_def is_space_def Let_def)

lemma rstrip_by_snoc: "\<not> P c \<Longrightarrow> rstrip_by P (s @ [c]) = s @ [c]"
  by (simp add: rstrip_by_def)

lemma rstrip_by_drop: "P c \<Longrightarrow> rstrip_by P (s @ [c]) = rstrip_by P s"
  by (simp add: rstrip_by_def)

lemma rstrip_by_last: "s \<noteq> [] \<Longrightarrow> \<not> P (last s) \<Longrightarrow> rstrip_by P s = s"
  by (metis append_butlast_last_id rstrip_by_snoc)

lemma rstrip_by_replicate: "P c \<Longrightarrow> rstrip_by P (s @ replicate n c) = rstrip_by P s"
  by (simp add: rstrip_by_def dropWhile_append)

lemma strip_by_id:
  assumes "s \<noteq> []" "\<not> P (hd s)" "\<not> P (last s)"
  shows "strip_by P s = s"
  using assms by (cases s) (auto simp: strip_by_def rstrip_by_last)

lemma str_strip_id: "list_all (\<lambda>c. \<not> is_space c) s \<Longrightarrow> str_strip s = s"
proof (cases "s = []")
  case False
  assume "list_all (\<lambda>c. \<not> is_space c) s"
  with False have "\<not> is_space (hd s)" "\<not> is_space (last s)" by (auto simp: list_all_iff)
  with False show ?thesis by (simp add: str_strip_def strip_by_id)
qed (simp add: str_strip_def strip_by_def rstrip_by_def)

lemma split_by_nonempty [simp]: "split_by P s \<noteq> []"
  by (induction s) (auto split: list.splits)

lemma split_by_none: "\<forall>c \<in> set s. \<not> P c \<Longrightarrow> split_by P s = [s]"
  by (induction s) auto

lemma split_by_app:
  "\<forall>c \<in> set s. \<not> P c \<Longrightarrow> P x \<Longrightarrow> split_by P (s @ x # t) = s # split_by P t"
  by (induction s) auto

lemma split_on_none: "c \<notin> set s \<Longrightarrow> split_on c s = [s]"
  unfolding split_on_def by (rule split_by_none) auto

lemma split_on_app: "c \<notin> set s \<Longrightarrow> split_on c (s @ c # t) = s # split_on c t"
  unfolding split_on_def by (rule split_by_app) auto

lemma split_by_join:
  assumes "ps \<noteq> []" "\<forall>p \<in> set ps. \<forall>c \<in> set p. \<not> P c" "P x"
  shows "split_by P (str_join [x] ps) = ps"
  using assms
proof (induction ps)
  case (Cons p ps)
  then show ?case
    by (cases ps) (auto simp: split_by_none split_by_app)
qed simp

lemma split_on_join:
  "ps \<noteq> [] \<Longrightarrow> \<forall>p \<in> set ps. x \<notin> set p \<Longrightarrow> split_on x (str_join [x] ps) = ps"
  unfolding split_on_def by (rule split_by_join) auto

lemma split_ws_join:
  assumes "\<forall>p \<in> set ps. p \<noteq> [] \<and> list_all (\<lambda>c. \<not> is_space c) p"
  shows "split_ws (str_join '' '' ps) = ps"
proof (cases "ps = []")
  case True
  then show ?thesis by (simp add: split_ws_def)
next
  case False
  have "is_space (CHR '' '')" by (simp add: is_space_def)
  with False assms have "split_by is_space (str_join '' '' ps) = ps"
    by (intro split_by_join) (auto simp: list_all_iff)
  with assms show ?thesis by (simp add: split_ws_def filter_id_conv)
qed

lemma split_first_app:
  assumes "c \<notin> set s"
  shows "split_first c (s @ c # t) = Some (s, t)"
proof -
  have "\<forall>x \<in> set s. x \<noteq> c" using assms by auto
  then have "dropWhile (\<lambda>x. x \<noteq> c) (s @ c # t) = c # t" "takeWhile (\<lambda>x. x \<noteq> c) (s @ c # t) = s"
    by (induction s) auto
  then show ?thesis by (simp add: split_first_def)
qed

lemma split_first_None: "c \<notin> set s \<Longrightarrow> split_first c s = None"
proof -
  assume "c \<notin> set s"
  then have "dropWhile (\<lambda>x. x \<noteq> c) s = []" by (auto simp: dropWhile_eq_Nil_conv)
  then show ?thesis unfolding split_first_def by (simp only: list.case)
qed

lemma file_lines_terminated:
  assumes "\<forall>p \<in> set ps. nl \<notin> set p"
  shows "file_lines (concat (map (\<lambda>p. p @ [nl]) ps)) = ps"
proof -
  have "split_on nl (concat (map (\<lambda>p. p @ [nl]) ps)) = ps @ [[]]"
    using assms by (induction ps) (auto simp: split_on_app, simp add: split_on_def)
  then show ?thesis by (simp add: file_lines_def)
qed

lemma digit_char_props [simp]:
  assumes "n < 10"
  shows "is_digit (digit_char n)" "digit_val (digit_char n) = n"
  using assms by (simp_all add: is_digit_def digit_char_def digit_val_def Let_def)

lemma nat_val_simps [simp]: "nat_val [] = 0" "nat_val (s @ [c]) = 10 * nat_val s + digit_val c"
  by (simp_all add: nat_val_def)

lemma nat_val_append: "nat_val (s @ t) = nat_val s * 10 ^ length t + nat_val t"
proof (induction t rule: rev_induct)
  case (snoc c t)
  then have "nat_val ((s @ t) @ [c]) = 10 * (nat_val s * 10 ^ length t + nat_val t) + digit_val c"
    by (simp only: nat_val_simps)
  then show ?case by (simp add: algebra_simps)
qed simp

lemma nat_val_zeros [simp]: "nat_val (replicate k (CHR ''0'')) = 0"
proof (induction k)
  case (Suc k)
  then have "nat_val (replicate k (CHR ''0'') @ [CHR ''0'']) = 0"
    by (simp add: digit_val_def)
  then show ?case by (simp add: replicate_append_same)
qed simp

lemma nat_val_pad [simp]: "nat_val (pad_zeros d s) = nat_val s"
  by (simp add: pad_zeros_def nat_val_append)

lemma str_nat_digits: "list_all is_digit (str_nat n)"
  by (induction n rule: str_nat.induct) (subst str_nat.simps, auto)

lemma str_nat_nonempty [simp]: "str_nat n \<noteq> []"
  by (subst str_nat.simps) simp

lemma nat_val_str_nat [simp]: "nat_val (str_nat n) = n"
proof (induction n rule: str_nat.induct)
  case (1 n)
  show ?case
  proof (cases "n < 10")
    case True
    have "nat_val [digit_char n] = n"
      using nat_val_simps(2) [of "[]" "digit_char n"] True by simp
    with True show ?thesis by (subst str_nat.simps) simp
  next
    case False
    with 1 show ?thesis by (subst str_nat.simps) simp
  qed
qed

lemma length_str_nat: "n < 10 ^ d \<Longrightarrow> 0 < d \<Longrightarrow> length (str_nat n) \<le> d"
proof (induction d arbitrary: n)
  case (Suc d)
  show ?case
  proof (cases "n < 10")
    case False
    with Suc.prems have "n div 10 < 10 ^ d" by (simp add: less_mult_imp_div_less)
    moreover from False Suc.prems have "0 < d" by (cases d) auto
    ultimately have "length (str_nat (n div 10)) \<le> d" by (rule Suc.IH)
    with False show ?thesis by (subst str_nat.simps) simp
  qed (subst str_nat.simps, simp)
qed simp

lemma str_nat_small [text_simps]: "n < 10 \<Longrightarrow> str_nat n = [digit_char n]"
  by (subst str_nat.simps) simp

lemma str_nat_large [text_simps]: "10 \<le> n \<Longrightarrow> str_nat n = str_nat (n div 10) @ [digit_char (n mod 10)]"
  by (subst str_nat.simps) simp

lemma digit_char_eqs [text_simps]:
  "digit_char 0 = CHR ''0''" "digit_char 1 = CHR ''1''" "digit_char (Suc 0) = CHR ''1''"
  "digit_char 2 = CHR ''2''" "digit_char 3 = CHR ''3''"
  "digit_char 4 = CHR ''4''" "digit_char 5 = CHR ''5''" "digit_char 6 = CHR ''6''" "digit_char 7 = CHR ''7''"
  "digit_char 8 = CHR ''8''" "digit_char 9 = CHR ''9''"
  by code_simp+

lemma replicate_num [text_simps]: "replicate (numeral k) x = x # replicate (pred_numeral k) x"
  by (simp add: numeral_eq_Suc)

lemma digit_not_underscore: "is_digit c \<Longrightarrow> c \<noteq> CHR ''_''"
  by (auto simp: is_digit_def Let_def)

lemma digit_groups_digits:
  assumes "s \<noteq> []" "list_all is_digit s"
  shows "digit_groups s = Some s"
proof -
  have "CHR ''_'' \<notin> set s" using assms(2) digit_not_underscore by (auto simp: list_all_iff)
  then have "split_on (CHR ''_'') s = [s]" by (rule split_on_none)
  with assms show ?thesis by (simp add: digit_groups_def)
qed

lemma digit_signs: "is_digit c \<Longrightarrow> c \<noteq> CHR ''-'' \<and> c \<noteq> CHR ''+'' \<and> c \<noteq> CHR ''.'' \<and> \<not> is_exp c"
  by (auto simp: is_digit_def Let_def is_exp_def)

lemma split_sign_digits: "list_all is_digit s \<Longrightarrow> split_sign s = (1, s)"
  using digit_signs by (cases s) (auto simp: split_sign_def)

lemma strip_nonempty: "c \<in> set s \<Longrightarrow> \<not> is_space c \<Longrightarrow> str_strip s \<noteq> []"
proof -
  assume c: "c \<in> set s" "\<not> is_space c"
  then have "dropWhile is_space s \<noteq> []" by (auto simp: dropWhile_eq_Nil_conv)
  with hd_dropWhile [OF this] hd_in_set [OF this] have "\<exists>x \<in> set (dropWhile is_space s). \<not> is_space x" by blast
  then show ?thesis by (simp add: str_strip_def strip_by_def rstrip_by_def dropWhile_eq_Nil_conv)
qed

lemma str_strip_digits: "list_all is_digit s \<Longrightarrow> str_strip s = s"
  by (rule str_strip_id) (auto simp: list_all_iff is_space_digit)

lemma py_int_str_nat: "py_int (str_nat n) = Inr (int n)"
  by (simp add: py_int_def str_strip_digits split_sign_digits str_nat_digits digit_groups_digits)

lemma py_int_str: "py_int (py_str_int i) = Inr i"
proof (cases "i < 0")
  case True
  have "list_all (\<lambda>c. \<not> is_space c) (CHR ''-'' # str_nat (nat (- i)))"
    using str_nat_digits [of "nat (- i)"] by (auto simp: list_all_iff is_space_digit) (simp add: is_space_def)
  then have "str_strip (py_str_int i) = CHR ''-'' # str_nat (nat (- i))"
    using True by (simp add: py_str_int_def str_strip_id)
  with True show ?thesis
    by (simp add: py_int_def split_sign_def str_nat_digits digit_groups_digits)
next
  case False
  then show ?thesis by (simp add: py_str_int_def py_int_str_nat)
qed

lemma py_int_signed:
  assumes "ip \<noteq> []" "list_all is_digit ip"
  shows "py_int ((if neg then ''-'' else []) @ ip) = Inr ((if neg then -1 else 1) * int (nat_val ip))"
proof -
  have "\<not> is_space (CHR ''-'')" by code_simp
  with assms(2) have s: "str_strip ((if neg then ''-'' else []) @ ip) = (if neg then ''-'' else []) @ ip"
    by (intro str_strip_id) (auto simp: list_all_iff is_space_digit)
  have "split_sign ((if neg then ''-'' else []) @ ip) = (if neg then -1 else 1, ip)"
    using assms by (cases ip) (auto simp: split_sign_def digit_signs)
  with s assms show ?thesis by (simp add: py_int_def digit_groups_digits)
qed

lemma py_str_int_chars: "c \<in> set (py_str_int i) \<Longrightarrow> is_digit c \<or> c = CHR ''-''"
  using str_nat_digits [of "nat i"] str_nat_digits [of "nat (- i)"]
  by (auto simp: py_str_int_def list_all_iff split: if_splits)

lemma py_str_int_nonempty [simp]: "py_str_int i \<noteq> []"
  by (simp add: py_str_int_def)

subsection \<open>Fixed-point renderings parse back\<close>

lemma lower_digits: "list_all is_digit s \<Longrightarrow> str_lower s = s"
  by (induction s) (auto simp: str_lower_def to_lower_def is_digit_def Let_def)

text \<open>A decimal \<open>ip.fp\<close> (or \<open>ip\<close> alone, for \<open>fp = []\<close>) and its optional minus sign.\<close>

definition decimal :: "string \<Rightarrow> string \<Rightarrow> string" where
  "decimal ip fp = ip @ (if fp = [] then [] else CHR ''.'' # fp)"

lemma decimal_no_exp:
  "list_all is_digit ip \<Longrightarrow> list_all is_digit fp \<Longrightarrow> c \<in> set (decimal ip fp) \<Longrightarrow>
     \<not> is_exp c \<and> \<not> is_space c \<and> (is_digit c \<or> c = CHR ''.'')"
  by (auto simp: decimal_def list_all_iff is_space_digit digit_signs split: if_splits)
    (auto simp: is_exp_def is_space_def)

lemma parse_mantissa_decimal:
  assumes "ip \<noteq> []" "list_all is_digit ip" "list_all is_digit fp"
  shows "parse_mantissa (decimal ip fp) = Some (dec_val ip fp)"
proof -
  have dot: "CHR ''.'' \<notin> set ip" using assms(2) digit_signs by (auto simp: list_all_iff)
  show ?thesis
  proof (cases "fp = []")
    case True
    with assms dot show ?thesis
      by (simp add: decimal_def parse_mantissa_def split_first_None digit_groups_digits)
  next
    case False
    with assms dot show ?thesis
      by (simp add: decimal_def parse_mantissa_def split_first_app digit_groups_digits opt_groups_def)
  qed
qed

lemma str_lower_special:
  assumes "s \<noteq> []" "list_all (\<lambda>c. is_digit c \<or> c = CHR ''.'') s"
  shows "str_lower s \<noteq> ''inf'' \<and> str_lower s \<noteq> ''infinity'' \<and> str_lower s \<noteq> ''nan''"
proof -
  obtain c cs where s: "s = c # cs" using assms(1) by (cases s) auto
  with assms(2) have "to_lower c = c"
    by (auto simp: to_lower_def is_digit_def Let_def)
  moreover have "c \<noteq> CHR ''i''" "c \<noteq> CHR ''n''"
    using assms(2) s by (auto simp: is_digit_def Let_def)
  ultimately show ?thesis using s by (simp add: str_lower_def)
qed

lemma py_float_decimal:
  assumes "ip \<noteq> []" "list_all is_digit ip" "list_all is_digit fp"
  shows "py_float ((if neg then ''-'' else []) @ decimal ip fp)
           = Inr (Fin ((if neg then -1 else 1) * dec_val ip fp))"
proof -
  let ?d = "decimal ip fp"
  have chars: "\<And>c. c \<in> set ?d \<Longrightarrow> \<not> is_exp c \<and> \<not> is_space c \<and> (is_digit c \<or> c = CHR ''.'')"
    using decimal_no_exp assms(2,3) by blast
  have ne: "?d \<noteq> []" using assms(1) by (simp add: decimal_def)
  have "\<not> is_space (CHR ''-'')" by (simp add: is_space_def)
  then have strip: "str_strip ((if neg then ''-'' else []) @ ?d) = (if neg then ''-'' else []) @ ?d"
    by (intro str_strip_id) (auto simp: list_all_iff chars)
  have hd: "is_digit (hd ?d)" using assms(1,2) by (cases ip) (auto simp: decimal_def)
  have sign: "split_sign ((if neg then ''-'' else []) @ ?d) = (if neg then -1 else 1, ?d)"
    using ne hd digit_signs by (cases ?d) (auto simp: split_sign_def)
  have tw: "takeWhile (\<lambda>c. \<not> is_exp c) ?d = ?d" "dropWhile (\<lambda>c. \<not> is_exp c) ?d = []"
    using chars by (auto simp: takeWhile_eq_all_conv dropWhile_eq_Nil_conv)
  have "list_all (\<lambda>c. is_digit c \<or> c = CHR ''.'') ?d" using chars by (auto simp: list_all_iff)
  note special = str_lower_special [OF ne this]
  show ?thesis
    using special parse_mantissa_decimal [OF assms]
    by (simp add: py_float_def strip sign tw parse_exponent_def)
qed

lemma dec_val_zeros: "dec_val ip (fp @ replicate k (CHR ''0'')) = dec_val ip fp"
proof -
  have "nat_val (ip @ fp @ replicate k (CHR ''0'')) = nat_val (ip @ fp) * 10 ^ k"
    using nat_val_append [of "ip @ fp" "replicate k (CHR ''0'')"] by simp
  then show ?thesis by (simp add: dec_val_def power_add)
qed

lemma split_trailing_zeros:
  "\<exists>fp' k. fp = fp' @ replicate k (CHR ''0'') \<and> (fp' = [] \<or> last fp' \<noteq> CHR ''0'')"
proof (induction fp rule: rev_induct)
  case (snoc c fp)
  then obtain fp' k where fp: "fp = fp' @ replicate k (CHR ''0'')" "fp' = [] \<or> last fp' \<noteq> CHR ''0''"
    by blast
  show ?case
  proof (cases "c = CHR ''0''")
    case True
    with fp show ?thesis by (intro exI [of _ fp'] exI [of _ "Suc k"]) (simp add: replicate_append_same)
  next
    case False
    then show ?thesis by (intro exI [of _ "fp @ [c]"] exI [of _ 0]) simp
  qed
qed simp

lemma trim_fixed_decimal:
  assumes "ip \<noteq> []" "list_all is_digit ip" "list_all is_digit fp" "fp \<noteq> []"
  shows "\<exists>fp'. list_all is_digit fp' \<and> dec_val ip fp' = dec_val ip fp
           \<and> trim_fixed (pre @ decimal ip fp) = pre @ decimal ip fp'"
proof -
  obtain fp' k where fp: "fp = fp' @ replicate k (CHR ''0'')" and l: "fp' = [] \<or> last fp' \<noteq> CHR ''0''"
    using split_trailing_zeros by blast
  have dig: "list_all is_digit fp'" using assms(3) fp by simp
  have cut: "rstrip_by (\<lambda>c. c = CHR ''0'') (pre @ decimal ip fp)
               = rstrip_by (\<lambda>c. c = CHR ''0'') ((pre @ ip @ CHR ''.'' # fp'))"
    using assms(4) fp rstrip_by_replicate [of "\<lambda>c. c = CHR ''0''" "CHR ''0''" "pre @ ip @ CHR ''.'' # fp'" k]
    by (auto simp: decimal_def)
  have keep: "\<dots> = pre @ ip @ CHR ''.'' # fp'"
    using l by (intro rstrip_by_last) (auto split: if_splits)
  have "rstrip_by (\<lambda>c. c = CHR ''.'') (pre @ ip @ CHR ''.'' # fp') = pre @ decimal ip fp'"
  proof (cases "fp' = []")
    case True
    have "rstrip_by (\<lambda>c. c = CHR ''.'') ((pre @ ip) @ [CHR ''.'']) = pre @ ip"
    proof -
      have "last ip \<noteq> CHR ''.''" using assms(1,2) digit_signs by (auto simp: list_all_iff)
      with assms(1) have "rstrip_by (\<lambda>c. c = CHR ''.'') (pre @ ip) = pre @ ip"
        by (intro rstrip_by_last) auto
      then show ?thesis by (subst rstrip_by_drop) auto
    qed
    with True show ?thesis by (simp add: decimal_def)
  next
    case False
    then have "last fp' \<noteq> CHR ''.''" using dig digit_signs by (auto simp: list_all_iff)
    with False show ?thesis by (simp add: rstrip_by_last decimal_def)
  qed
  then have "trim_fixed (pre @ decimal ip fp) = pre @ decimal ip fp'"
    by (simp add: trim_fixed_def cut keep)
  moreover have "dec_val ip fp' = dec_val ip fp" by (simp add: fp dec_val_zeros)
  ultimately show ?thesis using dig by blast
qed

lemma pad_zeros_digits: "list_all is_digit s \<Longrightarrow> list_all is_digit (pad_zeros d s)"
  by (auto simp: pad_zeros_def list_all_iff is_digit_def)

lemma length_pad_zeros: "length s \<le> d \<Longrightarrow> length (pad_zeros d s) = d"
  by (simp add: pad_zeros_def)

text \<open>The value a fixed-point rendering stands for, and the decimal it consists of.\<close>

definition fixed_val :: "nat \<Rightarrow> real \<Rightarrow> real" where
  "fixed_val d x = (if x < 0 then -1 else 1) * of_int (py_round (\<bar>x\<bar> * 10 ^ d)) / 10 ^ d"

lemma fmt_fixed_decimal:
  assumes "0 < d"
  obtains ip fp where "ip \<noteq> []" "list_all is_digit ip" "list_all is_digit fp" "fp \<noteq> []"
    "fmt_fixed d x = (if x < 0 then ''-'' else []) @ decimal ip fp"
    "(if x < 0 then -1 else 1) * dec_val ip fp = fixed_val d x"
proof -
  define n where "n = nat (py_round (\<bar>x\<bar> * 10 ^ d))"
  define ip where "ip = str_nat (n div 10 ^ d)"
  define fp where "fp = pad_zeros d (str_nat (n mod 10 ^ d))"
  have len: "length fp = d"
    unfolding fp_def by (rule length_pad_zeros) (rule length_str_nat, use assms in auto)
  have "dec_val ip fp = real n / 10 ^ d"
  proof -
    have "nat_val (ip @ fp) = n" unfolding nat_val_append len by (simp add: ip_def fp_def div_mult_mod_eq)
    then show ?thesis by (simp add: dec_val_def len)
  qed
  moreover have "real n = of_int (py_round (\<bar>x\<bar> * 10 ^ d))"
    using py_round_nonneg [of "\<bar>x\<bar> * 10 ^ d"] by (simp add: n_def)
  ultimately have "(if x < 0 then -1 else 1) * dec_val ip fp = fixed_val d x"
    by (simp add: fixed_val_def)
  moreover have "fmt_fixed d x = (if x < 0 then ''-'' else []) @ decimal ip fp"
    using assms len by (auto simp: fmt_fixed_def decimal_def Let_def n_def ip_def fp_def)
  moreover have "fp \<noteq> []" using len assms by auto
  ultimately show ?thesis
    using that [of ip fp] by (simp add: ip_def fp_def str_nat_digits pad_zeros_digits)
qed

lemma py_float_fixed: "0 < d \<Longrightarrow> py_float (fmt_fixed d x) = Inr (Fin (fixed_val d x))"
proof -
  assume "0 < d"
  then obtain ip fp where *: "ip \<noteq> []" "list_all is_digit ip" "list_all is_digit fp"
      "fmt_fixed d x = (if x < 0 then ''-'' else []) @ decimal ip fp"
      "(if x < 0 then -1 else 1) * dec_val ip fp = fixed_val d x"
    by (rule fmt_fixed_decimal)
  show ?thesis using py_float_decimal [OF *(1-3), of "x < 0"] *(4,5) by simp
qed

lemma trimmed_decimal:
  assumes "0 < d"
  obtains ip fp where "ip \<noteq> []" "list_all is_digit ip" "list_all is_digit fp"
    "trim_fixed (fmt_fixed d x) = (if x < 0 then ''-'' else []) @ decimal ip fp"
    "(if x < 0 then -1 else 1) * dec_val ip fp = fixed_val d x"
proof -
  obtain ip fp where *: "ip \<noteq> []" "list_all is_digit ip" "list_all is_digit fp" "fp \<noteq> []"
      "fmt_fixed d x = (if x < 0 then ''-'' else []) @ decimal ip fp"
      "(if x < 0 then -1 else 1) * dec_val ip fp = fixed_val d x"
    using assms by (rule fmt_fixed_decimal)
  from trim_fixed_decimal [OF *(1-4), of "if x < 0 then ''-'' else []"]
  obtain fp' where "list_all is_digit fp'" "dec_val ip fp' = dec_val ip fp"
    "trim_fixed (fmt_fixed d x) = (if x < 0 then ''-'' else []) @ decimal ip fp'"
    using *(5) by auto
  with that *(1,2,6) show thesis by metis
qed

lemma py_float_trimmed: "0 < d \<Longrightarrow> py_float (trim_fixed (fmt_fixed d x)) = Inr (Fin (fixed_val d x))"
proof -
  assume "0 < d"
  then obtain ip fp where *: "ip \<noteq> []" "list_all is_digit ip" "list_all is_digit fp"
      "trim_fixed (fmt_fixed d x) = (if x < 0 then ''-'' else []) @ decimal ip fp"
      "(if x < 0 then -1 else 1) * dec_val ip fp = fixed_val d x"
    by (rule trimmed_decimal)
  show ?thesis using py_float_decimal [OF *(1-3), of "x < 0"] *(4,5) by simp
qed

lemma fixed_val_error: "\<bar>fixed_val d x - x\<bar> \<le> 1 / (2 * 10 ^ d)"
proof -
  let ?r = "of_int (py_round (\<bar>x\<bar> * 10 ^ d)) :: real"
  have "\<bar>?r - \<bar>x\<bar> * 10 ^ d\<bar> \<le> 1 / 2" by (rule py_round_error)
  moreover have "\<bar>fixed_val d x - x\<bar> = \<bar>?r - \<bar>x\<bar> * 10 ^ d\<bar> / 10 ^ d"
  proof -
    have "fixed_val d x - x = (if x < 0 then -1 else 1) * ((?r - \<bar>x\<bar> * 10 ^ d) / 10 ^ d)"
      by (auto simp: fixed_val_def field_simps)
    then show ?thesis by (simp add: abs_mult)
  qed
  ultimately show ?thesis by (simp add: field_simps)
qed

end
