(* ===== verification/TunerParams.thy ===== *)
theory TunerParams
  imports PyText
begin

text \<open>
  The tunable parameters of \<^verbatim>\<open>scratch/tuning.py\<close>: the specification table
  (\<open>ALL_PARAMETER_SPECS\<close>), normalisation of a parameter vector, the guided mutation
  (\<open>generate_new_parameters\<close>) with its adaptive direction probability, and the parameter file
  (\<open>write_parameters\<close>, \<open>load_current_parameters\<close>).

  A parameter value is a Python number: \<open>PInt\<close> or \<open>PFlt\<close>. The functions take the table as an
  argument \<open>specs\<close>, which the module has as its global \<^verbatim>\<open>PARAMETER_SPECS\<close>. Numpy's
  \<^verbatim>\<open>arange\<close> and the text \<^verbatim>\<open>str\<close> gives for a float are parameters (\<open>arange\<close>, \<open>rep\<close>).

  The mutation draws random numbers and reads the two flow ratios the monitor thread writes.
  Both are inputs: \<open>gen_src\<close> holds the sequence of \<^verbatim>\<open>random.random()\<close> results, the index
  samples, and what each call of \<open>get_new_solution_direction\<close> sees in the shared dictionaries
  (\<open>ratio_view\<close>: one field per read, since the monitor thread may write between two reads).

  The invariant is \<open>solution_ok\<close>: thirteen values of the declared types inside their bounds, with
  \<open>kmin \<le> kmax\<close>.
\<close>

section \<open>Numbers and the specification table\<close>

datatype pynum = PInt int | PFlt pyfloat

fun num_flt :: "pynum \<Rightarrow> pyfloat" where
  "num_flt (PInt i) = Fin (of_int i)"
| "num_flt (PFlt x) = x"

definition num_lt :: "pynum \<Rightarrow> pynum \<Rightarrow> bool" where
  "num_lt a b = flt_lt (num_flt a) (num_flt b)"

definition num_le :: "pynum \<Rightarrow> pynum \<Rightarrow> bool" where
  "num_le a b = flt_le (num_flt a) (num_flt b)"

abbreviation flt :: "real \<Rightarrow> pynum" where "flt x \<equiv> PFlt (Fin x)"

datatype ptype = TInt | TFloat

record param_spec =
  ps_group :: string
  ps_name :: string
  ps_values :: "pynum list"
  ps_default :: pynum
  ps_type :: ptype
  aggressive_direction :: int
  ps_min :: pynum
  ps_max :: pynum
  ps_step :: pynum

definition integer_candidates :: "int \<Rightarrow> int \<Rightarrow> pynum list" where
  "integer_candidates start stop = map PInt [start..stop - 1]"

definition decimal_candidates :: "(real \<Rightarrow> real \<Rightarrow> real \<Rightarrow> real list) \<Rightarrow> real \<Rightarrow> real \<Rightarrow> real \<Rightarrow> pynum list" where
  "decimal_candidates arange start stop step =
    map (\<lambda>value. flt (of_int (py_round (value * 10 ^ 6)) / 10 ^ 6)) (arange start stop step)"

definition ALL_PARAMETER_SPECS :: "(real \<Rightarrow> real \<Rightarrow> real \<Rightarrow> real list) \<Rightarrow> param_spec list" where
  "ALL_PARAMETER_SPECS arange =
   [\<lparr>ps_group = ''rate_increase'', ps_name = ''time_reset'', ps_values = integer_candidates 50 600,
      ps_default = PInt 300, ps_type = TInt, aggressive_direction = -1,
      ps_min = PInt 50, ps_max = PInt 600, ps_step = PInt 50\<rparr>,
    \<lparr>ps_group = ''rate_increase'', ps_name = ''ai_rate'', ps_values = integer_candidates 5 100,
      ps_default = PInt 5, ps_type = TInt, aggressive_direction = 1,
      ps_min = PInt 5, ps_max = PInt 100, ps_step = PInt 5\<rparr>,
    \<lparr>ps_group = ''rate_increase'', ps_name = ''hai_rate'', ps_values = integer_candidates 30 600,
      ps_default = PInt 50, ps_type = TInt, aggressive_direction = 1,
      ps_min = PInt 30, ps_max = PInt 600, ps_step = PInt 50\<rparr>,
    \<lparr>ps_group = ''rate_decrease'', ps_name = ''rate_to_set_on_first_cnp'',
      ps_values = decimal_candidates arange (3/10) (8/10) (1/10),
      ps_default = flt (1/2), ps_type = TFloat, aggressive_direction = 1,
      ps_min = flt (3/10), ps_max = flt (8/10), ps_step = flt (1/10)\<rparr>,
    \<lparr>ps_group = ''rate_decrease'', ps_name = ''rpg_min_dec_fac'',
      ps_values = decimal_candidates arange (3/10) (8/10) (1/10),
      ps_default = flt (1/2), ps_type = TFloat, aggressive_direction = -1,
      ps_min = flt (3/10), ps_max = flt (8/10), ps_step = flt (1/10)\<rparr>,
    \<lparr>ps_group = ''rate_decrease'', ps_name = ''rpg_min_rate'', ps_values = integer_candidates 1 5000,
      ps_default = PInt 1, ps_type = TInt, aggressive_direction = 1,
      ps_min = PInt 1, ps_max = PInt 5000, ps_step = PInt 300\<rparr>,
    \<lparr>ps_group = ''rate_decrease'', ps_name = ''rpg_gd'', ps_values = integer_candidates 11 13,
      ps_default = PInt 11, ps_type = TInt, aggressive_direction = 1,
      ps_min = PInt 11, ps_max = PInt 13, ps_step = PInt 1\<rparr>,
    \<lparr>ps_group = ''rate_decrease'', ps_name = ''min_time_between_cnps'', ps_values = integer_candidates 4 128,
      ps_default = PInt 4, ps_type = TInt, aggressive_direction = 1,
      ps_min = PInt 4, ps_max = PInt 128, ps_step = PInt 8\<rparr>,
    \<lparr>ps_group = ''alpha_update'', ps_name = ''dce_tcp_g'', ps_values = integer_candidates 960 1020,
      ps_default = PInt 1019, ps_type = TInt, aggressive_direction = -1,
      ps_min = PInt 960, ps_max = PInt 1020, ps_step = PInt 5\<rparr>,
    \<lparr>ps_group = ''alpha_update'', ps_name = ''initial_alpha_value'', ps_values = integer_candidates 0 1023,
      ps_default = PInt 1023, ps_type = TInt, aggressive_direction = -1,
      ps_min = PInt 1, ps_max = PInt 1023, ps_step = PInt 16\<rparr>,
    \<lparr>ps_group = ''ecn_threshold'', ps_name = ''kmin'', ps_values = integer_candidates 40 1600,
      ps_default = PInt 400, ps_type = TInt, aggressive_direction = 1,
      ps_min = PInt 40, ps_max = PInt 1600, ps_step = PInt 100\<rparr>,
    \<lparr>ps_group = ''ecn_threshold'', ps_name = ''kmax'', ps_values = integer_candidates 480 6400,
      ps_default = PInt 1600, ps_type = TInt, aggressive_direction = 1,
      ps_min = PInt 480, ps_max = PInt 6400, ps_step = PInt 400\<rparr>,
    \<lparr>ps_group = ''ecn_threshold'', ps_name = ''pmax'',
      ps_values = decimal_candidates arange (1/10) (4/10) (1/100),
      ps_default = flt (2/10), ps_type = TFloat, aggressive_direction = -1,
      ps_min = flt (1/10), ps_max = flt (4/10), ps_step = flt (1/100)\<rparr>]"

definition PARAMETER_SPEC_BY_NAME :: "param_spec list \<Rightarrow> string \<Rightarrow> param_spec option" where
  "PARAMETER_SPEC_BY_NAME specs = dict_get (fold (\<lambda>s. dict_set (ps_name s) s) specs [])"

definition PARAMETER_INDEX_BY_NAME :: "param_spec list \<Rightarrow> string \<Rightarrow> nat option" where
  "PARAMETER_INDEX_BY_NAME specs =
    dict_get (fold (\<lambda>(i, s). dict_set (ps_name s) i) (enumerate 0 specs) [])"

section \<open>Normalisation\<close>

definition index_of :: "param_spec list \<Rightarrow> string \<Rightarrow> nat res" where
  "index_of specs name = (case PARAMETER_INDEX_BY_NAME specs name of None \<Rightarrow> Inl KeyError | Some i \<Rightarrow> Inr i)"

definition list_get :: "'a list \<Rightarrow> nat \<Rightarrow> 'a res" where
  "list_get xs i = (if i < length xs then Inr (xs ! i) else Inl IndexError)"

definition normalize_parameter_values :: "param_spec list \<Rightarrow> pynum list \<Rightarrow> pynum list res" where
  "normalize_parameter_values specs parameter_values =
    res_bind (index_of specs ''kmin'') (\<lambda>kmin_index.
    res_bind (index_of specs ''kmax'') (\<lambda>kmax_index.
    res_bind (list_get parameter_values kmin_index) (\<lambda>kmin.
    res_bind (list_get parameter_values kmax_index) (\<lambda>kmax.
      Inr (if num_lt kmax kmin
           then parameter_values[kmin_index := kmax, kmax_index := kmin]
           else parameter_values)))))"

definition default_parameter_values :: "param_spec list \<Rightarrow> pynum list res" where
  "default_parameter_values specs = normalize_parameter_values specs (map ps_default specs)"

section \<open>Random draws and shared reads\<close>

datatype pmode = Default | Aggressive | Conservative

record ratio_view =
  chk_large :: real
  chk_small :: real
  cur_large :: real
  cur_small :: real
  prv_large :: real
  prv_small :: real

record gen_src =
  floats :: "nat \<Rightarrow> real"
  fpos :: nat
  samples :: "nat \<Rightarrow> nat \<Rightarrow> nat \<Rightarrow> nat list"
  spos :: nat
  views :: "nat \<Rightarrow> ratio_view"
  vpos :: nat

definition random_random :: "gen_src \<Rightarrow> real \<times> gen_src" where
  "random_random g = (floats g (fpos g), g\<lparr>fpos := Suc (fpos g)\<rparr>)"

definition random_uniform :: "real \<Rightarrow> real \<Rightarrow> gen_src \<Rightarrow> real \<times> gen_src" where
  "random_uniform a b g = (let (u, g') = random_random g in (a + (b - a) * u, g'))"

definition random_sample :: "nat \<Rightarrow> nat \<Rightarrow> gen_src \<Rightarrow> nat list \<times> gen_src" where
  "random_sample n k g = (samples g (spos g) n k, g\<lparr>spos := Suc (spos g)\<rparr>)"

definition read_ratios :: "gen_src \<Rightarrow> ratio_view \<times> gen_src" where
  "read_ratios g = (views g (vpos g), g\<lparr>vpos := Suc (vpos g)\<rparr>)"

section \<open>Adaptive direction probability\<close>

record dir_cfg =
  cap_adaptive :: bool
  prob_cap_max :: real
  prob_cap_min :: real
  delta_eps :: real
  ewma_alpha :: real
  step_scale :: real
  mutate_count :: int

definition get_direction_prob_cap :: "dir_cfg \<Rightarrow> real \<Rightarrow> real" where
  "get_direction_prob_cap cfg bad_rate_ewma =
    (if \<not> cap_adaptive cfg then prob_cap_max cfg
     else prob_cap_min cfg + (prob_cap_max cfg - prob_cap_min cfg) * (1 - bad_rate_ewma))"

definition update_bad_rate_ewma :: "dir_cfg \<Rightarrow> real \<Rightarrow> real \<Rightarrow> real" where
  "update_bad_rate_ewma cfg delta bad_rate_ewma =
    (let bad_signal = (if delta < - delta_eps cfg then 1 else 0)
     in ewma_alpha cfg * bad_signal + (1 - ewma_alpha cfg) * bad_rate_ewma)"

definition get_new_solution_direction ::
  "dir_cfg \<Rightarrow> pmode \<Rightarrow> real \<Rightarrow> gen_src \<Rightarrow> (int \<times> gen_src) res" where
  "get_new_solution_direction cfg mode bad_rate_ewma g =
    (let (v, g1) = read_ratios g;
         (large, small) = (if chk_large v \<noteq> 0 \<and> chk_small v \<noteq> 0
                           then (cur_large v, cur_small v) else (prv_large v, prv_small v))
     in if large + small = 0 then Inl ZeroDivisionError
        else (let large_flow_ratio = large / (large + small);
                  small_flow_ratio = small / (large + small);
                  (random_number, g2) = random_random g1;
                  cap = get_direction_prob_cap cfg bad_rate_ewma
              in if mode = Aggressive
                 then Inr (if random_number \<le> min large_flow_ratio cap then 1 else -1, g2)
                 else Inr (if random_number \<le> min small_flow_ratio cap then 1 else -1, g2)))"

section \<open>Mutation\<close>

fun py_round_num :: "pyfloat \<Rightarrow> pynum res" where
  "py_round_num (Fin x) = Inr (PInt (py_round x))"
| "py_round_num NaN = Inl ValueError"
| "py_round_num _ = Inl OverflowError"

definition clamp_value :: "param_spec \<Rightarrow> pynum \<Rightarrow> pynum" where
  "clamp_value spec v =
    (let v1 = (if num_lt (ps_max spec) v then ps_max spec else v)
     in if num_lt v1 (ps_min spec) then ps_min spec else v1)"

definition mutate_value ::
  "dir_cfg \<Rightarrow> pmode \<Rightarrow> real \<Rightarrow> param_spec \<Rightarrow> pynum res \<Rightarrow> gen_src \<Rightarrow> (pynum \<times> gen_src) res" where
  "mutate_value cfg mode bad_rate_ewma spec current g =
    res_bind (get_new_solution_direction cfg mode bad_rate_ewma g) (\<lambda>(direction, g1).
    res_bind current (\<lambda>cur.
      (let mode_sign = (if mode = Aggressive then aggressive_direction spec else - aggressive_direction spec);
           (u, g2) = random_uniform (1/2) 1 g1;
           change = of_int (mode_sign * direction) * flt_val (num_flt (ps_step spec)) * step_scale cfg * u;
           value = flt_add (num_flt cur) (Fin change)
       in res_bind (if ps_type spec = TInt then py_round_num value
                    else Inr (if flt_lt (Fin 1) value then PInt 1 else PFlt value))
            (\<lambda>v. Inr (clamp_value spec v, g2)))))"

fun mutate_all ::
  "dir_cfg \<Rightarrow> pmode \<Rightarrow> real \<Rightarrow> nat set \<Rightarrow> pynum list \<Rightarrow> (nat \<times> param_spec) list \<Rightarrow> gen_src
     \<Rightarrow> (pynum list \<times> gen_src) res" where
  "mutate_all cfg mode ewma idxs cur [] g = Inr ([], g)"
| "mutate_all cfg mode ewma idxs cur ((i, spec) # rest) g =
    res_bind (if i \<in> idxs then mutate_value cfg mode ewma spec (list_get cur i) g
              else res_bind (list_get cur i) (\<lambda>c. Inr (c, g))) (\<lambda>(v, g1).
    res_bind (mutate_all cfg mode ewma idxs cur rest g1) (\<lambda>(vs, g2). Inr (v # vs, g2)))"

definition generate_new_parameters ::
  "param_spec list \<Rightarrow> dir_cfg \<Rightarrow> real \<Rightarrow> pmode \<Rightarrow> pynum list \<Rightarrow> gen_src \<Rightarrow> (pynum list \<times> gen_src) res" where
  "generate_new_parameters specs cfg ewma mode current_solution g =
    (if mode = Default then res_bind (default_parameter_values specs) (\<lambda>s. Inr (s, g))
     else (let count = min (mutate_count cfg) (int (length specs))
           in if count = 0
              then res_bind (normalize_parameter_values specs current_solution) (\<lambda>s. Inr (s, g))
              else if count < 0 then Inl ValueError
              else (let (idxs, g1) = random_sample (length specs) (nat count) g
                    in res_bind (mutate_all cfg mode ewma (set idxs) current_solution (enumerate 0 specs) g1)
                         (\<lambda>(new_solution, g2).
                           res_bind (normalize_parameter_values specs new_solution) (\<lambda>s. Inr (s, g2))))))"

section \<open>The parameter file\<close>

fun py_str_num :: "(pyfloat \<Rightarrow> string) \<Rightarrow> pynum \<Rightarrow> string" where
  "py_str_num rep (PInt i) = py_str_int i"
| "py_str_num rep (PFlt x) = rep x"

definition write_parameters :: "(pyfloat \<Rightarrow> string) \<Rightarrow> param_spec list \<Rightarrow> pynum list \<Rightarrow> string res" where
  "write_parameters rep specs parameter_values =
    res_bind (normalize_parameter_values specs parameter_values) (\<lambda>vs.
      Inr (concat (map (\<lambda>(spec, value). (ps_name spec @ ''='' @ py_str_num rep value) @ [nl]) (zip specs vs))))"

definition load_line :: "param_spec list \<Rightarrow> string \<Rightarrow> (string, pynum) dict \<Rightarrow> (string, pynum) dict res" where
  "load_line specs line m =
    (if str_strip line = [] then Inr m
     else (case split_on (CHR ''='') (str_strip line) of
       [key, value] \<Rightarrow>
         (case PARAMETER_SPEC_BY_NAME specs key of
            None \<Rightarrow> Inr m
          | Some spec \<Rightarrow>
              if ps_type spec = TFloat
              then res_bind (py_float (str_strip value)) (\<lambda>x. Inr (dict_set key (PFlt x) m))
              else res_bind (py_int (str_strip value)) (\<lambda>x. Inr (dict_set key (PInt x) m)))
     | _ \<Rightarrow> Inl ValueError))"

definition load_current_parameters :: "param_spec list \<Rightarrow> string option \<Rightarrow> pynum list res" where
  "load_current_parameters specs file =
    (case file of
       None \<Rightarrow> default_parameter_values specs
     | Some content \<Rightarrow>
         if content = [] then default_parameter_values specs
         else res_bind (res_fold (load_line specs) (file_lines content) []) (\<lambda>parameter_map.
           normalize_parameter_values specs
             (map (\<lambda>spec. dict_get_or parameter_map (ps_name spec) (ps_default spec)) specs)))"

section \<open>The invariant\<close>

fun has_type :: "ptype \<Rightarrow> pynum \<Rightarrow> bool" where
  "has_type TInt (PInt i) = True"
| "has_type TFloat (PFlt (Fin x)) = True"
| "has_type _ _ = False"

definition value_ok :: "param_spec \<Rightarrow> pynum \<Rightarrow> bool" where
  "value_ok spec v \<longleftrightarrow> has_type (ps_type spec) v \<and> num_le (ps_min spec) v \<and> num_le v (ps_max spec)"

definition spec_wf :: "param_spec \<Rightarrow> bool" where
  "spec_wf spec \<longleftrightarrow>
    has_type (ps_type spec) (ps_min spec) \<and> has_type (ps_type spec) (ps_max spec)
    \<and> has_type (ps_type spec) (ps_step spec)
    \<and> num_le (ps_min spec) (ps_max spec) \<and> value_ok spec (ps_default spec)
    \<and> 0 < flt_val (num_flt (ps_step spec))
    \<and> \<bar>aggressive_direction spec\<bar> = 1
    \<and> (ps_type spec = TFloat \<longrightarrow> num_lt (ps_max spec) (PInt 1))
    \<and> ps_name spec \<noteq> [] \<and> list_all (\<lambda>c. \<not> is_space c \<and> c \<noteq> CHR ''='') (ps_name spec)"

definition values_ok :: "param_spec list \<Rightarrow> pynum list \<Rightarrow> bool" where
  "values_ok specs vs \<longleftrightarrow> list_all2 value_ok specs vs"

definition ecn_ordered :: "param_spec list \<Rightarrow> pynum list \<Rightarrow> bool" where
  "ecn_ordered specs vs =
    (case (index_of specs ''kmin'', index_of specs ''kmax'') of
       (Inr i, Inr j) \<Rightarrow> i < length vs \<and> j < length vs \<and> num_le (vs ! i) (vs ! j)
     | _ \<Rightarrow> False)"

definition solution_ok :: "param_spec list \<Rightarrow> pynum list \<Rightarrow> bool" where
  "solution_ok specs vs \<longleftrightarrow> values_ok specs vs \<and> ecn_ordered specs vs"

text \<open>The total a direction draw divides by, and a source all of whose views have one.\<close>

definition view_total :: "ratio_view \<Rightarrow> real" where
  "view_total v = (if chk_large v \<noteq> 0 \<and> chk_small v \<noteq> 0 then cur_large v + cur_small v
                   else prv_large v + prv_small v)"

definition floats_ok :: "gen_src \<Rightarrow> bool" where
  "floats_ok g \<longleftrightarrow> (\<forall>n. 0 \<le> floats g n \<and> floats g n < 1)"

definition samples_ok :: "gen_src \<Rightarrow> bool" where
  "samples_ok g \<longleftrightarrow> (\<forall>n m k. k \<le> m \<longrightarrow>
     distinct (samples g n m k) \<and> length (samples g n m k) = k \<and> set (samples g n m k) \<subseteq> {..<m})"

definition views_ok :: "gen_src \<Rightarrow> bool" where
  "views_ok g \<longleftrightarrow> (\<forall>n. view_total (views g n) \<noteq> 0)"

definition cfg_ok :: "dir_cfg \<Rightarrow> bool" where
  "cfg_ok cfg \<longleftrightarrow> 0 < step_scale cfg \<and> 0 < mutate_count cfg \<and> 0 < delta_eps cfg
     \<and> 0 < ewma_alpha cfg \<and> ewma_alpha cfg < 1
     \<and> prob_cap_min cfg \<le> prob_cap_max cfg \<and> 0 \<le> prob_cap_min cfg \<and> prob_cap_max cfg \<le> 1"

section \<open>Lemmas on the table and on single values\<close>

lemma num_le_refl [simp]: "has_type t v \<Longrightarrow> num_le v v"
  by (cases "(t, v)" rule: has_type.cases) (auto simp: num_le_def)

lemma has_type_Fin: "has_type t v \<Longrightarrow> num_flt v = Fin (flt_val (num_flt v))"
  by (cases "(t, v)" rule: has_type.cases) auto

lemma num_cmp_typed:
  assumes "has_type t v" "has_type u w"
  shows "num_le v w \<longleftrightarrow> flt_val (num_flt v) \<le> flt_val (num_flt w)"
    and "num_lt v w \<longleftrightarrow> flt_val (num_flt v) < flt_val (num_flt w)"
  using assms has_type_Fin [of t v] has_type_Fin [of u w]
  by (cases "num_flt v"; cases "num_flt w"; auto simp: num_le_def num_lt_def)+

lemma clamp_value_ok:
  assumes "spec_wf spec" "has_type (ps_type spec) v \<or> v = PInt 1 \<and> ps_type spec = TFloat"
  shows "value_ok spec (clamp_value spec v)"
proof (cases "has_type (ps_type spec) v")
  case True
  with assms(1) show ?thesis
    by (auto simp: clamp_value_def value_ok_def spec_wf_def Let_def num_cmp_typed)
next
  case False
  with assms have "num_lt (ps_max spec) v" by (auto simp: spec_wf_def)
  with assms(1) show ?thesis
    by (auto simp: clamp_value_def value_ok_def spec_wf_def Let_def num_cmp_typed)
qed

lemma dict_get_fold_set:
  assumes "distinct (map f xs)" "x \<in> set xs"
  shows "dict_get (fold (\<lambda>x. dict_set (f x) (h x)) xs d) (f x) = Some (h x)"
  using assms
proof (induction xs rule: rev_induct)
  case (snoc y xs)
  show ?case
  proof (cases "x = y")
    case False
    with snoc.prems have "x \<in> set xs" "distinct (map f xs)" "f y \<notin> f ` set xs" by auto
    moreover from this have "f x \<noteq> f y" by (metis image_eqI)
    ultimately show ?thesis using snoc.IH by (simp add: dict_simps)
  qed (simp add: dict_simps)
qed simp

lemma spec_by_name:
  assumes "distinct (map ps_name specs)" "s \<in> set specs"
  shows "PARAMETER_SPEC_BY_NAME specs (ps_name s) = Some s"
  unfolding PARAMETER_SPEC_BY_NAME_def using dict_get_fold_set [OF assms, where h = "\<lambda>s. s"] by simp

lemma index_by_name:
  assumes "distinct (map ps_name specs)" "i < length specs"
  shows "index_of specs (ps_name (specs ! i)) = Inr i"
proof -
  have "map (\<lambda>x. ps_name (snd x)) (enumerate 0 specs) = map ps_name (map snd (enumerate 0 specs))"
    by (simp only: map_map comp_def)
  then have "distinct (map (\<lambda>x. ps_name (snd x)) (enumerate 0 specs))"
    using assms(1) by (simp only: map_snd_enumerate)
  moreover have "(i, specs ! i) \<in> set (enumerate 0 specs)"
    using assms(2) by (simp add: in_set_enumerate_eq)
  ultimately have "dict_get (fold (\<lambda>x. dict_set (ps_name (snd x)) (fst x)) (enumerate 0 specs) []) (ps_name (specs ! i)) = Some i"
    using dict_get_fold_set [of "\<lambda>x. ps_name (snd x)" "enumerate 0 specs" "(i, specs ! i)" fst] by simp
  then show ?thesis
    by (simp add: index_of_def PARAMETER_INDEX_BY_NAME_def case_prod_unfold)
qed

section \<open>The contract of a parameter table\<close>

text \<open>
  What the tuner relies on in its table: well-formed rows with distinct names, among them the
  rows of \<open>kmin\<close> and \<open>kmax\<close> whose bounds are ordered the way the swap of
  \<open>normalize_parameter_values\<close> needs. The lemmas below are proved once for any such table.
\<close>

locale ecn_table =
  fixes specs :: "param_spec list" and i j :: nat
  assumes names: "distinct (map ps_name specs)"
    and wf: "s \<in> set specs \<Longrightarrow> spec_wf s"
    and kmin: "i < length specs" "ps_name (specs ! i) = ''kmin''"
    and kmax: "j < length specs" "ps_name (specs ! j) = ''kmax''"
    and same_type: "ps_type (specs ! i) = ps_type (specs ! j)"
    and mins: "num_le (ps_min (specs ! i)) (ps_min (specs ! j))"
    and maxs: "num_le (ps_max (specs ! i)) (ps_max (specs ! j))"
begin

lemma indices: "index_of specs ''kmin'' = Inr i" "index_of specs ''kmax'' = Inr j" "i \<noteq> j"
  using index_by_name [OF names kmin(1)] index_by_name [OF names kmax(1)] kmin(2) kmax(2) by auto

lemma ecn_ordered_iff:
  "length vs = length specs \<Longrightarrow> ecn_ordered specs vs \<longleftrightarrow> num_le (vs ! i) (vs ! j)"
  using kmin(1) kmax(1) by (simp add: ecn_ordered_def indices)

lemma normalize_eq:
  assumes "length vs = length specs"
  shows "normalize_parameter_values specs vs
    = Inr (if num_lt (vs ! j) (vs ! i) then vs[i := vs ! j, j := vs ! i] else vs)"
  using assms kmin(1) kmax(1) by (simp add: normalize_parameter_values_def indices list_get_def)

lemma wf_nth: "k < length specs \<Longrightarrow> spec_wf (specs ! k)"
  by (simp add: wf)

lemma swap_ok:
  assumes "values_ok specs vs" "num_lt (vs ! j) (vs ! i)"
  shows "value_ok (specs ! i) (vs ! j)" "value_ok (specs ! j) (vs ! i)"
proof -
  have v: "value_ok (specs ! i) (vs ! i)" "value_ok (specs ! j) (vs ! j)"
    using assms(1) kmin(1) kmax(1) by (auto simp: values_ok_def list_all2_conv_all_nth)
  note w = wf_nth [OF kmin(1)] wf_nth [OF kmax(1)]
  show "value_ok (specs ! i) (vs ! j)" "value_ok (specs ! j) (vs ! i)"
    using v w mins maxs same_type assms(2)
    by (auto simp: value_ok_def spec_wf_def num_cmp_typed)
qed

lemma normalize_ok:
  assumes "values_ok specs vs"
  shows "\<exists>ws. normalize_parameter_values specs vs = Inr ws \<and> solution_ok specs ws"
proof -
  have len: "length vs = length specs" using assms by (simp add: values_ok_def list_all2_lengthD)
  have t: "has_type (ps_type (specs ! i)) (vs ! i)" "has_type (ps_type (specs ! j)) (vs ! j)"
    using assms kmin(1) kmax(1) by (auto simp: values_ok_def list_all2_conv_all_nth value_ok_def)
  show ?thesis
  proof (cases "num_lt (vs ! j) (vs ! i)")
    case True
    let ?ws = "vs[i := vs ! j, j := vs ! i]"
    have "values_ok specs ?ws"
      using assms len swap_ok [OF assms True] kmin(1) kmax(1) unfolding values_ok_def list_all2_conv_all_nth
      by (auto simp: nth_list_update)
    moreover have "num_le (?ws ! i) (?ws ! j)"
      using True t len kmin(1) kmax(1) indices(3) by (auto simp: nth_list_update num_cmp_typed)
    ultimately show ?thesis
      using True len by (simp add: normalize_eq solution_ok_def ecn_ordered_iff)
  next
    case False
    with assms t len show ?thesis
      by (auto simp: normalize_eq solution_ok_def ecn_ordered_iff num_cmp_typed)
  qed
qed

lemma solution_ok_length: "solution_ok specs vs \<Longrightarrow> length vs = length specs"
  by (auto simp: solution_ok_def values_ok_def dest: list_all2_lengthD)

lemma solution_ok_nth: "solution_ok specs vs \<Longrightarrow> k < length specs \<Longrightarrow> value_ok (specs ! k) (vs ! k)"
  by (auto simp: solution_ok_def values_ok_def list_all2_conv_all_nth)

lemma normalize_id:
  assumes "solution_ok specs vs"
  shows "normalize_parameter_values specs vs = Inr vs"
proof -
  have "num_le (vs ! i) (vs ! j)"
    using assms solution_ok_length [OF assms] by (simp add: solution_ok_def ecn_ordered_iff)
  moreover have "has_type (ps_type (specs ! i)) (vs ! i)" "has_type (ps_type (specs ! j)) (vs ! j)"
    using solution_ok_nth [OF assms] kmin(1) kmax(1) by (auto simp: value_ok_def)
  ultimately show ?thesis
    using solution_ok_length [OF assms] by (simp add: normalize_eq num_cmp_typed)
qed

lemma default_ok: "\<exists>vs. default_parameter_values specs = Inr vs \<and> solution_ok specs vs"
proof -
  have "values_ok specs (map ps_default specs)"
    using wf by (auto simp: values_ok_def list_all2_conv_all_nth spec_wf_def)
  then show ?thesis unfolding default_parameter_values_def by (rule normalize_ok)
qed

end

subsection \<open>Mutation\<close>

lemma direction_Inr:
  assumes "get_new_solution_direction cfg mode ewma g = Inr (d, g')"
  shows "\<bar>d\<bar> = 1" "floats g' = floats g" "samples g' = samples g" "views g' = views g"
  using assms
  by (auto simp: get_new_solution_direction_def read_ratios_def random_random_def Let_def
      split: if_splits prod.splits)

lemma direction_total:
  assumes "view_total (views g (vpos g)) \<noteq> 0"
  shows "\<exists>d g'. get_new_solution_direction cfg mode ewma g = Inr (d, g')"
  using assms
  by (auto simp: get_new_solution_direction_def read_ratios_def random_random_def view_total_def Let_def
      split: if_splits prod.splits)

lemma uniform_range:
  assumes "floats_ok g" "a \<le> b"
  shows "a \<le> fst (random_uniform a b g)" "fst (random_uniform a b g) \<le> b"
proof -
  have u: "0 \<le> floats g (fpos g)" "floats g (fpos g) \<le> 1"
    using assms(1) by (auto simp: floats_ok_def less_imp_le)
  have "(b - a) * floats g (fpos g) \<le> (b - a) * 1"
    using u assms(2) by (intro mult_left_mono) auto
  with u assms(2) show "a \<le> fst (random_uniform a b g)" "fst (random_uniform a b g) \<le> b"
    by (auto simp: random_uniform_def random_random_def)
qed

lemma uniform_src [simp]:
  "floats (snd (random_uniform a b g)) = floats g"
  "samples (snd (random_uniform a b g)) = samples g"
  "views (snd (random_uniform a b g)) = views g"
  by (simp_all add: random_uniform_def random_random_def)

text \<open>What a mutation adds before rounding and clamping.\<close>

definition raw_change :: "dir_cfg \<Rightarrow> pmode \<Rightarrow> param_spec \<Rightarrow> int \<Rightarrow> real \<Rightarrow> real" where
  "raw_change cfg mode spec d u =
    of_int ((if mode = Aggressive then aggressive_direction spec else - aggressive_direction spec) * d)
      * flt_val (num_flt (ps_step spec)) * step_scale cfg * u"

definition settle :: "param_spec \<Rightarrow> real \<Rightarrow> pynum" where
  "settle spec x = clamp_value spec
     (if ps_type spec = TInt then PInt (py_round x) else if 1 < x then PInt 1 else flt x)"

lemma mutate_value_Inr:
  assumes "mutate_value cfg mode ewma spec (Inr c) g = Inr (v, g')" "has_type t c"
  obtains d u where "\<bar>d\<bar> = 1" "floats_ok g \<Longrightarrow> 1/2 \<le> u \<and> u \<le> 1"
    "v = settle spec (flt_val (num_flt c) + raw_change cfg mode spec d u)"
    "floats g' = floats g" "samples g' = samples g" "views g' = views g"
proof -
  from assms(1) obtain d g1 where d: "get_new_solution_direction cfg mode ewma g = Inr (d, g1)"
    by (auto simp: mutate_value_def res_simps)
  note dir = direction_Inr [OF d]
  obtain u g2 where u: "random_uniform (1/2) 1 g1 = (u, g2)" by (cases "random_uniform (1/2) 1 g1")
  have ur: "floats_ok g \<Longrightarrow> 1/2 \<le> u \<and> u \<le> 1"
    using uniform_range [of g1 "1/2" 1] u dir(2) by (simp add: floats_ok_def)
  have src: "floats g2 = floats g" "samples g2 = samples g" "views g2 = views g"
    using uniform_src [of "1/2" 1 g1] u dir(2-) by simp_all
  obtain x where x: "num_flt c = Fin x" using has_type_Fin [OF assms(2)] by blast
  have "v = settle spec (x + raw_change cfg mode spec d u) \<and> g' = g2"
    using assms(1) d u x
    by (auto simp: mutate_value_def res_simps settle_def raw_change_def split: if_splits)
  with that [of d u] dir(1) ur src x show ?thesis by simp
qed

lemma mutate_value_total:
  assumes "view_total (views g (vpos g)) \<noteq> 0" "has_type t c"
  shows "\<exists>v g'. mutate_value cfg mode ewma spec (Inr c) g = Inr (v, g')"
proof -
  obtain d g1 where d: "get_new_solution_direction cfg mode ewma g = Inr (d, g1)"
    using direction_total [OF assms(1)] by blast
  obtain x where x: "num_flt c = Fin x" using has_type_Fin [OF assms(2)] by blast
  show ?thesis
    by (cases "random_uniform (1/2) 1 g1") (auto simp: mutate_value_def d x Let_def)
qed

lemma settle_ok: "spec_wf spec \<Longrightarrow> value_ok spec (settle spec x)"
proof -
  assume wf: "spec_wf spec"
  then show ?thesis unfolding settle_def
    by (intro clamp_value_ok) (cases "ps_type spec"; auto)+
qed

text \<open>A settled value moves from \<open>c\<close> in the direction of \<open>x - c\<close>, and at most half a unit further.\<close>

lemma clamp_value_val:
  assumes "spec_wf spec" "has_type t v"
  shows "flt_val (num_flt (clamp_value spec v))
     = max (flt_val (num_flt (ps_min spec))) (min (flt_val (num_flt (ps_max spec))) (flt_val (num_flt v)))"
  using assms by (auto simp: clamp_value_def spec_wf_def Let_def num_cmp_typed max_def min_def)

lemma settle_val:
  assumes "spec_wf spec"
  shows "flt_val (num_flt (settle spec x))
     = max (flt_val (num_flt (ps_min spec))) (min (flt_val (num_flt (ps_max spec)))
         (if ps_type spec = TInt then of_int (py_round x) else min 1 x))"
proof (cases "ps_type spec")
  case TInt
  with clamp_value_val [OF assms, of TInt "PInt (py_round x)"] show ?thesis by (simp add: settle_def)
next
  case TFloat
  with clamp_value_val [OF assms, of TFloat "flt x"] clamp_value_val [OF assms, of TInt "PInt 1"]
  show ?thesis by (auto simp: settle_def min_def)
qed

lemma settle_monotone_step:
  assumes "spec_wf spec" "value_ok spec c"
  defines "cv \<equiv> flt_val (num_flt c)" and "nv x \<equiv> flt_val (num_flt (settle spec x))"
  shows "cv \<le> x \<Longrightarrow> cv \<le> nv x \<and> nv x \<le> x + 1/2"
    and "x \<le> cv \<Longrightarrow> x - 1/2 \<le> nv x \<and> nv x \<le> cv"
proof -
  have t: "has_type (ps_type spec) c" using assms(2) by (simp add: value_ok_def)
  have b: "flt_val (num_flt (ps_min spec)) \<le> cv" "cv \<le> flt_val (num_flt (ps_max spec))"
    using assms(1,2) t by (auto simp: value_ok_def spec_wf_def num_cmp_typed cv_def)
  define r where "r = (if ps_type spec = TInt then of_int (py_round x) else min 1 x)"
  have nv: "nv x = max (flt_val (num_flt (ps_min spec))) (min (flt_val (num_flt (ps_max spec))) r)"
    unfolding nv_def r_def by (rule settle_val [OF assms(1)])
  have le1: "ps_type spec = TFloat \<Longrightarrow> cv \<le> 1"
    using assms(1) b by (auto simp: spec_wf_def num_cmp_typed) (auto simp: num_cmp_typed [of TFloat _ TInt])
  have int: "ps_type spec = TInt \<Longrightarrow> \<exists>k. cv = of_int k"
    using t unfolding cv_def by (cases c) auto
  have "cv \<le> r \<and> r \<le> x + 1/2" if "cv \<le> x"
  proof (cases "ps_type spec")
    case TInt
    with int obtain k where k: "cv = of_int k" by blast
    have "k \<le> py_round x" using py_round_mono [OF that] k by simp
    with TInt k py_round_bounds [of x] show ?thesis by (auto simp: r_def)
  qed (use that le1 in \<open>auto simp: r_def\<close>)
  with b show "cv \<le> x \<Longrightarrow> cv \<le> nv x \<and> nv x \<le> x + 1/2" unfolding nv by auto
  have "x - 1/2 \<le> r \<and> r \<le> cv" if "x \<le> cv"
  proof (cases "ps_type spec")
    case TInt
    with int obtain k where k: "cv = of_int k" by blast
    have "py_round x \<le> k" using py_round_mono [OF that] k by simp
    with TInt k py_round_bounds [of x] show ?thesis by (auto simp: r_def)
  qed (use that le1 in \<open>auto simp: r_def\<close>)
  with b show "x \<le> cv \<Longrightarrow> x - 1/2 \<le> nv x \<and> nv x \<le> cv" unfolding nv by auto
qed

lemma raw_change_bound:
  assumes "spec_wf spec" "cfg_ok cfg" "\<bar>d\<bar> = 1" "1/2 \<le> u" "u \<le> 1"
  shows "\<bar>raw_change cfg mode spec d u\<bar> \<le> flt_val (num_flt (ps_step spec)) * step_scale cfg"
proof -
  let ?s = "flt_val (num_flt (ps_step spec)) * step_scale cfg"
  have s: "0 < ?s" using assms(1,2) by (simp add: spec_wf_def cfg_ok_def)
  have sg: "\<bar>(if mode = Aggressive then aggressive_direction spec else - aggressive_direction spec) * d\<bar> = 1"
    using assms(1,3) by (simp add: spec_wf_def abs_mult)
  have "\<bar>raw_change cfg mode spec d u\<bar> = ?s * u"
  proof -
    have "\<bar>of_int ((if mode = Aggressive then aggressive_direction spec else - aggressive_direction spec) * d) :: real\<bar> = 1"
      using sg by (metis of_int_1 of_int_abs)
    then show ?thesis unfolding raw_change_def using assms(1,2,4)
      by (simp only: abs_mult) (simp add: spec_wf_def cfg_ok_def abs_of_pos)
  qed
  also have "\<dots> \<le> ?s * 1" using s assms(5) by (intro mult_left_mono) auto
  finally show ?thesis by simp
qed

text \<open>One mutated value: inside its bounds and at most one scaled step (and the rounding) away.\<close>

definition near :: "dir_cfg \<Rightarrow> param_spec \<Rightarrow> pynum \<Rightarrow> pynum \<Rightarrow> bool" where
  "near cfg spec c v \<longleftrightarrow> value_ok spec v \<and>
     \<bar>flt_val (num_flt v) - flt_val (num_flt c)\<bar> \<le> flt_val (num_flt (ps_step spec)) * step_scale cfg + 1/2"

lemma mutate_value_near:
  assumes "spec_wf spec" "cfg_ok cfg" "value_ok spec c" "floats_ok g"
    and m: "mutate_value cfg mode ewma spec (Inr c) g = Inr (v, g')"
  shows "near cfg spec c v" "floats g' = floats g" "views g' = views g"
proof -
  have t: "has_type (ps_type spec) c" using assms(3) by (simp add: value_ok_def)
  obtain d u where d: "\<bar>d\<bar> = 1" "1/2 \<le> u" "u \<le> 1"
    and v: "v = settle spec (flt_val (num_flt c) + raw_change cfg mode spec d u)"
    and src: "floats g' = floats g" "views g' = views g"
    using mutate_value_Inr [OF m t] assms(4) by metis
  have "value_ok spec v" unfolding v by (rule settle_ok [OF assms(1)])
  moreover have "\<bar>flt_val (num_flt v) - flt_val (num_flt c)\<bar> \<le> flt_val (num_flt (ps_step spec)) * step_scale cfg + 1/2"
  proof -
    define rc where "rc = raw_change cfg mode spec d u"
    define cv where "cv = flt_val (num_flt c)"
    define nv where "nv = flt_val (num_flt (settle spec (cv + rc)))"
    have "0 \<le> rc \<Longrightarrow> cv \<le> nv \<and> nv \<le> cv + rc + 1/2" "rc \<le> 0 \<Longrightarrow> cv + rc - 1/2 \<le> nv \<and> nv \<le> cv"
      using settle_monotone_step [OF assms(1,3), of "cv + rc"] by (simp_all add: cv_def nv_def)
    moreover have "\<bar>rc\<bar> \<le> flt_val (num_flt (ps_step spec)) * step_scale cfg"
      unfolding rc_def by (rule raw_change_bound [OF assms(1,2) d])
    ultimately have "\<bar>nv - cv\<bar> \<le> flt_val (num_flt (ps_step spec)) * step_scale cfg + 1/2" by linarith
    then show ?thesis by (simp add: v nv_def cv_def rc_def)
  qed
  ultimately show "near cfg spec c v" by (simp add: near_def)
  show "floats g' = floats g" "views g' = views g" by (fact src)+
qed

lemma list_all2_shift:
  assumes "\<forall>m < length (s # ss). P ((s # ss) ! m) (cur ! (k + m))"
  shows "P s (cur ! k)" "\<forall>m < length ss. P (ss ! m) (cur ! (Suc k + m))"
  using assms by (auto simp: nth_Cons' dest: spec [of _ 0] spec [of _ "Suc _"])

lemma mutate_all_near:
  assumes "mutate_all cfg mode ewma idxs cur (enumerate k ss) g = Inr (vs, g')"
    and "\<forall>s \<in> set ss. spec_wf s" "cfg_ok cfg" "floats_ok g" "k + length ss \<le> length cur"
    and "\<forall>m < length ss. value_ok (ss ! m) (cur ! (k + m))"
  shows "length vs = length ss \<and> (\<forall>m < length ss.
           (k + m \<in> idxs \<longrightarrow> near cfg (ss ! m) (cur ! (k + m)) (vs ! m))
           \<and> (k + m \<notin> idxs \<longrightarrow> vs ! m = cur ! (k + m)))"
  using assms
proof (induction ss arbitrary: k g vs)
  case (Cons s ss)
  have c: "list_get cur k = Inr (cur ! k)" using Cons.prems(5) by (simp add: list_get_def)
  note sh = list_all2_shift [OF Cons.prems(6)]
  obtain v g1 ws where
    v: "(if k \<in> idxs then mutate_value cfg mode ewma s (Inr (cur ! k)) g else Inr (cur ! k, g)) = Inr (v, g1)"
    and ws: "mutate_all cfg mode ewma idxs cur (enumerate (Suc k) ss) g1 = Inr (ws, g')" "vs = v # ws"
    using Cons.prems(1) by (auto simp: res_simps c split: if_splits)
  have "(k \<in> idxs \<longrightarrow> near cfg s (cur ! k) v) \<and> (k \<notin> idxs \<longrightarrow> v = cur ! k) \<and> floats_ok g1"
    using v mutate_value_near [of s cfg "cur ! k" g mode ewma v g1] sh(1) Cons.prems(2-4)
    by (auto simp: floats_ok_def split: if_splits)
  moreover from this have "length ws = length ss \<and> (\<forall>m < length ss.
      (Suc k + m \<in> idxs \<longrightarrow> near cfg (ss ! m) (cur ! (Suc k + m)) (ws ! m))
      \<and> (Suc k + m \<notin> idxs \<longrightarrow> ws ! m = cur ! (Suc k + m)))"
    using Cons.IH [OF ws(1)] Cons.prems(2,3,5) sh(2) by simp
  ultimately show ?case unfolding ws(2) by (auto simp: nth_Cons' less_Suc_eq_0_disj)
qed simp

lemma mutate_all_total:
  assumes "\<forall>n. view_total (views g n) \<noteq> 0" "k + length ss \<le> length cur"
    and "\<forall>m < length ss. value_ok (ss ! m) (cur ! (k + m))"
  shows "\<exists>vs g'. mutate_all cfg mode ewma idxs cur (enumerate k ss) g = Inr (vs, g')"
  using assms
proof (induction ss arbitrary: k g)
  case (Cons s ss)
  have c: "list_get cur k = Inr (cur ! k)" using Cons.prems(2) by (simp add: list_get_def)
  note sh = list_all2_shift [OF Cons.prems(3)]
  have t: "has_type (ps_type s) (cur ! k)" using sh(1) by (simp add: value_ok_def)
  obtain v g1 where
    v: "(if k \<in> idxs then mutate_value cfg mode ewma s (Inr (cur ! k)) g else Inr (cur ! k, g)) = Inr (v, g1)"
    and g1: "views g1 = views g"
  proof (cases "k \<in> idxs")
    case True
    obtain v g1 where v: "mutate_value cfg mode ewma s (Inr (cur ! k)) g = Inr (v, g1)"
      using mutate_value_total [OF _ t] Cons.prems(1) by blast
    show ?thesis
      by (rule mutate_value_Inr [OF v t]) (rule that [of v g1], use True v in auto)
  qed (use that in auto)
  obtain ws g2 where "mutate_all cfg mode ewma idxs cur (enumerate (Suc k) ss) g1 = Inr (ws, g2)"
    using Cons.IH [of g1 "Suc k"] Cons.prems(1,2) sh(2) g1 by auto
  with v show ?case by (auto simp: c split: if_splits)
qed simp

text \<open>A mutation moves the reading positions of its source and nothing else.\<close>

lemma direction_src: "get_new_solution_direction cfg mode ewma g = Inr (d, g') \<Longrightarrow> floats g' = floats g \<and> views g' = views g"
  by (auto simp: get_new_solution_direction_def read_ratios_def random_random_def Let_def split: if_splits prod.splits)

lemma mutate_value_src: "mutate_value cfg mode ewma spec c g = Inr (v, g') \<Longrightarrow> floats g' = floats g \<and> views g' = views g"
  by (auto simp: mutate_value_def res_simps Let_def random_uniform_def random_random_def dest!: direction_src split: prod.splits)

lemma mutate_all_src:
  "mutate_all cfg mode ewma idxs cur ss g = Inr (vs, g') \<Longrightarrow> floats g' = floats g \<and> views g' = views g"
proof (induction cfg mode ewma idxs cur ss g arbitrary: vs g' rule: mutate_all.induct)
  case (2 cfg mode ewma idxs cur i spec rest g)
  from 2(2) obtain v g1 ws where
    v: "(if i \<in> idxs then mutate_value cfg mode ewma spec (list_get cur i) g
         else res_bind (list_get cur i) (\<lambda>c. Inr (c, g))) = Inr (v, g1)"
    and ws: "mutate_all cfg mode ewma idxs cur rest g1 = Inr (ws, g')"
    by (auto simp: res_simps)
  have "floats g1 = floats g \<and> views g1 = views g"
    using v by (auto simp: res_simps split: if_splits dest: mutate_value_src)
  with 2(1) [OF ws] show ?case by simp
qed simp

lemma generate_src:
  "generate_new_parameters specs cfg ewma mode cur g = Inr (vs, g') \<Longrightarrow> floats g' = floats g \<and> views g' = views g"
  by (auto simp: generate_new_parameters_def res_simps random_sample_def Let_def split: if_splits dest!: mutate_all_src)

context ecn_table begin

lemma mutate_values_ok:
  assumes "mutate_all cfg mode ewma idxs cur (enumerate 0 specs) g = Inr (vs, g')"
    and "cfg_ok cfg" "floats_ok g" "solution_ok specs cur"
  shows "values_ok specs vs"
    "\<And>m. m < length specs \<Longrightarrow> m \<in> idxs \<Longrightarrow> near cfg (specs ! m) (cur ! m) (vs ! m)"
    "\<And>m. m < length specs \<Longrightarrow> m \<notin> idxs \<Longrightarrow> vs ! m = cur ! m"
proof -
  have *: "length vs = length specs \<and> (\<forall>m < length specs.
      (0 + m \<in> idxs \<longrightarrow> near cfg (specs ! m) (cur ! (0 + m)) (vs ! m))
      \<and> (0 + m \<notin> idxs \<longrightarrow> vs ! m = cur ! (0 + m)))"
    by (rule mutate_all_near [OF assms(1)])
      (use assms(2-) wf solution_ok_length solution_ok_nth in auto)
  then show n: "\<And>m. m < length specs \<Longrightarrow> m \<in> idxs \<Longrightarrow> near cfg (specs ! m) (cur ! m) (vs ! m)"
    and k: "\<And>m. m < length specs \<Longrightarrow> m \<notin> idxs \<Longrightarrow> vs ! m = cur ! m"
    by simp_all
  from * show "values_ok specs vs"
    using solution_ok_nth [OF assms(4)] n k
    unfolding values_ok_def list_all2_conv_all_nth near_def by metis
qed

lemma generate_ok:
  assumes "generate_new_parameters specs cfg ewma mode cur g = Inr (vs, g')"
    and "cfg_ok cfg" "floats_ok g" "solution_ok specs cur"
  shows "solution_ok specs vs"
proof (cases "mode = Default")
  case True
  with assms(1) default_ok show ?thesis by (auto simp: generate_new_parameters_def res_simps)
next
  case False
  have "specs \<noteq> []" using kmin(1) by auto
  then have "0 < min (mutate_count cfg) (int (length specs))"
    using assms(2) by (auto simp: cfg_ok_def)
  with False assms(1) obtain g1 ws g2 where
    ws: "mutate_all cfg mode ewma (set (samples g (spos g) (length specs) (nat (min (mutate_count cfg) (int (length specs))))))
           cur (enumerate 0 specs) g1 = Inr (ws, g2)"
    and g1: "g1 = g\<lparr>spos := Suc (spos g)\<rparr>"
    and n: "normalize_parameter_values specs ws = Inr vs"
    by (auto simp: generate_new_parameters_def random_sample_def Let_def res_simps split: if_splits)
  have "values_ok specs ws"
    by (rule mutate_values_ok(1) [OF ws]) (use assms(2-) g1 in \<open>auto simp: floats_ok_def\<close>)
  with n normalize_ok [of ws] show ?thesis by auto
qed

lemma generate_total:
  assumes "cfg_ok cfg" "floats_ok g" "views_ok g" "solution_ok specs cur"
  shows "\<exists>vs g'. generate_new_parameters specs cfg ewma mode cur g = Inr (vs, g')"
proof (cases "mode = Default")
  case True
  with default_ok show ?thesis by (auto simp: generate_new_parameters_def)
next
  case False
  have "specs \<noteq> []" using kmin(1) by auto
  then have pos: "0 < min (mutate_count cfg) (int (length specs))"
    using assms(1) by (auto simp: cfg_ok_def)
  let ?g = "g\<lparr>spos := Suc (spos g)\<rparr>"
  let ?is = "set (samples g (spos g) (length specs) (nat (min (mutate_count cfg) (int (length specs)))))"
  obtain ws g2 where ws: "mutate_all cfg mode ewma ?is cur (enumerate 0 specs) ?g = Inr (ws, g2)"
    using mutate_all_total [of ?g 0 specs cur cfg mode ewma ?is] assms(3,4) solution_ok_length solution_ok_nth
    by (auto simp: views_ok_def)
  have "values_ok specs ws"
    by (rule mutate_values_ok(1) [OF ws]) (use assms in \<open>auto simp: floats_ok_def\<close>)
  with normalize_ok obtain vs where "normalize_parameter_values specs ws = Inr vs" by blast
  moreover from pos have "min (mutate_count cfg) (int (length specs)) \<noteq> 0"
    "\<not> min (mutate_count cfg) (int (length specs)) < 0" by linarith+
  ultimately show ?thesis using False ws
    by (simp add: generate_new_parameters_def random_sample_def Let_def del: min_less_iff_conj)
qed

end

subsection \<open>The parameter file\<close>

text \<open>What the parameter file needs of \<^verbatim>\<open>str\<close> on the floats it prints: the text parses back to the
  float, and holds no white space and no \<^verbatim>\<open>=\<close>.\<close>

definition rep_ok :: "(pyfloat \<Rightarrow> string) \<Rightarrow> pynum list \<Rightarrow> bool" where
  "rep_ok rep vs \<longleftrightarrow> list_all (\<lambda>v. case v of PInt i \<Rightarrow> True
     | PFlt x \<Rightarrow> py_float (rep x) = Inr x \<and> rep x \<noteq> []
                 \<and> list_all (\<lambda>c. \<not> is_space c \<and> c \<noteq> CHR ''='') (rep x)) vs"

lemma rep_ok_PFlt:
  assumes "rep_ok rep vs" "PFlt x \<in> set vs"
  shows "py_float (rep x) = Inr x" "rep x \<noteq> []" "list_all (\<lambda>c. \<not> is_space c \<and> c \<noteq> CHR ''='') (rep x)"
  using bspec [OF assms(1) [unfolded rep_ok_def list_all_iff [of _ vs]] assms(2)] by simp_all

lemma py_str_num_clean:
  assumes "rep_ok rep vs" "v \<in> set vs"
  shows "py_str_num rep v \<noteq> []" "list_all (\<lambda>c. \<not> is_space c \<and> c \<noteq> CHR ''='') (py_str_num rep v)"
proof -
  have "py_str_num rep v \<noteq> [] \<and> list_all (\<lambda>c. \<not> is_space c \<and> c \<noteq> CHR ''='') (py_str_num rep v)"
  proof (cases v)
    case (PInt i)
    have "\<not> is_space c \<and> c \<noteq> CHR ''=''" if "c \<in> set (py_str_int i)" for c
      using py_str_int_chars [OF that]
    proof
      assume "is_digit c"
      then show ?thesis using is_space_digit [of c] by (auto simp: is_digit_def)
    qed (simp add: is_space_def)
    with PInt show ?thesis by (simp add: list_all_iff)
  next
    case (PFlt x)
    with rep_ok_PFlt [OF assms(1)] assms(2) show ?thesis by simp
  qed
  then show "py_str_num rep v \<noteq> []" "list_all (\<lambda>c. \<not> is_space c \<and> c \<noteq> CHR ''='') (py_str_num rep v)"
    by simp_all
qed

lemma load_line_printed:
  assumes specs: "distinct (map ps_name specs)" "s \<in> set specs" "spec_wf s"
    and v: "rep_ok rep vs" "v \<in> set vs" "has_type (ps_type s) v"
  shows "load_line specs (ps_name s @ ''='' @ py_str_num rep v) m = Inr (dict_set (ps_name s) v m)"
proof -
  let ?t = "py_str_num rep v"
  note t = py_str_num_clean [OF v(1,2)]
  have name: "ps_name s \<noteq> []" "list_all (\<lambda>c. \<not> is_space c \<and> c \<noteq> CHR ''='') (ps_name s)"
    using specs(3) by (simp_all add: spec_wf_def)
  have eq: "\<not> is_space (CHR ''='')" by (simp add: is_space_def)
  have strip: "str_strip (ps_name s @ ''='' @ ?t) = ps_name s @ ''='' @ ?t" "str_strip ?t = ?t"
    using name(2) t(2) eq unfolding list_all_iff by (intro str_strip_id; simp add: list_all_iff; blast)+
  have notin: "CHR ''='' \<notin> set (ps_name s)" "CHR ''='' \<notin> set ?t"
    using name(2) t(2) by (auto simp: list_all_iff)
  then have "split_on (CHR ''='') (ps_name s @ ''='' @ ?t) = [ps_name s, ?t]"
    using split_on_app [OF notin(1)] split_on_none [OF notin(2)] by simp
  moreover have "if ps_type s = TFloat then \<exists>x. v = PFlt x \<and> py_float ?t = Inr x else \<exists>i. v = PInt i \<and> py_int ?t = Inr i"
  proof (cases v)
    case (PInt i)
    with v(3) have "ps_type s = TInt" by (cases "ps_type s") auto
    with PInt show ?thesis by (simp add: py_int_str)
  next
    case (PFlt x)
    with v(3) have "ps_type s = TFloat" by (cases "ps_type s") auto
    with PFlt v(2) rep_ok_PFlt(1) [OF v(1)] show ?thesis by simp
  qed
  ultimately show ?thesis
    using name(1) strip spec_by_name [OF specs(1,2)]
    by (auto simp: load_line_def split: if_splits)
qed

context ecn_table begin

lemma load_printed:
  assumes "set ps \<subseteq> set specs" "length ps = length ws" "list_all2 (\<lambda>s v. has_type (ps_type s) v) ps ws"
    and "rep_ok rep vs" "set ws \<subseteq> set vs"
  shows "res_fold (load_line specs) (map (\<lambda>(s, v). ps_name s @ ''='' @ py_str_num rep v) (zip ps ws)) m
     = Inr (fold (\<lambda>(s, v). dict_set (ps_name s) v) (zip ps ws) m)"
  using assms(2,1,3,5)
proof (induction ps ws arbitrary: m rule: list_induct2)
  case (Cons s ps v ws)
  then have "load_line specs (ps_name s @ ''='' @ py_str_num rep v) m = Inr (dict_set (ps_name s) v m)"
    using wf names assms(4) by (intro load_line_printed [of _ _ rep vs]) auto
  with Cons show ?case by simp
qed simp

lemma dict_of_values:
  assumes "length vs = length specs" "k < length specs"
  shows "dict_get (fold (\<lambda>(s, v). dict_set (ps_name s) v) (zip specs vs) []) (ps_name (specs ! k)) = Some (vs ! k)"
proof -
  have "map (\<lambda>x. ps_name (fst x)) (zip specs vs) = map ps_name (map fst (zip specs vs))"
    by (simp only: map_map comp_def)
  then have "distinct (map (\<lambda>x. ps_name (fst x)) (zip specs vs))"
    using names assms(1) by simp
  moreover have "(specs ! k, vs ! k) \<in> set (zip specs vs)"
    using assms by (auto simp: set_zip)
  ultimately show ?thesis
    using dict_get_fold_set [of "\<lambda>x. ps_name (fst x)" "zip specs vs" "(specs ! k, vs ! k)" snd "[]"]
    by (simp add: case_prod_unfold)
qed

lemma printed_lines:
  assumes "rep_ok rep vs" "length vs = length specs"
  shows "file_lines (concat (map (\<lambda>(s, v). (ps_name s @ ''='' @ py_str_num rep v) @ [nl]) (zip specs vs)))
      = map (\<lambda>(s, v). ps_name s @ ''='' @ py_str_num rep v) (zip specs vs)"
proof -
  let ?ls = "map (\<lambda>(s, v). ps_name s @ ''='' @ py_str_num rep v) (zip specs vs)"
  have nlsp: "is_space nl" by (simp add: is_space_def)
  have "nl \<notin> set (ps_name s @ ''='' @ py_str_num rep v)" if "(s, v) \<in> set (zip specs vs)" for s v
  proof -
    have "s \<in> set specs" "v \<in> set vs" using that by (auto dest: set_zip_leftD set_zip_rightD)
    then show ?thesis
      using wf [of s] py_str_num_clean(2) [OF assms(1), of v] nlsp
      by (auto simp: spec_wf_def list_all_iff)
  qed
  then have "\<forall>p \<in> set ?ls. nl \<notin> set p" by auto
  from file_lines_terminated [OF this] show ?thesis
    by (simp add: comp_def case_prod_unfold)
qed

lemma write_then_load:
  assumes "solution_ok specs vs" "rep_ok rep vs"
  shows "\<exists>out. write_parameters rep specs vs = Inr out \<and> load_current_parameters specs (Some out) = Inr vs"
proof -
  note len = solution_ok_length [OF assms(1)]
  define out where "out = concat (map (\<lambda>(s, v). (ps_name s @ ''='' @ py_str_num rep v) @ [nl]) (zip specs vs))"
  have w: "write_parameters rep specs vs = Inr out"
    by (simp add: write_parameters_def normalize_id [OF assms(1)] out_def)
  have types: "list_all2 (\<lambda>s v. has_type (ps_type s) v) specs vs"
    using assms(1) by (auto simp: solution_ok_def values_ok_def value_ok_def list_all2_conv_all_nth)
  have "zip specs vs \<noteq> []" using kmin(1) len by auto
  then have ne: "out \<noteq> []" unfolding out_def by (cases "zip specs vs") auto
  have fold: "res_fold (load_line specs) (file_lines out) [] = Inr (fold (\<lambda>(s, v). dict_set (ps_name s) v) (zip specs vs) [])"
    unfolding out_def printed_lines [OF assms(2) len]
    by (rule load_printed [OF _ _ types assms(2)]) (use len in auto)
  have "map (\<lambda>s. dict_get_or (fold (\<lambda>(s, v). dict_set (ps_name s) v) (zip specs vs) []) (ps_name s) (ps_default s)) specs = vs"
    using len by (intro nth_equalityI) (auto simp: dict_get_or_def dict_of_values)
  then have "load_current_parameters specs (Some out) = normalize_parameter_values specs vs"
    by (simp add: load_current_parameters_def ne fold)
  with w normalize_id [OF assms(1)] show ?thesis by simp
qed

end

subsection \<open>The table of the tuner\<close>

lemma specs_length [simp]: "length (ALL_PARAMETER_SPECS arange) = 13"
  by (simp add: ALL_PARAMETER_SPECS_def)

lemma specs_wf: "s \<in> set (ALL_PARAMETER_SPECS arange) \<Longrightarrow> spec_wf s"
  unfolding ALL_PARAMETER_SPECS_def
  by (auto simp: spec_wf_def value_ok_def num_le_def num_lt_def is_space_def)

lemma specs_names: "distinct (map ps_name (ALL_PARAMETER_SPECS arange))"
  by (simp add: ALL_PARAMETER_SPECS_def)

interpretation tbl: ecn_table "ALL_PARAMETER_SPECS arange" 10 11 for arange
  by unfold_locales
    (simp_all add: specs_names specs_wf, simp_all add: ALL_PARAMETER_SPECS_def num_le_def)

lemma default_values_eq:
  "default_parameter_values (ALL_PARAMETER_SPECS arange) = Inr (map ps_default (ALL_PARAMETER_SPECS arange))"
  by (simp add: default_parameter_values_def tbl.normalize_eq) (simp add: ALL_PARAMETER_SPECS_def num_lt_def)

lemma default_solution_ok: "solution_ok (ALL_PARAMETER_SPECS arange) (map ps_default (ALL_PARAMETER_SPECS arange))"
  using tbl.default_ok [of arange] default_values_eq by auto

text \<open>The configuration the module has when no environment variable is set, and a source of draws
  in which every flow read is the same.\<close>

definition default_dir_cfg :: dir_cfg where
  "default_dir_cfg = \<lparr>cap_adaptive = True, prob_cap_max = 7/10, prob_cap_min = 1/2,
     delta_eps = 1/100, ewma_alpha = 15/100, step_scale = 1, mutate_count = 13\<rparr>"

definition steady_src :: "real \<Rightarrow> real \<Rightarrow> real \<Rightarrow> gen_src" where
  "steady_src x large small =
    \<lparr>floats = (\<lambda>_. x), fpos = 0, samples = (\<lambda>_ n k. [0..<k]), spos = 0,
      views = (\<lambda>_. \<lparr>chk_large = large, chk_small = small, cur_large = large, cur_small = small,
                    prv_large = large, prv_small = small\<rparr>), vpos = 0\<rparr>"

lemma default_dir_cfg_ok: "cfg_ok default_dir_cfg"
  by (simp add: cfg_ok_def default_dir_cfg_def)

lemma steady_src_ok:
  "0 \<le> x \<Longrightarrow> x < 1 \<Longrightarrow> floats_ok (steady_src x l s)"
  "l + s \<noteq> 0 \<Longrightarrow> views_ok (steady_src x l s)"
  "samples_ok (steady_src x l s)"
  by (auto simp: steady_src_def floats_ok_def views_ok_def view_total_def samples_ok_def)

section \<open>Properties\<close>

text \<open>C39: Normalising any vector of thirteen values that lie inside their bounds succeeds, returns the
  same values with at most \<open>kmin\<close> and \<open>kmax\<close> exchanged, keeps every value inside the bounds of the
  slot it ends in, and leaves \<open>kmin \<le> kmax\<close>.\<close>

theorem normalize_keeps_bounds:
  assumes "values_ok (ALL_PARAMETER_SPECS arange) vs"
  shows "\<exists>ws. normalize_parameter_values (ALL_PARAMETER_SPECS arange) vs = Inr ws
     \<and> solution_ok (ALL_PARAMETER_SPECS arange) ws
     \<and> (ws = vs \<or> ws = vs[10 := vs ! 11, 11 := vs ! 10])"
proof -
  have "length vs = 13" using assms by (auto simp: values_ok_def dest: list_all2_lengthD)
  with tbl.normalize_ok [OF assms] show ?thesis by (auto simp: tbl.normalize_eq split: if_splits)
qed

theorem normalize_keeps_bounds_witness:
  "\<exists>ws. normalize_parameter_values (ALL_PARAMETER_SPECS (\<lambda>_ _ _. []))
          ((map ps_default (ALL_PARAMETER_SPECS (\<lambda>_ _ _. [])))[10 := PInt 1500, 11 := PInt 500]) = Inr ws
     \<and> solution_ok (ALL_PARAMETER_SPECS (\<lambda>_ _ _. [])) ws"
proof -
  let ?vs = "(map ps_default (ALL_PARAMETER_SPECS (\<lambda>_ _ _. [])))[10 := PInt 1500, 11 := PInt 500]"
  have "values_ok (ALL_PARAMETER_SPECS (\<lambda>_ _ _. [])) ?vs"
    by (simp add: ALL_PARAMETER_SPECS_def values_ok_def value_ok_def num_le_def)
  from normalize_keeps_bounds [OF this] show ?thesis by blast
qed

text \<open>C4: The guided mutation is safe whatever the draws are and whatever the monitor thread writes
  between its reads: as long as no read of the flow ratios has a zero total, it returns a vector, and the
  vector has the declared types, every value inside its bounds and \<open>kmin \<le> kmax\<close>.\<close>

theorem generate_in_bounds:
  assumes "cfg_ok cfg" "floats_ok g" "views_ok g" "solution_ok (ALL_PARAMETER_SPECS arange) cur"
  shows "\<exists>vs g'. generate_new_parameters (ALL_PARAMETER_SPECS arange) cfg ewma mode cur g = Inr (vs, g')
     \<and> solution_ok (ALL_PARAMETER_SPECS arange) vs"
  using tbl.generate_total [OF assms] tbl.generate_ok [OF _ assms(1,2,4)] by blast

theorem generate_in_bounds_witness:
  "\<exists>vs g'. generate_new_parameters (ALL_PARAMETER_SPECS (\<lambda>_ _ _. [])) default_dir_cfg 0 Aggressive
        (map ps_default (ALL_PARAMETER_SPECS (\<lambda>_ _ _. []))) (steady_src (1/4) 3 1) = Inr (vs, g')
     \<and> solution_ok (ALL_PARAMETER_SPECS (\<lambda>_ _ _. [])) vs"
  by (rule generate_in_bounds)
    (simp_all add: default_dir_cfg_ok steady_src_ok default_solution_ok)

text \<open>C28: A mutated value stays inside its bounds, is at most one scaled step (plus half a unit of
  rounding) away from the current one, and never moves against the direction that was drawn: in
  aggressive mode a draw of \<open>+1\<close> moves along the row's aggressive direction, \<open>-1\<close> against it,
  and conservative mode mirrors both.\<close>

theorem mutation_is_guided:
  assumes "spec \<in> set (ALL_PARAMETER_SPECS arange)" "cfg_ok cfg" "value_ok spec c" "floats_ok g"
    and dir: "get_new_solution_direction cfg mode ewma g = Inr (d, g1)"
    and mut: "mutate_value cfg mode ewma spec (Inr c) g = Inr (v, g')"
  shows "value_ok spec v
    \<and> \<bar>flt_val (num_flt v) - flt_val (num_flt c)\<bar> \<le> flt_val (num_flt (ps_step spec)) * step_scale cfg + 1/2
    \<and> 0 \<le> of_int ((if mode = Aggressive then 1 else -1) * aggressive_direction spec * d)
            * (flt_val (num_flt v) - flt_val (num_flt c))"
proof -
  have wf: "spec_wf spec" using assms(1) by (rule specs_wf)
  have t: "has_type (ps_type spec) c" using assms(3) by (simp add: value_ok_def)
  obtain u g2 where u: "random_uniform (1/2) 1 g1 = (u, g2)" by (cases "random_uniform (1/2) 1 g1")
  have "1/2 \<le> u" using uniform_range(1) [of g1 "1/2" 1] direction_Inr(2) [OF dir] assms(4) u
    by (simp add: floats_ok_def)
  define sg :: real where "sg = of_int ((if mode = Aggressive then 1 else -1) * aggressive_direction spec * d)"
  define rc where "rc = raw_change cfg mode spec d u"
  define cv where "cv = flt_val (num_flt c)"
  obtain x where x: "num_flt c = Fin x" using has_type_Fin [OF t] by blast
  have v: "v = settle spec (cv + rc)"
    using mut dir u x
    by (auto simp: mutate_value_def res_simps settle_def raw_change_def rc_def cv_def split: if_splits)
  have rc: "rc = sg * (flt_val (num_flt (ps_step spec)) * step_scale cfg * u)"
    by (simp add: rc_def raw_change_def sg_def)
  have pos: "0 < flt_val (num_flt (ps_step spec)) * step_scale cfg * u"
    using wf assms(2) \<open>1/2 \<le> u\<close> by (simp add: spec_wf_def cfg_ok_def)
  have "\<bar>sg\<bar> = 1"
    using wf direction_Inr(1) [OF dir] by (auto simp: sg_def spec_wf_def abs_mult simp flip: of_int_abs)
  then have "sg = 1 \<or> sg = -1" by linarith
  with rc pos have "sg = 1 \<and> 0 \<le> rc \<or> sg = -1 \<and> rc \<le> 0" by auto
  then have "0 \<le> sg * (flt_val (num_flt v) - cv)"
    using settle_monotone_step [OF wf assms(3), of "cv + rc"] by (auto simp: v cv_def)
  with mutate_value_near(1) [OF wf assms(2-4) mut] show ?thesis
    by (simp add: near_def cv_def sg_def)
qed

theorem mutation_is_guided_witness:
  "\<exists>d g1 v g'. get_new_solution_direction default_dir_cfg Aggressive 0 (steady_src (1/4) 3 1) = Inr (d, g1)
     \<and> mutate_value default_dir_cfg Aggressive 0 (ALL_PARAMETER_SPECS (\<lambda>_ _ _. []) ! 1) (Inr (PInt 20)) (steady_src (1/4) 3 1) = Inr (v, g')
     \<and> 0 \<le> of_int (1 * aggressive_direction (ALL_PARAMETER_SPECS (\<lambda>_ _ _. []) ! 1) * d) * (flt_val (num_flt v) - 20)"
proof -
  let ?s = "ALL_PARAMETER_SPECS (\<lambda>_ _ _. []) ! 1" and ?g = "steady_src (1/4) 3 1"
  have s: "?s \<in> set (ALL_PARAMETER_SPECS (\<lambda>_ _ _. []))" by (rule nth_mem) simp
  have c: "value_ok ?s (PInt 20)" by (simp add: ALL_PARAMETER_SPECS_def value_ok_def num_le_def)
  obtain d g1 where d: "get_new_solution_direction default_dir_cfg Aggressive 0 ?g = Inr (d, g1)"
    using direction_total [of ?g default_dir_cfg Aggressive 0] steady_src_ok(2) [of 3 1 "1/4"]
    unfolding views_ok_def by fastforce
  obtain v g' where v: "mutate_value default_dir_cfg Aggressive 0 ?s (Inr (PInt 20)) ?g = Inr (v, g')"
    using mutate_value_total [of ?g TInt "PInt 20" default_dir_cfg Aggressive 0 ?s] steady_src_ok(2) [of 3 1 "1/4"]
    unfolding views_ok_def by fastforce
  have "floats_ok ?g" by (rule steady_src_ok) simp_all
  from mutation_is_guided [OF s default_dir_cfg_ok c this d v] d v show ?thesis by fastforce
qed

text \<open>C17: Writing a valid parameter vector and loading the file gives the same vector back, so the
  tuner, which keeps its current solution only in \<^verbatim>\<open>parameter.txt\<close>, loses nothing. The hypothesis on
  \<open>rep\<close> is what Python documents of \<^verbatim>\<open>str\<close> of a float: \<^verbatim>\<open>float(str(x)) == x\<close>.\<close>

theorem parameter_file_roundtrip:
  assumes "solution_ok (ALL_PARAMETER_SPECS arange) vs" "rep_ok rep vs"
  shows "\<exists>out. write_parameters rep (ALL_PARAMETER_SPECS arange) vs = Inr out
     \<and> load_current_parameters (ALL_PARAMETER_SPECS arange) (Some out) = Inr vs"
  using assms by (rule tbl.write_then_load)

definition short_rep :: "pyfloat \<Rightarrow> string" where
  "short_rep x = trim_fixed (fmt_fixed 6 (flt_val x))"

theorem parameter_file_roundtrip_witness:
  "\<exists>out. write_parameters short_rep (ALL_PARAMETER_SPECS (\<lambda>_ _ _. [])) (map ps_default (ALL_PARAMETER_SPECS (\<lambda>_ _ _. []))) = Inr out
     \<and> load_current_parameters (ALL_PARAMETER_SPECS (\<lambda>_ _ _. [])) (Some out) = Inr (map ps_default (ALL_PARAMETER_SPECS (\<lambda>_ _ _. [])))"
proof (rule parameter_file_roundtrip [OF default_solution_ok])
  have "py_float (short_rep (Fin (1/2))) = Inr (Fin (1/2))" "py_float (short_rep (Fin (2/10))) = Inr (Fin (2/10))"
    unfolding short_rep_def by (simp_all add: py_float_trimmed fixed_val_def py_round_def)
  moreover have "short_rep (Fin (1/2)) = ''0.5''" "short_rep (Fin (2/10)) = ''0.2''"
    by (simp_all add: short_rep_def fmt_fixed_def py_round_def pad_zeros_def trim_fixed_def rstrip_by_def text_simps)
  ultimately show "rep_ok short_rep (map ps_default (ALL_PARAMETER_SPECS (\<lambda>_ _ _. [])))"
    by (simp add: rep_ok_def ALL_PARAMETER_SPECS_def is_space_def)
qed

text \<open>Over any sequence of observed utility changes the bad-step rate stays in the unit interval, so the
  direction probability cap stays between its floor and its ceiling; \<open>n\<close> rounds without a significant loss
  decay the rate geometrically and \<open>n\<close> bad rounds drive it towards one.\<close>

theorem direction_cap_bounded:
  fixes deltas :: "real list"
  assumes "cfg_ok cfg" "0 \<le> e" "e \<le> 1"
  defines "e' \<equiv> fold (update_bad_rate_ewma cfg) deltas e"
  shows "0 \<le> e' \<and> e' \<le> 1
    \<and> prob_cap_min cfg \<le> get_direction_prob_cap cfg e' \<and> get_direction_prob_cap cfg e' \<le> prob_cap_max cfg
    \<and> ((\<forall>d \<in> set deltas. - delta_eps cfg \<le> d) \<longrightarrow> e' = (1 - ewma_alpha cfg) ^ length deltas * e)
    \<and> ((\<forall>d \<in> set deltas. d < - delta_eps cfg) \<longrightarrow> 1 - e' = (1 - ewma_alpha cfg) ^ length deltas * (1 - e))"
proof -
  let ?a = "ewma_alpha cfg"
  have a: "0 \<le> ?a" "?a \<le> 1" using assms(1) by (simp_all add: cfg_ok_def)
  have step: "0 \<le> update_bad_rate_ewma cfg d x \<and> update_bad_rate_ewma cfg d x \<le> 1" if "0 \<le> x \<and> x \<le> 1" for d x
  proof -
    have "(1 - ?a) * x \<le> (1 - ?a) * 1" using a that by (intro mult_left_mono) auto
    with a that show ?thesis by (auto simp: update_bad_rate_ewma_def Let_def)
  qed
  have e': "0 \<le> e' \<and> e' \<le> 1"
    unfolding e'_def by (rule fold_invariant_set) (use assms(2,3) step in auto)
  define w where "w = prob_cap_max cfg - prob_cap_min cfg"
  have "0 \<le> w" using assms(1) by (simp add: w_def cfg_ok_def)
  then have "0 \<le> w * (1 - e')" "w * (1 - e') \<le> w * 1"
    using e' by (simp, intro mult_left_mono, simp_all)
  then have cap: "prob_cap_min cfg \<le> get_direction_prob_cap cfg e' \<and> get_direction_prob_cap cfg e' \<le> prob_cap_max cfg"
    using \<open>0 \<le> w\<close> by (auto simp: get_direction_prob_cap_def w_def)
  have good: "(\<forall>d \<in> set deltas. - delta_eps cfg \<le> d) \<longrightarrow>
      fold (update_bad_rate_ewma cfg) deltas x = (1 - ?a) ^ length deltas * x" for x
    by (induction deltas arbitrary: x) (auto simp: update_bad_rate_ewma_def Let_def)
  have bad: "(\<forall>d \<in> set deltas. d < - delta_eps cfg) \<longrightarrow>
      1 - fold (update_bad_rate_ewma cfg) deltas x = (1 - ?a) ^ length deltas * (1 - x)" for x
  proof (induction deltas arbitrary: x)
    case (Cons d ds)
    have "1 - (?a + (1 - ?a) * x) = (1 - ?a) * (1 - x)" by (simp add: algebra_simps)
    with Cons.IH [of "?a + (1 - ?a) * x"] show ?case
      by (auto simp: update_bad_rate_ewma_def Let_def)
  qed simp
  show ?thesis using e' cap good [of e] bad [of e] unfolding e'_def by blast
qed

theorem direction_cap_bounded_witness:
  "0 \<le> fold (update_bad_rate_ewma default_dir_cfg) [-1, 0] 0
   \<and> get_direction_prob_cap default_dir_cfg (fold (update_bad_rate_ewma default_dir_cfg) [-1, 0] 0) \<le> 7/10"
  using direction_cap_bounded [OF default_dir_cfg_ok, of 0 "[-1, 0]"] by (simp add: default_dir_cfg_def)

end
