(* ===== verification/FlowObservation.thy ===== *)
theory FlowObservation
  imports TunerParams
begin

text \<open>
  How \<^verbatim>\<open>scratch/tuning.py\<close> turns a monitoring report into a large/small flow ratio.

  \<^item> The switch path (scheme \<open>paraleon\<close>): \<open>load_sketch\<close>, \<open>update_all_flows\<close>, \<open>filter_flows\<close>,
    \<open>upload_ratio\<close> over the per-switch flow table \<open>switch_flowid_status_dict\<close>.
  \<^item> The host path (scheme \<open>paraleon_plus\<close>): \<open>load_host_flow_report\<close>,
    \<open>compute_chunk_visible_size\<close>, \<open>classify_host_flow_progress\<close>.
  \<^item> \<open>compute_divergence\<close> compares two ratios; \<open>scipy.stats.entropy\<close> is a parameter.

  Dictionaries keep insertion order, as Python's do. A data frame read by pandas is the list of its
  rows (a parameter). The locale \<open>flow_observer\<close> states what the monitor loop needs of either path, and
  both are interpretations of it.
\<close>

section \<open>Flow windows\<close>

definition potential_weight :: "int \<Rightarrow> int \<Rightarrow> real" where
  "potential_weight observed_size threshold_size =
    (if threshold_size \<le> 0 then 0 else if observed_size \<le> 0 then 0
     else min (of_int observed_size / of_int threshold_size) 1)"

definition is_strictly_increasing :: "int list \<Rightarrow> bool" where
  "is_strictly_increasing vs =
    (if length vs < 2 then False
     else list_all (\<lambda>i. \<not> vs ! i \<le> vs ! (i - 1)) [1..<length vs])"

definition window_sums :: "int list \<Rightarrow> nat \<Rightarrow> int list" where
  "window_sums lst w = map (\<lambda>i. sum_list (take w (drop i lst))) [0..<length lst + 1 - w]"

definition is_flow_keep_sending_sliding_window :: "int list \<Rightarrow> nat \<Rightarrow> bool" where
  "is_flow_keep_sending_sliding_window lst w =
    (let result = window_sums lst w
     in list_all (\<lambda>i. if result ! i = 0 then False
                      else if result ! (i - 1) - result ! i > 10
                           then \<not> result ! i - result ! (i + 1) > 20
                           else True) [1..<length result - 1])"

definition is_flow_keep_active_within_window :: "int list \<Rightarrow> nat \<Rightarrow> bool" where
  "is_flow_keep_active_within_window lst w =
    (if length lst \<le> w then False
     else (let result = window_sums lst w
           in list_all (\<lambda>i. if result ! i = 0 then False
                            else if result ! (i - 1) - result ! i > 10
                                 then (if length result < 3 then True
                                       else \<not> result ! i - result ! (i + 1) > 20)
                                 else True) [1..<length result - 1]))"

section \<open>The flow table of the switch path\<close>

record flow_status =
  active :: bool
  flow_size :: "int list"
  last_monitor_time :: real
  potential_start :: real
  potential_stop :: real

type_synonym flow_table = "(string, flow_status) dict"
type_synonym switch_table = "(int, flow_table) dict"
type_synonym sketch_report = "(int, (string, int) dict) dict"

definition touch_flow :: "real \<Rightarrow> int \<Rightarrow> flow_status option \<Rightarrow> flow_status" where
  "touch_flow current_time sz st =
    (let s = (case st of
                None \<Rightarrow> \<lparr>active = True, flow_size = [], last_monitor_time = current_time,
                         potential_start = -1, potential_stop = -1\<rparr>
              | Some s \<Rightarrow> s)
     in s\<lparr>flow_size := flow_size s @ [sz], last_monitor_time := current_time, active := True\<rparr>)"

definition touch_flows :: "real \<Rightarrow> (string, int) dict \<Rightarrow> flow_table \<Rightarrow> flow_table" where
  "touch_flows current_time sizes d =
    fold (\<lambda>(flow_id, sz) d. dict_set flow_id (touch_flow current_time sz (dict_get d flow_id)) d) sizes d"

definition age_flow :: "real \<Rightarrow> real \<Rightarrow> flow_status \<Rightarrow> flow_status" where
  "age_flow t_reset current_time s =
    (if \<not> active s then s
     else if current_time - last_monitor_time s > t_reset / 2 then s\<lparr>active := False\<rparr> else s)"

definition update_all_flows :: "real \<Rightarrow> sketch_report \<Rightarrow> real \<Rightarrow> switch_table \<Rightarrow> switch_table" where
  "update_all_flows t_reset report current_time table =
    (let touched = fold (\<lambda>(switch_id, sizes) t.
            dict_set switch_id (touch_flows current_time sizes (dict_get_or t switch_id [])) t) report table
     in map (\<lambda>(switch_id, d). (switch_id, map (\<lambda>(flow_id, s). (flow_id, age_flow t_reset current_time s)) d)) touched)"

record upload =
  up_large :: "string list"
  up_potential :: "(string, int) dict"
  up_small :: "string list"

abbreviation empty_upload :: upload where
  "empty_upload \<equiv> \<lparr>up_large = [], up_potential = [], up_small = []\<rparr>"

definition filter_flow :: "int \<Rightarrow> nat \<Rightarrow> real \<Rightarrow> string \<Rightarrow> flow_status \<Rightarrow> upload \<Rightarrow> upload \<times> flow_status" where
  "filter_flow threshold w current_time flow_id s u =
    (let sz = sum_list (flow_size s)
     in if active s
        then (if sz \<ge> threshold
              then (let u1 = u\<lparr>up_large := up_large u @ [flow_id]\<rparr>
                    in if dict_get (up_potential u1) flow_id \<noteq> None
                       then (u1\<lparr>up_potential := dict_del flow_id (up_potential u1)\<rparr>, s\<lparr>potential_stop := current_time\<rparr>)
                       else (u1, s))
              else if is_flow_keep_active_within_window (flow_size s) w
              then (let u1 = u\<lparr>up_potential := dict_set flow_id sz (up_potential u)\<rparr>;
                        s1 = (if potential_start s = -1 then s\<lparr>potential_start := current_time\<rparr> else s);
                        u2 = (if flow_id \<in> set (up_small u1) then u1\<lparr>up_small := remove1 flow_id (up_small u1)\<rparr> else u1)
                    in (u2, s1))
              else (u\<lparr>up_small := up_small u @ [flow_id]\<rparr>, s))
        else (let u1 = (if flow_id \<in> set (up_large u) then u\<lparr>up_large := remove1 flow_id (up_large u)\<rparr> else u);
                  (u2, s2) = (if dict_get (up_potential u1) flow_id \<noteq> None
                              then (u1\<lparr>up_potential := dict_del flow_id (up_potential u1)\<rparr>,
                                    if potential_stop s = -1 then s\<lparr>potential_stop := current_time\<rparr> else s)
                              else (u1, s));
                  u3 = (if flow_id \<in> set (up_small u2) then u2\<lparr>up_small := remove1 flow_id (up_small u2)\<rparr> else u2)
              in (u3, s2)))"

fun filter_switch :: "int \<Rightarrow> nat \<Rightarrow> real \<Rightarrow> flow_table \<Rightarrow> upload \<Rightarrow> upload \<times> flow_table" where
  "filter_switch threshold w now [] u = (u, [])"
| "filter_switch threshold w now ((flow_id, s) # d) u =
    (let (u1, s1) = filter_flow threshold w now flow_id s u;
         (u2, d1) = filter_switch threshold w now d u1
     in (u2, (flow_id, s1) # d1))"

text \<open>Each switch identifier occurs once in the table, so its upload entry starts empty.\<close>

definition filter_flows :: "int \<Rightarrow> nat \<Rightarrow> real \<Rightarrow> switch_table \<Rightarrow> (int, upload) dict \<times> switch_table" where
  "filter_flows threshold w current_time table =
    (map (\<lambda>(switch_id, d). (switch_id, fst (filter_switch threshold w current_time d empty_upload))) table,
     map (\<lambda>(switch_id, d). (switch_id, snd (filter_switch threshold w current_time d empty_upload))) table)"

section \<open>Ratios and their metadata\<close>

record flow_ratio =
  r_large :: real
  r_small :: real

record flow_meta =
  large_count :: int
  potential_large :: int
  small_count :: int
  potential_effective :: real
  true_large_count :: "int option"
  true_small_count :: "int option"

definition upload_one :: "int \<Rightarrow> upload \<Rightarrow> flow_ratio \<times> flow_meta \<Rightarrow> flow_ratio \<times> flow_meta" where
  "upload_one threshold u rm =
    (let (r, m) = rm;
         n_large = length (up_large u); n_small = length (up_small u);
         r1 = r\<lparr>r_large := r_large r + real n_large\<rparr>; m1 = m\<lparr>large_count := large_count m + int n_large\<rparr>;
         (r2, m2) = fold (\<lambda>(_, sz) (r, m).
              (let e = potential_weight sz threshold
               in (r\<lparr>r_large := r_large r + e\<rparr>,
                   m\<lparr>potential_large := potential_large m + 1, potential_effective := potential_effective m + e\<rparr>)))
            (up_potential u) (r1, m1)
     in (r2\<lparr>r_small := r_small r2 + real n_small\<rparr>, m2\<lparr>small_count := small_count m2 + int n_small\<rparr>))"

definition upload_ratio :: "int \<Rightarrow> (int, upload) dict \<Rightarrow> flow_ratio \<Rightarrow> flow_ratio \<times> flow_meta" where
  "upload_ratio threshold uploads current_flow_ratio =
    fold (\<lambda>(_, u). upload_one threshold u) uploads
      (current_flow_ratio, \<lparr>large_count = 0, potential_large = 0, small_count = 0, potential_effective = 0,
                            true_large_count = None, true_small_count = None\<rparr>)"

section \<open>Reports\<close>

text \<open>One cell of a sketch row is \<^verbatim>\<open><flow id>-<size>\<close>; cells after the first missing one are not read.\<close>

fun sketch_cells :: "string list \<Rightarrow> (string, int) dict \<Rightarrow> (string, int) dict res" where
  "sketch_cells [] d = Inr d"
| "sketch_cells (cell # cells) d =
    (if str_contains ''na'' cell then Inr d
     else (case split_on (CHR ''-'') cell of
             flow_id # sz # _ \<Rightarrow> res_bind (py_int sz) (\<lambda>n. sketch_cells cells (dict_set flow_id n d))
           | _ \<Rightarrow> Inl IndexError))"

text \<open>\<open>frame\<close> is what \<^verbatim>\<open>pd.read_table(...).fillna('-1na')\<close> gives: \<open>None\<close> where the file is missing or
  empty or pandas raises \<^verbatim>\<open>EmptyDataError\<close>, else the rows (time, switch, cells).\<close>

definition load_sketch :: "(real \<times> int \<times> string list) list option \<Rightarrow> (real option \<times> sketch_report) res" where
  "load_sketch frame =
    (case frame of None \<Rightarrow> Inr (None, [])
     | Some rows \<Rightarrow>
         res_fold (\<lambda>(time, switch_id, cells) (_, report).
           res_bind (sketch_cells cells (dict_get_or report switch_id []))
             (\<lambda>d. Inr (Some time, dict_set switch_id d report))) rows (None, []))"

record host_flow =
  progress_bytes :: int
  hf_size :: int

type_synonym host_report = "(string, host_flow) dict"

definition host_line :: "string \<Rightarrow> pyfloat option \<times> host_report \<Rightarrow> (pyfloat option \<times> host_report) res" where
  "host_line line acc =
    (let parts = split_ws (str_strip line)
     in if length parts = 5 \<and> parts ! 1 = ''wr_summary''
        then res_bind (py_float (parts ! 0)) (\<lambda>t. Inr (Some t, snd acc))
        else if length parts \<noteq> 7 \<or> parts ! 1 \<noteq> ''wr'' then Inr acc
        else res_bind (py_float (parts ! 0)) (\<lambda>t.
             res_bind (py_int (parts ! 5)) (\<lambda>progress.
             res_bind (py_int (parts ! 6)) (\<lambda>sz.
               Inr (Some t, dict_set (parts ! 2 @ ''-'' @ parts ! 4)
                              \<lparr>progress_bytes = progress, hf_size = sz\<rparr> (snd acc))))))"

definition load_host_flow_report :: "string option \<Rightarrow> (pyfloat option \<times> host_report) res" where
  "load_host_flow_report file =
    (case file of None \<Rightarrow> Inr (None, [])
     | Some content \<Rightarrow> if content = [] then Inr (None, []) else res_fold host_line (file_lines content) (None, []))"

section \<open>Host-side classification\<close>

definition compute_chunk_visible_size :: "int \<Rightarrow> int \<Rightarrow> int \<Rightarrow> int" where
  "compute_chunk_visible_size chunk progress sz =
    (if progress \<le> 0 then 0
     else min sz (((progress + chunk - 1) div chunk) * chunk))"

definition classify_host_flow :: "int \<Rightarrow> int \<Rightarrow> host_flow \<Rightarrow> flow_ratio \<times> flow_meta \<Rightarrow> flow_ratio \<times> flow_meta" where
  "classify_host_flow chunk threshold f rm =
    (let (r, m) = rm;
         m1 = (if hf_size f \<ge> threshold
               then m\<lparr>true_large_count := map_option (\<lambda>n. n + 1) (true_large_count m)\<rparr>
               else m\<lparr>true_small_count := map_option (\<lambda>n. n + 1) (true_small_count m)\<rparr>);
         visible = compute_chunk_visible_size chunk (progress_bytes f) (hf_size f)
     in if visible \<ge> threshold
        then (r\<lparr>r_large := r_large r + 1\<rparr>, m1\<lparr>large_count := large_count m1 + 1\<rparr>)
        else (r\<lparr>r_small := r_small r + 1\<rparr>, m1\<lparr>small_count := small_count m1 + 1\<rparr>))"

definition classify_host_flow_progress :: "int \<Rightarrow> int \<Rightarrow> host_report \<Rightarrow> flow_ratio \<times> flow_meta" where
  "classify_host_flow_progress chunk threshold report =
    fold (classify_host_flow chunk threshold) (dict_values report)
      (\<lparr>r_large = 0, r_small = 0\<rparr>,
       \<lparr>large_count = 0, potential_large = 0, small_count = 0, potential_effective = 0,
        true_large_count = Some 0, true_small_count = Some 0\<rparr>)"

section \<open>Divergence\<close>

definition compute_divergence ::
  "(real list \<Rightarrow> real list \<Rightarrow> pyfloat) \<Rightarrow> flow_ratio \<Rightarrow> flow_ratio \<Rightarrow> pyfloat" where
  "compute_divergence entropy cur prev =
    (let current_total = r_large cur + r_small cur; previous_total = r_large prev + r_small prev
     in if current_total \<le> 0 \<or> previous_total \<le> 0 then Fin 0
        else entropy [r_large cur / current_total, r_small cur / current_total]
                     [r_large prev / previous_total, r_small prev / previous_total])"

section \<open>The flow table as a map\<close>

text \<open>Nested dictionaries read as a map from (switch, flow), and the well-formedness of such tables.\<close>

definition flow_of :: "('k, ('f, 'v) dict) dict \<Rightarrow> 'k \<Rightarrow> 'f \<Rightarrow> 'v option" where
  "flow_of table switch_id flow_id = dict_get (dict_get_or table switch_id []) flow_id"

definition nested_ok :: "('k, ('f, 'v) dict) dict \<Rightarrow> bool" where
  "nested_ok table \<longleftrightarrow> dict_ok table \<and> (\<forall>(k, d) \<in> set table. dict_ok d)"

lemma nested_ok_iff: "nested_ok t \<longleftrightarrow> dict_ok t \<and> (\<forall>k d. (k, d) \<in> set t \<longrightarrow> dict_ok d)"
  by (auto simp: nested_ok_def)

lemma fold_dict_upd:
  assumes "distinct (map fst xs)"
  shows "dict_get (fold (\<lambda>(k, v) d. dict_set k (F v (dict_get d k)) d) xs d) k
     = (case map_of xs k of None \<Rightarrow> dict_get d k | Some v \<Rightarrow> Some (F v (dict_get d k)))"
  using assms
proof (induction xs arbitrary: d)
  case (Cons x xs)
  obtain k' v where x: "x = (k', v)" by (cases x)
  show ?case
  proof (cases "k = k'")
    case True
    with Cons.prems x have "map_of xs k = None" by (simp add: map_of_eq_None_iff)
    with Cons x True show ?thesis by (simp add: dict_simps)
  next
    case False
    with Cons x show ?thesis by (simp add: dict_simps split: option.splits)
  qed
qed simp

lemma dict_ok_fold_set: "dict_ok d \<Longrightarrow> dict_ok (fold (\<lambda>(k, v) d. dict_set k (G v k d) d) xs d)"
  by (induction xs arbitrary: d) auto

lemma dict_ok_map_values [simp]: "dict_ok (map (\<lambda>(k, v). (k, f k v)) d) = dict_ok d"
  by (simp add: dict_ok_def case_prod_unfold comp_def)

lemma nested_okD: "nested_ok t \<Longrightarrow> dict_ok (dict_get_or t k [])"
  by (auto simp: nested_ok_def dict_get_or_def dest: dict_get_Some_in split: option.splits)

lemma touch_flows_get:
  assumes "dict_ok sizes"
  shows "dict_get (touch_flows now sizes d) f
    = (case dict_get sizes f of None \<Rightarrow> dict_get d f | Some n \<Rightarrow> Some (touch_flow now n (dict_get d f)))"
  using fold_dict_upd [of sizes "touch_flow now" d f] assms
  by (simp add: touch_flows_def dict_ok_def dict_get_def [of sizes])

lemma touch_flows_ok: "dict_ok d \<Longrightarrow> dict_ok (touch_flows now sizes d)"
  unfolding touch_flows_def by (rule dict_ok_fold_set)

text \<open>The table between the two loops of \<open>update_all_flows\<close>.\<close>

definition touch_all :: "real \<Rightarrow> sketch_report \<Rightarrow> switch_table \<Rightarrow> switch_table" where
  "touch_all now report table = fold (\<lambda>(switch_id, sizes) t.
     dict_set switch_id (touch_flows now sizes (dict_get_or t switch_id [])) t) report table"

lemma touch_all_get:
  assumes "dict_ok report"
  shows "dict_get (touch_all now report table) k
    = (case dict_get report k of None \<Rightarrow> dict_get table k
       | Some sizes \<Rightarrow> Some (touch_flows now sizes (dict_get_or table k [])))"
  unfolding touch_all_def dict_get_or_def
  using fold_dict_upd [of report "\<lambda>sizes d. touch_flows now sizes (case d of None \<Rightarrow> [] | Some v \<Rightarrow> v)" table k] assms
  by (simp add: dict_ok_def dict_get_def [of report])

lemma touch_all_ok: "nested_ok table \<Longrightarrow> nested_ok (touch_all now report table)"
proof -
  have step: "nested_ok (dict_set k (touch_flows now sizes (dict_get_or t k [])) t)" if "nested_ok t"
    for k sizes and t :: switch_table
  proof -
    let ?v = "touch_flows now sizes (dict_get_or t k [])"
    have sub: "set (dict_set k v t) \<subseteq> insert (k, v) (set t)" for v :: flow_table
      unfolding dict_set_def by (induction t) auto
    have v: "dict_ok ?v" by (rule touch_flows_ok [OF nested_okD [OF that]])
    have "dict_ok b" if "(a, b) \<in> set (dict_set k ?v t)" for a b
    proof -
      from that sub have "(a, b) = (k, ?v) \<or> (a, b) \<in> set t" by blast
      with v \<open>nested_ok t\<close> show ?thesis by (auto simp: nested_ok_def)
    qed
    moreover have "dict_ok (dict_set k ?v t)" using that by (simp add: nested_ok_def)
    ultimately show ?thesis unfolding nested_ok_iff by blast
  qed
  assume "nested_ok table"
  then show ?thesis unfolding touch_all_def by (rule fold_invariant_set [where P = nested_ok]) (auto simp: step)
qed

lemma update_all_flows_alt:
  "update_all_flows t_reset report now table =
    map (\<lambda>(k, d). (k, map (\<lambda>(f, s). (f, age_flow t_reset now s)) d)) (touch_all now report table)"
  by (simp add: update_all_flows_def touch_all_def)

lemma flow_of_map:
  "flow_of (map (\<lambda>(k, d). (k, map (\<lambda>(f, s). (f, h s)) d)) t) k f = map_option h (flow_of t k f)"
  by (simp add: flow_of_def dict_get_or_def dict_get_map_values dict_simps split: option.splits)

lemma flow_of_update:
  assumes "nested_ok report"
  shows "flow_of (update_all_flows t_reset report now table) k f
    = map_option (age_flow t_reset now)
        (case flow_of report k f of None \<Rightarrow> flow_of table k f
         | Some n \<Rightarrow> Some (touch_flow now n (flow_of table k f)))"
proof -
  have r: "dict_ok report" using assms by (simp add: nested_ok_def)
  have "flow_of (touch_all now report table) k f
    = (case flow_of report k f of None \<Rightarrow> flow_of table k f
         | Some n \<Rightarrow> Some (touch_flow now n (flow_of table k f)))"
  proof (cases "dict_get report k")
    case None
    then show ?thesis by (simp add: flow_of_def touch_all_get [OF r] dict_get_or_def dict_simps)
  next
    case (Some sizes)
    then have "dict_ok sizes" using nested_okD [OF assms, of k] by (simp add: dict_get_or_def)
    with Some show ?thesis
      by (simp add: flow_of_def touch_all_get [OF r] dict_get_or_def touch_flows_get split: option.splits)
  qed
  then show ?thesis by (simp add: update_all_flows_alt flow_of_map)
qed

lemma update_all_flows_ok: "nested_ok table \<Longrightarrow> nested_ok (update_all_flows t_reset report now table)"
proof -
  assume "nested_ok table"
  then have "nested_ok (touch_all now report table)" by (rule touch_all_ok)
  then show ?thesis by (fastforce simp: update_all_flows_alt nested_ok_def)
qed

section \<open>Classification of one table\<close>

datatype fclass = CLarge | CPotential | CSmall | CNone

definition flow_class :: "int \<Rightarrow> nat \<Rightarrow> flow_status \<Rightarrow> fclass" where
  "flow_class threshold w s =
    (if \<not> active s then CNone else if sum_list (flow_size s) \<ge> threshold then CLarge
     else if is_flow_keep_active_within_window (flow_size s) w then CPotential else CSmall)"

definition mark_flow :: "int \<Rightarrow> nat \<Rightarrow> real \<Rightarrow> flow_status \<Rightarrow> flow_status" where
  "mark_flow threshold w now s =
    (if flow_class threshold w s = CPotential \<and> potential_start s = -1 then s\<lparr>potential_start := now\<rparr> else s)"

definition of_class :: "int \<Rightarrow> nat \<Rightarrow> fclass \<Rightarrow> flow_table \<Rightarrow> flow_table" where
  "of_class threshold w c d = filter (\<lambda>(f, s). flow_class threshold w s = c) d"

lemma of_class_nonempty: "(f, s) \<in> set d \<Longrightarrow> of_class threshold w (flow_class threshold w s) d \<noteq> []"
  by (force simp: of_class_def filter_empty_conv)

lemma filter_flow_fresh:
  assumes "f \<notin> set (up_large u)" "f \<notin> fst ` set (up_potential u)" "f \<notin> set (up_small u)"
  shows "filter_flow threshold w now f s u =
    (case flow_class threshold w s of
       CLarge \<Rightarrow> u\<lparr>up_large := up_large u @ [f]\<rparr>
     | CPotential \<Rightarrow> u\<lparr>up_potential := up_potential u @ [(f, sum_list (flow_size s))]\<rparr>
     | CSmall \<Rightarrow> u\<lparr>up_small := up_small u @ [f]\<rparr>
     | CNone \<Rightarrow> u, mark_flow threshold w now s)"
proof -
  have "dict_get (up_potential u) f = None" using assms(2) by (simp add: dict_get_def map_of_eq_None_iff)
  with assms show ?thesis
    by (simp add: filter_flow_def flow_class_def mark_flow_def dict_set_new Let_def)
qed

lemma filter_switch_spec:
  assumes "distinct (map fst d)"
    and "fst ` set d \<inter> (set (up_large u) \<union> fst ` set (up_potential u) \<union> set (up_small u)) = {}"
  shows "filter_switch threshold w now d u =
    (\<lparr>up_large = up_large u @ map fst (of_class threshold w CLarge d),
      up_potential = up_potential u @ map (\<lambda>(f, s). (f, sum_list (flow_size s))) (of_class threshold w CPotential d),
      up_small = up_small u @ map fst (of_class threshold w CSmall d)\<rparr>,
     map (\<lambda>(f, s). (f, mark_flow threshold w now s)) d)"
  using assms
proof (induction d arbitrary: u)
  case (Cons x d)
  obtain f s where x: "x = (f, s)" by (cases x)
  have fresh: "f \<notin> set (up_large u)" "f \<notin> fst ` set (up_potential u)" "f \<notin> set (up_small u)"
    and d: "distinct (map fst d)" "f \<notin> fst ` set d"
    and rest: "fst ` set d \<inter> (set (up_large u) \<union> fst ` set (up_potential u) \<union> set (up_small u)) = {}"
    using Cons.prems x by auto
  show ?case
  proof (cases "flow_class threshold w s")
    case CLarge
    from Cons.IH [OF d(1), of "u\<lparr>up_large := up_large u @ [f]\<rparr>"] d(2) rest CLarge show ?thesis
      by (simp add: x filter_flow_fresh [OF fresh] of_class_def)
  next
    case CPotential
    from Cons.IH [OF d(1), of "u\<lparr>up_potential := up_potential u @ [(f, sum_list (flow_size s))]\<rparr>"] d(2) rest CPotential
    show ?thesis by (simp add: x filter_flow_fresh [OF fresh] of_class_def)
  next
    case CSmall
    from Cons.IH [OF d(1), of "u\<lparr>up_small := up_small u @ [f]\<rparr>"] d(2) rest CSmall show ?thesis
      by (simp add: x filter_flow_fresh [OF fresh] of_class_def)
  next
    case CNone
    from Cons.IH [OF d(1), of u] d(2) rest CNone show ?thesis
      by (simp add: x filter_flow_fresh [OF fresh] of_class_def)
  qed
qed (simp add: of_class_def)

lemma filter_flows_spec:
  assumes "nested_ok table"
  shows "filter_flows threshold w now table =
    (map (\<lambda>(k, d). (k, \<lparr>up_large = map fst (of_class threshold w CLarge d),
        up_potential = map (\<lambda>(f, s). (f, sum_list (flow_size s))) (of_class threshold w CPotential d),
        up_small = map fst (of_class threshold w CSmall d)\<rparr>)) table,
     map (\<lambda>(k, d). (k, map (\<lambda>(f, s). (f, mark_flow threshold w now s)) d)) table)"
proof -
  have "filter_switch threshold w now d empty_upload =
    (\<lparr>up_large = map fst (of_class threshold w CLarge d),
        up_potential = map (\<lambda>(f, s). (f, sum_list (flow_size s))) (of_class threshold w CPotential d),
        up_small = map fst (of_class threshold w CSmall d)\<rparr>,
      map (\<lambda>(f, s). (f, mark_flow threshold w now s)) d)" if "(k, d) \<in> set table" for k d
  proof -
    have "distinct (map fst d)" using assms that by (auto simp: nested_ok_def dict_ok_def)
    then show ?thesis by (subst filter_switch_spec) auto
  qed
  then show ?thesis unfolding filter_flows_def by auto
qed

section \<open>What an upload adds up to\<close>

definition effective_weight :: "int \<Rightarrow> upload \<Rightarrow> real" where
  "effective_weight threshold u = sum_list (map (\<lambda>(f, sz). potential_weight sz threshold) (up_potential u))"

lemma potential_weight_bounds: "0 \<le> potential_weight sz threshold" "potential_weight sz threshold \<le> 1"
  by (simp_all add: potential_weight_def)

lemma potential_weight_pos: "0 < sz \<Longrightarrow> 0 < threshold \<Longrightarrow> 0 < potential_weight sz threshold"
  by (simp add: potential_weight_def)

lemma effective_weight_bounds:
  "0 \<le> effective_weight threshold u" "effective_weight threshold u \<le> real (length (up_potential u))"
proof -
  show "0 \<le> effective_weight threshold u"
    unfolding effective_weight_def by (rule sum_list_nonneg_real) (auto simp: potential_weight_bounds)
  have "sum_list (map (\<lambda>(f, sz). potential_weight sz threshold) xs) \<le> real (length xs)" for xs :: "(string \<times> int) list"
    by (induction xs) (auto simp: potential_weight_bounds(2) add_mono)
  then show "effective_weight threshold u \<le> real (length (up_potential u))"
    by (simp add: effective_weight_def)
qed

lemma upload_potential_fold:
  "fold (\<lambda>(_, sz) (r, m).
      (let e = potential_weight sz threshold
       in (r\<lparr>r_large := r_large r + e\<rparr>,
           m\<lparr>potential_large := potential_large m + 1, potential_effective := potential_effective m + e\<rparr>)))
     ps (r :: flow_ratio, m :: flow_meta)
   = (r\<lparr>r_large := r_large r + sum_list (map (\<lambda>(f, sz). potential_weight sz threshold) ps)\<rparr>,
      m\<lparr>potential_large := potential_large m + int (length ps),
        potential_effective := potential_effective m + sum_list (map (\<lambda>(f, sz). potential_weight sz threshold) ps)\<rparr>)"
  by (induction ps arbitrary: r m) (auto simp: Let_def algebra_simps)

lemma upload_one_eq:
  "upload_one threshold u (r, m) =
    (r\<lparr>r_large := r_large r + real (length (up_large u)) + effective_weight threshold u,
      r_small := r_small r + real (length (up_small u))\<rparr>,
     m\<lparr>large_count := large_count m + int (length (up_large u)),
      potential_large := potential_large m + int (length (up_potential u)),
      small_count := small_count m + int (length (up_small u)),
      potential_effective := potential_effective m + effective_weight threshold u\<rparr>)"
  unfolding upload_one_def Let_def prod.case upload_potential_fold [unfolded Let_def]
  by (simp add: effective_weight_def)

lemma upload_ratio_fold:
  "fold (\<lambda>(_, u). upload_one threshold u) ups (r, m) =
    (r\<lparr>r_large := r_large r + (\<Sum>(k, u) \<leftarrow> ups. real (length (up_large u)) + effective_weight threshold u),
      r_small := r_small r + (\<Sum>(k, u) \<leftarrow> ups. real (length (up_small u)))\<rparr>,
     m\<lparr>large_count := large_count m + (\<Sum>(k, u) \<leftarrow> ups. int (length (up_large u))),
      potential_large := potential_large m + (\<Sum>(k, u) \<leftarrow> ups. int (length (up_potential u))),
      small_count := small_count m + (\<Sum>(k, u) \<leftarrow> ups. int (length (up_small u))),
      potential_effective := potential_effective m + (\<Sum>(k, u) \<leftarrow> ups. effective_weight threshold u)\<rparr>)"
  by (induction ups arbitrary: r m) (auto simp: upload_one_eq algebra_simps)

section \<open>The observer contract\<close>

text \<open>
  Both monitoring paths hand the loop a ratio and its metadata. The loop relies on: counts that are not
  negative, metadata that explain the ratio, and a positive total for every report it does not skip.
\<close>

locale flow_observer =
  fixes observe :: "'o \<Rightarrow> flow_ratio \<times> flow_meta" and valid :: "'o \<Rightarrow> bool"
  assumes nonneg: "0 \<le> r_large (fst (observe x))" "0 \<le> r_small (fst (observe x))"
    and explained: "r_large (fst (observe x)) = of_int (large_count (snd (observe x))) + potential_effective (snd (observe x))"
      "r_small (fst (observe x)) = of_int (small_count (snd (observe x)))"
    and positive: "valid x \<Longrightarrow> 0 < r_large (fst (observe x)) + r_small (fst (observe x))"
begin

lemma divergence_is_between_distributions:
  assumes "valid x" "valid y"
  shows "\<exists>p q. 0 \<le> p \<and> p \<le> 1 \<and> 0 \<le> q \<and> q \<le> 1
    \<and> compute_divergence entropy (fst (observe x)) (fst (observe y)) = entropy [p, 1 - p] [q, 1 - q]"
proof -
  have *: "s / (l + s) = 1 - l / (l + s) \<and> 0 \<le> l / (l + s) \<and> l / (l + s) \<le> 1"
    if "0 \<le> l" "0 \<le> s" "0 < l + s" for l s :: real
    using that by (simp add: field_simps)
  let ?p = "r_large (fst (observe x)) / (r_large (fst (observe x)) + r_small (fst (observe x)))"
  let ?q = "r_large (fst (observe y)) / (r_large (fst (observe y)) + r_small (fst (observe y)))"
  have pos: "\<not> (r_large (fst (observe x)) + r_small (fst (observe x)) \<le> 0 \<or> r_large (fst (observe y)) + r_small (fst (observe y)) \<le> 0)"
    using positive [OF assms(1)] positive [OF assms(2)] by linarith
  have "compute_divergence entropy (fst (observe x)) (fst (observe y)) = entropy [?p, 1 - ?p] [?q, 1 - ?q]"
    unfolding compute_divergence_def Let_def if_not_P [OF pos]
    using * [OF nonneg positive [OF assms(1)]] * [OF nonneg positive [OF assms(2)]] by simp
  with * [OF nonneg positive [OF assms(1)]] * [OF nonneg positive [OF assms(2)]] show ?thesis by blast
qed

end

subsection \<open>Host reports\<close>

definition host_visible :: "int \<Rightarrow> host_flow \<Rightarrow> int" where
  "host_visible chunk f = compute_chunk_visible_size chunk (progress_bytes f) (hf_size f)"

lemma classify_fold:
  "fold (classify_host_flow chunk threshold) fs
     (\<lparr>r_large = x, r_small = y\<rparr>,
      \<lparr>large_count = l, potential_large = p, small_count = s, potential_effective = e,
       true_large_count = Some a, true_small_count = Some b\<rparr>) =
    (\<lparr>r_large = x + real (length (filter (\<lambda>f. host_visible chunk f \<ge> threshold) fs)),
      r_small = y + real (length (filter (\<lambda>f. \<not> host_visible chunk f \<ge> threshold) fs))\<rparr>,
     \<lparr>large_count = l + int (length (filter (\<lambda>f. host_visible chunk f \<ge> threshold) fs)), potential_large = p,
      small_count = s + int (length (filter (\<lambda>f. \<not> host_visible chunk f \<ge> threshold) fs)), potential_effective = e,
      true_large_count = Some (a + int (length (filter (\<lambda>f. hf_size f \<ge> threshold) fs))),
      true_small_count = Some (b + int (length (filter (\<lambda>f. \<not> hf_size f \<ge> threshold) fs)))\<rparr>)"
  by (induction fs arbitrary: x y l s a b)
    (simp_all add: classify_host_flow_def host_visible_def [symmetric] Let_def)

lemma classify_host_spec:
  "classify_host_flow_progress chunk threshold report =
    (let fs = dict_values report; big = length (filter (\<lambda>f. host_visible chunk f \<ge> threshold) fs);
         rest = length (filter (\<lambda>f. \<not> host_visible chunk f \<ge> threshold) fs)
     in (\<lparr>r_large = real big, r_small = real rest\<rparr>,
         \<lparr>large_count = int big, potential_large = 0, small_count = int rest, potential_effective = 0,
          true_large_count = Some (int (length (filter (\<lambda>f. hf_size f \<ge> threshold) fs))),
          true_small_count = Some (int (length (filter (\<lambda>f. \<not> hf_size f \<ge> threshold) fs)))\<rparr>))"
  by (simp add: classify_host_flow_progress_def classify_fold Let_def)

interpretation host: flow_observer "classify_host_flow_progress chunk threshold" "\<lambda>report. report \<noteq> []"
  for chunk threshold
proof (unfold_locales, goal_cases)
  case (5 report)
  let ?fs = "dict_values report"
  have "length (filter (\<lambda>f. threshold \<le> host_visible chunk f) ?fs)
      + length (filter (\<lambda>f. \<not> threshold \<le> host_visible chunk f) ?fs) = length ?fs"
    by (rule filter_partition_length)
  moreover have "0 < length ?fs" using 5 by (simp add: dict_values_def)
  ultimately have "0 < real (length (filter (\<lambda>f. threshold \<le> host_visible chunk f) ?fs)
      + length (filter (\<lambda>f. \<not> threshold \<le> host_visible chunk f) ?fs))" by simp
  then show ?case by (simp add: classify_host_spec Let_def)
qed (simp_all add: classify_host_spec Let_def)

lemma visible_le_size: "0 \<le> hf_size f \<Longrightarrow> host_visible chunk f \<le> hf_size f"
  by (simp add: host_visible_def compute_chunk_visible_size_def)

lemma aligned_bounds:
  fixes chunk progress :: int
  assumes "0 < chunk"
  shows "progress \<le> ((progress + chunk - 1) div chunk) * chunk"
    and "((progress + chunk - 1) div chunk) * chunk < progress + chunk"
proof -
  have "((progress + chunk - 1) div chunk) * chunk = progress + chunk - 1 - (progress + chunk - 1) mod chunk"
    by (simp add: minus_mod_eq_div_mult [symmetric])
  moreover have "0 \<le> (progress + chunk - 1) mod chunk" "(progress + chunk - 1) mod chunk < chunk"
    using assms by simp_all
  ultimately show "progress \<le> ((progress + chunk - 1) div chunk) * chunk"
    "((progress + chunk - 1) div chunk) * chunk < progress + chunk" by linarith+
qed

subsection \<open>Switch reports\<close>

text \<open>One round of the switch path from an empty ratio: touch and age the table, classify, add up.\<close>

definition observe_sketch ::
  "int \<Rightarrow> nat \<Rightarrow> real \<Rightarrow> sketch_report \<times> real \<times> switch_table \<Rightarrow> flow_ratio \<times> flow_meta" where
  "observe_sketch threshold w t_reset x =
    (case x of (report, now, table) \<Rightarrow>
       upload_ratio threshold (fst (filter_flows threshold w now (update_all_flows t_reset report now table)))
         \<lparr>r_large = 0, r_small = 0\<rparr>)"

definition sketch_valid :: "sketch_report \<times> real \<times> switch_table \<Rightarrow> bool" where
  "sketch_valid x =
    (case x of (report, now, table) \<Rightarrow>
       nested_ok report \<and> nested_ok table
       \<and> list_ex (\<lambda>(k, d). d \<noteq> []) report
       \<and> list_all (\<lambda>(k, d). list_all (\<lambda>(f, n). 0 < n) d) report
       \<and> list_all (\<lambda>(k, d). list_all (\<lambda>(f, s). list_all (\<lambda>n. 0 < n) (flow_size s)) d) table)"

lemma sum_list_pos:
  fixes xs :: "real list"
  assumes "x \<in> set xs" "0 < x" "\<And>y. y \<in> set xs \<Longrightarrow> 0 \<le> y"
  shows "0 < sum_list xs"
  using assms
proof (induction xs)
  case (Cons y ys)
  show ?case
  proof (cases "x = y")
    case True
    have "0 \<le> sum_list ys" using Cons.prems by (intro sum_list_nonneg_real) auto
    with True Cons.prems show ?thesis by simp
  next
    case False
    with Cons have "0 < sum_list ys" by auto
    moreover have "0 \<le> y" using Cons.prems by simp
    ultimately show ?thesis by simp
  qed
qed simp

lemma upload_ratio_total:
  "r_large (fst (upload_ratio threshold ups r)) + r_small (fst (upload_ratio threshold ups r))
   = r_large r + r_small r
     + (\<Sum>(k, u) \<leftarrow> ups. real (length (up_large u)) + effective_weight threshold u + real (length (up_small u)))"
proof -
  have "(\<Sum>(k, u) \<leftarrow> ups. real (length (up_large u)) + effective_weight threshold u)
      + (\<Sum>(k, u) \<leftarrow> ups. real (length (up_small u)))
     = (\<Sum>(k, u) \<leftarrow> ups. real (length (up_large u)) + effective_weight threshold u + real (length (up_small u)))"
    for ups :: "(int \<times> upload) list"
    by (induction ups) auto
  from this [of ups] show ?thesis by (simp add: upload_ratio_def upload_ratio_fold)
qed

lemma flow_of_in:
  assumes "flow_of t k f = Some v"
  obtains d where "(k, d) \<in> set t" "(f, v) \<in> set d"
proof -
  from assms obtain d where d: "dict_get t k = Some d"
    by (cases "dict_get t k") (auto simp: flow_of_def dict_get_or_def dict_simps)
  moreover from assms d have "dict_get d f = Some v" by (simp add: flow_of_def dict_get_or_def)
  ultimately show ?thesis using that [of d] by (simp add: dict_get_Some_in)
qed

lemma flow_of_intro: "nested_ok t \<Longrightarrow> (k, d) \<in> set t \<Longrightarrow> (f, v) \<in> set d \<Longrightarrow> flow_of t k f = Some v"
  by (auto simp: flow_of_def dict_get_or_def dict_get_in nested_ok_iff)

text \<open>A flow of the current report is active after the update, with its bytes recorded.\<close>

lemma reported_flow:
  assumes "nested_ok report" "flow_of report k f = Some n" "0 \<le> t_reset"
  shows "\<exists>s. flow_of (update_all_flows t_reset report now table) k f = Some s \<and> active s
     \<and> flow_size s = (case flow_of table k f of None \<Rightarrow> [] | Some s0 \<Rightarrow> flow_size s0) @ [n]"
  using assms
  by (cases "flow_of table k f")
    (auto simp: flow_of_update touch_flow_def age_flow_def)

lemma observe_sketch_positive:
  assumes "0 < threshold" "0 \<le> t_reset" and v: "sketch_valid (report, now, table)"
  shows "0 < r_large (fst (observe_sketch threshold w t_reset (report, now, table)))
           + r_small (fst (observe_sketch threshold w t_reset (report, now, table)))"
proof -
  have ok: "nested_ok report" "nested_ok table" using v by (auto simp: sketch_valid_def)
  obtain k d f n where kd: "(k, d) \<in> set report" "(f, n) \<in> set d" "0 < n"
  proof -
    from v obtain k d where "(k, d) \<in> set report" "d \<noteq> []"
      by (auto simp: sketch_valid_def list_ex_iff)
    then show ?thesis using v that [of k d "fst (hd d)" "snd (hd d)"]
      by (cases d) (auto simp: sketch_valid_def list_all_iff)
  qed
  let ?t = "update_all_flows t_reset report now table"
  have ok': "nested_ok ?t" by (rule update_all_flows_ok [OF ok(2)])
  obtain s where s: "flow_of ?t k f = Some s" "active s"
    "flow_size s = (case flow_of table k f of None \<Rightarrow> [] | Some s0 \<Rightarrow> flow_size s0) @ [n]"
    using reported_flow [OF ok(1) flow_of_intro [OF ok(1) kd(1,2)] assms(2)] by blast
  have "0 < sum_list (flow_size s)"
  proof -
    have "list_all (\<lambda>n. 0 < n) (flow_size s0)" if "flow_of table k f = Some s0" for s0
      using that v by (elim flow_of_in) (fastforce simp: sketch_valid_def list_all_iff)
    then have "0 \<le> sum_list (case flow_of table k f of None \<Rightarrow> [] | Some s0 \<Rightarrow> flow_size s0)"
      by (cases "flow_of table k f") (auto intro!: sum_list_nonneg simp: list_all_iff less_imp_le)
    with s(3) kd(3) show ?thesis by simp
  qed
  obtain d' where d': "(k, d') \<in> set ?t" "(f, s) \<in> set d'" using s(1) by (rule flow_of_in)
  let ?U = "fst (filter_flows threshold w now ?t)"
  define u where "u = \<lparr>up_large = map fst (of_class threshold w CLarge d'),
        up_potential = map (\<lambda>(f, s). (f, sum_list (flow_size s))) (of_class threshold w CPotential d'),
        up_small = map fst (of_class threshold w CSmall d')\<rparr>"
  have u: "(k, u) \<in> set ?U" using d'(1) by (force simp: filter_flows_spec [OF ok'] u_def)
  have "0 < real (length (up_large u)) + effective_weight threshold u + real (length (up_small u))"
  proof (cases "flow_class threshold w s")
    case CLarge
    then have "0 < length (up_large u)" using of_class_nonempty [OF d'(2), of threshold w] by (simp add: u_def)
    then show ?thesis using effective_weight_bounds(1) [of threshold u] by linarith
  next
    case CPotential
    then have "(f, sum_list (flow_size s)) \<in> set (up_potential u)"
      using d'(2) by (force simp: u_def of_class_def)
    then have "0 < effective_weight threshold u"
      unfolding effective_weight_def
      by (intro sum_list_pos [of "potential_weight (sum_list (flow_size s)) threshold"])
        (use potential_weight_pos [OF \<open>0 < sum_list (flow_size s)\<close> assms(1)] potential_weight_bounds(1) in force)+
    then show ?thesis by linarith
  next
    case CSmall
    then have "0 < length (up_small u)" using of_class_nonempty [OF d'(2), of threshold w] by (simp add: u_def)
    then show ?thesis using effective_weight_bounds(1) [of threshold u] by linarith
  next
    case CNone
    with s(2) show ?thesis by (simp add: flow_class_def split: if_splits)
  qed
  then have "0 < (\<Sum>(k, u) \<leftarrow> ?U. real (length (up_large u)) + effective_weight threshold u + real (length (up_small u)))"
    by (intro sum_list_pos [of "real (length (up_large u)) + effective_weight threshold u + real (length (up_small u))"])
      (use u effective_weight_bounds(1) in \<open>force simp: add_nonneg_nonneg\<close>)+
  then show ?thesis by (simp add: observe_sketch_def upload_ratio_total)
qed

lemma sum_pairs_nonneg: "(\<And>u. 0 \<le> g u) \<Longrightarrow> 0 \<le> (\<Sum>(k, u) \<leftarrow> ups. (g u :: real))"
  by (induction ups) auto

lemma sum_pairs_add:
  "(\<Sum>(k, u) \<leftarrow> ups. real (length (up_large u)) + effective_weight t u)
    = of_int (\<Sum>(k, u) \<leftarrow> ups. int (length (up_large u))) + (\<Sum>(k, u) \<leftarrow> ups. effective_weight t u)"
  by (induction ups) auto

lemma sum_pairs_int:
  "(\<Sum>(k, u) \<leftarrow> ups. real (length (up_small u))) = of_int (\<Sum>(k, u) \<leftarrow> ups. int (length (up_small u)))"
  by (induction ups) auto

interpretation sketch: flow_observer "observe_sketch threshold w t_reset"
  "\<lambda>x. sketch_valid x \<and> 0 < threshold \<and> 0 \<le> t_reset" for threshold w t_reset
proof (unfold_locales, goal_cases)
  case (1 x)
  then show ?case
    by (cases x) (simp add: observe_sketch_def upload_ratio_def upload_ratio_fold sum_pairs_nonneg effective_weight_bounds)
next
  case (2 x)
  then show ?case
    by (cases x) (simp add: observe_sketch_def upload_ratio_def upload_ratio_fold sum_pairs_nonneg)
next
  case (3 x)
  then show ?case
    by (cases x) (simp add: observe_sketch_def upload_ratio_def upload_ratio_fold sum_pairs_add)
next
  case (4 x)
  then show ?case
    by (cases x) (simp add: observe_sketch_def upload_ratio_def upload_ratio_fold sum_pairs_int)
next
  case (5 x)
  then show ?case by (cases x) (auto intro: observe_sketch_positive)
qed

section \<open>Well-formed reports\<close>

lemma sketch_cells_ok: "sketch_cells cells d = Inr d' \<Longrightarrow> dict_ok d \<Longrightarrow> dict_ok d'"
  by (induction cells d arbitrary: d' rule: sketch_cells.induct)
    (auto simp: res_simps split: if_splits list.splits sum.splits)

lemma nested_ok_set: "nested_ok t \<Longrightarrow> dict_ok d \<Longrightarrow> nested_ok (dict_set k d t)"
proof -
  assume t: "nested_ok t" and d: "dict_ok d"
  have "set (dict_set k d t) \<subseteq> insert (k, d) (set t)" unfolding dict_set_def by (induction t) auto
  with t d show ?thesis unfolding nested_ok_iff by auto
qed

lemma load_sketch_fold_ok:
  "res_fold (\<lambda>(time, switch_id, cells) (_, report).
     res_bind (sketch_cells cells (dict_get_or report switch_id []))
       (\<lambda>d. Inr (Some time, dict_set switch_id d report))) rows (t0, report) = Inr (t', report')
   \<Longrightarrow> nested_ok report \<Longrightarrow> nested_ok report'"
proof (induction rows arbitrary: t0 report)
  case (Cons row rows)
  obtain time sw cells where row: "row = (time, sw, cells)" by (cases row)
  with Cons.prems(1) obtain d where d: "sketch_cells cells (dict_get_or report sw []) = Inr d"
    and rest: "res_fold (\<lambda>(time, switch_id, cells) (_, report).
     res_bind (sketch_cells cells (dict_get_or report switch_id []))
       (\<lambda>d. Inr (Some time, dict_set switch_id d report))) rows (Some time, dict_set sw d report) = Inr (t', report')"
    by (cases "sketch_cells cells (dict_get_or report sw [])") (simp_all add: res_simps)
  have "nested_ok (dict_set sw d report)"
    using sketch_cells_ok [OF d nested_okD [OF Cons.prems(2)]] Cons.prems(2) by (simp add: nested_ok_set)
  with Cons.IH [OF rest] show ?case .
qed (simp add: res_simps)

lemma nested_ok_Nil [simp]: "nested_ok []"
  by (simp add: nested_ok_def dict_ok_def)

lemma load_sketch_ok: "load_sketch frame = Inr (t, report) \<Longrightarrow> nested_ok report"
  by (cases frame) (simp_all add: load_sketch_def load_sketch_fold_ok [OF _ nested_ok_Nil])

section \<open>Properties\<close>

text \<open>C27: \<open>update_all_flows\<close> refines a pointwise specification over (switch, flow). A table without
  repeated keys stays one; a reported flow gets its bytes appended, the time of the report and becomes
  active; a known flow that is not reported keeps its bytes and goes inactive exactly when it has been silent
  for more than half a reset interval; no other flow appears.\<close>

theorem update_all_flows_pointwise:
  assumes "load_sketch frame = Inr (time, report)" "nested_ok table" "0 \<le> t_reset"
  shows "nested_ok (update_all_flows t_reset report now table)
    \<and> flow_of (update_all_flows t_reset report now table) k f =
      (case (flow_of report k f, flow_of table k f) of
         (None, None) \<Rightarrow> None
       | (None, Some s) \<Rightarrow> Some (s\<lparr>active := active s \<and> now - last_monitor_time s \<le> t_reset / 2\<rparr>)
       | (Some n, None) \<Rightarrow> Some \<lparr>active = True, flow_size = [n], last_monitor_time = now,
                                potential_start = -1, potential_stop = -1\<rparr>
       | (Some n, Some s) \<Rightarrow> Some (s\<lparr>flow_size := flow_size s @ [n], last_monitor_time := now, active := True\<rparr>))"
proof -
  have age: "age_flow t_reset now s = s\<lparr>active := active s \<and> now - last_monitor_time s \<le> t_reset / 2\<rparr>" for s
    by (simp add: age_flow_def)
  show ?thesis
    using assms(3) update_all_flows_ok [OF assms(2)]
    by (cases "flow_of report k f"; cases "flow_of table k f")
      (simp_all add: flow_of_update [OF load_sketch_ok [OF assms(1)]] touch_flow_def age)
qed

theorem update_all_flows_pointwise_witness:
  "flow_of (update_all_flows 10 [(7, [(''f1'', 40)])] 5 []) 7 ''f1''
    = Some \<lparr>active = True, flow_size = [40], last_monitor_time = 5, potential_start = -1, potential_stop = -1\<rparr>"
proof -
  have l: "load_sketch (Some [(5, 7, [''f1-40'', ''-1na''])]) = Inr (Some 5, [(7, [(''f1'', 40)])])"
    by code_simp
  show ?thesis
    using update_all_flows_pointwise [OF l nested_ok_Nil, of 10 5 7 "''f1''"]
    by (simp add: flow_of_def dict_get_or_def dict_get_def)
qed

text \<open>C27: \<open>filter_flows\<close> puts every flow of a table in at most one class: an active flow of at least the
  threshold is large, a smaller one that keeps sending is potential-large with its bytes, any other active
  flow is small, and an inactive flow is in no list. The table keeps its flows, their bytes and activity,
  and no \<open>potential_stop\<close> is ever set.\<close>

theorem filter_flows_partition:
  assumes "nested_ok table" "(k, d) \<in> set table" "(f, s) \<in> set d"
  shows "\<exists>u s'. dict_get (fst (filter_flows threshold w now table)) k = Some u
    \<and> flow_of (snd (filter_flows threshold w now table)) k f = Some s'
    \<and> (f \<in> set (up_large u) \<longleftrightarrow> active s \<and> threshold \<le> sum_list (flow_size s))
    \<and> dict_get (up_potential u) f =
        (if active s \<and> sum_list (flow_size s) < threshold \<and> is_flow_keep_active_within_window (flow_size s) w
         then Some (sum_list (flow_size s)) else None)
    \<and> (f \<in> set (up_small u) \<longleftrightarrow>
         active s \<and> sum_list (flow_size s) < threshold \<and> \<not> is_flow_keep_active_within_window (flow_size s) w)
    \<and> distinct (up_large u) \<and> dict_ok (up_potential u) \<and> distinct (up_small u)
    \<and> s' = s\<lparr>potential_start := potential_start s'\<rparr>"
proof -
  let ?u = "\<lparr>up_large = map fst (of_class threshold w CLarge d),
        up_potential = map (\<lambda>(f, s). (f, sum_list (flow_size s))) (of_class threshold w CPotential d),
        up_small = map fst (of_class threshold w CSmall d)\<rparr>"
  have d: "distinct (map fst d)" using assms by (auto simp: nested_ok_def dict_ok_def)
  have cls: "f \<in> fst ` set (of_class threshold w c d) \<longleftrightarrow> flow_class threshold w s = c" for c
    using map_of_is_SomeI [OF d assms(3)] assms(3) d
    by (auto simp: of_class_def image_iff dest: map_of_is_SomeI [OF d])
  have dist: "distinct (map fst (of_class threshold w c d))" for c
    using d by (simp add: of_class_def distinct_map_filter)
  have u: "dict_get (fst (filter_flows threshold w now table)) k = Some ?u"
    using assms(1,2) by (simp add: filter_flows_spec [OF assms(1)] dict_get_map_values dict_get_in nested_ok_def)
  have s': "flow_of (snd (filter_flows threshold w now table)) k f = Some (mark_flow threshold w now s)"
    by (simp add: filter_flows_spec [OF assms(1)] flow_of_map flow_of_intro [OF assms])
  have pot: "dict_get (up_potential ?u) f =
      (if flow_class threshold w s = CPotential then Some (sum_list (flow_size s)) else None)"
  proof (cases "flow_class threshold w s = CPotential")
    case True
    then have "(f, s) \<in> set (of_class threshold w CPotential d)" using assms(3) by (simp add: of_class_def)
    then have "dict_get (of_class threshold w CPotential d) f = Some s"
      using dist [of CPotential] by (simp add: dict_get_def)
    with True show ?thesis by (simp add: dict_get_map_values)
  next
    case False
    then have "dict_get (of_class threshold w CPotential d) f = None"
      using cls [of CPotential] by (simp add: dict_get_def map_of_eq_None_iff)
    with False show ?thesis by (simp add: dict_get_map_values)
  qed
  show ?thesis
    apply (rule exI [of _ ?u], rule exI [of _ "mark_flow threshold w now s"])
    using u s' pot cls [of CLarge] cls [of CSmall] dist
    by (simp add: flow_class_def mark_flow_def dict_ok_def case_prod_unfold comp_def)
qed

theorem filter_flows_partition_witness:
  "\<exists>u. dict_get (fst (filter_flows 100 3 9 [(7, [(''f1'', \<lparr>active = True, flow_size = [60, 50],
          last_monitor_time = 8, potential_start = -1, potential_stop = -1\<rparr>)])])) 7 = Some u
    \<and> ''f1'' \<in> set (up_large u) \<and> ''f1'' \<notin> set (up_small u)"
proof -
  let ?s = "\<lparr>active = True, flow_size = [60, 50], last_monitor_time = 8, potential_start = -1, potential_stop = -1\<rparr>"
  have ok: "nested_ok [(7 :: int, [(''f1'', ?s)])]" by (simp add: nested_ok_def dict_ok_def)
  show ?thesis
    using filter_flows_partition [OF ok, of 7 "[(''f1'', ?s)]" "''f1''" ?s 100 3 9] by auto
qed

text \<open>The sliding-window test for a potential-large flow is the plain sending test guarded by the length
  of the history; its extra guard on short histories never decides.\<close>

theorem keep_active_iff_keep_sending:
  "is_flow_keep_active_within_window lst w
    \<longleftrightarrow> w < length lst \<and> is_flow_keep_sending_sliding_window lst w"
proof -
  have "list_all (\<lambda>i. if res ! i = 0 then False else if res ! (i - 1) - res ! i > 10
              then (if length res < 3 then True else \<not> res ! i - res ! (i + 1) > 20) else True) [1..<length res - 1]
     = list_all (\<lambda>i. if res ! i = 0 then False else if res ! (i - 1) - res ! i > 10
              then \<not> res ! i - res ! (i + 1) > 20 else True) [1..<length res - 1]" for res :: "int list"
    by (rule list.pred_cong) auto
  from this [of "window_sums lst w"] show ?thesis
    unfolding is_flow_keep_active_within_window_def is_flow_keep_sending_sliding_window_def Let_def
    by (simp only: not_le [symmetric]) auto
qed

text \<open>C8: host-side detection has no false positive and catches every large flow whose progress has reached
  the threshold; when the threshold is at most one report chunk (the default configuration has both at 1 MiB)
  and every flow has made progress, the counts are exactly the true ones. Every flow is counted once.\<close>

theorem host_detection_sound:
  assumes "0 < chunk" "\<forall>x \<in> set (dict_values report). 0 \<le> hf_size x"
  shows "(let fs = dict_values report; m = snd (classify_host_flow_progress chunk threshold report);
              true_large = int (length (filter (\<lambda>x. threshold \<le> hf_size x) fs))
    in large_count m \<le> true_large
     \<and> int (length (filter (\<lambda>x. threshold \<le> hf_size x \<and> 0 < progress_bytes x \<and> threshold \<le> progress_bytes x) fs)) \<le> large_count m
     \<and> true_large_count m = Some true_large
     \<and> large_count m + small_count m = int (length fs)
     \<and> (threshold \<le> chunk \<longrightarrow> (\<forall>x \<in> set fs. 0 < progress_bytes x) \<longrightarrow>
         large_count m = true_large \<and> true_small_count m = Some (small_count m)))"
proof -
  let ?fs = "dict_values report"
  let ?vis = "\<lambda>x. threshold \<le> host_visible chunk x"
  let ?big = "\<lambda>x. threshold \<le> hf_size x"
  have a1: "?big x" if "x \<in> set ?fs" "?vis x" for x
    using that assms(2) visible_le_size [of x chunk] by force
  have a2: "?vis x" if "?big x" "0 < progress_bytes x" "threshold \<le> progress_bytes x" for x
    using that aligned_bounds(1) [OF assms(1), of "progress_bytes x"]
    by (simp add: host_visible_def compute_chunk_visible_size_def)
  have a3: "?vis x" if "?big x" "0 < progress_bytes x" "threshold \<le> chunk" for x
  proof -
    have "1 \<le> (progress_bytes x + chunk - 1) div chunk"
      using assms(1) that(2) by (simp add: int_one_le_iff_zero_less pos_imp_zdiv_pos_iff)
    then have "chunk \<le> ((progress_bytes x + chunk - 1) div chunk) * chunk"
      using assms(1) mult_right_mono [of 1 "(progress_bytes x + chunk - 1) div chunk" chunk] by simp
    with that show ?thesis by (simp add: host_visible_def compute_chunk_visible_size_def)
  qed
  have le: "length (filter P xs) \<le> length (filter Q xs)" if "\<And>x. x \<in> set xs \<Longrightarrow> P x \<Longrightarrow> Q x"
    for P Q :: "host_flow \<Rightarrow> bool" and xs
    using that by (induction xs) (auto intro: le_SucI)
  have b1: "length (filter ?vis ?fs) \<le> length (filter ?big ?fs)" by (rule le) (rule a1)
  have b2: "length (filter (\<lambda>x. ?big x \<and> 0 < progress_bytes x \<and> threshold \<le> progress_bytes x) ?fs) \<le> length (filter ?vis ?fs)"
    by (rule le) (auto intro: a2)
  have b3: "length (filter ?vis ?fs) + length (filter (\<lambda>x. \<not> ?vis x) ?fs) = length ?fs"
    by (rule filter_partition_length)
  have b4: "filter ?vis ?fs = filter ?big ?fs \<and> filter (\<lambda>x. \<not> ?vis x) ?fs = filter (\<lambda>x. \<not> ?big x) ?fs"
    if "threshold \<le> chunk" "\<forall>x \<in> set ?fs. 0 < progress_bytes x"
    using a1 a3 that by (auto intro!: filter_cong)
  show ?thesis using b1 b2 b3 b4 by (simp add: classify_host_spec Let_def)
qed

theorem host_detection_sound_witness:
  "large_count (snd (classify_host_flow_progress 1048576 1048576
      [(''h1-4'', \<lparr>progress_bytes = 10, hf_size = 5000000\<rparr>), (''h2-9'', \<lparr>progress_bytes = 700, hf_size = 900\<rparr>)])) = 1"
  using host_detection_sound [of 1048576 "[(''h1-4'', \<lparr>progress_bytes = 10, hf_size = 5000000\<rparr>),
      (''h2-9'', \<lparr>progress_bytes = 700, hf_size = 900\<rparr>)]" 1048576]
  by (simp add: dict_values_def Let_def)

text \<open>Whichever monitoring path is configured, the divergence of two successive non-empty
  observations is the entropy routine applied to two probability distributions over large and small, never
  to the raw counts and never after a division by zero.\<close>

theorem divergence_on_distributions:
  assumes "a \<noteq> []" "b \<noteq> []" "sketch_valid x" "sketch_valid y" "0 < threshold" "0 \<le> t_reset"
  shows "(\<exists>p q. 0 \<le> p \<and> p \<le> 1 \<and> 0 \<le> q \<and> q \<le> 1
      \<and> compute_divergence entropy (fst (classify_host_flow_progress chunk threshold a))
          (fst (classify_host_flow_progress chunk threshold b)) = entropy [p, 1 - p] [q, 1 - q])
    \<and> (\<exists>p q. 0 \<le> p \<and> p \<le> 1 \<and> 0 \<le> q \<and> q \<le> 1
      \<and> compute_divergence entropy (fst (observe_sketch threshold w t_reset x))
          (fst (observe_sketch threshold w t_reset y)) = entropy [p, 1 - p] [q, 1 - q])"
  using host.divergence_is_between_distributions [OF assms(1,2)]
    sketch.divergence_is_between_distributions [of x threshold t_reset y entropy w] assms by blast

theorem divergence_on_distributions_witness:
  "\<exists>p q. 0 \<le> p \<and> p \<le> 1 \<and> 0 \<le> q \<and> q \<le> 1
      \<and> compute_divergence (\<lambda>p q. Fin (p ! 0 * ln (p ! 0 / q ! 0) + p ! 1 * ln (p ! 1 / q ! 1)))
          (fst (observe_sketch 100 3 10 ([(7, [(''f1'', 40)])], 5, []))) (fst (observe_sketch 100 3 10 ([(7, [(''f2'', 400)])], 6, [])))
        = Fin (p * ln (p / q) + (1 - p) * ln ((1 - p) / (1 - q)))"
proof -
  have v: "sketch_valid ([(7, [(''f1'', 40)])], 5, [])" "sketch_valid ([(7, [(''f2'', 400)])], 6, [])"
    by (simp_all add: sketch_valid_def nested_ok_def dict_ok_def)
  show ?thesis
    using divergence_on_distributions [of "[(''h1-4'', \<lparr>progress_bytes = 10, hf_size = 5\<rparr>)]"
        "[(''h1-4'', \<lparr>progress_bytes = 10, hf_size = 5\<rparr>)]", OF _ _ v, of 100 10
        "\<lambda>p q. Fin (p ! 0 * ln (p ! 0 / q ! 0) + p ! 1 * ln (p ! 1 / q ! 1))" 1 3] by simp
qed

end
