(* ===== verification/Metrics.thy ===== *)
theory Metrics
  imports FlowObservation
begin

text \<open>
  The measurements of \<^verbatim>\<open>scratch/tuning.py\<close> and the utility computed from them.

  \<^item> \<open>calculate_utility_breakdown\<close>, \<open>utility_function\<close>, \<open>judge_mode\<close>: pure arithmetic.
  \<^item> \<open>throughput_handling2\<close>, \<open>rtt_handling2\<close>: filters over the rows of a data frame.
  \<^item> \<open>pfc_handling_with_state\<close>: the incremental reader of the pause trace; a frame is the list of
    (label, row) pairs left after \<^verbatim>\<open>dropna\<close>, since the code mixes labels and positions.
  \<^item> \<open>latest_snapshot_time\<close> and the two polling loops. A polling loop sees the file system at its
    successive polls: files are functions of the poll number, and a loop that never returns is \<open>None\<close>.

  \<^verbatim>\<open>pd.read_table\<close> is outside the repository: what it returns (rows, or the exception it raises) is
  an argument. So is \<^verbatim>\<open>np.mean\<close>, with the hypothesis \<open>mean_law\<close> where a theorem needs it.
\<close>

section \<open>Utility\<close>

definition base_throughput :: real where "base_throughput = 100"

definition base_rtt :: real where "base_rtt = 40"

record utility_breakdown =
  ub_throughput :: real
  ub_rtt :: real
  ub_pfc :: real
  throughput_norm :: real
  rtt_norm :: real
  pfc_norm :: real
  ub_throughput_weight :: real
  ub_rtt_weight :: real
  ub_pfc_weight :: real
  throughput_utility :: real
  rtt_utility :: real
  pfc_utility :: real
  total_utility :: real

definition calculate_utility_breakdown ::
  "real \<Rightarrow> real \<Rightarrow> real \<Rightarrow> real \<Rightarrow> real \<Rightarrow> real \<Rightarrow> utility_breakdown" where
  "calculate_utility_breakdown throughput rtt pfc throughput_weight rtt_weight pfc_weight =
    (let tn = (if base_throughput \<noteq> 0 then throughput / base_throughput else 0);
         rn = (if rtt > 0 then base_rtt / rtt else 0);
         pn = max 0 (1 - pfc);
         tu = throughput_weight * tn; ru = rtt_weight * rn; pu = pfc_weight * pn
     in \<lparr>ub_throughput = throughput, ub_rtt = rtt, ub_pfc = pfc,
         throughput_norm = tn, rtt_norm = rn, pfc_norm = pn,
         ub_throughput_weight = throughput_weight, ub_rtt_weight = rtt_weight, ub_pfc_weight = pfc_weight,
         throughput_utility = tu, rtt_utility = ru, pfc_utility = pu, total_utility = tu + ru + pu\<rparr>)"

definition utility_function :: "real \<Rightarrow> real \<Rightarrow> real \<Rightarrow> real \<Rightarrow> real \<Rightarrow> real \<Rightarrow> real" where
  "utility_function throughput rtt pfc throughput_weight rtt_weight pfc_weight =
    total_utility (calculate_utility_breakdown throughput rtt pfc throughput_weight rtt_weight pfc_weight)"

text \<open>The settings \<open>judge_mode\<close> reads: two weight tuples, which may have any length, and a threshold.\<close>

record mode_cfg =
  AGGRESSIVE_WEIGHTS :: "real list"
  CONSERVATIVE_WEIGHTS :: "real list"
  AGGRESSIVE_MODE_LARGE_FLOW_THRESHOLD :: real

type_synonym mode_choice = "pmode \<times> real \<times> real \<times> real"

fun unpack3 :: "'a list \<Rightarrow> ('a \<times> 'a \<times> 'a) res" where
  "unpack3 [a, b, c] = Inr (a, b, c)"
| "unpack3 _ = Inl ValueError"

definition judge_mode :: "mode_cfg \<Rightarrow> real \<Rightarrow> real \<Rightarrow> mode_choice res" where
  "judge_mode cfg large_flow_num small_flow_num =
    (let total_flow_num = large_flow_num + small_flow_num;
         large_flow_ratio = (if total_flow_num > 0 then large_flow_num / total_flow_num else 0)
     in if large_flow_ratio \<ge> AGGRESSIVE_MODE_LARGE_FLOW_THRESHOLD cfg
        then res_bind (unpack3 (AGGRESSIVE_WEIGHTS cfg)) (\<lambda>(t, r, p). Inr (Aggressive, t, r, p))
        else res_bind (unpack3 (CONSERVATIVE_WEIGHTS cfg)) (\<lambda>(t, r, p). Inr (Conservative, t, r, p)))"

section \<open>Throughput and round-trip times\<close>

definition mean_or_default :: "(real list \<Rightarrow> real) \<Rightarrow> real list \<Rightarrow> real \<Rightarrow> real" where
  "mean_or_default np_mean vs default_value = (if vs = [] then default_value else np_mean vs)"

type_synonym rtt_row = "real \<times> string \<times> real"
type_synonym thr_row = "real \<times> int \<times> int \<times> real"

definition rtt_handling2 :: "rtt_row list res \<Rightarrow> real list res" where
  "rtt_handling2 frame = res_bind frame (\<lambda>data.
    if data = [] then Inr []
    else Inr (concat (map (\<lambda>(time, sip_dip_pair, rtt).
           let rtt_value = rtt / 1000
           in if \<not> str_contains ''-'' sip_dip_pair then [] else [rtt_value]) data)))"

definition throughput_handling2 :: "real \<Rightarrow> thr_row list res \<Rightarrow> real list res" where
  "throughput_handling2 monitor_window_seconds frame = res_bind frame (\<lambda>data.
    if data = [] then Inr []
    else Inr (concat (map (\<lambda>(time, switch, port_id, rx_bytes).
           if port_id \<le> 0 then [] else [rx_bytes * 8 / monitor_window_seconds / 1000000000]) data)))"

section \<open>Pause frames\<close>

record pfc_row =
  pr_time :: real
  node_id :: int
  if_index :: int
  pfc_type :: int

type_synonym link = "int \<times> int"
type_synonym pfc_frame = "(nat \<times> pfc_row) list"

definition link_key :: "pfc_row \<Rightarrow> link" where
  "link_key row = (node_id row, if_index row)"

text \<open>The loop over the rows: \<open>Inl\<close> the label of the row it breaks at, \<open>Inr\<close> when it runs out of rows;
  then the links active in this round and the next state.\<close>

fun pfc_loop :: "real \<Rightarrow> real \<Rightarrow> pfc_frame \<Rightarrow> link set \<Rightarrow> link set \<Rightarrow> nat option \<times> link set \<times> link set" where
  "pfc_loop start_time stop_time [] active_links next_links = (None, active_links, next_links)"
| "pfc_loop start_time stop_time ((index, row) # data) active_links next_links =
    (if pr_time row < start_time
     then pfc_loop start_time stop_time data active_links
            (if pfc_type row = 20000 then insert (link_key row) next_links
             else if pfc_type row = 10000 then next_links - {link_key row} else next_links)
     else if start_time \<le> pr_time row \<and> pr_time row \<le> stop_time
     then (let active1 = (if link_key row \<in> next_links then insert (link_key row) active_links else active_links)
           in if pfc_type row = 20000
              then pfc_loop start_time stop_time data (insert (link_key row) active1) (insert (link_key row) next_links)
              else if pfc_type row = 10000
              then pfc_loop start_time stop_time data active1 (next_links - {link_key row})
              else pfc_loop start_time stop_time data active1 next_links)
     else (Some index, active_links, next_links))"

definition pfc_handling_with_state ::
  "nat \<Rightarrow> pfc_frame res \<Rightarrow> real \<Rightarrow> real \<Rightarrow> nat \<Rightarrow> link set \<Rightarrow> (real \<times> nat \<times> link set) res" where
  "pfc_handling_with_state total_directed_links frame start_time stop_time start_line active_links_state =
    res_bind frame (\<lambda>data.
      let (stopped, active_links, next_links) =
            pfc_loop start_time stop_time (drop start_line data) active_links_state active_links_state;
          next_start_line = (case stopped of Some index \<Rightarrow> index | None \<Rightarrow> length data);
          active_ratio = (if total_directed_links \<noteq> 0 then real (card active_links) / real total_directed_links else 0)
      in Inr (active_ratio, next_start_line, next_links))"

text \<open>The reader's own state (\<^verbatim>\<open>pfc_start_line\<close>, \<^verbatim>\<open>pfc_active_links\<close>, and the
  \<^verbatim>\<open>observation_\<close> pair of the monitor loop).\<close>

record pfc_cursor =
  start_line :: nat
  active_links :: "link set"

definition pfc_handling ::
  "nat \<Rightarrow> pfc_frame res \<Rightarrow> real \<Rightarrow> real \<Rightarrow> pfc_cursor \<Rightarrow> (real \<times> pfc_cursor) res" where
  "pfc_handling total_directed_links frame start_time stop_time c =
    res_bind (pfc_handling_with_state total_directed_links frame start_time stop_time (start_line c) (active_links c))
      (\<lambda>(active_ratio, next_line, next_links).
         Inr (active_ratio, \<lparr>start_line = next_line, active_links = next_links\<rparr>))"

section \<open>Snapshots and polling\<close>

definition snapshot_line :: "string \<Rightarrow> pyfloat option \<Rightarrow> pyfloat option" where
  "snapshot_line line latest =
    (case split_ws (str_strip line) of
       [] \<Rightarrow> latest
     | p # _ \<Rightarrow> (case py_float p of Inl _ \<Rightarrow> latest | Inr t \<Rightarrow> Some t))"

definition latest_snapshot_time :: "string option \<Rightarrow> pyfloat option" where
  "latest_snapshot_time file =
    (case file of None \<Rightarrow> None
     | Some content \<Rightarrow> if content = [] then None else fold snapshot_line (file_lines content) None)"

definition snapshots_ready :: "(nat \<Rightarrow> string option) \<Rightarrow> (nat \<Rightarrow> string option) \<Rightarrow> pyfloat \<Rightarrow> nat \<Rightarrow> bool" where
  "snapshots_ready throughput_file rtt_file target_time i =
    (case (latest_snapshot_time (throughput_file i), latest_snapshot_time (rtt_file i)) of
       (Some throughput_time, Some rtt_time) \<Rightarrow> flt_le target_time throughput_time \<and> flt_le target_time rtt_time
     | _ \<Rightarrow> False)"

partial_function (option) wait_for_monitor_snapshots_at_or_after ::
  "(nat \<Rightarrow> string option) \<Rightarrow> (nat \<Rightarrow> string option) \<Rightarrow> pyfloat \<Rightarrow> nat \<Rightarrow> nat option" where
  "wait_for_monitor_snapshots_at_or_after throughput_file rtt_file target_time i =
    (if snapshots_ready throughput_file rtt_file target_time i then Some i
     else wait_for_monitor_snapshots_at_or_after throughput_file rtt_file target_time (Suc i))"

partial_function (option) wait_for_throughput_snapshot_after ::
  "(nat \<Rightarrow> thr_row list res) \<Rightarrow> real \<Rightarrow> nat \<Rightarrow> (real \<times> nat) res option" where
  "wait_for_throughput_snapshot_after frames target_time i =
    (case frames i of
       Inl e \<Rightarrow> Some (Inl e)
     | Inr data \<Rightarrow>
         (if data = [] then wait_for_throughput_snapshot_after frames target_time (Suc i)
          else if fst (last data) > target_time then Some (Inr (fst (last data), i))
          else wait_for_throughput_snapshot_after frames target_time (Suc i)))"

declare wait_for_monitor_snapshots_at_or_after.simps [code]
declare wait_for_throughput_snapshot_after.simps [code]

section \<open>Polling loops\<close>

text \<open>What both loops share: they test one poll after the other and stop at the first that is ready.\<close>

locale poll_loop =
  fixes wait :: "nat \<Rightarrow> 'r option" and ready :: "nat \<Rightarrow> bool" and outcome :: "nat \<Rightarrow> 'r"
  assumes unroll: "wait i = (if ready i then Some (outcome i) else wait (Suc i))"
begin

lemma returns_at_first_ready:
  assumes "i \<le> k" "ready k"
  shows "\<exists>j. i \<le> j \<and> j \<le> k \<and> ready j \<and> (\<forall>n. i \<le> n \<and> n < j \<longrightarrow> \<not> ready n) \<and> wait i = Some (outcome j)"
  using assms
proof (induction "k - i" arbitrary: i)
  case 0
  then have "i = k" by simp
  with 0 show ?case using unroll [of i] by (intro exI [of _ i]) auto
next
  case (Suc d)
  show ?case
  proof (cases "ready i")
    case True
    then show ?thesis using unroll [of i] Suc.prems by (intro exI [of _ i]) auto
  next
    case False
    with Suc.prems Suc.hyps(2) have lt: "Suc i \<le> k" by (cases "i = k") auto
    then obtain j where j: "Suc i \<le> j" "j \<le> k" "ready j" "\<forall>n. Suc i \<le> n \<and> n < j \<longrightarrow> \<not> ready n"
      "wait (Suc i) = Some (outcome j)"
      using Suc.hyps(1) [of "Suc i", OF _ lt Suc.prems(2)] Suc.hyps(2) by (metis Suc_diff_Suc diff_Suc_Suc nat.inject lt Suc_le_lessD)
    have "\<not> ready n" if "i \<le> n" "n < j" for n
      using that False j(4) by (cases "n = i") auto
    moreover have "wait i = Some (outcome j)" using j(5) False unroll [of i] by simp
    moreover have "i \<le> j" using j(1) by simp
    ultimately show ?thesis using j(2,3) by blast
  qed
qed

end

interpretation monitor_wait: poll_loop
  "wait_for_monitor_snapshots_at_or_after throughput_file rtt_file target_time"
  "snapshots_ready throughput_file rtt_file target_time" "\<lambda>i. i" for throughput_file rtt_file target_time
  by unfold_locales (rule wait_for_monitor_snapshots_at_or_after.simps)

text \<open>A poll of the throughput loop ends it when pandas raises or the last row is late enough.\<close>

definition throughput_ready :: "(nat \<Rightarrow> thr_row list res) \<Rightarrow> real \<Rightarrow> nat \<Rightarrow> bool" where
  "throughput_ready frames target_time i =
    (case frames i of Inl _ \<Rightarrow> True | Inr data \<Rightarrow> data \<noteq> [] \<and> fst (last data) > target_time)"

definition throughput_outcome :: "(nat \<Rightarrow> thr_row list res) \<Rightarrow> nat \<Rightarrow> (real \<times> nat) res" where
  "throughput_outcome frames i = res_bind (frames i) (\<lambda>data. Inr (fst (last data), i))"

interpretation throughput_wait: poll_loop
  "wait_for_throughput_snapshot_after frames target_time"
  "throughput_ready frames target_time" "throughput_outcome frames" for frames target_time
  by unfold_locales
    (subst wait_for_throughput_snapshot_after.simps,
     auto simp: throughput_ready_def throughput_outcome_def split: sum.splits)

text \<open>Waiting is live and exact: as soon as some poll finds both monitor files at or past the target
  time, \<open>wait_for_monitor_snapshots_at_or_after\<close> has returned, and it returned at the first such poll.\<close>

theorem monitor_wait_returns:
  assumes "i \<le> k" "snapshots_ready throughput_file rtt_file target_time k"
  shows "\<exists>j. i \<le> j \<and> j \<le> k \<and> snapshots_ready throughput_file rtt_file target_time j
    \<and> (\<forall>n. i \<le> n \<and> n < j \<longrightarrow> \<not> snapshots_ready throughput_file rtt_file target_time n)
    \<and> wait_for_monitor_snapshots_at_or_after throughput_file rtt_file target_time i = Some j"
  by (rule monitor_wait.returns_at_first_ready [OF assms])

theorem monitor_wait_returns_witness:
  "wait_for_monitor_snapshots_at_or_after (\<lambda>i. if i < 2 then None else Some ''2.5 0 1 90'')
     (\<lambda>i. Some ''3 1-2 40'') (Fin 2) 0 = Some 2"
proof -
  let ?f = "\<lambda>i. if i < 2 then None else Some ''2.5 0 1 90''" and ?g = "\<lambda>i. Some ''3 1-2 40''"
  have "latest_snapshot_time (Some ''2.5 0 1 90'') = Some (Fin (5/2))" "latest_snapshot_time (Some ''3 1-2 40'') = Some (Fin 3)"
    by code_simp+
  then have r: "snapshots_ready ?f ?g (Fin 2) n \<longleftrightarrow> 2 \<le> n" for n :: nat
    by (simp add: snapshots_ready_def latest_snapshot_time_def flt_le_def)
  have "snapshots_ready ?f ?g (Fin 2) 2" using r by blast
  from monitor_wait_returns [of 0 2 ?f ?g "Fin 2", OF _ this] obtain j where
    "j \<le> 2" "snapshots_ready ?f ?g (Fin 2) j" "wait_for_monitor_snapshots_at_or_after ?f ?g (Fin 2) 0 = Some j" by auto
  moreover from this r have "j = 2" by (metis le_antisym)
  ultimately show ?thesis by simp
qed

text \<open>The round wait of the annealing loop returns at the first poll whose last throughput row is
  strictly after the target time, with that row's time; if pandas raises at an earlier poll the exception is the
  outcome instead. It cannot miss a snapshot.\<close>

theorem throughput_wait_returns:
  assumes "i \<le> k" "frames k = Inr data" "data \<noteq> []" "target_time < fst (last data)"
  shows "\<exists>j. i \<le> j \<and> j \<le> k
    \<and> (\<forall>n. i \<le> n \<and> n < j \<longrightarrow> (\<exists>d. frames n = Inr d \<and> (d = [] \<or> fst (last d) \<le> target_time)))
    \<and> (case wait_for_throughput_snapshot_after frames target_time i of
         None \<Rightarrow> False
       | Some (Inl e) \<Rightarrow> frames j = Inl e
       | Some (Inr (t, p)) \<Rightarrow> p = j \<and> target_time < t \<and> (\<exists>d. frames j = Inr d \<and> d \<noteq> [] \<and> t = fst (last d)))"
proof -
  have "throughput_ready frames target_time k" using assms by (simp add: throughput_ready_def)
  from throughput_wait.returns_at_first_ready [OF assms(1) this] obtain j where
    j: "i \<le> j" "j \<le> k" "throughput_ready frames target_time j"
      "\<forall>n. i \<le> n \<and> n < j \<longrightarrow> \<not> throughput_ready frames target_time n"
      "wait_for_throughput_snapshot_after frames target_time i = Some (throughput_outcome frames j)" by blast
  have "\<forall>n. i \<le> n \<and> n < j \<longrightarrow> (\<exists>d. frames n = Inr d \<and> (d = [] \<or> fst (last d) \<le> target_time))"
    using j(4) by (fastforce simp: throughput_ready_def not_less split: sum.splits)
  with j show ?thesis
    by (intro exI [of _ j]) (auto simp: throughput_ready_def throughput_outcome_def split: sum.splits)
qed

theorem throughput_wait_returns_witness:
  "\<exists>j \<le> 1. case wait_for_throughput_snapshot_after (\<lambda>i. Inr (if i = 0 then [] else [(3, 0, 1, 90)])) 2 0 of
     None \<Rightarrow> False | Some (Inl e) \<Rightarrow> False | Some (Inr (t, p)) \<Rightarrow> p = j \<and> 2 < t"
proof -
  let ?f = "\<lambda>i. Inr (if i = 0 then [] else [(3, 0, 1, 90)]) :: thr_row list res"
  obtain j where "j \<le> 1" "case wait_for_throughput_snapshot_after ?f 2 0 of
         None \<Rightarrow> False | Some (Inl e) \<Rightarrow> ?f j = Inl e
       | Some (Inr (t, p)) \<Rightarrow> p = j \<and> 2 < t \<and> (\<exists>d. ?f j = Inr d \<and> d \<noteq> [] \<and> t = fst (last d))"
    using throughput_wait_returns [of 0 1 ?f "[(3, 0, 1, 90)]" 2] by auto
  then show ?thesis by (intro exI [of _ j]) (auto split: option.splits sum.splits)
qed

section \<open>Utility: bounds and monotonicity\<close>

lemma utility_eq:
  "utility_function t r p wt wr wp = wt * (t / 100) + wr * (if r > 0 then 40 / r else 0) + wp * max 0 (1 - p)"
  by (simp add: utility_function_def calculate_utility_breakdown_def Let_def base_throughput_def base_rtt_def)

lemma weighted_le_one:
  fixes a b c :: real
  assumes "0 \<le> wt" "0 \<le> wr" "0 \<le> wp" "wt + wr + wp = 1" "a \<le> 1" "b \<le> 1" "c \<le> 1"
  shows "wt * a + wr * b + wp * c \<le> 1"
proof -
  have "wt * a \<le> wt" "wr * b \<le> wr" "wp * c \<le> wp" using assms by (simp_all add: mult_left_le)
  with assms(4) show ?thesis by linarith
qed

text \<open>With weights that are not negative the utility is monotone: more throughput, a smaller positive
  round-trip time and a smaller pause ratio never lower it; with weights that sum to one it lies in the unit
  interval for every reading inside the link rate and above the base round-trip time.\<close>

theorem utility_monotone_bounded:
  assumes "0 \<le> wt" "0 \<le> wr" "0 \<le> wp"
    and "0 \<le> t" "t \<le> t'" "0 < r'" "r' \<le> r" "p' \<le> p"
  shows "utility_function t r p wt wr wp \<le> utility_function t' r' p' wt wr wp
    \<and> 0 \<le> utility_function t r p wt wr wp
    \<and> (wt + wr + wp = 1 \<longrightarrow> t' \<le> base_throughput \<longrightarrow> base_rtt \<le> r' \<longrightarrow> 0 \<le> p' \<longrightarrow>
        utility_function t' r' p' wt wr wp \<le> 1)"
proof (intro conjI impI)
  show "utility_function t r p wt wr wp \<le> utility_function t' r' p' wt wr wp"
    unfolding utility_eq using assms by (intro add_mono mult_left_mono) (auto simp: frac_le)
  show "0 \<le> utility_function t r p wt wr wp"
    unfolding utility_eq using assms by (intro add_nonneg_nonneg mult_nonneg_nonneg) auto
  assume "wt + wr + wp = 1" "t' \<le> base_throughput" "base_rtt \<le> r'" "0 \<le> p'"
  with assms show "utility_function t' r' p' wt wr wp \<le> 1"
    unfolding utility_eq base_throughput_def base_rtt_def by (intro weighted_le_one) auto
qed

theorem utility_monotone_bounded_witness:
  "utility_function 40 80 0.5 0.6 0.2 0.2 \<le> utility_function 60 50 0.1 0.6 0.2 0.2
    \<and> utility_function 60 50 0.1 0.6 0.2 0.2 \<le> 1"
  using utility_monotone_bounded [of "0.6" "0.2" "0.2" 40 60 50 80 "0.1" "0.5"]
  by (simp add: base_throughput_def base_rtt_def)

text \<open>\<open>judge_mode\<close> is total on weight triples and picks the aggressive weights exactly when the
  share of large flows reaches the threshold (a share of zero when nothing was seen); a weight tuple of another
  length in the chosen mode is a \<^verbatim>\<open>ValueError\<close>, even though the settings accepted it.\<close>

theorem judge_mode_spec:
  "judge_mode cfg l s =
    (let large = (if l + s > 0 then l / (l + s) else 0) \<ge> AGGRESSIVE_MODE_LARGE_FLOW_THRESHOLD cfg;
         ws = (if large then AGGRESSIVE_WEIGHTS cfg else CONSERVATIVE_WEIGHTS cfg)
     in if length ws = 3 then Inr (if large then Aggressive else Conservative, ws ! 0, ws ! 1, ws ! 2)
        else Inl ValueError)"
proof -
  have u: "unpack3 ws = (if length ws = 3 then Inr (ws ! 0, ws ! 1, ws ! 2) else Inl ValueError)" for ws :: "real list"
    by (cases ws rule: unpack3.cases) auto
  show ?thesis unfolding judge_mode_def Let_def u by simp
qed

section \<open>Averages\<close>

text \<open>What the tuner needs of \<^verbatim>\<open>np.mean\<close>: the mean of a non-empty list lies between two bounds of
  its elements.\<close>

definition mean_law :: "(real list \<Rightarrow> real) \<Rightarrow> bool" where
  "mean_law np_mean \<longleftrightarrow> (\<forall>vs lo. vs \<noteq> [] \<longrightarrow> (\<forall>v \<in> set vs. lo < v) \<longrightarrow> lo < np_mean vs)
     \<and> (\<forall>vs hi. vs \<noteq> [] \<longrightarrow> (\<forall>v \<in> set vs. v \<le> hi) \<longrightarrow> np_mean vs \<le> hi)"

definition average_throughput :: "(real list \<Rightarrow> real) \<Rightarrow> real list \<Rightarrow> real" where
  "average_throughput np_mean throughput_matrix = mean_or_default np_mean (filter (\<lambda>v. v > 5) throughput_matrix) 0"

definition average_rtt :: "(real list \<Rightarrow> real) \<Rightarrow> real list \<Rightarrow> real" where
  "average_rtt np_mean rtt_matrix = mean_or_default np_mean (filter (\<lambda>v. v > 0) rtt_matrix) base_rtt"

lemma mean_law_div: "mean_law (\<lambda>vs. sum_list vs / real (length vs))"
proof -
  have lo: "lo * real (length vs) < sum_list vs" if "vs \<noteq> []" "\<forall>v \<in> set vs. lo < v" for vs and lo :: real
    using that
  proof (induction vs)
    case (Cons v vs)
    then show ?case by (cases "vs = []") (auto simp: algebra_simps intro: add_strict_mono)
  qed simp
  have hi: "sum_list vs \<le> hi * real (length vs)" if "\<forall>v \<in> set vs. v \<le> hi" for vs and hi :: real
    using that by (induction vs) (auto simp: algebra_simps intro: add_mono)
  show ?thesis unfolding mean_law_def
    using lo hi by (auto simp: pos_less_divide_eq pos_divide_le_eq)
qed

text \<open>The averages fed to the utility are safe to divide by: the average round-trip time is always
  positive, so its normalised value is positive and the guard of the division never decides; the average
  throughput is zero or more than 5, and never exceeds the largest port rate.\<close>

theorem averages_safe:
  assumes "mean_law np_mean"
  shows "0 < average_rtt np_mean rtts
    \<and> rtt_norm (calculate_utility_breakdown t (average_rtt np_mean rtts) p wt wr wp) = base_rtt / average_rtt np_mean rtts
    \<and> 0 < rtt_norm (calculate_utility_breakdown t (average_rtt np_mean rtts) p wt wr wp)
    \<and> (average_throughput np_mean rates = 0 \<or> 5 < average_throughput np_mean rates)
    \<and> (0 \<le> rate \<longrightarrow> (\<forall>v \<in> set rates. v \<le> rate) \<longrightarrow> average_throughput np_mean rates \<le> rate)"
proof -
  have lo: "lo < np_mean (filter (\<lambda>v. v > lo) vs)" if "filter (\<lambda>v. v > lo) vs \<noteq> []" for vs lo
    using assms that unfolding mean_law_def by (metis (mono_tags, lifting) mem_Collect_eq set_filter)
  have pos: "0 < average_rtt np_mean rtts"
    using lo [of 0 rtts] by (auto simp: average_rtt_def mean_or_default_def base_rtt_def)
  moreover have "average_throughput np_mean rates = 0 \<or> 5 < average_throughput np_mean rates"
    using lo [of 5 rates] by (auto simp: average_throughput_def mean_or_default_def)
  moreover have "average_throughput np_mean rates \<le> rate" if "0 \<le> rate" "\<forall>v \<in> set rates. v \<le> rate"
    using that assms by (auto simp: average_throughput_def mean_or_default_def mean_law_def)
  ultimately show ?thesis
    by (auto simp: calculate_utility_breakdown_def Let_def base_rtt_def)
qed

theorem averages_safe_witness:
  "0 < average_rtt (\<lambda>vs. sum_list vs / real (length vs)) [0, 30, 50]
    \<and> average_throughput (\<lambda>vs. sum_list vs / real (length vs)) [1, 90, 20] \<le> 100"
  using averages_safe [OF mean_law_div, where rtts = "[0, 30, 50]" and rates = "[1, 90, 20]" and rate = 100] by simp

section \<open>The pause-frame reader\<close>

text \<open>The abstract reading: which links are paused after a sequence of pause (20000) and resume (10000)
  events.\<close>

definition pfc_event :: "pfc_row \<Rightarrow> link set \<Rightarrow> link set" where
  "pfc_event row S =
    (if pfc_type row = 20000 then insert (link_key row) S
     else if pfc_type row = 10000 then S - {link_key row} else S)"

definition paused :: "pfc_row list \<Rightarrow> link set" where
  "paused rows = fold pfc_event rows {}"

definition in_scope :: "real \<Rightarrow> real \<Rightarrow> pfc_row \<Rightarrow> bool" where
  "in_scope start_time stop_time row \<longleftrightarrow> pr_time row < start_time \<or> pr_time row \<le> stop_time"

lemma pfc_loop_step:
  "pfc_loop a b ((i, row) # data) A N =
    (if in_scope a b row
     then pfc_loop a b data
       (if pr_time row < a then A
        else if pfc_type row = 20000 \<or> link_key row \<in> N then insert (link_key row) A else A) (pfc_event row N)
     else (Some i, A, N))"
  by (auto simp: in_scope_def pfc_event_def Let_def insert_absorb)

declare pfc_loop.simps(2) [simp del]

lemma pfc_loop_next:
  "snd (snd (pfc_loop a b (enumerate n rows) A N)) = fold pfc_event (takeWhile (in_scope a b) rows) N"
  "fst (pfc_loop a b (enumerate n rows) A N) =
    (if length (takeWhile (in_scope a b) rows) < length rows then Some (n + length (takeWhile (in_scope a b) rows)) else None)"
  by (induction rows arbitrary: n A N) (simp_all add: pfc_loop_step)

lemma pfc_loop_active:
  assumes "\<forall>row \<in> set rows. a \<le> pr_time row" "N \<subseteq> A"
  shows "fst (snd (pfc_loop a b (enumerate n rows) A N)) =
    A \<union> link_key ` {row \<in> set (takeWhile (in_scope a b) rows). pfc_type row = 20000}"
  using assms
proof (induction rows arbitrary: n A N)
  case (Cons row rows)
  let ?A = "if pfc_type row = 20000 \<or> link_key row \<in> N then insert (link_key row) A else A"
  have *: "pfc_event row N \<subseteq> ?A" using Cons.prems(2) by (auto simp: pfc_event_def)
  have eq: "?A = A \<union> (if pfc_type row = 20000 then {link_key row} else {})" using Cons.prems(2) by auto
  show ?case
    using Cons.IH [OF _ *, of "Suc n"] Cons.prems(1) eq by (auto simp: pfc_loop_step not_less [symmetric])
qed simp

lemma drop_enumerate0: "drop k (enumerate 0 rows) = enumerate k (drop k rows)"
  by (cases "k \<le> length rows") (simp_all add: enumerate_eq_zip drop_zip)

definition cursor_ok :: "pfc_row list \<Rightarrow> pfc_cursor \<Rightarrow> bool" where
  "cursor_ok rows c \<longleftrightarrow> start_line c \<le> length rows \<and> active_links c = paused (take (start_line c) rows)"

lemma cursor_ok_extend: "cursor_ok rows c \<Longrightarrow> cursor_ok (rows @ rest) c"
  by (simp add: cursor_ok_def)

lemma pfc_handling_eq:
  assumes "start_line c \<le> length rows"
  shows "pfc_handling links (Inr (enumerate 0 rows)) a b c =
    (let seen = takeWhile (in_scope a b) (drop (start_line c) rows);
         A = fst (snd (pfc_loop a b (enumerate (start_line c) (drop (start_line c) rows)) (active_links c) (active_links c)))
     in Inr (if links \<noteq> 0 then real (card A) / real links else 0,
          \<lparr>start_line = start_line c + length seen, active_links = fold pfc_event seen (active_links c)\<rparr>))"
proof -
  let ?d = "drop (start_line c) rows"
  let ?p = "pfc_loop a b (enumerate (start_line c) ?d) (active_links c) (active_links c)"
  have len: "length (takeWhile (in_scope a b) ?d) \<le> length ?d" by (rule length_takeWhile_le)
  obtain x y z where p: "?p = (x, y, z)" by (cases ?p)
  have x: "x = (if length (takeWhile (in_scope a b) ?d) < length ?d
      then Some (start_line c + length (takeWhile (in_scope a b) ?d)) else None)"
    and z: "z = fold pfc_event (takeWhile (in_scope a b) ?d) (active_links c)"
    using pfc_loop_next [of a b "start_line c" ?d "active_links c" "active_links c"] p by simp_all
  show ?thesis using assms len
    by (auto simp: pfc_handling_def pfc_handling_with_state_def drop_enumerate0 p x z Let_def)
qed

text \<open>C29: the incremental reader loses no event and reads none twice. As long as no row of the frame was
  dropped (labels are positions), every call keeps the cursor invariant: the remembered links are exactly those
  paused after the rows before the cursor, in the file as it is now and as it will be extended; the cursor
  moves forward over the rows up to the end of the window and stops at the first later row.\<close>

theorem pfc_cursor_invariant:
  assumes "cursor_ok rows c" "pfc_handling links (Inr (enumerate 0 rows)) a b c = Inr (ratio, c')"
  shows "cursor_ok (rows @ rest) c' \<and> start_line c \<le> start_line c'
    \<and> (\<forall>n. start_line c \<le> n \<and> n < start_line c' \<longrightarrow> in_scope a b (rows ! n))
    \<and> (start_line c' < length rows \<longrightarrow> b < pr_time (rows ! start_line c'))"
proof -
  let ?k = "start_line c" let ?d = "drop ?k rows" let ?seen = "takeWhile (in_scope a b) ?d"
  have k: "?k \<le> length rows" "active_links c = paused (take ?k rows)"
    using assms(1) by (simp_all add: cursor_ok_def)
  have c': "start_line c' = ?k + length ?seen" "active_links c' = fold pfc_event ?seen (active_links c)"
    using assms(2) by (auto simp: pfc_handling_eq [OF k(1)] Let_def)
  have len: "length ?seen \<le> length rows - ?k" using length_takeWhile_le [of "in_scope a b" ?d] by simp
  have tk: "take (length ?seen) ?d = ?seen" by (rule takeWhile_eq_take [symmetric])
  have "take (?k + length ?seen) rows = take ?k rows @ ?seen" using tk by (simp add: take_add)
  then have "cursor_ok rows c'" using k c' len by (simp add: cursor_ok_def paused_def)
  moreover have "in_scope a b (rows ! n)" if "?k \<le> n" "n < start_line c'" for n
  proof -
    have i: "n - ?k < length ?seen" using that c'(1) by simp
    have "in_scope a b (?seen ! (n - ?k))" using set_takeWhileD [OF nth_mem [OF i]] by blast
    moreover have "?seen ! (n - ?k) = rows ! n" using i that k(1) by (simp add: takeWhile_nth)
    ultimately show ?thesis by simp
  qed
  moreover have "b < pr_time (rows ! start_line c')" if "start_line c' < length rows"
  proof -
    have "length ?seen < length ?d" using that c'(1) by simp
    then have "\<not> in_scope a b (?d ! length ?seen)" by (rule nth_length_takeWhile)
    then show ?thesis using c'(1) k(1) by (simp add: in_scope_def)
  qed
  ultimately show ?thesis using c'(1) by (simp add: cursor_ok_extend)
qed

text \<open>The links paused after the first \<open>k\<close> rows, and those that pause in a later row up to time \<open>b\<close>.\<close>

definition busy_links :: "pfc_row list \<Rightarrow> nat \<Rightarrow> real \<Rightarrow> link set" where
  "busy_links rows k b = paused (take k rows)
     \<union> link_key ` {row \<in> set (takeWhile (\<lambda>row. pr_time row \<le> b) (drop k rows)). pfc_type row = 20000}"


text \<open>A small trace: link (1, 0) pauses at 1 and resumes at 3, link (2, 5) pauses at 4.\<close>

definition sample_trace :: "pfc_row list" where
  "sample_trace = [\<lparr>pr_time = 1, node_id = 1, if_index = 0, pfc_type = 20000\<rparr>,
                   \<lparr>pr_time = 3, node_id = 1, if_index = 0, pfc_type = 10000\<rparr>,
                   \<lparr>pr_time = 4, node_id = 2, if_index = 5, pfc_type = 20000\<rparr>]"

lemmas pfc_eval = pfc_handling_def pfc_handling_with_state_def pfc_loop_step in_scope_def pfc_event_def link_key_def

lemma sample_calls:
  "pfc_handling 4 (Inr (enumerate 0 sample_trace)) 0 2 \<lparr>start_line = 0, active_links = {}\<rparr>
    = Inr (1/4, \<lparr>start_line = 1, active_links = {(1, 0)}\<rparr>)"
  "pfc_handling 4 (Inr (enumerate 0 sample_trace)) 2 5 \<lparr>start_line = 1, active_links = {(1, 0)}\<rparr>
    = Inr (1/2, \<lparr>start_line = 3, active_links = {(2, 5)}\<rparr>)"
  by (simp_all add: pfc_eval sample_trace_def)

lemma sample_cursor: "cursor_ok sample_trace \<lparr>start_line = 1, active_links = {(1, 0)}\<rparr>"
  by (simp add: cursor_ok_def paused_def sample_trace_def pfc_event_def link_key_def)

theorem pfc_cursor_invariant_witness:
  "cursor_ok sample_trace \<lparr>start_line = 3, active_links = {(2, 5)}\<rparr>"
  using pfc_cursor_invariant [OF sample_cursor sample_calls(2), of "[]"] by simp


text \<open>Two situations outside the hypotheses, where the reader goes wrong. After a gap, a link that paused
  before the window and stays paused through it is not counted, and one that resumed before the window still is.\<close>

lemma pfc_gap_miscounts:
  "pfc_handling 4 (Inr (enumerate 0 (take 1 sample_trace))) 2 2.5 \<lparr>start_line = 0, active_links = {}\<rparr>
     = Inr (0, \<lparr>start_line = 1, active_links = {(1, 0)}\<rparr>)"
  "pfc_handling 4 (Inr (enumerate 0 (take 2 sample_trace))) 3.5 3.8 \<lparr>start_line = 1, active_links = {(1, 0)}\<rparr>
     = Inr (1/4, \<lparr>start_line = 2, active_links = {}\<rparr>)"
  by (simp_all add: pfc_eval sample_trace_def)

text \<open>When \<^verbatim>\<open>dropna\<close> removed a row, the label the loop stops at exceeds the position it is used as: below
  neither the resume of link (1, 0) nor the pause of link (2, 5) is ever read.\<close>

lemma pfc_label_skips_row:
  "pfc_handling 4 (Inr [(0, sample_trace ! 0), (2, sample_trace ! 1), (3, sample_trace ! 2)]) 0 2
      \<lparr>start_line = 0, active_links = {}\<rparr> = Inr (1/4, \<lparr>start_line = 2, active_links = {(1, 0)}\<rparr>)"
  "pfc_handling 4 (Inr [(0, sample_trace ! 0), (2, sample_trace ! 1), (3, sample_trace ! 2)]) 2 3.5
      \<lparr>start_line = 2, active_links = {(1, 0)}\<rparr> = Inr (1/4, \<lparr>start_line = 3, active_links = {(1, 0)}\<rparr>)"
  "pfc_handling 4 (Inr [(0, sample_trace ! 0), (2, sample_trace ! 1), (3, sample_trace ! 2)]) 3.5 5
      \<lparr>start_line = 3, active_links = {(1, 0)}\<rparr> = Inr (1/4, \<lparr>start_line = 3, active_links = {(1, 0)}\<rparr>)"
  by (simp_all add: pfc_eval sample_trace_def)

end
