(* ===== verification/TunerLog.thy ===== *)
theory TunerLog
  imports Metrics
begin

text \<open>
  What \<^verbatim>\<open>scratch/tuning.py\<close> writes: the trace blocks on standard output (\<open>log_cycle_summary\<close> and the
  four line formatters), the rows of \<^verbatim>\<open>monitor_output.tr\<close> and of \<^verbatim>\<open>metric_output.tr\<close>.

  A logged value is a \<open>scalar\<close>: Python's or numpy's boolean, integer or float, a string or None. A flow
  snapshot is the ratio with the metadata that \<^verbatim>\<open>dict.update\<close> merged in, or none before the first
  observation. Files are their text; appending returns the new text.
\<close>

section \<open>Values\<close>

datatype scalar =
    SNone
  | SBool bool
  | SInt int
  | SFloat pyfloat
  | SStr string
  | NpBool bool
  | NpInt int
  | NpFloat pyfloat

datatype logval =
    LScalar scalar
  | LSeq "logval list"
  | LDict "(scalar \<times> logval) list"

text \<open>\<^verbatim>\<open>str\<close> of a dictionary key; \<open>rep\<close> is \<^verbatim>\<open>str\<close> on floats.\<close>

fun str_scalar :: "(pyfloat \<Rightarrow> string) \<Rightarrow> scalar \<Rightarrow> string" where
  "str_scalar rep SNone = ''None''"
| "str_scalar rep (SBool b) = (if b then ''True'' else ''False'')"
| "str_scalar rep (NpBool b) = (if b then ''True'' else ''False'')"
| "str_scalar rep (SInt i) = py_str_int i"
| "str_scalar rep (NpInt i) = py_str_int i"
| "str_scalar rep (SFloat x) = rep x"
| "str_scalar rep (NpFloat x) = rep x"
| "str_scalar rep (SStr s) = s"

fun normalize_scalar :: "scalar \<Rightarrow> scalar" where
  "normalize_scalar (NpInt i) = SInt i"
| "normalize_scalar (NpFloat x) = SFloat x"
| "normalize_scalar v = v"

fun normalize_log_value :: "(pyfloat \<Rightarrow> string) \<Rightarrow> logval \<Rightarrow> logval" where
  "normalize_log_value rep (LScalar v) = LScalar (normalize_scalar v)"
| "normalize_log_value rep (LSeq vs) = LSeq (map (normalize_log_value rep) vs)"
| "normalize_log_value rep (LDict kvs) =
    LDict (fold (\<lambda>(k, v) d. dict_set (SStr (str_scalar rep k)) (normalize_log_value rep v) d) kvs [])"

fun format_float :: "pyfloat \<Rightarrow> string" where
  "format_float NaN = ''nan''"
| "format_float PosInf = ''inf''"
| "format_float NegInf = ''-inf''"
| "format_float (Fin x) = trim_fixed (fmt_fixed 6 x)"

fun format_log_value :: "scalar \<Rightarrow> string" where
  "format_log_value (SBool b) = (if b then ''true'' else ''false'')"
| "format_log_value (NpBool b) = (if b then ''true'' else ''false'')"
| "format_log_value SNone = ''n/a''"
| "format_log_value (SInt i) = py_str_int i"
| "format_log_value (NpInt i) = py_str_int i"
| "format_log_value (SFloat x) = format_float x"
| "format_log_value (NpFloat x) = format_float x"
| "format_log_value (SStr s) = s"

abbreviation sfin :: "real \<Rightarrow> scalar" where "sfin x \<equiv> SFloat (Fin x)"

abbreviation log_real :: "real \<Rightarrow> string" where "log_real x \<equiv> format_log_value (sfin x)"

definition format_csv_value :: "scalar \<Rightarrow> string" where
  "format_csv_value v = (if v = SNone then [] else format_log_value v)"

fun mode_name :: "pmode \<Rightarrow> string" where
  "mode_name Default = ''default''"
| "mode_name Aggressive = ''aggressive''"
| "mode_name Conservative = ''conservative''"

section \<open>Trace lines\<close>

fun num_scalar :: "pynum \<Rightarrow> scalar" where
  "num_scalar (PInt i) = SInt i"
| "num_scalar (PFlt x) = SFloat x"

definition solution_to_parameter_map :: "param_spec list \<Rightarrow> pynum list \<Rightarrow> (string, scalar) dict" where
  "solution_to_parameter_map specs parameter_values =
    fold (\<lambda>(spec, value) d. dict_set (ps_name spec) (normalize_scalar (num_scalar value)) d) (zip specs parameter_values) []"

type_synonym snapshot = "flow_ratio \<times> flow_meta option"

definition ratio_pair :: "real \<Rightarrow> real \<Rightarrow> real \<times> real" where
  "ratio_pair large small =
    (let total = large + small in if total > 0 then (large / total, small / total) else (0, 0))"

definition format_flow_distribution_line :: "snapshot \<Rightarrow> snapshot option \<Rightarrow> scalar \<Rightarrow> string" where
  "format_flow_distribution_line snap previous kl_divergence =
    (let (r, meta) = snap; large_flow = r_large r; small_flow = r_small r; total_flow = large_flow + small_flow;
         (large_ratio, small_ratio) = ratio_pair large_flow small_flow;
         parts = [''flow_distribution: large='' @ log_real large_flow @ '', small='' @ log_real small_flow
                  @ '', total='' @ log_real total_flow @ '', large_ratio='' @ log_real large_ratio
                  @ '', small_ratio='' @ log_real small_ratio];
         observed = (case meta of None \<Rightarrow> []
           | Some m \<Rightarrow> [''observed_distribution: '' @ str_join '', ''
               [''large='' @ format_log_value (SInt (large_count m)),
                ''potential_large='' @ format_log_value (SInt (potential_large m)),
                ''small='' @ format_log_value (SInt (small_count m)),
                ''potential_effective='' @ log_real (potential_effective m)]]);
         prev = (case previous of None \<Rightarrow> []
           | Some (p, _) \<Rightarrow>
               if r_small p = -1 then []
               else (let (pl, ps) = ratio_pair (r_large p) (r_small p)
                     in [''previous_distribution: large_ratio='' @ log_real pl @ '', small_ratio='' @ log_real ps]));
         kl = (if kl_divergence = SNone then [] else [''kl_divergence='' @ format_log_value kl_divergence])
     in str_join '', '' (parts @ observed @ prev @ kl))"

definition format_utility_line :: "utility_breakdown \<Rightarrow> string" where
  "format_utility_line u =
    ''utility: ''
    @ ''throughput_norm='' @ log_real (throughput_norm u)
    @ '' (raw='' @ log_real (ub_throughput u) @ '', weighted='' @ log_real (throughput_utility u) @ ''), ''
    @ ''rtt_norm='' @ log_real (rtt_norm u)
    @ '' (raw='' @ log_real (ub_rtt u) @ '', weighted='' @ log_real (rtt_utility u) @ ''), ''
    @ ''pfc_norm='' @ log_real (pfc_norm u)
    @ '' (raw='' @ log_real (ub_pfc u) @ '', weighted='' @ log_real (pfc_utility u) @ ''), ''
    @ ''total='' @ log_real (total_utility u)"

definition format_parameter_line :: "param_spec list \<Rightarrow> pynum list \<Rightarrow> string res" where
  "format_parameter_line specs parameter_values =
    (let parameter_map = solution_to_parameter_map specs parameter_values
     in res_bind (res_map (\<lambda>spec.
          case dict_get parameter_map (ps_name spec) of
            None \<Rightarrow> Inl KeyError
          | Some v \<Rightarrow> Inr (ps_name spec @ ''='' @ format_log_value v)) specs)
        (\<lambda>parameter_items. Inr (''parameters: '' @ str_join '', '' parameter_items)))"

type_synonym tuning_info = "(string, scalar) dict"

definition ordered_fields :: "(string \<times> string) list" where
  "ordered_fields =
    [(''state'', ''state''), (''mode'', ''mode''), (''trigger_reason'', ''trigger''),
     (''tuning_round_index'', ''session''), (''tuning_round'', ''round''), (''temperature'', ''temperature''),
     (''candidate_type'', ''candidate''), (''accepted'', ''accepted''), (''best_value'', ''best_utility'')]"

definition format_tuning_line :: "tuning_info option \<Rightarrow> string" where
  "format_tuning_line info =
    (case info of None \<Rightarrow> ''tuning: state=idle''
     | Some d \<Rightarrow>
         if d = [] then ''tuning: state=idle''
         else (let field_parts = concat (map (\<lambda>(key, label).
                      case dict_get d key of
                        None \<Rightarrow> []
                      | Some v \<Rightarrow> if v = SNone then [] else [label @ ''='' @ format_log_value v]) ordered_fields);
                   field_parts = (if field_parts = [] then [''state=idle''] else field_parts)
               in ''tuning: '' @ str_join '', '' field_parts))"

definition write_trace_block :: "pyfloat \<Rightarrow> string list \<Rightarrow> string" where
  "write_trace_block sim_time detail_lines =
    str_join [nl] ((''sim_time='' @ format_log_value (SFloat sim_time)) # map (\<lambda>line. tab # line) detail_lines) @ [nl, nl]"

definition log_cycle_summary ::
  "param_spec list \<Rightarrow> pyfloat \<Rightarrow> snapshot \<Rightarrow> utility_breakdown \<Rightarrow> pynum list \<Rightarrow> tuning_info option
     \<Rightarrow> snapshot option \<Rightarrow> scalar \<Rightarrow> string res" where
  "log_cycle_summary specs sim_time snap u parameter_values info previous kl_divergence =
    res_bind (format_parameter_line specs parameter_values) (\<lambda>parameter_line.
      Inr (write_trace_block sim_time
        [format_flow_distribution_line snap previous kl_divergence, format_utility_line u,
         parameter_line, format_tuning_line info]))"

section \<open>Monitor rows\<close>

record flow_stats =
  st_large :: real
  st_small :: real
  st_total :: real
  st_large_ratio :: real
  st_small_ratio :: real

definition compute_flow_distribution_stats :: "flow_ratio \<Rightarrow> flow_stats" where
  "compute_flow_distribution_stats r =
    (let large_flow = r_large r; small_flow = r_small r; total_flow = large_flow + small_flow;
         (large_ratio, small_ratio) =
           (if total_flow > 0 then (large_flow / total_flow, small_flow / total_flow) else (0, 0))
     in \<lparr>st_large = large_flow, st_small = small_flow, st_total = total_flow,
         st_large_ratio = large_ratio, st_small_ratio = small_ratio\<rparr>)"

text \<open>The five entries are all None or all numbers.\<close>

definition compute_count_ratio_stats :: "int option \<Rightarrow> int option \<Rightarrow> flow_stats option" where
  "compute_count_ratio_stats large small =
    (case (large, small) of
       (Some l, Some s) \<Rightarrow>
         (let total_count = (of_int l + of_int s :: real);
              (large_ratio, small_ratio) =
                (if total_count > 0 then (of_int l / total_count, of_int s / total_count) else (0, 0))
          in Some \<lparr>st_large = of_int l, st_small = of_int s, st_total = total_count,
                   st_large_ratio = large_ratio, st_small_ratio = small_ratio\<rparr>)
     | _ \<Rightarrow> None)"

definition MONITOR_OUTPUT_HEADER :: string where
  "MONITOR_OUTPUT_HEADER =
    ''time,mode,throughput_raw,rtt_raw,pfc_raw,'' @
    ''throughput_norm,rtt_norm,pfc_norm,'' @
    ''throughput_utility,rtt_utility,pfc_utility,total_utility,'' @
    ''large,small,total,large_ratio,small_ratio,'' @
    ''large_count,potential_large,small_count,potential_effective,'' @
    ''true_large_count,true_small_count,true_total_count,true_large_ratio,true_small_ratio,'' @
    ''kl_divergence,trigger_reason,is_tuning''"

definition opt_field :: "flow_stats option \<Rightarrow> (flow_stats \<Rightarrow> real) \<Rightarrow> scalar" where
  "opt_field st sel = (case st of None \<Rightarrow> SNone | Some s \<Rightarrow> sfin (sel s))"

definition monitor_row ::
  "pyfloat \<Rightarrow> pmode \<Rightarrow> utility_breakdown \<Rightarrow> flow_ratio \<Rightarrow> flow_meta \<Rightarrow> pyfloat \<Rightarrow> string option \<Rightarrow> bool \<Rightarrow> string list" where
  "monitor_row sim_time parameter_mode u r m kl_divergence trigger_reason tuning_active =
    (let stats = compute_flow_distribution_stats r;
         true_stats = compute_count_ratio_stats (true_large_count m) (true_small_count m)
     in [format_log_value (SFloat sim_time), mode_name parameter_mode,
         log_real (ub_throughput u), log_real (ub_rtt u), log_real (ub_pfc u),
         log_real (throughput_norm u), log_real (rtt_norm u), log_real (pfc_norm u),
         log_real (throughput_utility u), log_real (rtt_utility u), log_real (pfc_utility u), log_real (total_utility u),
         log_real (st_large stats), log_real (st_small stats), log_real (st_total stats),
         log_real (st_large_ratio stats), log_real (st_small_ratio stats),
         format_log_value (SInt (large_count m)), format_log_value (SInt (potential_large m)),
         format_log_value (SInt (small_count m)), log_real (potential_effective m),
         format_csv_value (opt_field true_stats st_large), format_csv_value (opt_field true_stats st_small),
         format_csv_value (opt_field true_stats st_total), format_csv_value (opt_field true_stats st_large_ratio),
         format_csv_value (opt_field true_stats st_small_ratio),
         format_log_value (SFloat kl_divergence),
         (case trigger_reason of None \<Rightarrow> [] | Some reason \<Rightarrow> reason),
         (if tuning_active then ''true'' else ''false'')])"

definition write_monitor_output_row ::
  "pyfloat \<Rightarrow> pmode \<Rightarrow> utility_breakdown \<Rightarrow> flow_ratio \<Rightarrow> flow_meta \<Rightarrow> pyfloat \<Rightarrow> string option \<Rightarrow> bool
     \<Rightarrow> string option \<Rightarrow> string" where
  "write_monitor_output_row sim_time parameter_mode u r m kl_divergence trigger_reason tuning_active file =
    (let content = (case file of None \<Rightarrow> [] | Some s \<Rightarrow> s);
         headed = (if file = None \<or> content = [] then content @ MONITOR_OUTPUT_HEADER @ [nl] else content)
     in headed @ str_join '','' (monitor_row sim_time parameter_mode u r m kl_divergence trigger_reason tuning_active) @ [nl])"

definition output_metric :: "(pyfloat \<Rightarrow> string) \<Rightarrow> pyfloat \<Rightarrow> real \<Rightarrow> real \<Rightarrow> real \<Rightarrow> real \<Rightarrow> string option \<Rightarrow> string" where
  "output_metric rep current_time avg_throughput avg_rtt avg_pfc utility_value file =
    (case file of None \<Rightarrow> [] | Some s \<Rightarrow> s)
    @ str_join '' '' [rep current_time, rep (Fin avg_throughput), rep (Fin avg_rtt), rep (Fin avg_pfc), rep (Fin utility_value)]
    @ [nl]"

section \<open>Characters of a rendered number\<close>

definition plain_char :: "char \<Rightarrow> bool" where
  "plain_char c \<longleftrightarrow> is_digit c \<or> c \<in> set ''-.nfiatrueflsecogkl_dvpmbq/''"

lemma plain_char_not: "plain_char c \<Longrightarrow> c \<noteq> CHR '','' \<and> c \<noteq> nl \<and> c \<noteq> CHR ''('' \<and> c \<noteq> CHR '')'' \<and> c \<noteq> CHR ''=''
    \<and> c \<noteq> CHR '':'' \<and> \<not> is_space c"
  by (auto simp: plain_char_def is_digit_def is_space_def Let_def)

lemma plain_digits: "list_all is_digit s \<Longrightarrow> list_all plain_char s"
  by (auto simp: list_all_iff plain_char_def)

lemma set_rstrip_by: "set (rstrip_by P s) \<subseteq> set s"
  by (auto simp: rstrip_by_def dest: set_dropWhileD)

lemma plain_rstrip: "list_all plain_char s \<Longrightarrow> list_all plain_char (rstrip_by P s)"
  using set_rstrip_by [of P s] by (auto simp: list_all_iff)

lemma plain_fixed: "list_all plain_char (fmt_fixed d x)"
proof -
  have "list_all plain_char (str_nat n)" for n by (rule plain_digits [OF str_nat_digits])
  moreover have "list_all plain_char (pad_zeros d (str_nat n))" for d n
    by (rule plain_digits [OF pad_zeros_digits [OF str_nat_digits]])
  moreover have "plain_char (CHR ''-'')" "plain_char (CHR ''.'')" by (simp_all add: plain_char_def)
  ultimately show ?thesis by (simp add: fmt_fixed_def Let_def)
qed

lemma plain_format_float: "list_all plain_char (format_float x)"
  by (cases x) (simp_all add: trim_fixed_def plain_rstrip plain_fixed plain_char_def)

lemma plain_trimmed: "list_all plain_char (trim_fixed (fmt_fixed d x))"
  by (simp add: trim_fixed_def plain_rstrip plain_fixed)

lemma plain_str_int: "list_all plain_char (py_str_int i)"
  using plain_digits [OF str_nat_digits] by (simp add: py_str_int_def plain_char_def)

lemma plain_format_log_value: "(\<And>s. v \<noteq> SStr s) \<Longrightarrow> list_all plain_char (format_log_value v)"
  by (cases v) (auto simp: plain_format_float plain_str_int plain_char_def)

lemma plain_csv_field: "list_all plain_char (format_csv_value (opt_field st sel))"
  by (cases st) (simp_all add: format_csv_value_def opt_field_def plain_trimmed)

section \<open>Properties of the log\<close>

text \<open>A logged number reads back: an integer exactly, a finite float within half of the last of six
  decimals, infinities and NaN as themselves.\<close>

theorem logged_number_reads_back:
  "py_int (format_log_value (SInt i)) = Inr i
   \<and> (\<exists>y. py_float (format_log_value (SFloat x)) = Inr y
        \<and> (case x of Fin r \<Rightarrow> (\<exists>q. y = Fin q \<and> \<bar>q - r\<bar> \<le> 1 / 2000000) | _ \<Rightarrow> y = x))"
proof -
  have s: "py_float ''nan'' = Inr NaN" "py_float ''inf'' = Inr PosInf" "py_float ''-inf'' = Inr NegInf" by code_simp+
  have f: "py_float (trim_fixed (fmt_fixed 6 r)) = Inr (Fin (fixed_val 6 r))" for r
    by (rule py_float_trimmed) simp
  have e: "\<bar>fixed_val 6 r - r\<bar> * 2000000 \<le> 1" for r using fixed_val_error [of 6 r] by simp
  show ?thesis by (cases x) (simp_all add: py_int_str s f e)
qed

lemma mode_name_plain: "list_all plain_char (mode_name mode)"
  by (cases mode) (simp_all add: plain_char_def)

definition clean_reason :: "string option \<Rightarrow> bool" where
  "clean_reason reason = (case reason of None \<Rightarrow> True | Some s \<Rightarrow> CHR '','' \<notin> set s \<and> nl \<notin> set s)"

lemma monitor_row_length: "length (monitor_row t mode u r m kl reason act) = 29"
  by (simp add: monitor_row_def Let_def)

definition clean_field :: "string \<Rightarrow> bool" where
  "clean_field f \<longleftrightarrow> CHR '','' \<notin> set f \<and> nl \<notin> set f"

lemma clean_plain: "list_all plain_char f \<Longrightarrow> clean_field f"
  by (auto simp: clean_field_def list_all_iff dest: plain_char_not)

lemma clean_facts:
  "clean_field (format_float x)" "clean_field (trim_fixed (fmt_fixed d y))" "clean_field (py_str_int i)"
  "clean_field (mode_name mode)" "clean_field (format_csv_value (opt_field st sel))"
  "clean_field []" "clean_field ''true''" "clean_field ''false''"
  by (simp_all add: clean_plain plain_format_float plain_trimmed plain_str_int mode_name_plain plain_csv_field)
    (simp_all add: clean_field_def)

lemma monitor_row_clean:
  "clean_reason reason \<Longrightarrow> list_all clean_field (monitor_row t mode u r m kl reason act)"
  by (cases reason) (simp_all add: monitor_row_def Let_def clean_facts, simp add: clean_reason_def clean_field_def)

lemma str_join_nl: "nl \<notin> set sep \<Longrightarrow> \<forall>p \<in> set ps. nl \<notin> set p \<Longrightarrow> nl \<notin> set (str_join sep ps)"
  by (induction sep ps rule: str_join.induct) auto

type_synonym monitor_call =
  "pyfloat \<times> pmode \<times> utility_breakdown \<times> flow_ratio \<times> flow_meta \<times> pyfloat \<times> string option \<times> bool"

definition call_row :: "monitor_call \<Rightarrow> string list" where
  "call_row = (\<lambda>(t, mode, u, r, m, kl, reason, act). monitor_row t mode u r m kl reason act)"

definition call_write :: "monitor_call \<Rightarrow> string option \<Rightarrow> string option" where
  "call_write = (\<lambda>(t, mode, u, r, m, kl, reason, act) file.
     Some (write_monitor_output_row t mode u r m kl reason act file))"

lemma call_write_eq:
  "call_write c file =
    Some ((if file = None \<or> file = Some [] then MONITOR_OUTPUT_HEADER @ [nl] else the file)
      @ str_join '','' (call_row c) @ [nl])"
  by (simp add: call_write_def call_row_def write_monitor_output_row_def Let_def split: prod.splits option.splits)

lemma call_writes_eq:
  "fold call_write calls (Some (h @ [nl])) = Some (h @ [nl] @ concat (map (\<lambda>c. str_join '','' (call_row c) @ [nl]) calls))"
proof (induction calls arbitrary: h)
  case (Cons c calls)
  have "fold call_write (c # calls) (Some (h @ [nl])) = fold call_write calls (Some ((h @ [nl] @ str_join '','' (call_row c)) @ [nl]))"
    by (simp add: call_write_eq)
  then show ?case unfolding Cons by simp
qed simp

text \<open>However many rows the monitor loop writes, \<^verbatim>\<open>monitor_output.tr\<close> is a well-formed table: the
  header once and first, then one line per call in order, each splitting at commas into exactly the fields written,
  as many as the header names.\<close>

theorem monitor_file_is_table:
  assumes "calls \<noteq> []" "\<forall>(t, mode, u, r, m, kl, reason, act) \<in> set calls. clean_reason reason"
  shows "\<exists>txt. fold call_write calls None = Some txt
    \<and> file_lines txt = MONITOR_OUTPUT_HEADER # map (\<lambda>c. str_join '','' (call_row c)) calls
    \<and> length (split_on (CHR '','') MONITOR_OUTPUT_HEADER) = 29
    \<and> (\<forall>c \<in> set calls. split_on (CHR '','') (str_join '','' (call_row c)) = call_row c \<and> length (call_row c) = 29)"
proof -
  obtain c cs where calls: "calls = c # cs" using assms(1) by (cases calls) auto
  let ?line = "\<lambda>c. str_join '','' (call_row c)"
  have clean: "\<forall>f \<in> set (call_row x). CHR '','' \<notin> set f \<and> nl \<notin> set f" if "x \<in> set calls" for x
  proof -
    have "list_all clean_field (call_row x)"
      using assms(2) that by (cases x) (force simp: call_row_def intro: monitor_row_clean)
    then show ?thesis by (auto simp: list_all_iff clean_field_def)
  qed
  have rowlen: "length (call_row x) = 29" for x
    by (simp add: call_row_def monitor_row_length split: prod.splits)
  have hdr: "nl \<notin> set MONITOR_OUTPUT_HEADER" "length (split_on (CHR '','') MONITOR_OUTPUT_HEADER) = 29"
    unfolding MONITOR_OUTPUT_HEADER_def by code_simp+
  have written: "fold call_write calls None = Some (concat (map (\<lambda>p. p @ [nl]) (MONITOR_OUTPUT_HEADER # map ?line calls)))"
    using call_writes_eq [of cs "MONITOR_OUTPUT_HEADER @ [nl] @ ?line c"]
    by (simp add: calls call_write_eq comp_def)
  have "nl \<notin> set (?line x)" if "x \<in> set calls" for x
    using clean [OF that] by (intro str_join_nl) auto
  then have "\<forall>p \<in> set (MONITOR_OUTPUT_HEADER # map ?line calls). nl \<notin> set p"
    using hdr(1) by auto
  then have lines: "file_lines (concat (map (\<lambda>p. p @ [nl]) (MONITOR_OUTPUT_HEADER # map ?line calls)))
      = MONITOR_OUTPUT_HEADER # map ?line calls" by (rule file_lines_terminated)
  have "split_on (CHR '','') (?line x) = call_row x" if "x \<in> set calls" for x
    using clean [OF that] rowlen [of x] by (intro split_on_join) auto
  with written lines hdr(2) rowlen show ?thesis by blast
qed

definition sample_call :: monitor_call where
  "sample_call = (Fin 1, Aggressive, calculate_utility_breakdown 50 80 (1/10) (6/10) (2/10) (2/10),
     \<lparr>r_large = 2, r_small = 1\<rparr>, \<lparr>large_count = 2, potential_large = 0, small_count = 1,
       potential_effective = 0, true_large_count = Some 2, true_small_count = Some 1\<rparr>,
     Fin 0, Some ''initial_observation'', False)"

theorem monitor_file_is_table_witness:
  "\<exists>t. fold call_write [sample_call] None = Some t \<and> length (file_lines t) = 2"
proof -
  have "\<forall>(t, mode, u, r, m, kl, reason, act) \<in> set [sample_call]. clean_reason reason"
    by (simp add: sample_call_def clean_reason_def)
  from monitor_file_is_table [OF _ this] show ?thesis by (auto simp del: fold_simps)
qed

end
