(* ===== verification/Actions.thy ===== *)
theory Actions
  imports Prelude
begin

text \<open>
  Actions: state transformers that may raise and may never return. An action maps the state to \<open>None\<close> (it runs for
  ever) or to its result, an exception or a value, and the state it leaves behind. An exception keeps the effects that
  came before it, as in Python. The tuning thread and the Overleaf helper are built from them.

  Two kinds of judgement: \<open>triple\<close> is total correctness (the action returns), \<open>guarantees\<close> relates the states before
  and after whenever it returns.
\<close>

type_synonym ('s, 'a) action = "'s \<Rightarrow> ('a res \<times> 's) option"

definition act_ret :: "'a \<Rightarrow> ('s, 'a) action" where
  "act_ret x s = Some (Inr x, s)"

definition act_lift :: "'a res \<Rightarrow> ('s, 'a) action" where
  "act_lift r s = Some (r, s)"

definition act_put :: "('s \<Rightarrow> 's) \<Rightarrow> ('s, unit) action" where
  "act_put f s = Some (Inr (), f s)"

definition act_get :: "('s \<Rightarrow> 'a) \<Rightarrow> ('s, 'a) action" where
  "act_get f s = Some (Inr (f s), s)"

definition act_bind :: "('s, 'a) action \<Rightarrow> ('a \<Rightarrow> ('s, 'b) action) \<Rightarrow> ('s, 'b) action" where
  "act_bind m f s =
    (case m s of None \<Rightarrow> None
     | Some (r, s') \<Rightarrow> (case r of Inl e \<Rightarrow> Some (Inl e, s') | Inr x \<Rightarrow> f x s'))"

text \<open>\<^verbatim>\<open>try: m except Exception: h\<close>; \<open>SystemExit\<close> is no \<^verbatim>\<open>Exception\<close>.\<close>

definition act_catch :: "('s, 'a) action \<Rightarrow> ('s, 'a) action \<Rightarrow> ('s, 'a) action" where
  "act_catch m h s =
    (case m s of None \<Rightarrow> None
     | Some (r, s') \<Rightarrow> (case r of Inl e \<Rightarrow> if e = SystemExit then Some (Inl e, s') else h s' | Inr x \<Rightarrow> Some (Inr x, s')))"

fun act_fold :: "('x \<Rightarrow> 'a \<Rightarrow> ('s, 'a) action) \<Rightarrow> 'x list \<Rightarrow> 'a \<Rightarrow> ('s, 'a) action" where
  "act_fold f [] a = act_ret a"
| "act_fold f (x # xs) a = act_bind (f x a) (act_fold f xs)"

lemma act_bind_mono [partial_function_mono]:
  assumes "mono_option (\<lambda>f. m f s)" "\<And>y s'. mono_option (\<lambda>f. k f y s')"
  shows "mono_option (\<lambda>f. act_bind (m f) (k f) s)"
  unfolding act_bind_def
proof (rule monotoneI, goal_cases)
  case fg: (1 f g)
  have m: "option_ord (m f s) (m g s)" using assms(1) fg unfolding monotone_on_def by simp
  have k: "option_ord (k f y s') (k g y s')" for y s' using assms(2) fg unfolding monotone_on_def by simp
  show ?case
  proof (cases "m f s")
    case (Some p)
    obtain r t where p: "p = (r, t)" by (cases p)
    have "m g s = Some (r, t)" using m Some p by (auto simp: flat_ord_def)
    then show ?thesis using Some p k by (cases r) (simp_all add: flat_ord_def)
  qed (simp add: flat_ord_def)
qed

lemma act_catch_mono [partial_function_mono]:
  assumes "mono_option (\<lambda>f. m f s)" "\<And>s'. mono_option (\<lambda>f. h f s')"
  shows "mono_option (\<lambda>f. act_catch (m f) (h f) s)"
  unfolding act_catch_def
proof (rule monotoneI, goal_cases)
  case fg: (1 f g)
  have m: "option_ord (m f s) (m g s)" using assms(1) fg unfolding monotone_on_def by simp
  have h: "option_ord (h f s') (h g s')" for s' using assms(2) fg unfolding monotone_on_def by simp
  show ?case
  proof (cases "m f s")
    case (Some p)
    obtain r t where p: "p = (r, t)" by (cases p)
    have "m g s = Some (r, t)" using m Some p by (auto simp: flat_ord_def)
    then show ?thesis using Some p h by (cases r) (simp_all add: flat_ord_def)
  qed (simp add: flat_ord_def)
qed

section \<open>Total correctness\<close>

text \<open>From a state satisfying \<open>P\<close> the action returns, with \<open>Q\<close> after a value and \<open>E\<close> after an exception.\<close>

definition triple :: "('s \<Rightarrow> bool) \<Rightarrow> ('s, 'a) action \<Rightarrow> ('a \<Rightarrow> 's \<Rightarrow> bool) \<Rightarrow> ('s \<Rightarrow> bool) \<Rightarrow> bool" where
  "triple P m Q E \<longleftrightarrow>
    (\<forall>s. P s \<longrightarrow> (case m s of None \<Rightarrow> False
       | Some (r, s') \<Rightarrow> (case r of Inl e \<Rightarrow> E s' | Inr x \<Rightarrow> Q x s')))"

lemma triple_bind:
  assumes "triple P m R E" "\<And>x. triple (R x) (f x) Q E"
  shows "triple P (act_bind m f) Q E"
  unfolding triple_def
proof (intro allI impI)
  fix s assume "P s"
  with assms(1) obtain r s' where m: "m s = Some (r, s')"
    and r: "case r of Inl e \<Rightarrow> E s' | Inr x \<Rightarrow> R x s'"
    by (auto simp: triple_def split: option.splits)
  show "case act_bind m f s of None \<Rightarrow> False | Some (r, s') \<Rightarrow> (case r of Inl e \<Rightarrow> E s' | Inr x \<Rightarrow> Q x s')"
    using m r assms(2) by (cases r) (auto simp: act_bind_def triple_def)
qed

lemma triple_conseq:
  "triple P m R E \<Longrightarrow> (\<And>s. P' s \<Longrightarrow> P s) \<Longrightarrow> (\<And>x s. R x s \<Longrightarrow> Q x s) \<Longrightarrow> triple P' m Q E"
  unfolding triple_def
proof (intro allI impI)
  fix s assume *: "\<forall>s. P s \<longrightarrow> (case m s of None \<Rightarrow> False | Some (r, s') \<Rightarrow> (case r of Inl e \<Rightarrow> E s' | Inr x \<Rightarrow> R x s'))"
    and pre: "\<And>s. P' s \<Longrightarrow> P s" and post: "\<And>x s. R x s \<Longrightarrow> Q x s" and "P' s"
  then have "case m s of None \<Rightarrow> False | Some (r, s') \<Rightarrow> (case r of Inl e \<Rightarrow> E s' | Inr x \<Rightarrow> R x s')" by simp
  then show "case m s of None \<Rightarrow> False | Some (r, s') \<Rightarrow> (case r of Inl e \<Rightarrow> E s' | Inr x \<Rightarrow> Q x s')"
    using post by (auto split: option.splits sum.splits)
qed

lemma triple_pre: "(\<And>s. P s \<Longrightarrow> A) \<Longrightarrow> (A \<Longrightarrow> triple P m Q E) \<Longrightarrow> triple P m Q E"
  unfolding triple_def by blast

lemma triple_ret: "(\<And>s. P s \<Longrightarrow> Q x s) \<Longrightarrow> triple P (act_ret x) Q E"
  by (simp add: triple_def act_ret_def)

lemma triple_put: "(\<And>s. P s \<Longrightarrow> Q () (f s)) \<Longrightarrow> triple P (act_put f) Q E"
  by (simp add: triple_def act_put_def)

lemma triple_get: "(\<And>s. P s \<Longrightarrow> Q (f s) s) \<Longrightarrow> triple P (act_get f) Q E"
  by (simp add: triple_def act_get_def)

lemma triple_lift: "r = Inr x \<Longrightarrow> (\<And>s. P s \<Longrightarrow> Q x s) \<Longrightarrow> triple P (act_lift r) Q E"
  by (simp add: triple_def act_lift_def)

section \<open>Relating the states before and after\<close>

text \<open>\<open>R\<close> is meant to be reflexive and transitive: a property of everything an action may do to the state, on every branch.\<close>

definition guarantees :: "('s \<Rightarrow> 's \<Rightarrow> bool) \<Rightarrow> ('s, 'a) action \<Rightarrow> bool" where
  "guarantees R m \<longleftrightarrow> (\<forall>s r s'. m s = Some (r, s') \<longrightarrow> R s s')"

named_theorems guarantee \<open>what the actions guarantee\<close>

locale step_relation =
  fixes R :: "'s \<Rightarrow> 's \<Rightarrow> bool"
  assumes refl: "R s s" and trans: "R s t \<Longrightarrow> R t u \<Longrightarrow> R s u"
begin

lemma ret: "guarantees R (act_ret x)"
  by (simp add: guarantees_def act_ret_def refl)

lemma lift: "guarantees R (act_lift r)"
  by (simp add: guarantees_def act_lift_def refl)

lemma get: "guarantees R (act_get f)"
  by (simp add: guarantees_def act_get_def refl)

lemma bind:
  assumes "guarantees R m" "\<And>x. guarantees R (f x)"
  shows "guarantees R (act_bind m f)"
  unfolding guarantees_def
proof (intro allI impI)
  fix s r s' assume b: "act_bind m f s = Some (r, s')"
  then obtain q t where m: "m s = Some (q, t)" by (auto simp: act_bind_def split: option.splits)
  then have R: "R s t" using assms(1) unfolding guarantees_def by blast
  show "R s s'"
  proof (cases q)
    case (Inl e)
    then show ?thesis using b m R by (simp add: act_bind_def)
  next
    case (Inr x)
    then have "f x t = Some (r, s')" using b m by (simp add: act_bind_def)
    then have "R t s'" using assms(2) unfolding guarantees_def by blast
    then show ?thesis using R trans by blast
  qed
qed

lemma catch:
  assumes "guarantees R m" "guarantees R h"
  shows "guarantees R (act_catch m h)"
  unfolding guarantees_def
proof (intro allI impI)
  fix s r s' assume b: "act_catch m h s = Some (r, s')"
  then obtain q t where m: "m s = Some (q, t)" by (auto simp: act_catch_def split: option.splits)
  then have R: "R s t" using assms(1) unfolding guarantees_def by blast
  have "s' = t \<or> h t = Some (r, s')"
    using b m by (auto simp: act_catch_def split: sum.splits if_splits)
  then show "R s s'"
  proof
    assume "h t = Some (r, s')"
    then have "R t s'" using assms(2) unfolding guarantees_def by blast
    then show ?thesis using R trans by blast
  qed (use R in simp)
qed

lemma fold: "(\<And>x a. guarantees R (f x a)) \<Longrightarrow> guarantees R (act_fold f xs a)"
  by (induction xs arbitrary: a) (simp_all add: ret bind)

lemma if_split: "guarantees R m \<Longrightarrow> guarantees R n \<Longrightarrow> guarantees R (if b then m else n)"
  by simp

end

end
