(* ===== verification/TunerSession.thy ===== *)
theory TunerSession
  imports TunerLog Actions
begin

text \<open>
  The tuning thread of \<^verbatim>\<open>scratch/tuning.py\<close>: \<open>start_tuning\<close> and the two annealing sessions
  \<open>aggressive_tuning\<close> and \<open>conservative_tuning\<close>, which differ in the mode they pass on.

  The thread is an action on its state: it may raise and may never return.

  The state holds the module globals the thread writes and the files it writes. The files it reads belong to the
  simulator: they are functions of \<open>tick\<close>, which counts the reads, so that every read may see another file.
\<close>

section \<open>Settings, world and state\<close>

record tuner_cfg =
  PARAMETER_SPECS :: "param_spec list"
  tc_dir :: dir_cfg
  tc_mode :: mode_cfg
  initial_temperature :: real
  final_temperature :: real
  attempt_times :: nat
  cooling_rate :: real
  t_tune :: real
  monitor_window_seconds :: real
  total_directed_links :: nat
  COLLECT_ONLY_MODE :: bool
  np_mean :: "real list \<Rightarrow> real"
  py_repr :: "pyfloat \<Rightarrow> string"

record world =
  thr_at :: "nat \<Rightarrow> thr_row list res"
  rtt_at :: "nat \<Rightarrow> rtt_row list res"
  pfc_at :: "nat \<Rightarrow> pfc_frame res"

record tstate =
  tick :: nat
  cursor :: pfc_cursor
  bad_rate_ewma :: real
  src :: gen_src
  parameter_file :: "string option"
  metric_file :: "string option"
  trace :: string
  is_tuning :: bool
  total_tuning_rounds :: int

type_synonym 'a act = "(tstate, 'a) action"

section \<open>The steps of a session\<close>

definition read_throughput :: "tuner_cfg \<Rightarrow> world \<Rightarrow> real list act" where
  "read_throughput cfg w s =
    Some (throughput_handling2 (monitor_window_seconds cfg) (thr_at w (tick s)), s\<lparr>tick := Suc (tick s)\<rparr>)"

definition read_rtt :: "world \<Rightarrow> real list act" where
  "read_rtt w s = Some (rtt_handling2 (rtt_at w (tick s)), s\<lparr>tick := Suc (tick s)\<rparr>)"

definition read_pfc :: "tuner_cfg \<Rightarrow> world \<Rightarrow> real \<Rightarrow> real \<Rightarrow> real act" where
  "read_pfc cfg w start_time stop_time s =
    (case pfc_handling (total_directed_links cfg) (pfc_at w (tick s)) start_time stop_time (cursor s) of
       Inl e \<Rightarrow> Some (Inl e, s\<lparr>tick := Suc (tick s)\<rparr>)
     | Inr (ratio, c) \<Rightarrow> Some (Inr ratio, s\<lparr>tick := Suc (tick s), cursor := c\<rparr>))"

definition collect_round_metrics :: "tuner_cfg \<Rightarrow> world \<Rightarrow> real \<Rightarrow> real \<Rightarrow> (real \<times> real \<times> real) act" where
  "collect_round_metrics cfg w start_time stop_time =
    act_bind (read_throughput cfg w) (\<lambda>throughput_matrix.
    act_bind (read_rtt w) (\<lambda>rtt_matrix.
    act_bind (read_pfc cfg w start_time stop_time) (\<lambda>avg_pfc.
      act_ret (average_throughput (np_mean cfg) throughput_matrix, average_rtt (np_mean cfg) rtt_matrix, avg_pfc))))"

definition wait_round :: "world \<Rightarrow> real \<Rightarrow> real act" where
  "wait_round w target_time s =
    (case wait_for_throughput_snapshot_after (thr_at w) target_time (tick s) of
       None \<Rightarrow> None
     | Some (Inl e) \<Rightarrow> Some (Inl e, s)
     | Some (Inr (t, p)) \<Rightarrow> Some (Inr t, s\<lparr>tick := Suc p\<rparr>))"

definition append_metric :: "tuner_cfg \<Rightarrow> real \<Rightarrow> utility_breakdown \<Rightarrow> unit act" where
  "append_metric cfg current_time u =
    act_put (\<lambda>s. s\<lparr>metric_file := Some (output_metric (py_repr cfg) (Fin current_time)
      (ub_throughput u) (ub_rtt u) (ub_pfc u) (total_utility u) (metric_file s))\<rparr>)"

text \<open>What a session passes to every log entry.\<close>

record log_ctx =
  flow_ratio_snapshot :: snapshot
  previous_flow_ratio_snapshot :: snapshot
  kl_divergence :: pyfloat
  trigger_reason :: string
  tuning_round_index :: int

definition append_summary ::
  "tuner_cfg \<Rightarrow> log_ctx \<Rightarrow> real \<Rightarrow> utility_breakdown \<Rightarrow> pynum list \<Rightarrow> tuning_info \<Rightarrow> unit act" where
  "append_summary cfg ctx current_time u solution info =
    act_bind (act_lift (log_cycle_summary (PARAMETER_SPECS cfg) (Fin current_time) (flow_ratio_snapshot ctx) u solution
        (Some info) (Some (previous_flow_ratio_snapshot ctx)) (SFloat (kl_divergence ctx)))) (\<lambda>block.
      act_put (\<lambda>s. s\<lparr>trace := trace s @ block\<rparr>))"

definition load_solution :: "tuner_cfg \<Rightarrow> pynum list act" where
  "load_solution cfg s = Some (load_current_parameters (PARAMETER_SPECS cfg) (parameter_file s), s)"

definition store_parameters :: "tuner_cfg \<Rightarrow> pynum list \<Rightarrow> unit act" where
  "store_parameters cfg solution =
    act_bind (act_lift (write_parameters (py_repr cfg) (PARAMETER_SPECS cfg) solution)) (\<lambda>out.
      act_put (\<lambda>s. s\<lparr>parameter_file := Some out\<rparr>))"

definition generate_candidate :: "tuner_cfg \<Rightarrow> pmode \<Rightarrow> pynum list \<Rightarrow> pynum list act" where
  "generate_candidate cfg mode current_solution s =
    (case generate_new_parameters (PARAMETER_SPECS cfg) (tc_dir cfg) (bad_rate_ewma s) mode current_solution (src s) of
       Inl e \<Rightarrow> Some (Inl e, s)
     | Inr (new_solution, g) \<Rightarrow> Some (Inr new_solution, s\<lparr>src := g\<rparr>))"

text \<open>\<^verbatim>\<open>delta > 0 or math.exp(delta / temperature) > random.random()\<close>: a draw is made only for a
  change that is no improvement.\<close>

definition accept_candidate :: "real \<Rightarrow> real \<Rightarrow> bool act" where
  "accept_candidate delta temperature s =
    (if delta > 0 then Some (Inr True, s)
     else (let (r, g) = random_random (src s)
           in Some (Inr (exp (delta / temperature) > r), s\<lparr>src := g\<rparr>)))"

record lstate =
  current_solution :: "pynum list"
  current_value :: real
  best_solution :: "pynum list"
  best_value :: real
  new_solution :: "pynum list"
  candidate_type :: pmode
  tuning_rounds :: nat
  stop_time_this_round :: real

type_synonym weights = "real \<times> real \<times> real"

definition breakdown :: "weights \<Rightarrow> real \<times> real \<times> real \<Rightarrow> utility_breakdown" where
  "breakdown ws m =
    (case (ws, m) of ((throughput_weight, rtt_weight, pfc_weight), (throughput, rtt, pfc)) \<Rightarrow>
       calculate_utility_breakdown throughput rtt pfc throughput_weight rtt_weight pfc_weight)"

definition annealing_round ::
  "tuner_cfg \<Rightarrow> world \<Rightarrow> log_ctx \<Rightarrow> pmode \<Rightarrow> weights \<Rightarrow> real \<Rightarrow> lstate \<Rightarrow> lstate act" where
  "annealing_round cfg w ctx mode ws temperature ls =
    (let start_time = stop_time_this_round ls; stop_time = stop_time_this_round ls + t_tune cfg in
    act_bind (wait_round w stop_time) (\<lambda>_.
    act_bind (collect_round_metrics cfg w start_time stop_time) (\<lambda>metrics.
    (let u = breakdown ws metrics; new_value = total_utility u; delta = new_value - current_value ls in
    act_bind (append_metric cfg stop_time u) (\<lambda>_.
    act_bind (act_put (\<lambda>s. s\<lparr>bad_rate_ewma := update_bad_rate_ewma (tc_dir cfg) delta (bad_rate_ewma s)\<rparr>)) (\<lambda>_.
    act_bind (accept_candidate delta temperature) (\<lambda>accepted.
    (let cur_solution = (if accepted then new_solution ls else current_solution ls);
         cur_value = (if accepted then new_value else current_value ls);
         best = (if cur_value > best_value ls then (cur_solution, cur_value) else (best_solution ls, best_value ls)) in
    act_bind (append_summary cfg ctx stop_time u (new_solution ls)
        [(''state'', SStr ''annealing_round''), (''mode'', SStr (mode_name mode)),
         (''tuning_round_index'', SInt (tuning_round_index ctx)), (''tuning_round'', SInt (int (tuning_rounds ls) + 1)),
         (''temperature'', sfin temperature), (''candidate_type'', SStr (mode_name (candidate_type ls))),
         (''accepted'', SBool accepted), (''best_value'', sfin (snd best))]) (\<lambda>_.
    act_bind (generate_candidate cfg mode cur_solution) (\<lambda>candidate.
    act_bind (store_parameters cfg candidate) (\<lambda>_.
      act_ret \<lparr>current_solution = cur_solution, current_value = cur_value,
               best_solution = fst best, best_value = snd best, new_solution = candidate,
               candidate_type = mode, tuning_rounds = Suc (tuning_rounds ls),
               stop_time_this_round = stop_time\<rparr>)))))))))))"

fun attempts ::
  "tuner_cfg \<Rightarrow> world \<Rightarrow> log_ctx \<Rightarrow> pmode \<Rightarrow> weights \<Rightarrow> real \<Rightarrow> nat \<Rightarrow> lstate \<Rightarrow> lstate act" where
  "attempts cfg w ctx mode ws temperature 0 ls = act_ret ls"
| "attempts cfg w ctx mode ws temperature (Suc n) ls =
    act_bind (annealing_round cfg w ctx mode ws temperature ls) (attempts cfg w ctx mode ws temperature n)"

partial_function (option) cooling ::
  "tuner_cfg \<Rightarrow> world \<Rightarrow> log_ctx \<Rightarrow> pmode \<Rightarrow> weights \<Rightarrow> real \<Rightarrow> lstate \<Rightarrow> tstate \<Rightarrow> (lstate res \<times> tstate) option" where
  "cooling cfg w ctx mode ws temperature ls s =
    (if temperature > final_temperature cfg
     then (case attempts cfg w ctx mode ws temperature (attempt_times cfg) ls s of
             None \<Rightarrow> None
           | Some (r, s') \<Rightarrow>
               (case r of Inl e \<Rightarrow> Some (Inl e, s')
                | Inr ls' \<Rightarrow> cooling cfg w ctx mode ws (temperature * cooling_rate cfg) ls' s'))
     else Some (Inr ls, s))"

definition baseline ::
  "tuner_cfg \<Rightarrow> world \<Rightarrow> log_ctx \<Rightarrow> weights \<Rightarrow> real \<Rightarrow> tuning_info \<Rightarrow> (pynum list \<times> real) act" where
  "baseline cfg w ctx ws current_time info =
    act_bind (load_solution cfg) (\<lambda>solution.
    act_bind (collect_round_metrics cfg w (current_time - t_tune cfg) current_time) (\<lambda>metrics.
    (let u = breakdown ws metrics in
    act_bind (append_metric cfg current_time u) (\<lambda>_.
    act_bind (append_summary cfg ctx current_time u solution info) (\<lambda>_.
      act_ret (solution, total_utility u))))))"

definition annealing_session :: "tuner_cfg \<Rightarrow> world \<Rightarrow> log_ctx \<Rightarrow> pmode \<Rightarrow> weights \<Rightarrow> real \<Rightarrow> lstate act" where
  "annealing_session cfg w ctx mode ws current_time =
    act_bind (baseline cfg w ctx ws current_time
        [(''state'', SStr ''baseline''), (''mode'', SStr (mode_name mode)), (''trigger_reason'', SStr (trigger_reason ctx)),
         (''tuning_round_index'', SInt (tuning_round_index ctx)), (''tuning_round'', SInt 0),
         (''temperature'', sfin (initial_temperature cfg)), (''candidate_type'', SStr ''current'')]) (\<lambda>(solution, value).
    act_bind (generate_candidate cfg Default solution) (\<lambda>candidate.
    act_bind (store_parameters cfg candidate) (\<lambda>_.
    act_bind (cooling cfg w ctx mode ws (initial_temperature cfg)
        \<lparr>current_solution = solution, current_value = value, best_solution = solution, best_value = value,
         new_solution = candidate, candidate_type = Default, tuning_rounds = 0,
         stop_time_this_round = current_time\<rparr>) (\<lambda>ls.
    act_bind (store_parameters cfg (best_solution ls)) (\<lambda>_. act_ret ls)))))"

definition aggressive_tuning :: "tuner_cfg \<Rightarrow> world \<Rightarrow> log_ctx \<Rightarrow> weights \<Rightarrow> real \<Rightarrow> lstate act" where
  "aggressive_tuning cfg w ctx = annealing_session cfg w ctx Aggressive"

definition conservative_tuning :: "tuner_cfg \<Rightarrow> world \<Rightarrow> log_ctx \<Rightarrow> weights \<Rightarrow> real \<Rightarrow> lstate act" where
  "conservative_tuning cfg w ctx = annealing_session cfg w ctx Conservative"

definition collect_metrics_only :: "tuner_cfg \<Rightarrow> world \<Rightarrow> log_ctx \<Rightarrow> pmode \<Rightarrow> weights \<Rightarrow> real \<Rightarrow> unit act" where
  "collect_metrics_only cfg w ctx mode ws current_time =
    act_bind (baseline cfg w ctx ws current_time
        [(''state'', SStr ''collect_only''), (''mode'', SStr (mode_name mode)), (''trigger_reason'', SStr (trigger_reason ctx)),
         (''tuning_round_index'', SInt (tuning_round_index ctx)), (''tuning_round'', SInt 0),
         (''candidate_type'', SStr ''current'')]) (\<lambda>_. act_ret ())"

definition start_tuning ::
  "tuner_cfg \<Rightarrow> world \<Rightarrow> real \<Rightarrow> pyfloat \<Rightarrow> string \<Rightarrow> snapshot \<Rightarrow> snapshot \<Rightarrow> unit act" where
  "start_tuning cfg w current_time kl reason trigger_flow_ratio previous =
    act_bind (act_put (\<lambda>s. s\<lparr>total_tuning_rounds := total_tuning_rounds s + 1\<rparr>)) (\<lambda>_.
    act_bind (act_lift (judge_mode (tc_mode cfg) (r_large (fst trigger_flow_ratio)) (r_small (fst trigger_flow_ratio))))
      (\<lambda>(mode, ws).
    (let now = (if reason = ''initial_observation'' then current_time + t_tune cfg else current_time) in
    act_bind (if reason = ''initial_observation'' then act_bind (wait_round w now) (\<lambda>_. act_ret ()) else act_ret ()) (\<lambda>_.
    act_bind (act_get total_tuning_rounds) (\<lambda>n.
    (let ctx = \<lparr>flow_ratio_snapshot = trigger_flow_ratio, previous_flow_ratio_snapshot = previous,
               kl_divergence = kl, trigger_reason = reason, tuning_round_index = n\<rparr> in
    act_bind
      (if COLLECT_ONLY_MODE cfg then collect_metrics_only cfg w ctx mode ws now
       else if mode = Aggressive then act_bind (aggressive_tuning cfg w ctx ws now) (\<lambda>_. act_ret ())
       else act_bind (conservative_tuning cfg w ctx ws now) (\<lambda>_. act_ret ())) (\<lambda>_.
    act_put (\<lambda>s. s\<lparr>is_tuning := False\<rparr>))))))))"

section \<open>What a session relies on\<close>

definition live_world :: "world \<Rightarrow> bool" where
  "live_world w \<longleftrightarrow> (\<forall>t n. \<exists>k \<ge> n. \<exists>data. thr_at w k = Inr data \<and> data \<noteq> [] \<and> t < fst (last data))"

text \<open>No read fails, and no read of the shared flow ratios has a zero total.\<close>

definition healthy :: "world \<Rightarrow> (nat \<Rightarrow> ratio_view) \<Rightarrow> bool" where
  "healthy w V \<longleftrightarrow> (\<forall>k. \<not> isl (thr_at w k) \<and> \<not> isl (rtt_at w k) \<and> \<not> isl (pfc_at w k))
     \<and> (\<forall>n. view_total (V n) \<noteq> 0)"

definition annealing_cfg_ok :: "tuner_cfg \<Rightarrow> bool" where
  "annealing_cfg_ok cfg \<longleftrightarrow> cfg_ok (tc_dir cfg) \<and> 0 < final_temperature cfg \<and> final_temperature cfg \<le> initial_temperature cfg
     \<and> 0 < cooling_rate cfg \<and> cooling_rate cfg < 1 \<and> 0 < attempt_times cfg"

definition written_file :: "tuner_cfg \<Rightarrow> string option \<Rightarrow> bool" where
  "written_file cfg f \<longleftrightarrow> (\<exists>vs out. f = Some out \<and> solution_ok (PARAMETER_SPECS cfg) vs
     \<and> write_parameters (py_repr cfg) (PARAMETER_SPECS cfg) vs = Inr out)"

definition thread_inv :: "tuner_cfg \<Rightarrow> (nat \<Rightarrow> ratio_view) \<Rightarrow> string option \<Rightarrow> tstate \<Rightarrow> bool" where
  "thread_inv cfg V f0 s \<longleftrightarrow> floats_ok (src s) \<and> views (src s) = V \<and> is_tuning s
     \<and> (parameter_file s = f0 \<or> written_file cfg (parameter_file s))"

text \<open>An action that keeps the thread invariant, whose value satisfies \<open>R\<close>, and that raises only in an
  unhealthy world.\<close>

definition keeps :: "tuner_cfg \<Rightarrow> world \<Rightarrow> (nat \<Rightarrow> ratio_view) \<Rightarrow> string option \<Rightarrow> 'a act \<Rightarrow> ('a \<Rightarrow> bool) \<Rightarrow> bool" where
  "keeps cfg w V f0 m R \<longleftrightarrow>
    triple (thread_inv cfg V f0) m (\<lambda>x s. thread_inv cfg V f0 s \<and> R x) (\<lambda>s. thread_inv cfg V f0 s \<and> \<not> healthy w V)"

lemma keeps_bind:
  assumes "keeps cfg w V f0 m R" "\<And>x. R x \<Longrightarrow> keeps cfg w V f0 (f x) Q"
  shows "keeps cfg w V f0 (act_bind m f) Q"
  unfolding keeps_def
proof (rule triple_bind [OF assms(1) [unfolded keeps_def]])
  fix x
  show "triple (\<lambda>s. thread_inv cfg V f0 s \<and> R x) (f x) (\<lambda>x s. thread_inv cfg V f0 s \<and> Q x)
     (\<lambda>s. thread_inv cfg V f0 s \<and> \<not> healthy w V)"
    by (rule triple_pre [of _ "R x"], simp, rule triple_conseq [OF assms(2) [unfolded keeps_def]]) auto
qed

lemma keeps_ret: "R x \<Longrightarrow> keeps cfg w V f0 (act_ret x) R"
  by (simp add: keeps_def triple_ret)

lemma keeps_weaken: "keeps cfg w V f0 m R \<Longrightarrow> (\<And>x. R x \<Longrightarrow> Q x) \<Longrightarrow> keeps cfg w V f0 m Q"
  unfolding keeps_def by (erule triple_conseq) auto

lemma keeps_simple:
  assumes "\<And>s. thread_inv cfg V f0 s \<Longrightarrow> \<exists>r s'. m s = Some (r, s') \<and> thread_inv cfg V f0 s'
      \<and> (isl r \<longrightarrow> \<not> healthy w V) \<and> (\<forall>x. r = Inr x \<longrightarrow> R x)"
  shows "keeps cfg w V f0 m R"
  unfolding keeps_def triple_def
proof (intro allI impI)
  fix s assume "thread_inv cfg V f0 s"
  from assms [OF this] obtain r s' where "m s = Some (r, s')" "thread_inv cfg V f0 s'"
    "isl r \<longrightarrow> \<not> healthy w V" "\<forall>x. r = Inr x \<longrightarrow> R x" by blast
  then show "case m s of None \<Rightarrow> False | Some (r, s') \<Rightarrow>
      (case r of Inl e \<Rightarrow> thread_inv cfg V f0 s' \<and> \<not> healthy w V | Inr x \<Rightarrow> thread_inv cfg V f0 s' \<and> R x)"
    by (cases r) auto
qed

lemma thread_inv_frame [simp]:
  "thread_inv cfg V f0 (s\<lparr>tick := n\<rparr>) = thread_inv cfg V f0 s"
  "thread_inv cfg V f0 (s\<lparr>cursor := c\<rparr>) = thread_inv cfg V f0 s"
  "thread_inv cfg V f0 (s\<lparr>bad_rate_ewma := e\<rparr>) = thread_inv cfg V f0 s"
  "thread_inv cfg V f0 (s\<lparr>metric_file := m\<rparr>) = thread_inv cfg V f0 s"
  "thread_inv cfg V f0 (s\<lparr>trace := t\<rparr>) = thread_inv cfg V f0 s"
  "thread_inv cfg V f0 (s\<lparr>total_tuning_rounds := k\<rparr>) = thread_inv cfg V f0 s"
  by (simp_all add: thread_inv_def)

lemma unhealthy:
  "thr_at w k = Inl e \<Longrightarrow> \<not> healthy w V" "rtt_at w k = Inl e \<Longrightarrow> \<not> healthy w V" "pfc_at w k = Inl e \<Longrightarrow> \<not> healthy w V"
  by (auto simp: healthy_def isl_def)

lemma keeps_reads:
  "keeps cfg w V f0 (read_throughput cfg w) (\<lambda>_. True)"
  "keeps cfg w V f0 (read_rtt w) (\<lambda>_. True)"
  "keeps cfg w V f0 (read_pfc cfg w a b) (\<lambda>_. True)"
proof -
  show "keeps cfg w V f0 (read_throughput cfg w) (\<lambda>_. True)"
  proof (rule keeps_simple)
    fix s assume "thread_inv cfg V f0 s"
    then show "\<exists>r s'. read_throughput cfg w s = Some (r, s') \<and> thread_inv cfg V f0 s'
      \<and> (isl r \<longrightarrow> \<not> healthy w V) \<and> (\<forall>x. r = Inr x \<longrightarrow> True)"
      by (cases "thr_at w (tick s)") (auto simp: read_throughput_def throughput_handling2_def dest: unhealthy)
  qed
  show "keeps cfg w V f0 (read_rtt w) (\<lambda>_. True)"
  proof (rule keeps_simple)
    fix s assume "thread_inv cfg V f0 s"
    then show "\<exists>r s'. read_rtt w s = Some (r, s') \<and> thread_inv cfg V f0 s'
      \<and> (isl r \<longrightarrow> \<not> healthy w V) \<and> (\<forall>x. r = Inr x \<longrightarrow> True)"
      by (cases "rtt_at w (tick s)") (auto simp: read_rtt_def rtt_handling2_def dest: unhealthy)
  qed
  show "keeps cfg w V f0 (read_pfc cfg w a b) (\<lambda>_. True)"
  proof (rule keeps_simple)
    fix s assume *: "thread_inv cfg V f0 s"
    show "\<exists>r s'. read_pfc cfg w a b s = Some (r, s') \<and> thread_inv cfg V f0 s'
      \<and> (isl r \<longrightarrow> \<not> healthy w V) \<and> (\<forall>x. r = Inr x \<longrightarrow> True)"
      using * by (cases "pfc_at w (tick s)")
        (auto simp: read_pfc_def pfc_handling_def pfc_handling_with_state_def Let_def dest: unhealthy
           split: prod.splits)
  qed
qed

lemma keeps_seq:
  "keeps cfg w V f0 m (\<lambda>_. True) \<Longrightarrow> (\<And>x. keeps cfg w V f0 (f x) Q) \<Longrightarrow> keeps cfg w V f0 (act_bind m f) Q"
  by (rule keeps_bind)

lemma keeps_metrics: "keeps cfg w V f0 (collect_round_metrics cfg w a b) (\<lambda>_. True)"
  unfolding collect_round_metrics_def
  by (rule keeps_seq [OF keeps_reads(1)], rule keeps_seq [OF keeps_reads(2)], rule keeps_seq [OF keeps_reads(3)],
      rule keeps_ret, rule TrueI)

lemma keeps_put:
  "(\<And>s. thread_inv cfg V f0 s \<Longrightarrow> thread_inv cfg V f0 (f s)) \<Longrightarrow> keeps cfg w V f0 (act_put f) (\<lambda>_. True)"
  by (simp add: keeps_def triple_put)

lemma keeps_lift: "r = Inr x \<Longrightarrow> R x \<Longrightarrow> keeps cfg w V f0 (act_lift r) R"
  by (simp add: keeps_def triple_lift)

lemma keeps_append_metric: "keeps cfg w V f0 (append_metric cfg t u) (\<lambda>_. True)"
  unfolding append_metric_def by (rule keeps_put) simp

lemma keeps_accept: "keeps cfg w V f0 (accept_candidate delta temperature) (\<lambda>_. True)"
  by (rule keeps_simple)
    (auto simp: accept_candidate_def random_random_def thread_inv_def floats_ok_def)

lemma wait_outcome:
  assumes "live_world w"
  shows "\<exists>r n. wait_round w t s = Some (r, s\<lparr>tick := n\<rparr>) \<and> (isl r \<longrightarrow> \<not> healthy w V)"
proof -
  from assms obtain k data where k: "tick s \<le> k" "thr_at w k = Inr data" "data \<noteq> []" "t < fst (last data)"
    unfolding live_world_def by blast
  then have "throughput_ready (thr_at w) t k" by (simp add: throughput_ready_def)
  from throughput_wait.returns_at_first_ready [OF k(1) this] obtain j where
    j: "wait_for_throughput_snapshot_after (thr_at w) t (tick s) = Some (throughput_outcome (thr_at w) j)" by blast
  show ?thesis
  proof (cases "thr_at w j")
    case (Inl e)
    with j have "wait_round w t s = Some (Inl e, s\<lparr>tick := tick s\<rparr>)" by (simp add: wait_round_def throughput_outcome_def)
    with unhealthy(1) [OF Inl] show ?thesis by blast
  next
    case (Inr d)
    with j have "wait_round w t s = Some (Inr (fst (last d)), s\<lparr>tick := Suc j\<rparr>)"
      by (simp add: wait_round_def throughput_outcome_def)
    then show ?thesis by fastforce
  qed
qed

lemma keeps_wait: "live_world w \<Longrightarrow> keeps cfg w V f0 (wait_round w t) (\<lambda>_. True)"
  by (rule keeps_simple) (use wait_outcome in fastforce)

lemma normalize_num_scalar [simp]: "normalize_scalar (num_scalar v) = num_scalar v"
  by (cases v) auto

lemma parameter_line_total:
  assumes "length vs = 13"
  shows "\<exists>line. format_parameter_line (ALL_PARAMETER_SPECS arange) vs = Inr line"
proof -
  let ?specs = "ALL_PARAMETER_SPECS arange"
  have map: "solution_to_parameter_map ?specs vs = fold (\<lambda>(s, v). dict_set (ps_name s) v) (zip ?specs (map num_scalar vs)) []"
    unfolding solution_to_parameter_map_def zip_map2 fold_map by (rule fold_cong) auto
  have "\<exists>v. dict_get (solution_to_parameter_map ?specs vs) (ps_name spec) = Some v" if "spec \<in> set ?specs" for spec
  proof -
    from that obtain k where "k < length ?specs" "spec = ?specs ! k" by (metis in_set_conv_nth)
    then show ?thesis
      using tbl.dict_of_values [of "map num_scalar vs" arange k] assms by (simp add: map)
  qed
  then have "\<forall>spec \<in> set ?specs. \<exists>y. (case dict_get (solution_to_parameter_map ?specs vs) (ps_name spec) of
       None \<Rightarrow> Inl KeyError | Some v \<Rightarrow> Inr (ps_name spec @ ''='' @ format_log_value v)) = Inr y"
    by (metis option.simps(5))
  then obtain g where "\<And>spec. spec \<in> set ?specs \<Longrightarrow> (case dict_get (solution_to_parameter_map ?specs vs) (ps_name spec) of
       None \<Rightarrow> Inl KeyError | Some v \<Rightarrow> Inr (ps_name spec @ ''='' @ format_log_value v)) = Inr (g spec)" by metis
  then have "res_map (\<lambda>spec. case dict_get (solution_to_parameter_map ?specs vs) (ps_name spec) of
       None \<Rightarrow> Inl KeyError | Some v \<Rightarrow> Inr (ps_name spec @ ''='' @ format_log_value v)) ?specs = Inr (map g ?specs)"
    by (rule res_map_total)
  then show ?thesis by (simp add: format_parameter_line_def Let_def)
qed

definition tuner_table :: "tuner_cfg \<Rightarrow> bool" where
  "tuner_table cfg \<longleftrightarrow> (\<exists>arange. PARAMETER_SPECS cfg = ALL_PARAMETER_SPECS arange)"

lemma keeps_summary:
  assumes "tuner_table cfg" "solution_ok (PARAMETER_SPECS cfg) vs"
  shows "keeps cfg w V f0 (append_summary cfg ctx t u vs info) (\<lambda>_. True)"
proof -
  from assms(1) obtain arange where specs: "PARAMETER_SPECS cfg = ALL_PARAMETER_SPECS arange"
    by (auto simp: tuner_table_def)
  have "length vs = 13" using assms(2) tbl.solution_ok_length specs by fastforce
  then obtain line where "format_parameter_line (PARAMETER_SPECS cfg) vs = Inr line"
    using parameter_line_total [of vs arange] specs by auto
  then obtain block where "log_cycle_summary (PARAMETER_SPECS cfg) (Fin t) (flow_ratio_snapshot ctx) u vs
        (Some info) (Some (previous_flow_ratio_snapshot ctx)) (SFloat (kl_divergence ctx)) = Inr block"
    by (simp add: log_cycle_summary_def)
  then show ?thesis unfolding append_summary_def
    by (intro keeps_seq keeps_put) (auto intro: keeps_lift)
qed

lemma keeps_generate:
  assumes "tuner_table cfg" "cfg_ok (tc_dir cfg)" "solution_ok (PARAMETER_SPECS cfg) cur"
  shows "keeps cfg w V f0 (generate_candidate cfg mode cur) (solution_ok (PARAMETER_SPECS cfg))"
proof (rule keeps_simple)
  from assms(1) obtain arange where specs: "PARAMETER_SPECS cfg = ALL_PARAMETER_SPECS arange"
    by (auto simp: tuner_table_def)
  fix s assume inv: "thread_inv cfg V f0 s"
  then have fl: "floats_ok (src s)" "views (src s) = V" by (auto simp: thread_inv_def)
  let ?gen = "generate_new_parameters (PARAMETER_SPECS cfg) (tc_dir cfg) (bad_rate_ewma s) mode cur (src s)"
  show "\<exists>r s'. generate_candidate cfg mode cur s = Some (r, s') \<and> thread_inv cfg V f0 s'
     \<and> (isl r \<longrightarrow> \<not> healthy w V) \<and> (\<forall>x. r = Inr x \<longrightarrow> solution_ok (PARAMETER_SPECS cfg) x)"
  proof (cases ?gen)
    case (Inl e)
    have "\<not> healthy w V"
    proof
      assume "healthy w V"
      then have "views_ok (src s)" using fl(2) by (simp add: healthy_def views_ok_def)
      from tbl.generate_total [OF assms(2) fl(1) this, of arange cur "bad_rate_ewma s" mode] assms(3) Inl specs show False by auto
    qed
    with Inl inv show ?thesis by (simp add: generate_candidate_def)
  next
    case (Inr vg)
    obtain vs g where vg: "vg = (vs, g)" by (cases vg)
    have ok: "solution_ok (PARAMETER_SPECS cfg) vs"
      using tbl.generate_ok [of arange "tc_dir cfg" "bad_rate_ewma s" mode cur "src s" vs g] Inr vg specs assms fl by simp
    have "floats g = floats (src s) \<and> views g = views (src s)"
      using generate_src Inr vg by blast
    with inv have "thread_inv cfg V f0 (s\<lparr>src := g\<rparr>)" by (auto simp: thread_inv_def floats_ok_def)
    with ok Inr vg show ?thesis by (simp add: generate_candidate_def)
  qed
qed

lemma keeps_store:
  assumes "tuner_table cfg" "solution_ok (PARAMETER_SPECS cfg) vs"
  shows "keeps cfg w V f0 (store_parameters cfg vs) (\<lambda>_. True)"
proof -
  from assms(1) obtain arange where specs: "PARAMETER_SPECS cfg = ALL_PARAMETER_SPECS arange"
    by (auto simp: tuner_table_def)
  obtain out where out: "write_parameters (py_repr cfg) (PARAMETER_SPECS cfg) vs = Inr out"
    using tbl.normalize_id [of arange vs] assms(2) specs by (simp add: write_parameters_def)
  then have "written_file cfg (Some out)" using assms(2) by (auto simp: written_file_def)
  then show ?thesis unfolding store_parameters_def
    by (intro keeps_bind [OF keeps_lift [OF out, of "\<lambda>x. x = out"]] keeps_put) (auto simp: thread_inv_def)
qed

section \<open>Rounds end\<close>

definition solutions_ok :: "tuner_cfg \<Rightarrow> lstate \<Rightarrow> bool" where
  "solutions_ok cfg ls \<longleftrightarrow> solution_ok (PARAMETER_SPECS cfg) (current_solution ls)
     \<and> solution_ok (PARAMETER_SPECS cfg) (best_solution ls) \<and> solution_ok (PARAMETER_SPECS cfg) (new_solution ls)"

lemma keeps_round:
  assumes "tuner_table cfg" "cfg_ok (tc_dir cfg)" "live_world w" and ok: "solutions_ok cfg ls"
  shows "keeps cfg w V f0 (annealing_round cfg w ctx mode ws temperature ls)
    (\<lambda>ls'. solutions_ok cfg ls' \<and> tuning_rounds ls' = Suc (tuning_rounds ls))"
proof -
  have new: "solution_ok (PARAMETER_SPECS cfg) (new_solution ls)" using ok by (simp add: solutions_ok_def)
  show ?thesis
    unfolding annealing_round_def Let_def
    apply (rule keeps_seq [OF keeps_wait [OF assms(3)]])
    apply (rule keeps_seq [OF keeps_metrics])
    apply (rule keeps_seq [OF keeps_append_metric])
    apply (rule keeps_seq [OF keeps_put], simp)
    apply (rule keeps_seq [OF keeps_accept])
    apply (rule keeps_seq [OF keeps_summary [OF assms(1) new]])
    apply (rule keeps_bind [OF keeps_generate [OF assms(1,2)]])
     apply (use ok in \<open>simp add: solutions_ok_def\<close>)
    apply (rule keeps_seq [OF keeps_store [OF assms(1)]], assumption)
    apply (rule keeps_ret)
    apply (use ok in \<open>simp add: solutions_ok_def\<close>)
    done
qed

lemma keeps_attempts:
  assumes "tuner_table cfg" "cfg_ok (tc_dir cfg)" "live_world w" "solutions_ok cfg ls"
  shows "keeps cfg w V f0 (attempts cfg w ctx mode ws temperature n ls)
    (\<lambda>ls'. solutions_ok cfg ls' \<and> tuning_rounds ls' = tuning_rounds ls + n)"
  using assms(4)
proof (induction n arbitrary: ls)
  case 0
  then show ?case by (simp add: keeps_ret)
next
  case (Suc n)
  show ?case
    unfolding attempts.simps
    by (rule keeps_bind [OF keeps_round [OF assms(1-3) Suc.prems]], rule keeps_weaken [OF Suc.IH]) auto
qed

text \<open>The number of stages: the first power of the cooling rate that brings the temperature down.\<close>

definition stages :: "tuner_cfg \<Rightarrow> real \<Rightarrow> nat \<Rightarrow> bool" where
  "stages cfg temperature k \<longleftrightarrow> temperature * cooling_rate cfg ^ k \<le> final_temperature cfg
     \<and> (\<forall>m < k. final_temperature cfg < temperature * cooling_rate cfg ^ m)"

lemma stages_exist:
  assumes "annealing_cfg_ok cfg" "0 < temperature"
  shows "\<exists>k. stages cfg temperature k"
proof -
  have "0 < final_temperature cfg / temperature" using assms by (simp add: annealing_cfg_ok_def)
  then obtain n where "cooling_rate cfg ^ n < final_temperature cfg / temperature"
    using real_arch_pow_inv [of "final_temperature cfg / temperature" "cooling_rate cfg"] assms(1)
    by (auto simp: annealing_cfg_ok_def)
  then have "temperature * cooling_rate cfg ^ n \<le> final_temperature cfg"
    using assms(2) by (simp add: pos_less_divide_eq mult.commute)
  then show ?thesis
    unfolding stages_def
    by (intro exI [of _ "LEAST n. temperature * cooling_rate cfg ^ n \<le> final_temperature cfg"] conjI allI impI)
      (rule LeastI, assumption, drule not_less_Least, simp)
qed

lemma stages_Suc:
  assumes "stages cfg temperature (Suc k)"
  shows "temperature > final_temperature cfg" "stages cfg (temperature * cooling_rate cfg) k"
  using assms by (auto simp: stages_def mult.assoc)

lemma cooling_act:
  "cooling cfg w ctx mode ws temperature ls =
    (if temperature > final_temperature cfg
     then act_bind (attempts cfg w ctx mode ws temperature (attempt_times cfg) ls)
            (cooling cfg w ctx mode ws (temperature * cooling_rate cfg))
     else act_ret ls)"
  by (rule ext, subst cooling.simps) (simp add: act_bind_def act_ret_def)

lemma keeps_cooling:
  assumes "tuner_table cfg" "annealing_cfg_ok cfg" "live_world w" "solutions_ok cfg ls" "stages cfg temperature k"
  shows "keeps cfg w V f0 (cooling cfg w ctx mode ws temperature ls)
    (\<lambda>ls'. solutions_ok cfg ls' \<and> tuning_rounds ls' = tuning_rounds ls + k * attempt_times cfg)"
  using assms(4,5)
proof (induction k arbitrary: temperature ls)
  case 0
  then have "\<not> temperature > final_temperature cfg" by (simp add: stages_def)
  with 0 show ?case by (simp add: cooling_act keeps_ret)
next
  case (Suc k)
  have cfg: "cfg_ok (tc_dir cfg)" using assms(2) by (simp add: annealing_cfg_ok_def)
  note hot = stages_Suc [OF Suc.prems(2)]
  show ?case
    unfolding cooling_act [of _ _ _ _ _ temperature] if_P [OF hot(1)]
    by (rule keeps_bind [OF keeps_attempts [OF assms(1) cfg assms(3) Suc.prems(1)]],
        rule keeps_weaken [OF Suc.IH [OF _ hot(2)]]) auto
qed

section \<open>Whole sessions\<close>

definition fails :: "tuner_cfg \<Rightarrow> world \<Rightarrow> (nat \<Rightarrow> ratio_view) \<Rightarrow> string option \<Rightarrow> tstate \<Rightarrow> bool" where
  "fails cfg w V f0 s \<longleftrightarrow> thread_inv cfg V f0 s \<and> \<not> healthy w V"

lemma triple_value:
  "(R \<Longrightarrow> triple P m Q E) \<Longrightarrow> triple (\<lambda>s. P s \<and> R) m Q E"
  by (auto simp: triple_def)

lemma keeps_then:
  assumes "keeps cfg w V f0 m R" "\<And>x. R x \<Longrightarrow> triple (thread_inv cfg V f0) (f x) Q (fails cfg w V f0)"
  shows "triple (thread_inv cfg V f0) (act_bind m f) Q (fails cfg w V f0)"
proof (rule triple_bind)
  show "triple (thread_inv cfg V f0) m (\<lambda>x s. thread_inv cfg V f0 s \<and> R x) (fails cfg w V f0)"
    using assms(1) unfolding keeps_def fails_def [abs_def] .
  show "triple (\<lambda>s. thread_inv cfg V f0 s \<and> R x) (f x) Q (fails cfg w V f0)" for x
    by (rule triple_value) (rule assms(2))
qed

lemma triple_baseline:
  assumes "tuner_table cfg" "load_current_parameters (PARAMETER_SPECS cfg) f0 = Inr s0"
    "solution_ok (PARAMETER_SPECS cfg) s0"
  shows "triple (\<lambda>s. thread_inv cfg V f0 s \<and> parameter_file s = f0) (baseline cfg w ctx ws t info)
    (\<lambda>x s. thread_inv cfg V f0 s \<and> fst x = s0) (fails cfg w V f0)"
  unfolding baseline_def
proof (rule triple_bind [of _ _ "\<lambda>x s. thread_inv cfg V f0 s \<and> x = s0"])
  show "triple (\<lambda>s. thread_inv cfg V f0 s \<and> parameter_file s = f0) (load_solution cfg)
    (\<lambda>x s. thread_inv cfg V f0 s \<and> x = s0) (fails cfg w V f0)"
    using assms(2) by (auto simp: triple_def load_solution_def)
next
  fix sol
  have k: "keeps cfg w V f0 (act_bind (collect_round_metrics cfg w (t - t_tune cfg) t) (\<lambda>metrics.
    (let u = breakdown ws metrics in
    act_bind (append_metric cfg t u) (\<lambda>_.
    act_bind (append_summary cfg ctx t u s0 info) (\<lambda>_. act_ret (s0, total_utility u)))))) (\<lambda>x. fst x = s0)"
    unfolding Let_def
    by (rule keeps_seq [OF keeps_metrics], rule keeps_seq [OF keeps_append_metric],
        rule keeps_seq [OF keeps_summary [OF assms(1,3)]], rule keeps_ret, simp)
  show "triple (\<lambda>s. thread_inv cfg V f0 s \<and> sol = s0) (act_bind (collect_round_metrics cfg w (t - t_tune cfg) t) (\<lambda>metrics.
    (let u = breakdown ws metrics in
    act_bind (append_metric cfg t u) (\<lambda>_.
    act_bind (append_summary cfg ctx t u sol info) (\<lambda>_. act_ret (sol, total_utility u))))))
    (\<lambda>x s. thread_inv cfg V f0 s \<and> fst x = s0) (fails cfg w V f0)"
  proof (rule triple_pre [of _ "sol = s0"], simp)
    assume "sol = s0"
    with k show ?thesis unfolding keeps_def fails_def [abs_def] by (simp add: triple_def)
  qed
qed

lemma triple_final_store:
  assumes "tuner_table cfg" "solution_ok (PARAMETER_SPECS cfg) (best_solution ls)"
  shows "triple (thread_inv cfg V f0) (act_bind (store_parameters cfg (best_solution ls)) (\<lambda>_. act_ret ls))
    (\<lambda>x s. thread_inv cfg V f0 s \<and> x = ls \<and> (\<exists>out. parameter_file s = Some out
       \<and> write_parameters (py_repr cfg) (PARAMETER_SPECS cfg) (best_solution ls) = Inr out)) (fails cfg w V f0)"
proof -
  from assms(1) obtain arange where specs: "PARAMETER_SPECS cfg = ALL_PARAMETER_SPECS arange"
    by (auto simp: tuner_table_def)
  obtain out where out: "write_parameters (py_repr cfg) (PARAMETER_SPECS cfg) (best_solution ls) = Inr out"
    using tbl.normalize_id [of arange "best_solution ls"] assms(2) specs by (simp add: write_parameters_def)
  then have "written_file cfg (Some out)" using assms(2) by (auto simp: written_file_def)
  with out show ?thesis
    by (simp add: triple_def store_parameters_def act_bind_def act_lift_def act_put_def act_ret_def thread_inv_def)
qed

lemma session_after_baseline:
  assumes "tuner_table cfg" "annealing_cfg_ok cfg" "live_world w" "solution_ok (PARAMETER_SPECS cfg) s0"
    and "stages cfg (initial_temperature cfg) k"
  shows "triple (thread_inv cfg V f0)
    (act_bind (generate_candidate cfg Default s0) (\<lambda>candidate.
     act_bind (store_parameters cfg candidate) (\<lambda>_.
     act_bind (cooling cfg w ctx mode ws (initial_temperature cfg)
        \<lparr>current_solution = s0, current_value = v0, best_solution = s0, best_value = v0,
         new_solution = candidate, candidate_type = Default, tuning_rounds = 0,
         stop_time_this_round = t\<rparr>) (\<lambda>ls.
     act_bind (store_parameters cfg (best_solution ls)) (\<lambda>_. act_ret ls)))))
    (\<lambda>ls s. thread_inv cfg V f0 s \<and> solutions_ok cfg ls \<and> tuning_rounds ls = k * attempt_times cfg
       \<and> (\<exists>out. parameter_file s = Some out
            \<and> write_parameters (py_repr cfg) (PARAMETER_SPECS cfg) (best_solution ls) = Inr out)) (fails cfg w V f0)"
proof -
  have cfg: "cfg_ok (tc_dir cfg)" using assms(2) by (simp add: annealing_cfg_ok_def)
  let ?ls0 = "\<lambda>candidate. \<lparr>current_solution = s0, current_value = v0, best_solution = s0, best_value = v0,
         new_solution = candidate, candidate_type = Default, tuning_rounds = 0, stop_time_this_round = t\<rparr>"
  let ?R = "\<lambda>ls. solutions_ok cfg ls \<and> tuning_rounds ls = k * attempt_times cfg"
  have init: "solutions_ok cfg (?ls0 c)" if "solution_ok (PARAMETER_SPECS cfg) c" for c
    using that assms(4) by (simp add: solutions_ok_def)
  have cool: "keeps cfg w V f0 (cooling cfg w ctx mode ws (initial_temperature cfg) (?ls0 c)) ?R"
    if "solution_ok (PARAMETER_SPECS cfg) c" for c
    using keeps_cooling [OF assms(1-3) init [OF that] assms(5)] by simp
  have fin: "triple (thread_inv cfg V f0) (act_bind (store_parameters cfg (best_solution ls)) (\<lambda>_. act_ret ls))
      (\<lambda>ls s. thread_inv cfg V f0 s \<and> solutions_ok cfg ls \<and> tuning_rounds ls = k * attempt_times cfg \<and> (\<exists>out. parameter_file s = Some out
            \<and> write_parameters (py_repr cfg) (PARAMETER_SPECS cfg) (best_solution ls) = Inr out)) (fails cfg w V f0)"
    if R: "?R ls" for ls
  proof -
    have "solution_ok (PARAMETER_SPECS cfg) (best_solution ls)" using R by (simp add: solutions_ok_def)
    from triple_final_store [OF assms(1) this, of V f0 w] R
    show ?thesis by (elim triple_conseq) auto
  qed
  show ?thesis
    by (rule keeps_then [OF keeps_generate [OF assms(1) cfg assms(4)]], rule keeps_then [OF keeps_store [OF assms(1)]],
        assumption, rule keeps_then [OF cool], assumption, erule fin)
qed

text \<open>The two sessions of the source.\<close>

definition tuning_of :: "pmode \<Rightarrow> tuner_cfg \<Rightarrow> world \<Rightarrow> log_ctx \<Rightarrow> weights \<Rightarrow> real \<Rightarrow> lstate act" where
  "tuning_of mode = (if mode = Aggressive then aggressive_tuning else conservative_tuning)"

definition session_start :: "tuner_cfg \<Rightarrow> world \<Rightarrow> pynum list \<Rightarrow> tstate \<Rightarrow> bool" where
  "session_start cfg w s0 s \<longleftrightarrow> tuner_table cfg \<and> annealing_cfg_ok cfg \<and> live_world w
     \<and> floats_ok (src s) \<and> is_tuning s
     \<and> load_current_parameters (PARAMETER_SPECS cfg) (parameter_file s) = Inr s0
     \<and> solution_ok (PARAMETER_SPECS cfg) s0"

lemma triple_tuning:
  assumes st: "session_start cfg w s0 s" "stages cfg (initial_temperature cfg) k"
  shows "triple (\<lambda>s'. thread_inv cfg (views (src s)) (parameter_file s) s' \<and> parameter_file s' = parameter_file s)
    (tuning_of mode cfg w ctx ws t)
    (\<lambda>ls s'. thread_inv cfg (views (src s)) (parameter_file s) s'
       \<and> solutions_ok cfg ls \<and> tuning_rounds ls = k * attempt_times cfg
       \<and> (\<exists>out. parameter_file s' = Some out
            \<and> write_parameters (py_repr cfg) (PARAMETER_SPECS cfg) (best_solution ls) = Inr out))
    (fails cfg w (views (src s)) (parameter_file s))"
proof -
  have *: "tuner_table cfg" "annealing_cfg_ok cfg" "live_world w" "solution_ok (PARAMETER_SPECS cfg) s0"
    "load_current_parameters (PARAMETER_SPECS cfg) (parameter_file s) = Inr s0"
    using st(1) by (simp_all add: session_start_def)
  let ?inv = "thread_inv cfg (views (src s)) (parameter_file s)"
  let ?Q = "\<lambda>ls s'. ?inv s'
       \<and> solutions_ok cfg ls \<and> tuning_rounds ls = k * attempt_times cfg
       \<and> (\<exists>out. parameter_file s' = Some out
            \<and> write_parameters (py_repr cfg) (PARAMETER_SPECS cfg) (best_solution ls) = Inr out)"
  have rest: "triple (\<lambda>s'. ?inv s' \<and> fst x = s0) (case x of (sol, v0) \<Rightarrow>
      act_bind (generate_candidate cfg Default sol) (\<lambda>candidate.
      act_bind (store_parameters cfg candidate) (\<lambda>_.
      act_bind (cooling cfg w ctx m ws (initial_temperature cfg)
        \<lparr>current_solution = sol, current_value = v0, best_solution = sol, best_value = v0,
         new_solution = candidate, candidate_type = Default, tuning_rounds = 0,
         stop_time_this_round = t\<rparr>) (\<lambda>ls.
      act_bind (store_parameters cfg (best_solution ls)) (\<lambda>_. act_ret ls))))) ?Q
      (fails cfg w (views (src s)) (parameter_file s))" for x m
  proof (rule triple_value)
    assume "fst x = s0"
    then obtain v0 where x: "x = (s0, v0)" by (cases x) auto
    show "triple ?inv (case x of (sol, v0) \<Rightarrow>
      act_bind (generate_candidate cfg Default sol) (\<lambda>candidate.
      act_bind (store_parameters cfg candidate) (\<lambda>_.
      act_bind (cooling cfg w ctx m ws (initial_temperature cfg)
        \<lparr>current_solution = sol, current_value = v0, best_solution = sol, best_value = v0,
         new_solution = candidate, candidate_type = Default, tuning_rounds = 0,
         stop_time_this_round = t\<rparr>) (\<lambda>ls.
      act_bind (store_parameters cfg (best_solution ls)) (\<lambda>_. act_ret ls))))) ?Q
      (fails cfg w (views (src s)) (parameter_file s))"
      unfolding x prod.case
      by (rule triple_conseq [OF session_after_baseline [OF *(1-4) st(2)]]) auto
  qed
  have "triple (\<lambda>s'. ?inv s' \<and> parameter_file s' = parameter_file s) (annealing_session cfg w ctx m ws t) ?Q
      (fails cfg w (views (src s)) (parameter_file s))" for m
    unfolding annealing_session_def by (rule triple_bind [OF triple_baseline [OF *(1,5,4)] rest])
  then show ?thesis
    by (simp add: tuning_of_def aggressive_tuning_def conservative_tuning_def)
qed

lemma session_result:
  assumes st: "session_start cfg w s0 s" and k: "stages cfg (initial_temperature cfg) k"
  shows "\<exists>r s'. tuning_of mode cfg w ctx ws t s = Some (r, s')
    \<and> (parameter_file s' = parameter_file s \<or> written_file cfg (parameter_file s'))
    \<and> (healthy w (views (src s)) \<longrightarrow> (\<exists>ls out. r = Inr ls
         \<and> solutions_ok cfg ls \<and> tuning_rounds ls = k * attempt_times cfg \<and> parameter_file s' = Some out
         \<and> write_parameters (py_repr cfg) (PARAMETER_SPECS cfg) (best_solution ls) = Inr out))"
proof -
  let ?f = "tuning_of mode cfg w ctx ws t"
  let ?inv = "thread_inv cfg (views (src s)) (parameter_file s)"
  have "?inv s" using st by (simp add: session_start_def thread_inv_def)
  then have *: "case ?f s of None \<Rightarrow> False | Some (r, s') \<Rightarrow> (case r of Inl e \<Rightarrow> fails cfg w (views (src s)) (parameter_file s) s'
     | Inr ls \<Rightarrow> ?inv s' \<and> solutions_ok cfg ls \<and> tuning_rounds ls = k * attempt_times cfg
       \<and> (\<exists>out. parameter_file s' = Some out
            \<and> write_parameters (py_repr cfg) (PARAMETER_SPECS cfg) (best_solution ls) = Inr out))"
    using triple_tuning [OF assms, of mode ctx ws t] unfolding triple_def by simp
  then obtain r s' where r: "?f s = Some (r, s')" by (cases "?f s") auto
  with * show ?thesis by (cases r) (auto simp: fails_def thread_inv_def)
qed

section \<open>The annealing run\<close>

text \<open>What a session does, without its files and logs. A point of the run holds the end of the last measured window, the
  accepted solution and its utility, the candidate in force, and the state of the thread. An evaluation is a
  temperature, a candidate, its measured utility and the decision.\<close>

record run_point =
  pt_time :: real
  pt_solution :: "pynum list"
  pt_value :: real
  pt_candidate :: "pynum list"
  pt_state :: tstate

type_synonym evals = "(real \<times> pynum list \<times> real \<times> bool) list"

text \<open>The starting point followed by the accepted candidates.\<close>

definition accepted :: "pynum list \<Rightarrow> real \<Rightarrow> evals \<Rightarrow> (pynum list \<times> real) list" where
  "accepted s0 v0 evals = (s0, v0) # concat (map (\<lambda>(T, c, v, a). if a then [(c, v)] else []) evals)"

text \<open>The utility of a window: the thread waits for the end of the window, then reads the three metrics.\<close>

definition measured :: "tuner_cfg \<Rightarrow> world \<Rightarrow> weights \<Rightarrow> real \<Rightarrow> real \<Rightarrow> real act" where
  "measured cfg w ws start_time stop_time =
    act_bind (wait_round w stop_time) (\<lambda>_.
    act_bind (collect_round_metrics cfg w start_time stop_time) (\<lambda>m. act_ret (total_utility (breakdown ws m))))"

text \<open>The Metropolis rule for a change of utility and a draw from the unit interval.\<close>

definition metropolis :: "real \<Rightarrow> real \<Rightarrow> real \<Rightarrow> bool" where
  "metropolis temperature delta u \<longleftrightarrow> 0 < delta \<or> u < exp (delta / temperature)"

definition in_file :: "tuner_cfg \<Rightarrow> pynum list \<Rightarrow> tstate \<Rightarrow> bool" where
  "in_file cfg c s \<longleftrightarrow> (\<exists>out. parameter_file s = Some out \<and> write_parameters (py_repr cfg) (PARAMETER_SPECS cfg) c = Inr out)"

text \<open>The next candidate is generated from the solution of the point; no file of the simulator is read meanwhile.\<close>

definition proposes :: "tuner_cfg \<Rightarrow> pmode \<Rightarrow> real \<Rightarrow> gen_src \<Rightarrow> tstate \<Rightarrow> run_point \<Rightarrow> bool" where
  "proposes cfg mode ewma g s q \<longleftrightarrow>
    generate_new_parameters (PARAMETER_SPECS cfg) (tc_dir cfg) ewma mode (pt_solution q) g
      = Inr (pt_candidate q, src (pt_state q))
    \<and> in_file cfg (pt_candidate q) (pt_state q) \<and> bad_rate_ewma (pt_state q) = ewma
    \<and> tick (pt_state q) = tick s \<and> cursor (pt_state q) = cursor s"

definition begins :: "tuner_cfg \<Rightarrow> world \<Rightarrow> weights \<Rightarrow> pynum list \<Rightarrow> real \<Rightarrow> tstate \<Rightarrow> run_point \<Rightarrow> bool" where
  "begins cfg w ws s0 t s p \<longleftrightarrow>
    (\<exists>m s1. collect_round_metrics cfg w (t - t_tune cfg) t s = Some (Inr m, s1)
       \<and> pt_time p = t \<and> pt_solution p = s0 \<and> pt_value p = total_utility (breakdown ws m)
       \<and> proposes cfg Default (bad_rate_ewma s1) (src s1) s1 p)"

text \<open>One evaluation. The candidate in the parameter file is measured over the next window, compared with the
  utility accepted last, and accepted by the Metropolis rule with the generator's next draw.\<close>

definition evaluates :: "tuner_cfg \<Rightarrow> world \<Rightarrow> pmode \<Rightarrow> weights \<Rightarrow> run_point \<Rightarrow> real \<times> pynum list \<times> real \<times> bool \<Rightarrow> run_point \<Rightarrow> bool" where
  "evaluates cfg w mode ws p e q \<longleftrightarrow> (case e of (temperature, c, v, a) \<Rightarrow>
    (let delta = v - pt_value p in
    c = pt_candidate p \<and> in_file cfg c (pt_state p)
    \<and> (\<exists>s1. measured cfg w ws (pt_time p) (pt_time p + t_tune cfg) (pt_state p) = Some (Inr v, s1)
       \<and> a = metropolis temperature delta (fst (random_random (src s1)))
       \<and> pt_time q = pt_time p + t_tune cfg
       \<and> (pt_solution q, pt_value q) = (if a then (c, v) else (pt_solution p, pt_value p))
       \<and> proposes cfg mode (update_bad_rate_ewma (tc_dir cfg) delta (bad_rate_ewma s1))
           (if 0 < delta then src s1 else snd (random_random (src s1))) s1 q)))"

fun anneals :: "tuner_cfg \<Rightarrow> world \<Rightarrow> pmode \<Rightarrow> weights \<Rightarrow> run_point \<Rightarrow> evals \<Rightarrow> run_point \<Rightarrow> bool" where
  "anneals cfg w mode ws p [] q \<longleftrightarrow> q = p"
| "anneals cfg w mode ws p (e # es) q \<longleftrightarrow> (\<exists>m. evaluates cfg w mode ws p e m \<and> anneals cfg w mode ws m es q)"

text \<open>The temperatures of \<open>k\<close> stages, one for each attempt.\<close>

definition temperatures :: "tuner_cfg \<Rightarrow> real \<Rightarrow> nat \<Rightarrow> real list" where
  "temperatures cfg temperature k =
    concat (map (\<lambda>j. replicate (attempt_times cfg) (temperature * cooling_rate cfg ^ j)) [0..<k])"

lemma anneals_append:
  "anneals cfg w mode ws p (es @ fs) q \<longleftrightarrow> (\<exists>m. anneals cfg w mode ws p es m \<and> anneals cfg w mode ws m fs q)"
  by (induction es arbitrary: p) auto

lemma temperatures_Suc:
  "temperatures cfg T (Suc k) = replicate (attempt_times cfg) T @ temperatures cfg (T * cooling_rate cfg) k"
proof -
  have "[0..<Suc k] = 0 # map Suc [0..<k]" by (simp add: map_Suc_upt upt_conv_Cons del: upt_Suc)
  then show ?thesis by (simp add: temperatures_def comp_def mult.assoc del: upt_Suc)
qed

lemma temperatures_length: "length (temperatures cfg T k) = k * attempt_times cfg"
  by (induction k arbitrary: T) (simp_all add: temperatures_Suc, simp add: temperatures_def)

lemma accepted_append: "accepted s0 v0 (es @ [(T, c, v, a)]) = accepted s0 v0 es @ (if a then [(c, v)] else [])"
  by (simp add: accepted_def)

text \<open>What the loop remembers of the evaluations.\<close>

definition remembers :: "pynum list \<Rightarrow> real \<Rightarrow> evals \<Rightarrow> lstate \<Rightarrow> bool" where
  "remembers s0 v0 evals ls \<longleftrightarrow>
    (current_solution ls, current_value ls) = last (accepted s0 v0 evals)
    \<and> (best_solution ls, best_value ls) \<in> set (accepted s0 v0 evals)
    \<and> (\<forall>(c, v) \<in> set (accepted s0 v0 evals). v \<le> best_value ls)"

lemma remembers_step:
  assumes "remembers s0 v0 evals ls"
    and cur: "(cs, cv) = (if a then (new_solution ls, v) else (current_solution ls, current_value ls))"
    and best: "best = (if cv > best_value ls then (cs, cv) else (best_solution ls, best_value ls))"
    and ls': "current_solution ls' = cs" "current_value ls' = cv" "best_solution ls' = fst best" "best_value ls' = snd best"
  shows "remembers s0 v0 (evals @ [(T, new_solution ls, v, a)]) ls'"
proof -
  have "last (accepted s0 v0 evals) \<in> set (accepted s0 v0 evals)" by (rule last_in_set) (simp add: accepted_def)
  then have le: "current_value ls \<le> best_value ls" using assms(1) by (auto simp: remembers_def)
  show ?thesis
  proof (cases a)
    case True
    with cur have "cs = new_solution ls" "cv = v" by simp_all
    with True assms(1) ls' show ?thesis by (force simp: remembers_def accepted_append best)
  next
    case False
    with cur le have "cs = current_solution ls" "cv = current_value ls" "best = (best_solution ls, best_value ls)"
      by (simp_all add: best)
    with False assms(1) ls' show ?thesis by (auto simp: remembers_def accepted_append)
  qed
qed

definition point_of :: "lstate \<Rightarrow> tstate \<Rightarrow> run_point" where
  "point_of ls s = \<lparr>pt_time = stop_time_this_round ls, pt_solution = current_solution ls, pt_value = current_value ls,
     pt_candidate = new_solution ls, pt_state = s\<rparr>"

lemma act_bind_value:
  "act_bind m f s = Some (Inr y, s') \<longleftrightarrow> (\<exists>x s1. m s = Some (Inr x, s1) \<and> f x s1 = Some (Inr y, s'))"
  by (auto simp: act_bind_def split: option.splits sum.splits)

lemma generate_value:
  "generate_candidate cfg mode cur s = Some (Inr c, s') \<longleftrightarrow>
    (\<exists>g. generate_new_parameters (PARAMETER_SPECS cfg) (tc_dir cfg) (bad_rate_ewma s) mode cur (src s) = Inr (c, g)
       \<and> s' = s\<lparr>src := g\<rparr>)"
  by (auto simp: generate_candidate_def split: sum.splits prod.splits)

lemma store_value:
  "store_parameters cfg c s = Some (Inr x, s') \<longleftrightarrow>
    (\<exists>out. write_parameters (py_repr cfg) (PARAMETER_SPECS cfg) c = Inr out \<and> s' = s\<lparr>parameter_file := Some out\<rparr>)"
  by (auto simp: store_parameters_def act_bind_value act_lift_def act_put_def)

lemma summary_value:
  "append_summary cfg ctx t u c info s = Some (Inr x, s') \<Longrightarrow> \<exists>b. s' = s\<lparr>trace := b\<rparr>"
  by (auto simp: append_summary_def act_bind_value act_lift_def act_put_def)

lemma accept_value:
  "accept_candidate delta temperature s = Some (Inr a, s') \<longleftrightarrow>
    a = metropolis temperature delta (fst (random_random (src s)))
    \<and> s' = (if 0 < delta then s else s\<lparr>src := snd (random_random (src s))\<rparr>)"
  by (auto simp: accept_candidate_def metropolis_def split: prod.splits)

lemmas round_values = act_bind_value generate_value store_value accept_value append_metric_def act_put_def act_ret_def

lemma round_evaluates:
  assumes "annealing_round cfg w ctx mode ws temperature ls s = Some (Inr ls', s')" "in_file cfg (new_solution ls) s"
    "remembers s0 v0 evals ls"
  obtains e where "evaluates cfg w mode ws (point_of ls s) e (point_of ls' s')" "fst e = temperature"
    "in_file cfg (new_solution ls') s'" "remembers s0 v0 (evals @ [e]) ls'"
proof -
  let ?stop = "stop_time_this_round ls + t_tune cfg"
  obtain x s1 m s2 where wait: "wait_round w ?stop s = Some (Inr x, s1)"
    and coll: "collect_round_metrics cfg w (stop_time_this_round ls) ?stop s1 = Some (Inr m, s2)"
    using assms(1) unfolding annealing_round_def Let_def act_bind_value by blast
  define v where "v = total_utility (breakdown ws m)"
  define delta where "delta = v - current_value ls"
  define a where "a = metropolis temperature delta (fst (random_random (src s2)))"
  define ewma where "ewma = update_bad_rate_ewma (tc_dir cfg) delta (bad_rate_ewma s2)"
  define cur where "cur = (if a then (new_solution ls, v) else (current_solution ls, current_value ls))"
  define best where "best = (if snd cur > best_value ls then cur else (best_solution ls, best_value ls))"
  have meas: "measured cfg w ws (stop_time_this_round ls) ?stop s = Some (Inr v, s2)"
    using wait coll by (simp add: measured_def act_bind_def act_ret_def v_def)
  have run: "generate_new_parameters (PARAMETER_SPECS cfg) (tc_dir cfg) ewma mode (fst cur)
      (if 0 < delta then src s2 else snd (random_random (src s2))) = Inr (new_solution ls', src s')"
    "in_file cfg (new_solution ls') s'" "bad_rate_ewma s' = ewma" "tick s' = tick s2" "cursor s' = cursor s2"
    and ls': "current_solution ls' = fst cur" "current_value ls' = snd cur" "best_solution ls' = fst best" "best_value ls' = snd best"
      "stop_time_this_round ls' = ?stop"
    using assms(1) wait coll
    by (auto simp: annealing_round_def Let_def round_values v_def delta_def a_def ewma_def cur_def best_def in_file_def
        dest!: summary_value)
  let ?e = "(temperature, new_solution ls, v, a)"
  have "evaluates cfg w mode ws (point_of ls s) ?e (point_of ls' s')"
    using meas assms(2) run
    unfolding evaluates_def Let_def proposes_def in_file_def prod.case
    by (auto simp: point_of_def ls' delta_def a_def ewma_def cur_def simp del: if_split)
  moreover have "remembers s0 v0 (evals @ [?e]) ls'"
    by (rule remembers_step [OF assms(3), of "fst cur" "snd cur" a v best]) (simp_all add: cur_def best_def ls')
  ultimately show thesis using run(2) by (intro that [of ?e]) simp_all
qed

lemma attempts_anneal:
  assumes "attempts cfg w ctx mode ws temperature n ls s = Some (Inr ls', s')" "in_file cfg (new_solution ls) s"
    "remembers s0 v0 evals ls"
  shows "\<exists>es. anneals cfg w mode ws (point_of ls s) es (point_of ls' s') \<and> map fst es = replicate n temperature
    \<and> in_file cfg (new_solution ls') s' \<and> remembers s0 v0 (evals @ es) ls'"
  using assms
proof (induction n arbitrary: ls s evals)
  case 0
  then show ?case by (intro exI [of _ "[]"]) (simp add: act_ret_def)
next
  case (Suc n)
  from Suc.prems(1) obtain l1 s1 where one: "annealing_round cfg w ctx mode ws temperature ls s = Some (Inr l1, s1)"
    and more: "attempts cfg w ctx mode ws temperature n l1 s1 = Some (Inr ls', s')" by (auto simp: act_bind_value)
  obtain e where e: "evaluates cfg w mode ws (point_of ls s) e (point_of l1 s1)" "fst e = temperature"
    "in_file cfg (new_solution l1) s1" "remembers s0 v0 (evals @ [e]) l1"
    by (rule round_evaluates [OF one Suc.prems(2,3)])
  from Suc.IH [OF more e(3,4)] obtain es where "anneals cfg w mode ws (point_of l1 s1) es (point_of ls' s')"
    "map fst es = replicate n temperature" "in_file cfg (new_solution ls') s'" "remembers s0 v0 ((evals @ [e]) @ es) ls'" by blast
  with e(1,2) show ?case by (intro exI [of _ "e # es"]) auto
qed

lemma cooling_anneals:
  assumes "cooling cfg w ctx mode ws temperature ls s = Some (Inr ls', s')" "in_file cfg (new_solution ls) s"
    "remembers s0 v0 evals ls" "stages cfg temperature k"
  shows "\<exists>es. anneals cfg w mode ws (point_of ls s) es (point_of ls' s') \<and> map fst es = temperatures cfg temperature k
    \<and> remembers s0 v0 (evals @ es) ls'"
  using assms
proof (induction k arbitrary: temperature ls s evals)
  case 0
  then have "\<not> temperature > final_temperature cfg" by (simp add: stages_def)
  with 0 show ?case by (intro exI [of _ "[]"]) (simp add: cooling_act act_ret_def temperatures_def)
next
  case (Suc k)
  note hot = stages_Suc [OF Suc.prems(4)]
  from Suc.prems(1) obtain l1 s1 where one: "attempts cfg w ctx mode ws temperature (attempt_times cfg) ls s = Some (Inr l1, s1)"
    and more: "cooling cfg w ctx mode ws (temperature * cooling_rate cfg) l1 s1 = Some (Inr ls', s')"
    unfolding cooling_act [of _ _ _ _ _ temperature] if_P [OF hot(1)] act_bind_value by blast
  from attempts_anneal [OF one Suc.prems(2,3)] obtain es where es: "anneals cfg w mode ws (point_of ls s) es (point_of l1 s1)"
    "map fst es = replicate (attempt_times cfg) temperature" "in_file cfg (new_solution l1) s1" "remembers s0 v0 (evals @ es) l1"
    by blast
  from Suc.IH [OF more es(3,4) hot(2)] obtain fs where "anneals cfg w mode ws (point_of l1 s1) fs (point_of ls' s')"
    "map fst fs = temperatures cfg (temperature * cooling_rate cfg) k" "remembers s0 v0 ((evals @ es) @ fs) ls'" by blast
  with es(1,2) show ?case by (intro exI [of _ "es @ fs"]) (auto simp: anneals_append temperatures_Suc)
qed

lemma baseline_value:
  assumes "baseline cfg w ctx ws t info s = Some (Inr (sol, v), s')"
    "load_current_parameters (PARAMETER_SPECS cfg) (parameter_file s) = Inr s0"
  obtains m s1 where "collect_round_metrics cfg w (t - t_tune cfg) t s = Some (Inr m, s1)" "sol = s0"
    "v = total_utility (breakdown ws m)" "src s' = src s1" "bad_rate_ewma s' = bad_rate_ewma s1" "tick s' = tick s1" "cursor s' = cursor s1"
  using assms by (auto simp: baseline_def Let_def round_values load_solution_def dest!: summary_value)

lemma session_anneals:
  assumes "annealing_session cfg w ctx mode ws t s = Some (Inr ls, s')" "stages cfg (initial_temperature cfg) k"
    "load_current_parameters (PARAMETER_SPECS cfg) (parameter_file s) = Inr s0"
  shows "\<exists>p evals q. begins cfg w ws s0 t s p \<and> anneals cfg w mode ws p evals q
    \<and> map fst evals = temperatures cfg (initial_temperature cfg) k \<and> remembers s0 (pt_value p) evals ls
    \<and> in_file cfg (best_solution ls) s'"
proof -
  let ?ls0 = "\<lambda>sol v c. \<lparr>current_solution = sol, current_value = v, best_solution = sol, best_value = v, new_solution = c,
    candidate_type = Default, tuning_rounds = 0, stop_time_this_round = t\<rparr>"
  from assms(1) obtain info sol v c s1 s2 s3 s4 where base: "baseline cfg w ctx ws t info s = Some (Inr (sol, v), s1)"
    and gen: "generate_candidate cfg Default sol s1 = Some (Inr c, s2)"
    and store: "store_parameters cfg c s2 = Some (Inr (), s3)"
    and cool: "cooling cfg w ctx mode ws (initial_temperature cfg) (?ls0 sol v c) s3 = Some (Inr ls, s4)"
    and last: "store_parameters cfg (best_solution ls) s4 = Some (Inr (), s')"
    unfolding annealing_session_def by (auto simp: act_bind_value act_ret_def)
  obtain m sm where m: "collect_round_metrics cfg w (t - t_tune cfg) t s = Some (Inr m, sm)" "sol = s0"
    "v = total_utility (breakdown ws m)" "src s1 = src sm" "bad_rate_ewma s1 = bad_rate_ewma sm" "tick s1 = tick sm" "cursor s1 = cursor sm"
    by (rule baseline_value [OF base assms(3)])
  have held: "in_file cfg c s3" using store by (auto simp: store_value in_file_def)
  have begins: "begins cfg w ws s0 t s (point_of (?ls0 sol v c) s3)"
    using m gen store held by (auto simp: begins_def point_of_def proposes_def generate_value store_value)
  have "remembers s0 v [] (?ls0 sol v c)" using m(2) by (simp add: remembers_def accepted_def)
  from cooling_anneals [OF cool _ this assms(2)] held obtain es where
    "anneals cfg w mode ws (point_of (?ls0 sol v c) s3) es (point_of ls s4)"
    "map fst es = temperatures cfg (initial_temperature cfg) k" "remembers s0 v es ls" by auto
  moreover have "pt_value (point_of (?ls0 sol v c) s3) = v" by (simp add: point_of_def)
  moreover have "in_file cfg (best_solution ls) s'" using last by (auto simp: store_value in_file_def)
  ultimately show ?thesis using begins by metis
qed

text \<open>Measuring draws nothing from the generator.\<close>

lemma metrics_src: "collect_round_metrics cfg w a b s = Some (Inr m, s1) \<Longrightarrow> src s1 = src s"
  by (auto simp: act_bind_value act_ret_def collect_round_metrics_def read_throughput_def
      read_rtt_def read_pfc_def split: option.splits sum.splits prod.splits)

lemma measured_src: "measured cfg w ws a b s = Some (Inr v, s1) \<Longrightarrow> src s1 = src s"
  by (auto simp: measured_def act_bind_value act_ret_def wait_round_def dest!: metrics_src
      split: option.splits sum.splits prod.splits)

definition point_ok :: "tuner_cfg \<Rightarrow> run_point \<Rightarrow> bool" where
  "point_ok cfg p \<longleftrightarrow> floats_ok (src (pt_state p)) \<and> solution_ok (PARAMETER_SPECS cfg) (pt_solution p)
     \<and> solution_ok (PARAMETER_SPECS cfg) (pt_candidate p)"

lemma proposes_ok:
  assumes "tuner_table cfg" "cfg_ok (tc_dir cfg)" "proposes cfg mode ewma g s q" "floats_ok g"
    "solution_ok (PARAMETER_SPECS cfg) (pt_solution q)"
  shows "point_ok cfg q"
proof -
  from assms(1) obtain arange where specs: "PARAMETER_SPECS cfg = ALL_PARAMETER_SPECS arange" by (auto simp: tuner_table_def)
  have gen: "generate_new_parameters (PARAMETER_SPECS cfg) (tc_dir cfg) ewma mode (pt_solution q) g
    = Inr (pt_candidate q, src (pt_state q))" using assms(3) by (simp add: proposes_def)
  have "floats (src (pt_state q)) = floats g" using generate_src [OF gen] by simp
  then have "floats_ok (src (pt_state q))" using assms(4) by (simp add: floats_ok_def)
  with tbl.generate_ok [OF gen [unfolded specs] assms(2,4)] assms(5) specs show ?thesis by (simp add: point_ok_def)
qed

lemma evaluates_ok:
  assumes "tuner_table cfg" "cfg_ok (tc_dir cfg)" "evaluates cfg w mode ws p (T, c, v, a) q" "point_ok cfg p"
  shows "point_ok cfg q \<and> solution_ok (PARAMETER_SPECS cfg) c"
proof -
  define delta where "delta = v - pt_value p"
  from assms(3) obtain s1 where s1: "measured cfg w ws (pt_time p) (pt_time p + t_tune cfg) (pt_state p) = Some (Inr v, s1)"
    and c: "c = pt_candidate p" and sol: "(pt_solution q, pt_value q) = (if a then (c, v) else (pt_solution p, pt_value p))"
    and next_point: "proposes cfg mode (update_bad_rate_ewma (tc_dir cfg) delta (bad_rate_ewma s1))
           (if 0 < delta then src s1 else snd (random_random (src s1))) s1 q"
    unfolding evaluates_def Let_def prod.case delta_def by (elim conjE exE)
  have "floats_ok (src s1)" using measured_src [OF s1] assms(4) by (simp add: point_ok_def)
  then have "floats_ok (if 0 < delta then src s1 else snd (random_random (src s1)))" by (simp add: random_random_def floats_ok_def)
  from proposes_ok [OF assms(1,2) next_point this] assms(4) sol c show ?thesis by (auto simp: point_ok_def split: if_splits)
qed

lemma begins_ok:
  assumes "tuner_table cfg" "cfg_ok (tc_dir cfg)" "floats_ok (src s)" "solution_ok (PARAMETER_SPECS cfg) s0"
    "begins cfg w ws s0 t s p"
  shows "point_ok cfg p"
proof -
  from assms(5) obtain m s1 where m: "collect_round_metrics cfg w (t - t_tune cfg) t s = Some (Inr m, s1)"
    and p: "pt_solution p = s0" "proposes cfg Default (bad_rate_ewma s1) (src s1) s1 p" by (auto simp: begins_def)
  from assms(3) metrics_src [OF m] have "floats_ok (src s1)" by simp
  with proposes_ok [OF assms(1,2) p(2)] p(1) assms(4) show ?thesis by simp
qed

lemma anneals_ok:
  assumes "tuner_table cfg" "cfg_ok (tc_dir cfg)" "anneals cfg w mode ws p es q" "point_ok cfg p"
  shows "\<forall>(T, c, v, a) \<in> set es. solution_ok (PARAMETER_SPECS cfg) c"
  using assms(3,4)
proof (induction es arbitrary: p)
  case (Cons e es)
  obtain T c v a where e: "e = (T, c, v, a)" by (cases e)
  from Cons.prems obtain m where "evaluates cfg w mode ws p (T, c, v, a) m" "anneals cfg w mode ws m es q" by (auto simp: e)
  with evaluates_ok [OF assms(1,2)] Cons show ?case by (auto simp: e)
qed simp

text \<open>C1: a tuning session ends and leaves its best solution in force. Let the throughput trace keep
  advancing (for every time some later read shows a later sample), let the configuration be one the start-up checks
  accept with a schedule of \<open>k\<close> stages, and let the parameter file hold a solution inside its bounds. Then the session
  returns; whatever happens, the parameter file is the one it started from or one written from a vector inside its bounds.
  If no read fails and no read of the shared flow ratios sums to zero, it returns normally and its run is an
  annealing run: it begins by measuring the starting solution; each of its \<open>k\<close> times attempts evaluations, at the
  temperatures of the schedule, measures the candidate that is then in the parameter file over the next window and
  accepts it by the Metropolis rule against the utility accepted last, with the generator's next draw; the next
  candidate is generated from the solution accepted last. Every candidate is inside its bounds, and the parameter
  file finally holds a solution whose measured utility is the largest among the starting solution and the accepted
  candidates of this run; it loads back as that solution when its floats are printed so that they read back.\<close>

theorem session_keeps_best:
  assumes "session_start cfg w s0 s" "stages cfg (initial_temperature cfg) k"
  shows "\<exists>r s'. tuning_of mode cfg w ctx ws t s = Some (r, s')
    \<and> (parameter_file s' = parameter_file s \<or> written_file cfg (parameter_file s'))
    \<and> (healthy w (views (src s)) \<longrightarrow> (\<exists>ls p evals q. r = Inr ls
         \<and> begins cfg w ws s0 t s p
         \<and> anneals cfg w (if mode = Aggressive then Aggressive else Conservative) ws p evals q
         \<and> map fst evals = temperatures cfg (initial_temperature cfg) k
         \<and> length evals = k * attempt_times cfg \<and> tuning_rounds ls = length evals
         \<and> (\<forall>(T, c, v, a) \<in> set evals. solution_ok (PARAMETER_SPECS cfg) c)
         \<and> (best_solution ls, best_value ls) \<in> set (accepted s0 (pt_value p) evals)
         \<and> (\<forall>(c, v) \<in> set (accepted s0 (pt_value p) evals). v \<le> best_value ls)
         \<and> in_file cfg (best_solution ls) s'
         \<and> (rep_ok (py_repr cfg) (best_solution ls) \<longrightarrow>
              load_current_parameters (PARAMETER_SPECS cfg) (parameter_file s') = Inr (best_solution ls))))"
proof -
  let ?m = "if mode = Aggressive then Aggressive else Conservative"
  from session_result [OF assms, of mode ctx ws t] obtain r s' where
    run: "tuning_of mode cfg w ctx ws t s = Some (r, s')"
      "parameter_file s' = parameter_file s \<or> written_file cfg (parameter_file s')"
    and ok: "healthy w (views (src s)) \<longrightarrow> (\<exists>ls out. r = Inr ls
         \<and> solutions_ok cfg ls \<and> tuning_rounds ls = k * attempt_times cfg \<and> parameter_file s' = Some out
         \<and> write_parameters (py_repr cfg) (PARAMETER_SPECS cfg) (best_solution ls) = Inr out)" by blast
  have st: "tuner_table cfg" "cfg_ok (tc_dir cfg)" "floats_ok (src s)" "solution_ok (PARAMETER_SPECS cfg) s0"
    "load_current_parameters (PARAMETER_SPECS cfg) (parameter_file s) = Inr s0"
    using assms(1) by (simp_all add: session_start_def annealing_cfg_ok_def)
  then obtain arange where specs: "PARAMETER_SPECS cfg = ALL_PARAMETER_SPECS arange" by (auto simp: tuner_table_def)
  have "\<exists>ls p evals q. r = Inr ls \<and> begins cfg w ws s0 t s p \<and> anneals cfg w ?m ws p evals q
         \<and> map fst evals = temperatures cfg (initial_temperature cfg) k
         \<and> length evals = k * attempt_times cfg \<and> tuning_rounds ls = length evals
         \<and> (\<forall>(T, c, v, a) \<in> set evals. solution_ok (PARAMETER_SPECS cfg) c)
         \<and> (best_solution ls, best_value ls) \<in> set (accepted s0 (pt_value p) evals)
         \<and> (\<forall>(c, v) \<in> set (accepted s0 (pt_value p) evals). v \<le> best_value ls)
         \<and> in_file cfg (best_solution ls) s'
         \<and> (rep_ok (py_repr cfg) (best_solution ls) \<longrightarrow>
              load_current_parameters (PARAMETER_SPECS cfg) (parameter_file s') = Inr (best_solution ls))"
    if "healthy w (views (src s))"
  proof -
    from ok that obtain ls out where ls: "r = Inr ls" "solutions_ok cfg ls" "tuning_rounds ls = k * attempt_times cfg"
      and out: "parameter_file s' = Some out" "write_parameters (py_repr cfg) (PARAMETER_SPECS cfg) (best_solution ls) = Inr out" by blast
    have sess: "annealing_session cfg w ctx ?m ws t s = Some (Inr ls, s')"
      using run(1) ls(1) by (simp add: tuning_of_def aggressive_tuning_def conservative_tuning_def split: if_splits)
    from session_anneals [OF sess assms(2) st(5)] obtain p evals q where
      ev: "begins cfg w ws s0 t s p" "anneals cfg w ?m ws p evals q" "map fst evals = temperatures cfg (initial_temperature cfg) k"
        "remembers s0 (pt_value p) evals ls" "in_file cfg (best_solution ls) s'" by blast
    have "length evals = length (temperatures cfg (initial_temperature cfg) k)" unfolding ev(3) [symmetric] by simp
    then have len: "length evals = k * attempt_times cfg" by (simp add: temperatures_length)
    have "load_current_parameters (PARAMETER_SPECS cfg) (parameter_file s') = Inr (best_solution ls)"
      if "rep_ok (py_repr cfg) (best_solution ls)"
      using tbl.write_then_load [of arange "best_solution ls" "py_repr cfg"] that specs out ls(2) by (auto simp: solutions_ok_def)
    moreover have "\<forall>(T, c, v, a) \<in> set evals. solution_ok (PARAMETER_SPECS cfg) c"
      by (rule anneals_ok [OF st(1,2) ev(2) begins_ok [OF st(1-4) ev(1)]])
    ultimately show ?thesis using ev ls(1,3) len
      by (intro exI [of _ ls] exI [of _ p] exI [of _ evals] exI [of _ q]) (simp add: remembers_def)
  qed
  with run show ?thesis by blast
qed


text \<open>A small world: the simulator writes one port sample per poll and nothing else.\<close>

definition sample_world :: world where
  "sample_world = \<lparr>thr_at = (\<lambda>k. Inr [(real k, 0, 1, 90)]), rtt_at = (\<lambda>_. Inr []), pfc_at = (\<lambda>_. Inr [])\<rparr>"

definition sample_cfg :: tuner_cfg where
  "sample_cfg = \<lparr>PARAMETER_SPECS = ALL_PARAMETER_SPECS (\<lambda>_ _ _. []), tc_dir = default_dir_cfg,
     tc_mode = \<lparr>AGGRESSIVE_WEIGHTS = [6/10, 2/10, 2/10], CONSERVATIVE_WEIGHTS = [3/10, 5/10, 2/10],
                AGGRESSIVE_MODE_LARGE_FLOW_THRESHOLD = 1/2\<rparr>,
     initial_temperature = 1/10, final_temperature = 1/100, attempt_times = 8, cooling_rate = 76/100,
     t_tune = 1002/1000000, monitor_window_seconds = 1/1000, total_directed_links = 1, COLLECT_ONLY_MODE = False,
     np_mean = (\<lambda>vs. sum_list vs / real (length vs)), py_repr = short_rep\<rparr>"

definition sample_state :: tstate where
  "sample_state = \<lparr>tick = 0, cursor = \<lparr>start_line = 0, active_links = {}\<rparr>, bad_rate_ewma = 0,
     src = steady_src (1/4) 3 1, parameter_file = None, metric_file = None, trace = [],
     is_tuning = True, total_tuning_rounds = 0\<rparr>"

definition sample_ctx :: log_ctx where
  "sample_ctx = \<lparr>flow_ratio_snapshot = (\<lparr>r_large = 3, r_small = 1\<rparr>, None),
     previous_flow_ratio_snapshot = (\<lparr>r_large = -1, r_small = -1\<rparr>, None), kl_divergence = Fin 0,
     trigger_reason = ''initial_observation'', tuning_round_index = 1\<rparr>"

lemma sample_world_live: "live_world sample_world"
  unfolding live_world_def
proof (intro allI)
  fix t :: real and n
  obtain m :: nat where "t < real m" using reals_Archimedean2 by blast
  then show "\<exists>k \<ge> n. \<exists>data. thr_at sample_world k = Inr data \<and> data \<noteq> [] \<and> t < fst (last data)"
    by (intro exI [of _ "max n m"]) (auto simp: sample_world_def)
qed

lemma sample_start:
  "session_start sample_cfg sample_world (map ps_default (ALL_PARAMETER_SPECS (\<lambda>_ _ _. []))) sample_state"
  using sample_world_live default_solution_ok [of "\<lambda>_ _ _. []"]
  by (auto simp: session_start_def sample_cfg_def sample_state_def tuner_table_def annealing_cfg_ok_def default_dir_cfg_ok
      load_current_parameters_def default_values_eq intro!: steady_src_ok)

lemma sample_healthy: "healthy sample_world (views (src sample_state))"
  by (simp add: healthy_def sample_world_def sample_state_def steady_src_def view_total_def)

text \<open>The default schedule has nine stages: 0.1, 0.076, ..., down to the first value not above 0.01.\<close>

lemma default_stages:
  assumes "initial_temperature cfg = 1/10" "final_temperature cfg = 1/100" "cooling_rate cfg = 76/100"
  shows "stages cfg (initial_temperature cfg) 9"
proof -
  have "1/100 < 1/10 * (76/100 :: real) ^ m" if "m < 9" for m :: nat
  proof -
    have "1/10 < (76/100 :: real) ^ 8" by (simp add: power_divide)
    also have "\<dots> \<le> (76/100) ^ m" using that by (intro power_decreasing) auto
    finally show ?thesis by simp
  qed
  moreover have "1/10 * (76/100 :: real) ^ 9 \<le> 1/100" by (simp add: power_divide)
  ultimately show ?thesis unfolding stages_def assms by blast
qed

theorem session_keeps_best_witness:
  "\<exists>s' ls p evals q. aggressive_tuning sample_cfg sample_world sample_ctx (6/10, 2/10, 2/10) 0 sample_state = Some (Inr ls, s')
    \<and> anneals sample_cfg sample_world Aggressive (6/10, 2/10, 2/10) p evals q \<and> length evals = 72 \<and> tuning_rounds ls = 72
    \<and> (best_solution ls, best_value ls) \<in> set (accepted (pt_solution p) (pt_value p) evals)
    \<and> in_file sample_cfg (best_solution ls) s'"
proof -
  have "stages sample_cfg (initial_temperature sample_cfg) 9" by (rule default_stages) (simp_all add: sample_cfg_def)
  from session_keeps_best [OF sample_start this, of Aggressive sample_ctx "(6/10, 2/10, 2/10)" 0] sample_healthy
  obtain s' ls p evals q where r: "tuning_of Aggressive sample_cfg sample_world sample_ctx (6/10, 2/10, 2/10) 0 sample_state = Some (Inr ls, s')"
    "begins sample_cfg sample_world (6/10, 2/10, 2/10) (map ps_default (ALL_PARAMETER_SPECS (\<lambda>_ _ _. []))) 0 sample_state p"
    "anneals sample_cfg sample_world Aggressive (6/10, 2/10, 2/10) p evals q"
    "length evals = 9 * attempt_times sample_cfg" "tuning_rounds ls = length evals"
    "(best_solution ls, best_value ls) \<in> set (accepted (map ps_default (ALL_PARAMETER_SPECS (\<lambda>_ _ _. []))) (pt_value p) evals)"
    "in_file sample_cfg (best_solution ls) s'" by auto
  have "pt_solution p = map ps_default (ALL_PARAMETER_SPECS (\<lambda>_ _ _. []))" using r(2) by (auto simp: begins_def)
  then have "(best_solution ls, best_value ls) \<in> set (accepted (pt_solution p) (pt_value p) evals)" using r(6) by simp
  moreover have "length evals = 72" "tuning_rounds ls = 72" using r(4,5) by (simp_all add: sample_cfg_def)
  moreover have "aggressive_tuning sample_cfg sample_world sample_ctx (6/10, 2/10, 2/10) 0 sample_state = Some (Inr ls, s')"
    using r(1) by (simp add: tuning_of_def)
  ultimately show ?thesis using r(3,7) by blast
qed

section \<open>The tuning thread\<close>

definition weights_ok :: "tuner_cfg \<Rightarrow> bool" where
  "weights_ok cfg \<longleftrightarrow> length (AGGRESSIVE_WEIGHTS (tc_mode cfg)) = 3 \<and> length (CONSERVATIVE_WEIGHTS (tc_mode cfg)) = 3"

lemma judge_mode_total: "weights_ok cfg \<Longrightarrow> \<exists>mode ws. judge_mode (tc_mode cfg) l s = Inr (mode, ws)"
proof -
  have u: "\<exists>a b c. unpack3 ws = Inr (a, b, c)" if "length ws = 3" for ws :: "real list"
    using that by (cases ws rule: unpack3.cases) auto
  assume "weights_ok cfg"
  with u [of "AGGRESSIVE_WEIGHTS (tc_mode cfg)"] u [of "CONSERVATIVE_WEIGHTS (tc_mode cfg)"]
  show ?thesis by (auto simp: judge_mode_def weights_ok_def Let_def)
qed

lemma triple_weaken_post:
  "triple P m R E \<Longrightarrow> (\<And>x s. R x s \<Longrightarrow> Q x s) \<Longrightarrow> triple P m Q E"
  by (erule triple_conseq)

lemma triple_start_tuning:
  assumes st: "session_start cfg w s0 s" "weights_ok cfg"
  shows "triple (\<lambda>s'. thread_inv cfg (views (src s)) (parameter_file s) s' \<and> parameter_file s' = parameter_file s)
    (start_tuning cfg w t kl reason snap prev)
    (\<lambda>_ s'. \<not> is_tuning s' \<and> (parameter_file s' = parameter_file s \<or> written_file cfg (parameter_file s')))
    (fails cfg w (views (src s)) (parameter_file s))"
proof -
  let ?inv = "thread_inv cfg (views (src s)) (parameter_file s)"
  let ?P = "\<lambda>s'. ?inv s' \<and> parameter_file s' = parameter_file s"
  let ?E = "fails cfg w (views (src s)) (parameter_file s)"
  have *: "tuner_table cfg" "live_world w" "solution_ok (PARAMETER_SPECS cfg) s0" "annealing_cfg_ok cfg"
    "load_current_parameters (PARAMETER_SPECS cfg) (parameter_file s) = Inr s0"
    using st(1) by (simp_all add: session_start_def)
  have "0 < initial_temperature cfg" using *(4) by (auto simp: annealing_cfg_ok_def)
  then obtain k where k: "stages cfg (initial_temperature cfg) k" using stages_exist [OF *(4)] by blast
  obtain mode ws where jm: "judge_mode (tc_mode cfg) (r_large (fst snap)) (r_small (fst snap)) = Inr (mode, ws)"
    using judge_mode_total [OF st(2)] by blast
  have wait: "triple ?P (wait_round w now) (\<lambda>_. ?P) ?E" for now
    unfolding triple_def
  proof (intro allI impI)
    fix s' assume "?P s'"
    with wait_outcome [OF *(2), of now s' "views (src s)"]
    show "case wait_round w now s' of None \<Rightarrow> False | Some (r, s') \<Rightarrow> (case r of Inl e \<Rightarrow> ?E s' | Inr x \<Rightarrow> ?P s')"
      by (auto simp: fails_def split: sum.splits)
  qed
  have sess: "triple ?P (act_bind (tuning_of m cfg w ctx ws now) (\<lambda>_. act_ret ())) (\<lambda>_. ?inv) ?E" for m ctx now
    by (rule triple_bind [OF triple_tuning [OF st(1) k]], rule triple_ret) blast
  have coll: "triple ?P (collect_metrics_only cfg w ctx m ws now) (\<lambda>_. ?inv) ?E" for m ctx now
    unfolding collect_metrics_only_def
    by (rule triple_bind [OF triple_baseline [OF *(1,5,3)]], rule triple_ret) blast
  have body: "triple ?P (if COLLECT_ONLY_MODE cfg then collect_metrics_only cfg w ctx mode ws now
       else if mode = Aggressive then act_bind (aggressive_tuning cfg w ctx ws now) (\<lambda>_. act_ret ())
       else act_bind (conservative_tuning cfg w ctx ws now) (\<lambda>_. act_ret ())) (\<lambda>_. ?inv) ?E" for ctx now
    using coll sess [of Aggressive ctx now] sess [of Conservative ctx now] by (simp add: tuning_of_def)
  have maybe: "triple ?P (if reason = ''initial_observation'' then act_bind (wait_round w now) (\<lambda>_. act_ret ()) else act_ret ())
      (\<lambda>_. ?P) ?E" for now
    using triple_bind [OF wait [of now], of "\<lambda>_. act_ret ()" "\<lambda>_. ?P"] by (simp add: triple_ret)
  show ?thesis
    unfolding start_tuning_def Let_def
    apply (rule triple_bind [of _ _ "\<lambda>_. ?P"], rule triple_put, simp)
    apply (rule triple_bind [of _ _ "\<lambda>x s'. ?P s' \<and> x = (mode, ws)"], rule triple_lift [OF jm], simp)
    apply (rule triple_value, simp only: prod.case)
    apply (rule triple_bind [OF maybe])
    apply (rule triple_bind [of _ _ "\<lambda>_. ?P"], rule triple_get, simp)
    apply (rule triple_bind [OF body])
    apply (rule triple_put)
    apply (auto simp: thread_inv_def written_file_def)
    done
qed

text \<open>C9: the tuning thread ends, and it clears the flag that keeps the monitor loop from starting another
  one exactly when it ended normally. Let the throughput trace keep advancing (for every time some later read shows a
  later sample), both weight settings have three numbers, the configuration be one the start-up checks accept, and the
  parameter file hold a solution inside its bounds. Then the thread returns or raises; it returns if no read fails and no
  read of the shared flow ratios sums to zero; the flag is cleared if it returns and still set if it raises; and on
  either outcome the parameter file is the one the thread found or one written from a vector inside its bounds.\<close>

theorem start_tuning_flag:
  assumes "session_start cfg w s0 s" "weights_ok cfg"
  shows "\<exists>r s'. start_tuning cfg w t kl reason snap prev s = Some (r, s')
    \<and> (is_tuning s' \<longleftrightarrow> isl r)
    \<and> (healthy w (views (src s)) \<longrightarrow> \<not> isl r)
    \<and> (parameter_file s' = parameter_file s \<or> written_file cfg (parameter_file s'))"
proof -
  let ?f = "start_tuning cfg w t kl reason snap prev"
  let ?E = "fails cfg w (views (src s)) (parameter_file s)"
  have "thread_inv cfg (views (src s)) (parameter_file s) s" using assms(1) by (simp add: session_start_def thread_inv_def)
  then have *: "case ?f s of None \<Rightarrow> False | Some (r, s') \<Rightarrow> (case r of Inl e \<Rightarrow> ?E s'
      | Inr x \<Rightarrow> \<not> is_tuning s' \<and> (parameter_file s' = parameter_file s \<or> written_file cfg (parameter_file s')))"
    using triple_start_tuning [OF assms, of t kl reason snap prev] unfolding triple_def by simp
  then obtain r s' where "?f s = Some (r, s')" by (cases "?f s") auto
  with * show ?thesis by (cases r) (auto simp: fails_def thread_inv_def)
qed

theorem start_tuning_flag_witness:
  "\<exists>r s'. start_tuning sample_cfg sample_world 0 (Fin 0) ''initial_observation'' (\<lparr>r_large = 3, r_small = 1\<rparr>, None)
      (\<lparr>r_large = -1, r_small = -1\<rparr>, None) sample_state = Some (r, s') \<and> \<not> isl r \<and> \<not> is_tuning s'"
proof -
  have "weights_ok sample_cfg" by (simp add: weights_ok_def sample_cfg_def)
  from start_tuning_flag [OF sample_start this, of 0 "Fin 0" "''initial_observation''"] sample_healthy
  show ?thesis by blast
qed

text \<open>The failure is real: an empty throughput file at the first read, or a weight setting of two numbers,
  leaves the flag set.\<close>

lemma start_tuning_stuck:
  "\<exists>s'. start_tuning sample_cfg (sample_world\<lparr>thr_at := (\<lambda>_. Inl EmptyDataError)\<rparr>) 0 (Fin 0) ''initial_observation''
      (\<lparr>r_large = 3, r_small = 1\<rparr>, None) prev sample_state = Some (Inl EmptyDataError, s') \<and> is_tuning s'"
  "\<exists>s'. start_tuning (sample_cfg\<lparr>tc_mode := (tc_mode sample_cfg)\<lparr>AGGRESSIVE_WEIGHTS := [1/2, 1/2]\<rparr>\<rparr>) sample_world 0 (Fin 0)
      ''kl_divergence'' (\<lparr>r_large = 3, r_small = 1\<rparr>, None) prev sample_state = Some (Inl ValueError, s') \<and> is_tuning s'"
  by (simp_all add: Let_def start_tuning_def act_bind_def act_put_def act_lift_def judge_mode_def sample_cfg_def sample_state_def
      wait_round_def wait_for_throughput_snapshot_after.simps)

end
