(* ===== verification/MonitorLoop.thy ===== *)
theory MonitorLoop
  imports TunerSession
begin

text \<open>
  The monitor loop at the end of \<^verbatim>\<open>scratch/tuning.py\<close> and its interplay with the tuning thread.

  \<^item> \<open>monitor_step\<close> is one iteration as a function: detect a new report by its hash, turn it into a flow ratio,
    decide on a trigger, summarise the cycle, hand over to a tuning thread, roll the ratios over.
  \<^item> \<open>sys_step\<close> is the interleaving of the loop with its threads at the grain of single reads and writes of
    what they share: the two ratio dictionaries and the flag \<^verbatim>\<open>is_tuning\<close>.

  The hash function, the entropy routine and pandas are parameters. A report whose time is not a finite number is
  outside the model of an iteration (the result is \<open>None\<close>, as for a wait that never ends).
\<close>

section \<open>One iteration\<close>

record monitor_cfg =
  mc_tuner :: tuner_cfg
  USE_HOST_FLOW_REPORT :: bool
  HOST_FLOW_CHUNK_BYTES :: int
  large_flow_threshold :: int
  window_size :: nat
  t_reset :: real
  trigger_threshold :: real
  entropy :: "real list \<Rightarrow> real list \<Rightarrow> pyfloat"
  sha256 :: "string \<Rightarrow> string"

definition large_flow_threshold_bytes :: "monitor_cfg \<Rightarrow> int" where
  "large_flow_threshold_bytes cfg = large_flow_threshold cfg * 1024"

definition calculate_file_hash :: "(string \<Rightarrow> string) \<Rightarrow> string option \<Rightarrow> string option" where
  "calculate_file_hash hexdigest file = map_option hexdigest file"

record mstate =
  previous_observation_hash :: "string option"
  total_monitor_rounds :: int
  current_flow_ratio :: flow_ratio
  previous_flow_ratio :: flow_ratio
  previous_flow_ratio_metadata :: "flow_meta option"
  switch_flowid_status_dict :: switch_table
  observation_cursor :: pfc_cursor
  monitor_trace :: string
  monitor_output :: "string option"

text \<open>What the iteration finds in the files it reads, and the two values of the flag it reads.\<close>

record minput =
  observed_file :: "string option"
  host_report_file :: "string option"
  sketch_frame :: "(real \<times> int \<times> string list) list option"
  throughput_text :: "nat \<Rightarrow> string option"
  rtt_text :: "nat \<Rightarrow> string option"
  throughput_frame :: "thr_row list res"
  rtt_frame :: "rtt_row list res"
  pfc_frame_now :: "pfc_frame res"
  parameter_text :: "string option"
  flag_at_decision :: bool
  flag_at_row :: bool

record spawn =
  sp_time :: real
  sp_kl :: pyfloat
  sp_reason :: string
  sp_snapshot :: snapshot
  sp_previous :: snapshot

definition zero_ratio :: flow_ratio where
  "zero_ratio = \<lparr>r_large = 0, r_small = 0\<rparr>"

definition unset_ratio :: flow_ratio where
  "unset_ratio = \<lparr>r_large = -1, r_small = -1\<rparr>"

fun finite_time :: "pyfloat \<Rightarrow> real option" where
  "finite_time (Fin t) = Some t"
| "finite_time _ = None"

text \<open>The report as a time, a ratio and its metadata; \<open>Inr None\<close> where the iteration sleeps and starts over.\<close>

definition observe_report ::
  "monitor_cfg \<Rightarrow> minput \<Rightarrow> mstate \<Rightarrow> (pyfloat \<times> flow_ratio \<times> flow_meta \<times> switch_table) option res" where
  "observe_report cfg inp s =
    (if USE_HOST_FLOW_REPORT cfg
     then res_bind (load_host_flow_report (host_report_file inp)) (\<lambda>(current_time, report).
       case current_time of
         None \<Rightarrow> Inr None
       | Some t \<Rightarrow>
           if report = [] then Inr None
           else (let (ratio, meta) = classify_host_flow_progress (HOST_FLOW_CHUNK_BYTES cfg) (large_flow_threshold_bytes cfg) report
                 in Inr (Some (t, ratio, meta, switch_flowid_status_dict s))))
     else res_bind (load_sketch (sketch_frame inp)) (\<lambda>(current_time, report).
       case current_time of
         None \<Rightarrow> Inr None
       | Some t \<Rightarrow>
           if \<not> list_ex (\<lambda>(switch_id, flows). flows \<noteq> []) report then Inr None
           else (let table = update_all_flows (t_reset cfg) report t (switch_flowid_status_dict s);
                     (uploads, table') = filter_flows (large_flow_threshold cfg) (window_size cfg) t table;
                     (ratio, meta) = upload_ratio (large_flow_threshold cfg) uploads (current_flow_ratio s)
                 in Inr (Some (Fin t, ratio, meta, table')))))"

definition decide_trigger :: "monitor_cfg \<Rightarrow> flow_ratio \<Rightarrow> pyfloat \<Rightarrow> bool \<Rightarrow> string option" where
  "decide_trigger cfg previous kl tuning =
    (if COLLECT_ONLY_MODE (mc_tuner cfg)
     then (if \<not> tuning
           then (if r_small previous = -1 then Some ''initial_observation'' else Some ''observation'')
           else None)
     else if r_small previous = -1 \<and> \<not> tuning then Some ''initial_observation''
     else if flt_lt (Fin (trigger_threshold cfg)) kl \<and> \<not> tuning then Some ''kl_divergence''
     else None)"

definition collect_monitor_cycle_summary ::
  "monitor_cfg \<Rightarrow> minput \<Rightarrow> real \<Rightarrow> snapshot \<Rightarrow> flow_meta \<Rightarrow> snapshot \<Rightarrow> pyfloat \<Rightarrow> string option \<Rightarrow> mstate
     \<Rightarrow> (utility_breakdown \<times> mstate) res option" where
  "collect_monitor_cycle_summary cfg inp current_time snap meta previous kl reason s =
    (case wait_for_monitor_snapshots_at_or_after (throughput_text inp) (rtt_text inp) (Fin current_time) 0 of
       None \<Rightarrow> None
     | Some _ \<Rightarrow> Some (
        (let tc = mc_tuner cfg in
        res_bind (throughput_handling2 (monitor_window_seconds tc) (throughput_frame inp)) (\<lambda>throughput_matrix.
        res_bind (rtt_handling2 (rtt_frame inp)) (\<lambda>rtt_matrix.
        res_bind (pfc_handling (total_directed_links tc) (pfc_frame_now inp)
            (max 0 (current_time - monitor_window_seconds tc)) current_time (observation_cursor s)) (\<lambda>(avg_pfc, cur').
        res_bind (judge_mode (tc_mode tc) (r_large (fst snap)) (r_small (fst snap))) (\<lambda>(mode, ws).
        (let u = breakdown ws (average_throughput (np_mean tc) throughput_matrix, average_rtt (np_mean tc) rtt_matrix, avg_pfc) in
        res_bind (load_current_parameters (PARAMETER_SPECS tc) (parameter_text inp)) (\<lambda>parameter_values.
        res_bind (log_cycle_summary (PARAMETER_SPECS tc) (Fin current_time) snap u parameter_values
            (Some [(''state'', SStr ''observe''), (''mode'', SStr (mode_name mode)),
                   (''trigger_reason'', case reason of None \<Rightarrow> SNone | Some r \<Rightarrow> SStr r)])
            (Some previous) (SFloat kl)) (\<lambda>block.
        Inr (u, s\<lparr>observation_cursor := cur', monitor_trace := monitor_trace s @ block,
                  monitor_output := Some (write_monitor_output_row (Fin current_time) mode u (fst snap) meta kl reason
                    (flag_at_row inp) (monitor_output s))\<rparr>)))))))))))"

text \<open>The iteration: the new state and, when a trigger fired, what the new thread gets.\<close>

definition monitor_step :: "monitor_cfg \<Rightarrow> minput \<Rightarrow> mstate \<Rightarrow> (mstate \<times> spawn option) res option" where
  "monitor_step cfg inp s =
    (let h = calculate_file_hash (sha256 cfg) (observed_file inp) in
     if h = previous_observation_hash s then Some (Inr (s, None))
     else (let s1 = s\<lparr>previous_observation_hash := h, total_monitor_rounds := total_monitor_rounds s + 1\<rparr> in
      case observe_report cfg inp s1 of
        Inl e \<Rightarrow> Some (Inl e)
      | Inr None \<Rightarrow> Some (Inr (s1, None))
      | Inr (Some (t, ratio, meta, table)) \<Rightarrow>
         (case finite_time t of
            None \<Rightarrow> None
          | Some now \<Rightarrow>
             (let s2 = s1\<lparr>current_flow_ratio := ratio, switch_flowid_status_dict := table\<rparr>;
                  kl = compute_divergence (entropy cfg) (current_flow_ratio s2) (previous_flow_ratio s2);
                  snap = (current_flow_ratio s2, Some meta);
                  previous = (previous_flow_ratio s2, previous_flow_ratio_metadata s2);
                  reason = decide_trigger cfg (previous_flow_ratio s2) kl (flag_at_decision inp) in
              case collect_monitor_cycle_summary cfg inp now snap meta previous kl reason s2 of
                None \<Rightarrow> None
              | Some (Inl e) \<Rightarrow> Some (Inl e)
              | Some (Inr (u, s3)) \<Rightarrow>
                 Some (Inr (s3\<lparr>previous_flow_ratio := current_flow_ratio s3,
                              previous_flow_ratio_metadata := Some meta, current_flow_ratio := zero_ratio\<rparr>,
                   map_option (\<lambda>r. \<lparr>sp_time = now, sp_kl = kl, sp_reason = r, sp_snapshot = snap, sp_previous = previous\<rparr>)
                     reason))))))"

definition initial_mstate :: mstate where
  "initial_mstate = \<lparr>previous_observation_hash = None, total_monitor_rounds = 0, current_flow_ratio = zero_ratio,
     previous_flow_ratio = unset_ratio, previous_flow_ratio_metadata = None, switch_flowid_status_dict = [],
     observation_cursor = \<lparr>start_line = 0, active_links = {}\<rparr>, monitor_trace = [], monitor_output = None\<rparr>"

text \<open>Two helpers the loop does not call.\<close>

definition collect_observation_metrics ::
  "tuner_cfg \<Rightarrow> world \<Rightarrow> (nat \<Rightarrow> string option) \<Rightarrow> (nat \<Rightarrow> string option) \<Rightarrow> real \<Rightarrow> (real \<times> real \<times> real) act" where
  "collect_observation_metrics cfg w thr_txt rtt_txt current_time s =
    (case wait_for_monitor_snapshots_at_or_after thr_txt rtt_txt (Fin current_time) (tick s) of
       None \<Rightarrow> None
     | Some i \<Rightarrow> collect_round_metrics cfg w (current_time - t_tune cfg) current_time (s\<lparr>tick := Suc i\<rparr>))"

definition log_monitor_observation ::
  "tuner_cfg \<Rightarrow> world \<Rightarrow> (nat \<Rightarrow> string option) \<Rightarrow> (nat \<Rightarrow> string option) \<Rightarrow> log_ctx \<Rightarrow> pynum list \<Rightarrow> real \<Rightarrow> unit act" where
  "log_monitor_observation cfg w thr_txt rtt_txt ctx current_parameter_values current_time =
    act_bind (collect_observation_metrics cfg w thr_txt rtt_txt current_time) (\<lambda>metrics.
    act_bind (act_lift (judge_mode (tc_mode cfg) (r_large (fst (flow_ratio_snapshot ctx))) (r_small (fst (flow_ratio_snapshot ctx)))))
      (\<lambda>(mode, ws).
    (let u = breakdown ws metrics in
    act_bind (append_metric cfg current_time u) (\<lambda>_.
      append_summary cfg ctx current_time u current_parameter_values
        [(''state'', SStr ''observe''), (''mode'', SStr (mode_name mode)), (''candidate_type'', SStr ''current'')]))))"

section \<open>Interleaving with the tuning thread\<close>

text \<open>Where the loop is between its accesses to shared memory. \<open>MFill\<close>: building \<^verbatim>\<open>current_flow_ratio\<close>;
  the flag of the later places says whether a trigger was decided; \<open>MDead\<close>: an exception ended the loop.\<close>

datatype mpc =
    MPoll | MFill | MDecide | MSummary bool | MSpawn bool | MStart | MRoll | MClearL | MClearS | MDead

text \<open>A thread is busy with private work or inside \<open>get_new_solution_direction\<close>, with the reads it has made.\<close>

datatype rphase = RChkL | RChkS | RCurL | RCurS | RPrvL | RPrvS | RDone

datatype tpc = TWork | TRead rphase ratio_view

record sys =
  cur :: flow_ratio
  prv :: flow_ratio
  flag :: bool
  mpc :: mpc
  threads :: "tpc list"
  crashed :: nat

definition blank_view :: ratio_view where
  "blank_view = \<lparr>chk_large = 0, chk_small = 0, cur_large = 0, cur_small = 0, prv_large = 0, prv_small = 0\<rparr>"

fun read_step :: "flow_ratio \<Rightarrow> flow_ratio \<Rightarrow> rphase \<Rightarrow> ratio_view \<Rightarrow> rphase \<times> ratio_view" where
  "read_step c p RChkL v = (if r_large c \<noteq> 0 then RChkS else RPrvL, v\<lparr>chk_large := r_large c\<rparr>)"
| "read_step c p RChkS v = (if r_small c \<noteq> 0 then RCurL else RPrvL, v\<lparr>chk_small := r_small c\<rparr>)"
| "read_step c p RCurL v = (RCurS, v\<lparr>cur_large := r_large c\<rparr>)"
| "read_step c p RCurS v = (RDone, v\<lparr>cur_small := r_small c\<rparr>)"
| "read_step c p RPrvL v = (RPrvS, v\<lparr>prv_large := r_large p\<rparr>)"
| "read_step c p RPrvS v = (RDone, v\<lparr>prv_small := r_small p\<rparr>)"
| "read_step c p RDone v = (RDone, v)"

definition set_thread :: "nat \<Rightarrow> tpc \<Rightarrow> sys \<Rightarrow> sys" where
  "set_thread i t s = s\<lparr>threads := (threads s)[i := t]\<rparr>"

definition end_thread :: "nat \<Rightarrow> sys \<Rightarrow> sys" where
  "end_thread i s = s\<lparr>threads := take i (threads s) @ drop (Suc i) (threads s)\<rparr>"

text \<open>The loop may raise while it hashes and reads the report, computes the divergence or writes the summary
  (\<open>loop_dies\<close>). A working thread may raise for any of its reasons (\<open>thread_raises\<close>), and one whose reads sum to zero
  cannot but raise (\<open>divide_by_zero\<close>); either leaves the flag as it is. The last statement of a thread clears the flag, and
  with it the thread leaves \<open>threads\<close>: what is left of it is the return of the interpreter, which touches nothing the
  loop or another thread reads.\<close>

inductive sys_step :: "sys \<Rightarrow> sys \<Rightarrow> bool" where
  poll: "mpc s = MPoll \<Longrightarrow> sys_step s (s\<lparr>mpc := MFill\<rparr>)"
| fill: "mpc s = MFill \<Longrightarrow> 0 \<le> l \<Longrightarrow> 0 \<le> d \<Longrightarrow>
    sys_step s (s\<lparr>cur := \<lparr>r_large = r_large (cur s) + l, r_small = r_small (cur s) + d\<rparr>\<rparr>)"
| observed: "mpc s = MFill \<Longrightarrow> 0 < r_large (cur s) + r_small (cur s) \<Longrightarrow> sys_step s (s\<lparr>mpc := MDecide\<rparr>)"
| skipped: "mpc s = MFill \<Longrightarrow> cur s = zero_ratio \<Longrightarrow> sys_step s (s\<lparr>mpc := MPoll\<rparr>)"
| decide: "mpc s = MDecide \<Longrightarrow> (trig \<Longrightarrow> \<not> flag s) \<Longrightarrow> sys_step s (s\<lparr>mpc := MSummary trig\<rparr>)"
| summary: "mpc s = MSummary trig \<Longrightarrow> sys_step s (s\<lparr>mpc := MSpawn trig\<rparr>)"
| loop_dies: "mpc s = MPoll \<or> mpc s = MFill \<or> mpc s = MDecide \<or> mpc s = MSummary trig \<Longrightarrow>
    sys_step s (s\<lparr>mpc := MDead\<rparr>)"
| no_spawn: "mpc s = MSpawn False \<Longrightarrow> sys_step s (s\<lparr>mpc := MRoll\<rparr>)"
| set_flag: "mpc s = MSpawn True \<Longrightarrow> sys_step s (s\<lparr>flag := True, mpc := MStart\<rparr>)"
| start: "mpc s = MStart \<Longrightarrow> sys_step s (s\<lparr>threads := threads s @ [TWork], mpc := MRoll\<rparr>)"
| roll: "mpc s = MRoll \<Longrightarrow> sys_step s (s\<lparr>prv := cur s, mpc := MClearL\<rparr>)"
| clear_large: "mpc s = MClearL \<Longrightarrow> sys_step s (s\<lparr>cur := (cur s)\<lparr>r_large := 0\<rparr>, mpc := MClearS\<rparr>)"
| clear_small: "mpc s = MClearS \<Longrightarrow> sys_step s (s\<lparr>cur := (cur s)\<lparr>r_small := 0\<rparr>, mpc := MPoll\<rparr>)"
| direction: "i < length (threads s) \<Longrightarrow> threads s ! i = TWork \<Longrightarrow> sys_step s (set_thread i (TRead RChkL blank_view) s)"
| read: "i < length (threads s) \<Longrightarrow> threads s ! i = TRead ph v \<Longrightarrow> ph \<noteq> RDone \<Longrightarrow>
    sys_step s (set_thread i (case read_step (cur s) (prv s) ph v of (ph', v') \<Rightarrow> TRead ph' v') s)"
| divide: "i < length (threads s) \<Longrightarrow> threads s ! i = TRead RDone v \<Longrightarrow> view_total v \<noteq> 0 \<Longrightarrow>
    sys_step s (set_thread i TWork s)"
| divide_by_zero: "i < length (threads s) \<Longrightarrow> threads s ! i = TRead RDone v \<Longrightarrow> view_total v = 0 \<Longrightarrow>
    sys_step s ((end_thread i s)\<lparr>crashed := Suc (crashed s)\<rparr>)"
| thread_raises: "i < length (threads s) \<Longrightarrow> threads s ! i = TWork \<Longrightarrow>
    sys_step s ((end_thread i s)\<lparr>crashed := Suc (crashed s)\<rparr>)"
| thread_ends: "i < length (threads s) \<Longrightarrow> threads s ! i = TWork \<Longrightarrow>
    sys_step s ((end_thread i s)\<lparr>flag := False\<rparr>)"

definition initial_sys :: sys where
  "initial_sys = \<lparr>cur = zero_ratio, prv = unset_ratio, flag = False, mpc = MPoll, threads = [], crashed = 0\<rparr>"

inductive reachable :: "sys \<Rightarrow> bool" where
  init: "reachable initial_sys"
| step: "reachable s \<Longrightarrow> sys_step s s' \<Longrightarrow> reachable s'"

inductive_cases sys_stepE: "sys_step s s'"

definition triggering :: "mpc \<Rightarrow> bool" where
  "triggering pc \<longleftrightarrow> pc = MSummary True \<or> pc = MSpawn True"

definition sys_inv :: "sys \<Rightarrow> bool" where
  "sys_inv s \<longleftrightarrow> length (threads s) + crashed s \<le> 1
     \<and> (flag s \<longleftrightarrow> threads s \<noteq> [] \<or> 0 < crashed s \<or> mpc s = MStart)
     \<and> (triggering (mpc s) \<longrightarrow> \<not> flag s)
     \<and> (mpc s = MStart \<longrightarrow> threads s = [] \<and> crashed s = 0)"

lemma end_thread_length: "i < length (threads s) \<Longrightarrow> length (threads (end_thread i s)) = length (threads s) - 1"
  by (simp add: end_thread_def)

lemma single_thread: "sys_inv s \<Longrightarrow> i < length (threads s) \<Longrightarrow> \<exists>t. threads s = [t] \<and> i = 0 \<and> crashed s = 0"
  by (cases "threads s") (auto simp: sys_inv_def)

lemma sys_inv_step: "sys_step s s' \<Longrightarrow> sys_inv s \<Longrightarrow> sys_inv s'"
proof (induction rule: sys_step.induct)
  case (direction i s)
  from single_thread [OF direction(3,1)] direction(3) show ?case by (auto simp: sys_inv_def set_thread_def)
next
  case (read i s ph v)
  from single_thread [OF read(4,1)] read(4) show ?case by (auto simp: sys_inv_def set_thread_def)
next
  case (divide i s v)
  from single_thread [OF divide(4,1)] divide(4) show ?case by (auto simp: sys_inv_def set_thread_def)
next
  case (divide_by_zero i s v)
  from single_thread [OF divide_by_zero(4,1)] divide_by_zero(4) show ?case by (auto simp: sys_inv_def end_thread_def)
next
  case (thread_raises i s)
  from single_thread [OF thread_raises(3,1)] thread_raises(3) show ?case by (auto simp: sys_inv_def end_thread_def)
next
  case (thread_ends i s)
  from single_thread [OF thread_ends(3,1)] thread_ends(3) show ?case by (auto simp: sys_inv_def end_thread_def)
qed (auto simp: sys_inv_def triggering_def)

lemma reachable_inv: "reachable s \<Longrightarrow> sys_inv s"
  by (induction rule: reachable.induct) (simp_all add: sys_inv_step, simp add: sys_inv_def initial_sys_def triggering_def)

text \<open>C3: however the loop and its threads interleave, at most one tuning thread is alive at any moment, and
  the flag is set exactly while a thread is alive, about to be started, or has died of an exception. The check of
  the flag and its later setting are not atomic, but nothing can come between: only the loop sets it.\<close>

theorem single_tuning_thread:
  assumes "reachable s"
  shows "length (threads s) \<le> 1 \<and> (flag s \<longleftrightarrow> threads s \<noteq> [] \<or> 0 < crashed s \<or> mpc s = MStart)"
  using reachable_inv [OF assms] by (auto simp: sys_inv_def)

theorem single_tuning_thread_witness:
  "length (threads (initial_sys\<lparr>mpc := MFill\<rparr>)) \<le> 1 \<and> \<not> flag (initial_sys\<lparr>mpc := MFill\<rparr>)"
proof -
  have "reachable (initial_sys\<lparr>mpc := MFill\<rparr>)"
    by (rule reachable.step [OF reachable.init poll]) (simp add: initial_sys_def)
  from single_tuning_thread [OF this] show ?thesis by (simp add: initial_sys_def)
qed

text \<open>A run in which the loop clears the current ratio between the check and the use.\<close>

definition raced_view :: ratio_view where
  "raced_view = \<lparr>chk_large = 3, chk_small = 1, cur_large = 0, cur_small = 0, prv_large = 0, prv_small = 0\<rparr>"

definition raced :: sys where
  "raced = \<lparr>cur = \<lparr>r_large = 0, r_small = 0\<rparr>, prv = \<lparr>r_large = 3, r_small = 1\<rparr>, flag = True, mpc = MPoll,
     threads = [TRead RDone raced_view], crashed = 0\<rparr>"

lemma raced_reachable: "reachable raced"
proof -
  note eval = initial_sys_def zero_ratio_def unset_ratio_def set_thread_def end_thread_def blank_view_def view_total_def
  have r0: "reachable \<lparr>cur = \<lparr>r_large = 0, r_small = 0\<rparr>, prv = \<lparr>r_large = -1, r_small = -1\<rparr>, flag = False, mpc = MFill, threads = [], crashed = 0\<rparr>"
    using reachable.step [OF reachable.init sys_step.poll] by (simp add: eval)
  have r1: "reachable \<lparr>cur = \<lparr>r_large = 3, r_small = 1\<rparr>, prv = \<lparr>r_large = -1, r_small = -1\<rparr>, flag = False, mpc = MFill, threads = [], crashed = 0\<rparr>"
    using reachable.step [OF r0 sys_step.fill [of _ 3 1]] by (simp add: eval)
  have r2: "reachable \<lparr>cur = \<lparr>r_large = 3, r_small = 1\<rparr>, prv = \<lparr>r_large = -1, r_small = -1\<rparr>, flag = False, mpc = MDecide, threads = [], crashed = 0\<rparr>"
    using reachable.step [OF r1 sys_step.observed] by (simp add: eval)
  have r3: "reachable \<lparr>cur = \<lparr>r_large = 3, r_small = 1\<rparr>, prv = \<lparr>r_large = -1, r_small = -1\<rparr>, flag = False, mpc = MSummary True, threads = [], crashed = 0\<rparr>"
    using reachable.step [OF r2 sys_step.decide [of _ True]] by (simp add: eval)
  have r4: "reachable \<lparr>cur = \<lparr>r_large = 3, r_small = 1\<rparr>, prv = \<lparr>r_large = -1, r_small = -1\<rparr>, flag = False, mpc = MSpawn True, threads = [], crashed = 0\<rparr>"
    using reachable.step [OF r3 sys_step.summary] by (simp add: eval)
  have r5: "reachable \<lparr>cur = \<lparr>r_large = 3, r_small = 1\<rparr>, prv = \<lparr>r_large = -1, r_small = -1\<rparr>, flag = True, mpc = MStart, threads = [], crashed = 0\<rparr>"
    using reachable.step [OF r4 sys_step.set_flag] by (simp add: eval)
  have r6: "reachable \<lparr>cur = \<lparr>r_large = 3, r_small = 1\<rparr>, prv = \<lparr>r_large = -1, r_small = -1\<rparr>, flag = True, mpc = MRoll, threads = [TWork], crashed = 0\<rparr>"
    using reachable.step [OF r5 sys_step.start] by (simp add: eval)
  have r7: "reachable \<lparr>cur = \<lparr>r_large = 3, r_small = 1\<rparr>, prv = \<lparr>r_large = -1, r_small = -1\<rparr>, flag = True, mpc = MRoll, threads = [TRead RChkL (\<lparr>chk_large = 0, chk_small = 0, cur_large = 0, cur_small = 0, prv_large = 0, prv_small = 0\<rparr>)], crashed = 0\<rparr>"
    using reachable.step [OF r6 sys_step.direction [of 0]] by (simp add: eval)
  have r8: "reachable \<lparr>cur = \<lparr>r_large = 3, r_small = 1\<rparr>, prv = \<lparr>r_large = -1, r_small = -1\<rparr>, flag = True, mpc = MRoll, threads = [TRead RChkS (\<lparr>chk_large = 3, chk_small = 0, cur_large = 0, cur_small = 0, prv_large = 0, prv_small = 0\<rparr>)], crashed = 0\<rparr>"
    using reachable.step [OF r7 sys_step.read [of 0]] by (simp add: eval)
  have r9: "reachable \<lparr>cur = \<lparr>r_large = 3, r_small = 1\<rparr>, prv = \<lparr>r_large = -1, r_small = -1\<rparr>, flag = True, mpc = MRoll, threads = [TRead RCurL (\<lparr>chk_large = 3, chk_small = 1, cur_large = 0, cur_small = 0, prv_large = 0, prv_small = 0\<rparr>)], crashed = 0\<rparr>"
    using reachable.step [OF r8 sys_step.read [of 0]] by (simp add: eval)
  have r10: "reachable \<lparr>cur = \<lparr>r_large = 3, r_small = 1\<rparr>, prv = \<lparr>r_large = 3, r_small = 1\<rparr>, flag = True, mpc = MClearL, threads = [TRead RCurL (\<lparr>chk_large = 3, chk_small = 1, cur_large = 0, cur_small = 0, prv_large = 0, prv_small = 0\<rparr>)], crashed = 0\<rparr>"
    using reachable.step [OF r9 sys_step.roll] by (simp add: eval)
  have r11: "reachable \<lparr>cur = \<lparr>r_large = 0, r_small = 1\<rparr>, prv = \<lparr>r_large = 3, r_small = 1\<rparr>, flag = True, mpc = MClearS, threads = [TRead RCurL (\<lparr>chk_large = 3, chk_small = 1, cur_large = 0, cur_small = 0, prv_large = 0, prv_small = 0\<rparr>)], crashed = 0\<rparr>"
    using reachable.step [OF r10 sys_step.clear_large] by (simp add: eval)
  have r12: "reachable \<lparr>cur = \<lparr>r_large = 0, r_small = 0\<rparr>, prv = \<lparr>r_large = 3, r_small = 1\<rparr>, flag = True, mpc = MPoll, threads = [TRead RCurL (\<lparr>chk_large = 3, chk_small = 1, cur_large = 0, cur_small = 0, prv_large = 0, prv_small = 0\<rparr>)], crashed = 0\<rparr>"
    using reachable.step [OF r11 sys_step.clear_small] by (simp add: eval)
  have r13: "reachable \<lparr>cur = \<lparr>r_large = 0, r_small = 0\<rparr>, prv = \<lparr>r_large = 3, r_small = 1\<rparr>, flag = True, mpc = MPoll, threads = [TRead RCurS (\<lparr>chk_large = 3, chk_small = 1, cur_large = 0, cur_small = 0, prv_large = 0, prv_small = 0\<rparr>)], crashed = 0\<rparr>"
    using reachable.step [OF r12 sys_step.read [of 0]] by (simp add: eval)
  show "reachable raced"
    using reachable.step [OF r13 sys_step.read [of 0]] by (simp add: eval raced_def raced_view_def)
qed

lemma race_run: "reachable \<lparr>cur = \<lparr>r_large = 0, r_small = 0\<rparr>, prv = \<lparr>r_large = 3, r_small = 1\<rparr>, flag = True, mpc = MPoll, threads = [], crashed = 1\<rparr>"
  using reachable.step [OF raced_reachable sys_step.divide_by_zero [of 0]]
  by (simp add: raced_def raced_view_def view_total_def end_thread_def)

text \<open>A view of zero total is what makes \<open>get_new_solution_direction\<close> raise, and nothing else does.\<close>

lemma direction_raises_iff:
  "get_new_solution_direction cfg mode e g = Inl err \<longleftrightarrow> err = ZeroDivisionError \<and> view_total (views g (vpos g)) = 0"
  by (auto simp: get_new_solution_direction_def read_ratios_def view_total_def Let_def split: prod.splits)

text \<open>C10: once a tuning thread has died of an exception, tuning is over for good: in every continuation the
  flag stays set and no thread is ever started again, although the loop goes on monitoring.\<close>

theorem crash_ends_tuning:
  assumes "reachable s" "0 < crashed s" "rtranclp sys_step s s'"
  shows "flag s' \<and> threads s' = [] \<and> crashed s' = crashed s"
proof -
  have same: "0 < crashed y \<Longrightarrow> sys_inv y \<Longrightarrow> sys_step y z \<Longrightarrow> crashed z = crashed y" for y z
    by (erule sys_step.cases) (auto simp: sys_inv_def set_thread_def)
  from assms(3) have "sys_inv s' \<and> crashed s' = crashed s"
  proof (induction rule: rtranclp_induct)
    case base
    show ?case using reachable_inv [OF assms(1)] by simp
  next
    case (step y z)
    then show ?case using sys_inv_step [of y z] same [of y z] assms(2) by simp
  qed
  then show ?thesis using assms(2) by (cases "threads s'") (auto simp: sys_inv_def)
qed

theorem crash_ends_tuning_witness:
  "flag (\<lparr>cur = \<lparr>r_large = 0, r_small = 0\<rparr>, prv = \<lparr>r_large = 3, r_small = 1\<rparr>, flag = True, mpc = MPoll, threads = [], crashed = 1\<rparr>) \<and> threads (\<lparr>cur = \<lparr>r_large = 0, r_small = 0\<rparr>, prv = \<lparr>r_large = 3, r_small = 1\<rparr>, flag = True, mpc = MPoll, threads = [], crashed = 1\<rparr>) = []"
  using crash_ends_tuning [OF race_run _ rtranclp.rtrancl_refl] by simp

text \<open>The four reads with nothing in between.\<close>

definition reads_alone :: "flow_ratio \<Rightarrow> flow_ratio \<Rightarrow> ratio_view" where
  "reads_alone c p = snd (((\<lambda>(ph, v). read_step c p ph v) ^^ 4) (RChkL, blank_view))"

text \<open>The counts are never negative, and the loop rolls over only a ratio with a positive total.\<close>

definition ratio_inv :: "sys \<Rightarrow> bool" where
  "ratio_inv s \<longleftrightarrow> 0 \<le> r_large (cur s) \<and> 0 \<le> r_small (cur s)
     \<and> (prv s = unset_ratio \<or> 0 \<le> r_large (prv s) \<and> 0 \<le> r_small (prv s) \<and> 0 < r_large (prv s) + r_small (prv s))
     \<and> (mpc s \<in> {MDecide, MStart, MRoll} \<union> range MSummary \<union> range MSpawn \<longrightarrow> 0 < r_large (cur s) + r_small (cur s))"

lemma ratio_inv_step: "sys_step s s' \<Longrightarrow> ratio_inv s \<Longrightarrow> ratio_inv s'"
  by (induction rule: sys_step.induct) (auto simp: ratio_inv_def set_thread_def end_thread_def)

lemma reachable_ratios: "reachable s \<Longrightarrow> ratio_inv s"
  by (induction rule: reachable.induct) (simp_all add: ratio_inv_step, auto simp: ratio_inv_def initial_sys_def zero_ratio_def)

lemma reads_alone_total:
  assumes "ratio_inv s"
  shows "view_total (reads_alone (cur s) (prv s)) \<noteq> 0"
  using assms by (auto simp: ratio_inv_def reads_alone_def view_total_def blank_view_def numeral_eq_Suc unset_ratio_def)

text \<open>C38: the reads of \<open>get_new_solution_direction\<close> are not protected. Loop and thread can interleave so that the
  thread has seen both counts of the current ratio non-zero and has then, after the loop cleared them, read two zeros: the
  next step of that thread, if it takes any, is its death by the division, and it leaves the flag set with no thread to
  clear it. It takes the interleaving: in every reachable state the same reads, made with no write of the loop between
  them, give a total that is not zero.\<close>

theorem direction_race_is_reachable:
  "(\<exists>s v. reachable s \<and> threads s = [TRead RDone v] \<and> chk_large v \<noteq> 0 \<and> chk_small v \<noteq> 0 \<and> cur_large v + cur_small v = 0
      \<and> (\<exists>s'. sys_step s s' \<and> threads s' = [])
      \<and> (\<forall>s'. sys_step s s' \<longrightarrow> threads s' = threads s \<or> threads s' = [] \<and> flag s' \<and> crashed s' = Suc (crashed s)))
   \<and> (\<forall>s. reachable s \<longrightarrow> view_total (reads_alone (cur s) (prv s)) \<noteq> 0)"
proof (intro conjI exI allI impI)
  show "reachable raced" by (rule raced_reachable)
  show "threads raced = [TRead RDone raced_view]" "chk_large raced_view \<noteq> 0" "chk_small raced_view \<noteq> 0"
    "cur_large raced_view + cur_small raced_view = 0" by (simp_all add: raced_def raced_view_def)
  show "sys_step raced ((end_thread 0 raced)\<lparr>crashed := Suc (crashed raced)\<rparr>)"
    by (rule sys_step.divide_by_zero [of _ _ raced_view]) (simp_all add: raced_def raced_view_def view_total_def)
  show "threads ((end_thread 0 raced)\<lparr>crashed := Suc (crashed raced)\<rparr>) = []" by (simp add: raced_def end_thread_def)
  show "threads s' = threads raced \<or> threads s' = [] \<and> flag s' \<and> crashed s' = Suc (crashed raced)" if "sys_step raced s'" for s'
    using that by (cases rule: sys_step.cases) (auto simp: raced_def raced_view_def view_total_def end_thread_def set_thread_def)
  show "view_total (reads_alone (cur s) (prv s)) \<noteq> 0" if "reachable s" for s
    by (rule reads_alone_total [OF reachable_ratios [OF that]])
qed

theorem direction_race_is_reachable_witness:
  "(\<exists>s v. reachable s \<and> threads s = [TRead RDone v] \<and> (\<exists>s'. sys_step s s' \<and> threads s' = []))
   \<and> view_total (reads_alone (cur initial_sys) (prv initial_sys)) \<noteq> 0"
  using direction_race_is_reachable reachable.init by blast

section \<open>The iteration as a function\<close>

text \<open>What holds between iterations: the current ratio is cleared, the previous one is unset or a pair of
  counts, the flow table has no repeated key.\<close>

definition count_ratio :: "flow_ratio \<Rightarrow> bool" where
  "count_ratio r \<longleftrightarrow> 0 \<le> r_large r \<and> 0 \<le> r_small r"

definition monitor_inv :: "mstate \<Rightarrow> bool" where
  "monitor_inv s \<longleftrightarrow> current_flow_ratio s = zero_ratio
     \<and> (previous_flow_ratio s = unset_ratio \<or> count_ratio (previous_flow_ratio s))
     \<and> nested_ok (switch_flowid_status_dict s)"

lemma filter_flows_ok: "nested_ok t \<Longrightarrow> nested_ok (snd (filter_flows threshold w now t))"
  by (fastforce simp: filter_flows_spec nested_ok_def)

lemma upload_counts: "count_ratio r \<Longrightarrow> count_ratio (fst (upload_ratio threshold ups r))"
  by (simp add: count_ratio_def upload_ratio_def upload_ratio_fold sum_pairs_nonneg effective_weight_bounds)

lemma observe_host_report:
  assumes "observe_report cfg inp s = Inr (Some (t, ratio, meta, table))" "USE_HOST_FLOW_REPORT cfg"
  obtains report where "report \<noteq> []" "load_host_flow_report (host_report_file inp) = Inr (Some t, report)"
    "classify_host_flow_progress (HOST_FLOW_CHUNK_BYTES cfg) (large_flow_threshold_bytes cfg) report = (ratio, meta)"
    "table = switch_flowid_status_dict s"
proof -
  from assms obtain ct report where l: "load_host_flow_report (host_report_file inp) = Inr (ct, report)"
    by (cases "load_host_flow_report (host_report_file inp)") (auto simp: observe_report_def)
  obtain a b where c: "classify_host_flow_progress (HOST_FLOW_CHUNK_BYTES cfg) (large_flow_threshold_bytes cfg) report = (a, b)"
    by (cases "classify_host_flow_progress (HOST_FLOW_CHUNK_BYTES cfg) (large_flow_threshold_bytes cfg) report")
  from assms l c show ?thesis
    by (intro that [of report]) (auto simp: observe_report_def split: option.splits if_splits)
qed

lemma observe_switch_report:
  assumes "observe_report cfg inp s = Inr (Some (t, ratio, meta, table))" "\<not> USE_HOST_FLOW_REPORT cfg"
  obtains report now where "load_sketch (sketch_frame inp) = Inr (Some now, report)" "t = Fin now"
    "upload_ratio (large_flow_threshold cfg) (fst (filter_flows (large_flow_threshold cfg) (window_size cfg) now
       (update_all_flows (t_reset cfg) report now (switch_flowid_status_dict s)))) (current_flow_ratio s) = (ratio, meta)"
    "table = snd (filter_flows (large_flow_threshold cfg) (window_size cfg) now
       (update_all_flows (t_reset cfg) report now (switch_flowid_status_dict s)))"
proof -
  from assms obtain ct report where l: "load_sketch (sketch_frame inp) = Inr (ct, report)"
    by (cases "load_sketch (sketch_frame inp)") (auto simp: observe_report_def)
  with assms obtain now where now: "ct = Some now" by (cases ct) (auto simp: observe_report_def)
  let ?ft = "filter_flows (large_flow_threshold cfg) (window_size cfg) now
       (update_all_flows (t_reset cfg) report now (switch_flowid_status_dict s))"
  obtain u tb where f: "?ft = (u, tb)" by (cases ?ft)
  obtain a b where c: "upload_ratio (large_flow_threshold cfg) u (current_flow_ratio s) = (a, b)"
    by (cases "upload_ratio (large_flow_threshold cfg) u (current_flow_ratio s)")
  from assms l now f c show ?thesis
    by (intro that [of now report]) (auto simp: observe_report_def Let_def split: if_splits)
qed

lemma observe_report_ok:
  assumes "observe_report cfg inp s = Inr (Some (t, ratio, meta, table))"
    and "count_ratio (current_flow_ratio s)" "nested_ok (switch_flowid_status_dict s)"
  shows "count_ratio ratio \<and> nested_ok table"
proof (cases "USE_HOST_FLOW_REPORT cfg")
  case True
  from observe_host_report [OF assms(1) True] obtain report where
    "classify_host_flow_progress (HOST_FLOW_CHUNK_BYTES cfg) (large_flow_threshold_bytes cfg) report = (ratio, meta)"
    "table = switch_flowid_status_dict s" by blast
  then show ?thesis
    using host.nonneg [of "HOST_FLOW_CHUNK_BYTES cfg" "large_flow_threshold_bytes cfg" report] assms(3)
    by (simp add: count_ratio_def)
next
  case False
  from observe_switch_report [OF assms(1) False] obtain report now where
    "upload_ratio (large_flow_threshold cfg) (fst (filter_flows (large_flow_threshold cfg) (window_size cfg) now
       (update_all_flows (t_reset cfg) report now (switch_flowid_status_dict s)))) (current_flow_ratio s) = (ratio, meta)"
    "table = snd (filter_flows (large_flow_threshold cfg) (window_size cfg) now
       (update_all_flows (t_reset cfg) report now (switch_flowid_status_dict s)))" by blast
  then show ?thesis
    using upload_counts [OF assms(2)] filter_flows_ok [OF update_all_flows_ok [OF assms(3)]] by (metis fst_conv)
qed

lemma summary_frame:
  assumes "collect_monitor_cycle_summary cfg inp now snap meta previous kl reason s = Some (Inr (u, s'))"
  shows "current_flow_ratio s' = current_flow_ratio s \<and> previous_flow_ratio s' = previous_flow_ratio s
    \<and> switch_flowid_status_dict s' = switch_flowid_status_dict s"
  using assms
  by (auto simp: collect_monitor_cycle_summary_def res_simps Let_def split: option.splits)

lemma monitor_step_processed:
  assumes "monitor_step cfg inp s = Some (Inr (s', sp))"
    and "previous_flow_ratio s' \<noteq> previous_flow_ratio s \<or> sp \<noteq> None \<or> current_flow_ratio s' \<noteq> current_flow_ratio s
         \<or> switch_flowid_status_dict s' \<noteq> switch_flowid_status_dict s"
  obtains s1 t ratio meta table now kl where
      "s1 = s\<lparr>previous_observation_hash := calculate_file_hash (sha256 cfg) (observed_file inp),
        total_monitor_rounds := total_monitor_rounds s + 1\<rparr>"
      "observe_report cfg inp s1 = Inr (Some (t, ratio, meta, table))" "t = Fin now"
      "kl = compute_divergence (entropy cfg) ratio (previous_flow_ratio s)"
      "previous_flow_ratio s' = ratio" "current_flow_ratio s' = zero_ratio" "switch_flowid_status_dict s' = table"
      "sp = map_option (\<lambda>r. \<lparr>sp_time = now, sp_kl = kl, sp_reason = r, sp_snapshot = (ratio, Some meta),
           sp_previous = (previous_flow_ratio s, previous_flow_ratio_metadata s)\<rparr>)
         (decide_trigger cfg (previous_flow_ratio s) kl (flag_at_decision inp))"
proof -
  let ?s1 = "s\<lparr>previous_observation_hash := calculate_file_hash (sha256 cfg) (observed_file inp),
        total_monitor_rounds := total_monitor_rounds s + 1\<rparr>"
  have changed: "calculate_file_hash (sha256 cfg) (observed_file inp) \<noteq> previous_observation_hash s"
    using assms by (auto simp: monitor_step_def Let_def split: if_splits)
  obtain t ratio meta table where obs: "observe_report cfg inp ?s1 = Inr (Some (t, ratio, meta, table))"
    using assms changed by (auto simp: monitor_step_def Let_def split: if_splits sum.splits option.splits)
  obtain now where now: "finite_time t = Some now"
    using assms(1) changed obs by (auto simp: monitor_step_def Let_def split: option.splits)
  let ?kl = "compute_divergence (entropy cfg) ratio (previous_flow_ratio s)"
  let ?s2 = "?s1\<lparr>current_flow_ratio := ratio, switch_flowid_status_dict := table\<rparr>"
  let ?reason = "decide_trigger cfg (previous_flow_ratio s) ?kl (flag_at_decision inp)"
  obtain u s3 where sum: "collect_monitor_cycle_summary cfg inp now (ratio, Some meta) meta
      (previous_flow_ratio s, previous_flow_ratio_metadata s) ?kl ?reason ?s2 = Some (Inr (u, s3))"
    using assms(1) changed obs now by (auto simp: monitor_step_def Let_def split: option.splits sum.splits)
  have t: "t = Fin now" using now by (cases t) auto
  have "s' = s3\<lparr>previous_flow_ratio := current_flow_ratio s3, previous_flow_ratio_metadata := Some meta,
      current_flow_ratio := zero_ratio\<rparr>"
    and "sp = map_option (\<lambda>r. \<lparr>sp_time = now, sp_kl = ?kl, sp_reason = r, sp_snapshot = (ratio, Some meta),
           sp_previous = (previous_flow_ratio s, previous_flow_ratio_metadata s)\<rparr>) ?reason"
    using assms(1) changed obs now sum by (auto simp: monitor_step_def Let_def)
  with summary_frame [OF sum] t obs show ?thesis by (intro that) auto
qed

text \<open>C2: an iteration keeps the loop's invariant and hands over exactly what it saw. Every report is counted from
  a cleared ratio; the ratio given to the new thread is the one that becomes the previous ratio; a thread is
  started only when the flag was clear; the trigger is the initial observation exactly when no report was processed
  before, and otherwise, outside collect-only mode, the divergence exceeded the threshold.\<close>

theorem monitor_step_triggers:
  assumes "monitor_inv s" "monitor_step cfg inp s = Some (Inr (s', sp))"
  shows "monitor_inv s'
    \<and> (previous_flow_ratio s \<noteq> unset_ratio \<longrightarrow> previous_flow_ratio s' \<noteq> unset_ratio)
    \<and> (\<forall>x. sp = Some x \<longrightarrow>
         \<not> flag_at_decision inp
         \<and> fst (sp_snapshot x) = previous_flow_ratio s' \<and> count_ratio (previous_flow_ratio s')
         \<and> fst (sp_previous x) = previous_flow_ratio s
         \<and> (sp_reason x = ''initial_observation'' \<longleftrightarrow> previous_flow_ratio s = unset_ratio)
         \<and> (sp_reason x \<noteq> ''initial_observation'' \<longrightarrow> \<not> COLLECT_ONLY_MODE (mc_tuner cfg) \<longrightarrow>
              sp_reason x = ''kl_divergence'' \<and> flt_lt (Fin (trigger_threshold cfg)) (sp_kl x)))"
proof (cases "previous_flow_ratio s' \<noteq> previous_flow_ratio s \<or> sp \<noteq> None \<or> current_flow_ratio s' \<noteq> current_flow_ratio s
         \<or> switch_flowid_status_dict s' \<noteq> switch_flowid_status_dict s")
  case False
  with assms(1) show ?thesis by (simp add: monitor_inv_def)
next
  case True
  from assms(1) have inv: "current_flow_ratio s = zero_ratio" "nested_ok (switch_flowid_status_dict s)"
    and prev: "previous_flow_ratio s = unset_ratio \<or> count_ratio (previous_flow_ratio s)"
    by (simp_all add: monitor_inv_def)
  have first: "r_small (previous_flow_ratio s) = -1 \<longleftrightarrow> previous_flow_ratio s = unset_ratio"
    using prev by (auto simp: unset_ratio_def count_ratio_def)
  from monitor_step_processed [OF assms(2) True] obtain s1 t ratio meta table now kl where
    *: "s1 = s\<lparr>previous_observation_hash := calculate_file_hash (sha256 cfg) (observed_file inp),
          total_monitor_rounds := total_monitor_rounds s + 1\<rparr>"
      "observe_report cfg inp s1 = Inr (Some (t, ratio, meta, table))"
      "previous_flow_ratio s' = ratio" "current_flow_ratio s' = zero_ratio" "switch_flowid_status_dict s' = table"
      "sp = map_option (\<lambda>r. \<lparr>sp_time = now, sp_kl = kl, sp_reason = r, sp_snapshot = (ratio, Some meta),
           sp_previous = (previous_flow_ratio s, previous_flow_ratio_metadata s)\<rparr>)
         (decide_trigger cfg (previous_flow_ratio s) kl (flag_at_decision inp))" by metis
  have ok: "count_ratio ratio \<and> nested_ok table"
    by (rule observe_report_ok [OF *(2)]) (use inv *(1) in \<open>simp_all add: zero_ratio_def count_ratio_def\<close>)
  then have "ratio \<noteq> unset_ratio" by (auto simp: count_ratio_def unset_ratio_def)
  moreover have "monitor_inv s'" using ok * by (simp add: monitor_inv_def)
  ultimately show ?thesis
    using *(3,6) ok first by (auto simp: decide_trigger_def split: if_splits)
qed

text \<open>Inputs an iteration can work with: the monitor files eventually reach the report's time, pandas reads
  its files, the parameter file holds a valid vector.\<close>

definition readable :: "monitor_cfg \<Rightarrow> minput \<Rightarrow> real \<Rightarrow> bool" where
  "readable cfg inp now \<longleftrightarrow>
    (\<exists>k. snapshots_ready (throughput_text inp) (rtt_text inp) (Fin now) k)
    \<and> \<not> isl (throughput_frame inp) \<and> \<not> isl (rtt_frame inp) \<and> \<not> isl (pfc_frame_now inp)
    \<and> (\<exists>vs. load_current_parameters (PARAMETER_SPECS (mc_tuner cfg)) (parameter_text inp) = Inr vs
          \<and> solution_ok (PARAMETER_SPECS (mc_tuner cfg)) vs)"

lemma pfc_handling_total: "\<exists>ratio c'. pfc_handling n (Inr data) a b c = Inr (ratio, c')"
  by (cases "pfc_loop a b (drop (start_line c) data) (active_links c) (active_links c)")
    (simp add: pfc_handling_def pfc_handling_with_state_def Let_def)

lemma summary_total:
  assumes "readable cfg inp now" "tuner_table (mc_tuner cfg)" "weights_ok (mc_tuner cfg)"
  shows "\<exists>u s'. collect_monitor_cycle_summary cfg inp now snap meta previous kl reason s = Some (Inr (u, s'))"
proof -
  let ?tc = "mc_tuner cfg"
  from assms(1) obtain k where "snapshots_ready (throughput_text inp) (rtt_text inp) (Fin now) k"
    by (auto simp: readable_def)
  from monitor_wait.returns_at_first_ready [OF _ this, of 0] obtain j where
    wait: "wait_for_monitor_snapshots_at_or_after (throughput_text inp) (rtt_text inp) (Fin now) 0 = Some j" by auto
  from assms(1) obtain a b c vs where fr: "throughput_frame inp = Inr a" "rtt_frame inp = Inr b" "pfc_frame_now inp = Inr c"
    and vs: "load_current_parameters (PARAMETER_SPECS ?tc) (parameter_text inp) = Inr vs"
      "solution_ok (PARAMETER_SPECS ?tc) vs"
    unfolding readable_def by (metis sum.collapse(2))
  from assms(2) obtain arange where specs: "PARAMETER_SPECS ?tc = ALL_PARAMETER_SPECS arange"
    by (auto simp: tuner_table_def)
  have "length vs = 13" using vs(2) tbl.solution_ok_length specs by fastforce
  then obtain line where line: "format_parameter_line (PARAMETER_SPECS ?tc) vs = Inr line"
    using parameter_line_total [of vs arange] specs by auto
  obtain mode ws where jm: "judge_mode (tc_mode ?tc) (r_large (fst snap)) (r_small (fst snap)) = Inr (mode, ws)"
    using judge_mode_total [OF assms(3)] by blast
  obtain thr where thr: "throughput_handling2 (monitor_window_seconds ?tc) (Inr a) = Inr thr"
    by (cases "a = []") (simp_all add: throughput_handling2_def)
  obtain rtt where rtt: "rtt_handling2 (Inr b) = Inr rtt" by (cases "b = []") (simp_all add: rtt_handling2_def)
  obtain ratio c' where pfc: "pfc_handling (total_directed_links ?tc) (Inr c)
      (max 0 (now - monitor_window_seconds ?tc)) now (observation_cursor s) = Inr (ratio, c')"
    using pfc_handling_total by blast
  show ?thesis
    by (simp add: collect_monitor_cycle_summary_def wait fr thr rtt pfc jm vs(1) log_cycle_summary_def line Let_def)
qed

lemma monitor_step_run:
  assumes "tuner_table (mc_tuner cfg)" "weights_ok (mc_tuner cfg)" "readable cfg inp now"
    and "calculate_file_hash (sha256 cfg) (observed_file inp) \<noteq> previous_observation_hash s"
    and "observe_report cfg inp (s\<lparr>previous_observation_hash := calculate_file_hash (sha256 cfg) (observed_file inp),
          total_monitor_rounds := total_monitor_rounds s + 1\<rparr>) = Inr (Some (Fin now, ratio, meta, table))"
  obtains s3 where "previous_observation_hash s3 = calculate_file_hash (sha256 cfg) (observed_file inp)"
    "current_flow_ratio s3 = ratio"
    "monitor_step cfg inp s = Some (Inr (s3\<lparr>previous_flow_ratio := current_flow_ratio s3,
        previous_flow_ratio_metadata := Some meta, current_flow_ratio := zero_ratio\<rparr>,
      map_option (\<lambda>r. \<lparr>sp_time = now, sp_kl = compute_divergence (entropy cfg) ratio (previous_flow_ratio s), sp_reason = r,
        sp_snapshot = (ratio, Some meta), sp_previous = (previous_flow_ratio s, previous_flow_ratio_metadata s)\<rparr>)
        (decide_trigger cfg (previous_flow_ratio s)
          (compute_divergence (entropy cfg) ratio (previous_flow_ratio s)) (flag_at_decision inp))))"
proof -
  let ?h = "calculate_file_hash (sha256 cfg) (observed_file inp)"
  let ?s2 = "s\<lparr>previous_observation_hash := ?h, total_monitor_rounds := total_monitor_rounds s + 1,
    current_flow_ratio := ratio, switch_flowid_status_dict := table\<rparr>"
  let ?kl = "compute_divergence (entropy cfg) ratio (previous_flow_ratio s)"
  let ?reason = "decide_trigger cfg (previous_flow_ratio s) ?kl (flag_at_decision inp)"
  obtain u s3 where sum: "collect_monitor_cycle_summary cfg inp now (ratio, Some meta) meta
      (previous_flow_ratio s, previous_flow_ratio_metadata s) ?kl ?reason ?s2 = Some (Inr (u, s3))"
    using summary_total [OF assms(3,1,2)] by blast
  have "previous_observation_hash s3 = ?h"
    using sum by (auto simp: collect_monitor_cycle_summary_def res_simps Let_def split: option.splits)
  moreover have "current_flow_ratio s3 = ratio" using summary_frame [OF sum] by simp
  ultimately show ?thesis
    using assms(4,5) sum by (intro that [of s3]) (simp_all add: monitor_step_def Let_def)
qed


text \<open>A host-report configuration and the first report it sees.\<close>

definition sample_mcfg :: monitor_cfg where
  "sample_mcfg = \<lparr>mc_tuner = sample_cfg, USE_HOST_FLOW_REPORT = True, HOST_FLOW_CHUNK_BYTES = 1048576,
     large_flow_threshold = 1, window_size = 2, t_reset = 1/1000, trigger_threshold = 1/100,
     entropy = (\<lambda>_ _. Fin 0), sha256 = (\<lambda>x. x)\<rparr>"

definition sample_report :: string where
  "sample_report = ''2 wr h1 h2 7 10 5000'' @ [nl]"

definition sample_minput :: minput where
  "sample_minput = \<lparr>observed_file = Some sample_report, host_report_file = Some sample_report, sketch_frame = None,
     throughput_text = (\<lambda>_. Some ''3 0 1 90''), rtt_text = (\<lambda>_. Some ''3 1-2 40''), throughput_frame = Inr [],
     rtt_frame = Inr [], pfc_frame_now = Inr [], parameter_text = None, flag_at_decision = False, flag_at_row = False\<rparr>"

lemma sample_observation:
  "observe_report sample_mcfg sample_minput (initial_mstate\<lparr>previous_observation_hash :=
       calculate_file_hash (sha256 sample_mcfg) (observed_file sample_minput),
       total_monitor_rounds := total_monitor_rounds initial_mstate + 1\<rparr>)
    = Inr (Some (Fin 2, \<lparr>r_large = 1, r_small = 0\<rparr>,
        \<lparr>large_count = 1, potential_large = 0, small_count = 0, potential_effective = 0,
         true_large_count = Some 1, true_small_count = Some 0\<rparr>, []))"
proof -
  have l: "load_host_flow_report (Some sample_report)
      = Inr (Some (Fin 2), [(''h1-7'', \<lparr>progress_bytes = 10, hf_size = 5000\<rparr>)])"
    unfolding sample_report_def by code_simp
  show ?thesis
    by (simp add: observe_report_def sample_mcfg_def sample_minput_def l initial_mstate_def large_flow_threshold_bytes_def
        classify_host_spec dict_values_def host_visible_def compute_chunk_visible_size_def Let_def)
qed

lemma sample_readable: "readable sample_mcfg sample_minput 2"
proof -
  have "latest_snapshot_time (Some ''3 0 1 90'') = Some (Fin 3)" "latest_snapshot_time (Some ''3 1-2 40'') = Some (Fin 3)"
    by code_simp+
  then have "snapshots_ready (throughput_text sample_minput) (rtt_text sample_minput) (Fin 2) 0"
    by (simp add: snapshots_ready_def sample_minput_def flt_le_def)
  then show ?thesis
    using default_solution_ok [of "\<lambda>_ _ _. []"]
    by (auto simp: readable_def sample_minput_def sample_mcfg_def sample_cfg_def load_current_parameters_def default_values_eq)
qed

lemma sample_mcfg_ok: "tuner_table (mc_tuner sample_mcfg)" "weights_ok (mc_tuner sample_mcfg)"
  "calculate_file_hash (sha256 sample_mcfg) (observed_file sample_minput) \<noteq> previous_observation_hash initial_mstate"
  by (auto simp: tuner_table_def weights_ok_def sample_mcfg_def sample_cfg_def calculate_file_hash_def
      sample_minput_def initial_mstate_def)


lemma initial_monitor_inv: "monitor_inv initial_mstate"
  by (simp add: monitor_inv_def initial_mstate_def)

theorem monitor_step_triggers_witness:
  "\<exists>s' sp. monitor_step sample_mcfg sample_minput initial_mstate = Some (Inr (s', sp)) \<and> monitor_inv s'"
proof -
  obtain s' sp where step: "monitor_step sample_mcfg sample_minput initial_mstate = Some (Inr (s', sp))"
    by (rule monitor_step_run [OF sample_mcfg_ok(1,2) sample_readable sample_mcfg_ok(3) sample_observation]) blast
  from monitor_step_triggers [OF initial_monitor_inv step] step show ?thesis by blast
qed

end
