(* ===== verification/Settings.thy ===== *)
theory Settings
  imports TunerSession
begin

text \<open>
  The environment variables of \<^verbatim>\<open>scratch/tuning.py\<close>: the \<^verbatim>\<open>resolve_\<close> functions, the
  module-level checks (\<open>tuner_settings\<close>, in the order of the module), \<open>load_total_directed_links\<close>, and the
  parameter file the module creates at start.

  The environment is a map from names to texts. Floats keep their special values here, because the range checks are
  comparisons and comparisons with NaN are false. \<open>to_cfg\<close> is the configuration record of the session model that a
  record of finite settings stands for.
\<close>

section \<open>Resolving one variable\<close>

type_synonym env = "string \<Rightarrow> string option"

definition unset :: "string option \<Rightarrow> bool" where
  "unset raw = (case raw of None \<Rightarrow> True | Some s \<Rightarrow> str_strip s = [])"

definition resolve_mode_weights :: "env \<Rightarrow> string \<Rightarrow> pyfloat list \<Rightarrow> pyfloat list res" where
  "resolve_mode_weights env env_name default_weights =
    (let raw_value = env env_name in
     if unset raw_value then Inr default_weights
     else res_map (\<lambda>part. py_float (str_strip part)) (split_on (CHR '','') (the raw_value)))"

definition resolve_unit_interval :: "env \<Rightarrow> string \<Rightarrow> pyfloat \<Rightarrow> pyfloat res" where
  "resolve_unit_interval env env_name default_value =
    (let raw_value = env env_name in
     if unset raw_value then Inr default_value
     else res_bind (py_float (the raw_value)) (\<lambda>value.
       if flt_lt value (Fin 0) \<or> flt_lt (Fin 1) value then Inl ValueError else Inr value))"

definition resolve_positive_float :: "env \<Rightarrow> string \<Rightarrow> pyfloat \<Rightarrow> pyfloat res" where
  "resolve_positive_float env env_name default_value =
    (let raw_value = env env_name in
     if unset raw_value then Inr default_value
     else res_bind (py_float (the raw_value)) (\<lambda>value.
       if flt_le value (Fin 0) then Inl ValueError else Inr value))"

definition resolve_open_unit_interval :: "env \<Rightarrow> string \<Rightarrow> pyfloat \<Rightarrow> pyfloat res" where
  "resolve_open_unit_interval env env_name default_value =
    (let raw_value = env env_name in
     if unset raw_value then Inr default_value
     else res_bind (py_float (the raw_value)) (\<lambda>value.
       if flt_le value (Fin 0) \<or> flt_le (Fin 1) value then Inl ValueError else Inr value))"

definition resolve_positive_int :: "env \<Rightarrow> string \<Rightarrow> int \<Rightarrow> int res" where
  "resolve_positive_int env env_name default_value =
    (let raw_value = env env_name in
     if unset raw_value then Inr default_value
     else res_bind (py_int (the raw_value)) (\<lambda>value. if value \<le> 0 then Inl ValueError else Inr value))"

definition resolve_ratio_threshold :: "env \<Rightarrow> string \<Rightarrow> pyfloat \<Rightarrow> pyfloat res" where
  "resolve_ratio_threshold env env_name default_value =
    (let raw_value = env env_name in
     if unset raw_value then Inr default_value
     else res_bind (py_float (the raw_value)) (\<lambda>value.
       if flt_lt value (Fin 0) \<or> flt_lt (Fin 1) value then Inl ValueError else Inr value))"

definition resolve_positive_ms :: "env \<Rightarrow> string \<Rightarrow> pyfloat \<Rightarrow> pyfloat res" where
  "resolve_positive_ms env env_name default_value_ms =
    (let raw_value = env env_name in
     if unset raw_value then Inr default_value_ms
     else res_bind (py_float (the raw_value)) (\<lambda>value.
       if flt_le value (Fin 0) then Inl ValueError else Inr value))"

section \<open>The number of directed links\<close>

definition isabs :: "string \<Rightarrow> bool" where
  "isabs path = starts_with ''/'' path"

definition path_join :: "string \<Rightarrow> string \<Rightarrow> string" where
  "path_join dir name =
    (if isabs name then name else if dir = [] then name
     else if last dir = CHR ''/'' then dir @ name else dir @ ''/'' @ name)"

definition mix_path :: "string \<Rightarrow> string \<Rightarrow> string" where
  "mix_path mix_dir file_name = path_join mix_dir file_name"

text \<open>\<^verbatim>\<open>line.split(maxsplit=1)[1].strip()\<close> for a line that starts with a word.\<close>

definition second_word :: "string \<Rightarrow> string res" where
  "second_word line =
    (let rest = dropWhile is_space (dropWhile (\<lambda>c. \<not> is_space c) (dropWhile is_space line))
     in if rest = [] then Inl IndexError else Inr (str_strip rest))"

text \<open>The loop over \<^verbatim>\<open>config.txt\<close>: \<open>Inr None\<close> when no line decided.\<close>

fun scan_config :: "string \<Rightarrow> (string \<Rightarrow> string option) \<Rightarrow> string list \<Rightarrow> int option res" where
  "scan_config mix_dir files [] = Inr None"
| "scan_config mix_dir files (line # rest) =
    (if starts_with ''TOPOLOGY_FILE '' line
     then res_bind (second_word line) (\<lambda>name.
            (let topology_file = (if \<not> isabs name then path_join mix_dir name else name) in
             case files topology_file of
               None \<Rightarrow> Inl FileNotFoundError
             | Some content \<Rightarrow>
                 (let header = (case file_lines content of [] \<Rightarrow> [] | l # _ \<Rightarrow> split_ws l) in
                  if length header = 3 then res_bind (py_int (header ! 2)) (\<lambda>n. Inr (Some (n * 2)))
                  else scan_config mix_dir files rest)))
     else scan_config mix_dir files rest)"

text \<open>\<open>manifest\<close> is the entry \<^verbatim>\<open>topology.link_count\<close> of the parsed \<^verbatim>\<open>manifest.json\<close>, where the file and
  the entry exist.\<close>

definition load_total_directed_links :: "string \<Rightarrow> int option \<Rightarrow> (string \<Rightarrow> string option) \<Rightarrow> int res" where
  "load_total_directed_links mix_dir manifest files =
    (case manifest of
       Some link_count \<Rightarrow> if link_count \<noteq> 0 then Inr (link_count * 2) else
         (case files (mix_path mix_dir ''config.txt'') of
            None \<Rightarrow> Inr 1
          | Some content \<Rightarrow> res_bind (scan_config mix_dir files (file_lines content)) (\<lambda>r. Inr (case r of None \<Rightarrow> 1 | Some n \<Rightarrow> n)))
     | None \<Rightarrow>
         (case files (mix_path mix_dir ''config.txt'') of
            None \<Rightarrow> Inr 1
          | Some content \<Rightarrow> res_bind (scan_config mix_dir files (file_lines content)) (\<lambda>r. Inr (case r of None \<Rightarrow> 1 | Some n \<Rightarrow> n))))"

section \<open>The settings of the module\<close>

record settings =
  monitor_interval_ms :: pyfloat
  parameter_tuning_interval_ms :: pyfloat
  st_chunk_bytes :: int
  st_aggressive_weights :: "pyfloat list"
  st_conservative_weights :: "pyfloat list"
  st_mode_threshold :: pyfloat
  DIRECTION_CAP_POLICY :: string
  DIRECTION_PROB_CAP_MAX :: pyfloat
  st_collect_only :: bool
  STEP_SCALE :: pyfloat
  MUTATE_COUNT :: int
  DIRECTION_BAD_EWMA_ALPHA :: pyfloat
  DIRECTION_DELTA_EPS :: pyfloat
  st_links :: int
  st_initial_temperature :: pyfloat
  st_final_temperature :: pyfloat
  st_attempt_times :: int
  st_cooling_rate :: pyfloat
  tuner_seed :: "int option"

definition DIRECTION_PROB_CAP_MIN :: pyfloat where
  "DIRECTION_PROB_CAP_MIN = Fin (1/2)"

definition tuner_settings :: "env \<Rightarrow> int res \<Rightarrow> settings res" where
  "tuner_settings env links =
    res_bind (resolve_positive_ms env ''PARALEON_MONITOR_INTERVAL_MS'' (Fin 1)) (\<lambda>monitor_ms.
    res_bind (resolve_positive_ms env ''PARALEON_PARAMETER_TUNING_INTERVAL_MS'' (Fin (1002/1000))) (\<lambda>tuning_ms.
    res_bind (resolve_positive_int env ''PARALEON_PLUS_CHUNK_BYTES'' (1024 * 1024)) (\<lambda>chunk.
    res_bind (resolve_mode_weights env ''PARALEON_AGGRESSIVE_WEIGHTS'' [Fin (6/10), Fin (2/10), Fin (2/10)]) (\<lambda>aggr.
    res_bind (resolve_mode_weights env ''PARALEON_CONSERVATIVE_WEIGHTS'' [Fin (3/10), Fin (5/10), Fin (2/10)]) (\<lambda>cons.
    res_bind (resolve_ratio_threshold env ''PARALEON_AGGRESSIVE_MODE_LARGE_FLOW_THRESHOLD'' (Fin (1/2))) (\<lambda>threshold.
    (let policy = (case env ''PARALEON_DIRECTION_CAP_POLICY'' of None \<Rightarrow> ''adaptive_ewma'' | Some p \<Rightarrow> p) in
    res_bind (resolve_unit_interval env ''PARALEON_DIRECTION_PROB_CAP'' (Fin (7/10))) (\<lambda>cap.
    if flt_lt cap DIRECTION_PROB_CAP_MIN then Inl ValueError
    else if policy \<notin> {''fixed'', ''adaptive_ewma''} then Inl ValueError
    else (let collect = (env ''PARALEON_COLLECT_ONLY'' = Some ''1'') in
    res_bind (resolve_positive_float env ''PARALEON_TUNER_STEP_SCALE'' (Fin 1)) (\<lambda>scale.
    res_bind (resolve_positive_int env ''PARALEON_TUNER_MUTATE_COUNT'' 13) (\<lambda>mutate.
    res_bind (resolve_open_unit_interval env ''PARALEON_DIRECTION_BAD_EWMA_ALPHA'' (Fin (15/100))) (\<lambda>alpha.
    res_bind (resolve_positive_float env ''PARALEON_DIRECTION_DELTA_EPS'' (Fin (1/100))) (\<lambda>eps.
    res_bind links (\<lambda>n_links.
    res_bind (resolve_positive_float env ''PARALEON_TUNER_INITIAL_TEMPERATURE'' (Fin (1/10))) (\<lambda>t0.
    res_bind (resolve_positive_float env ''PARALEON_TUNER_FINAL_TEMPERATURE'' (Fin (1/100))) (\<lambda>t1.
    res_bind (resolve_positive_int env ''PARALEON_TUNER_ATTEMPT_TIMES'' 8) (\<lambda>attempts.
    res_bind (resolve_open_unit_interval env ''PARALEON_TUNER_COOLING_RATE'' (Fin (76/100))) (\<lambda>rate.
    if flt_lt t0 t1 then Inl ValueError
    else (let seed = env ''PARALEON_TUNER_SEED'' in
    res_bind (if unset seed then Inr None else res_bind (py_int (the seed)) (\<lambda>n. Inr (Some n))) (\<lambda>sd.
    Inr \<lparr>monitor_interval_ms = monitor_ms, parameter_tuning_interval_ms = tuning_ms, st_chunk_bytes = chunk,
         st_aggressive_weights = aggr, st_conservative_weights = cons, st_mode_threshold = threshold,
         DIRECTION_CAP_POLICY = policy, DIRECTION_PROB_CAP_MAX = cap, st_collect_only = collect,
         STEP_SCALE = scale, MUTATE_COUNT = mutate, DIRECTION_BAD_EWMA_ALPHA = alpha, DIRECTION_DELTA_EPS = eps,
         st_links = n_links, st_initial_temperature = t0, st_final_temperature = t1, st_attempt_times = attempts,
         st_cooling_rate = rate, tuner_seed = sd\<rparr>))))))))))))))))))))"

text \<open>What the module does to its files before the loop: write the default parameters where there are none,
  remove the outputs of an earlier run.\<close>

definition init_files ::
  "(pyfloat \<Rightarrow> string) \<Rightarrow> param_spec list \<Rightarrow> string option \<Rightarrow> (string option \<times> string option \<times> string option) res" where
  "init_files rep specs file =
    (if file = None \<or> file = Some []
     then res_bind (default_parameter_values specs) (\<lambda>vs.
            res_bind (write_parameters rep specs vs) (\<lambda>out. Inr (Some out, None, None)))
     else Inr (file, None, None))"

definition to_cfg :: "(real list \<Rightarrow> real) \<Rightarrow> (pyfloat \<Rightarrow> string) \<Rightarrow> param_spec list \<Rightarrow> settings \<Rightarrow> tuner_cfg" where
  "to_cfg mean rep specs st =
    \<lparr>PARAMETER_SPECS = specs,
     tc_dir = \<lparr>cap_adaptive = (DIRECTION_CAP_POLICY st = ''adaptive_ewma''), prob_cap_max = flt_val (DIRECTION_PROB_CAP_MAX st),
               prob_cap_min = flt_val DIRECTION_PROB_CAP_MIN, delta_eps = flt_val (DIRECTION_DELTA_EPS st),
               ewma_alpha = flt_val (DIRECTION_BAD_EWMA_ALPHA st), step_scale = flt_val (STEP_SCALE st),
               mutate_count = MUTATE_COUNT st\<rparr>,
     tc_mode = \<lparr>AGGRESSIVE_WEIGHTS = map flt_val (st_aggressive_weights st),
                CONSERVATIVE_WEIGHTS = map flt_val (st_conservative_weights st),
                AGGRESSIVE_MODE_LARGE_FLOW_THRESHOLD = flt_val (st_mode_threshold st)\<rparr>,
     initial_temperature = flt_val (st_initial_temperature st), final_temperature = flt_val (st_final_temperature st),
     attempt_times = nat (st_attempt_times st), cooling_rate = flt_val (st_cooling_rate st),
     t_tune = flt_val (parameter_tuning_interval_ms st) / 1000,
     monitor_window_seconds = flt_val (monitor_interval_ms st) / 1000,
     total_directed_links = nat (st_links st), COLLECT_ONLY_MODE = st_collect_only st,
     np_mean = mean, py_repr = rep\<rparr>"

definition all_finite :: "settings \<Rightarrow> bool" where
  "all_finite st \<longleftrightarrow> list_all flt_finite
     [monitor_interval_ms st, parameter_tuning_interval_ms st, st_mode_threshold st, DIRECTION_PROB_CAP_MAX st,
      STEP_SCALE st, DIRECTION_BAD_EWMA_ALPHA st, DIRECTION_DELTA_EPS st, st_initial_temperature st,
      st_final_temperature st, st_cooling_rate st]
     \<and> list_all flt_finite (st_aggressive_weights st) \<and> list_all flt_finite (st_conservative_weights st)"

section \<open>What the checks guarantee\<close>

named_theorems resolved \<open>consequences of a resolved variable\<close>

lemma flt_cmp_finite:
  "flt_finite x \<Longrightarrow> flt_lt x (Fin r) \<longleftrightarrow> flt_val x < r" "flt_finite x \<Longrightarrow> flt_lt (Fin r) x \<longleftrightarrow> r < flt_val x"
  "flt_finite x \<Longrightarrow> flt_le x (Fin r) \<longleftrightarrow> flt_val x \<le> r" "flt_finite x \<Longrightarrow> flt_le (Fin r) x \<longleftrightarrow> r \<le> flt_val x"
  "flt_finite x \<Longrightarrow> flt_finite y \<Longrightarrow> flt_lt x y \<longleftrightarrow> flt_val x < flt_val y"
  by (cases x; cases y; simp add: flt_le_def; auto)+

lemma resolve_positive_float_ok [resolved]:
  "resolve_positive_float env n d = Inr x \<Longrightarrow> flt_finite x \<Longrightarrow> 0 < flt_val d \<Longrightarrow> 0 < flt_val x"
  by (auto simp: resolve_positive_float_def res_simps Let_def flt_cmp_finite split: if_splits)

lemma resolve_positive_ms_ok [resolved]:
  "resolve_positive_ms env n d = Inr x \<Longrightarrow> flt_finite x \<Longrightarrow> 0 < flt_val d \<Longrightarrow> 0 < flt_val x"
  by (auto simp: resolve_positive_ms_def res_simps Let_def flt_cmp_finite split: if_splits)

lemma resolve_open_unit_interval_ok [resolved]:
  "resolve_open_unit_interval env n d = Inr x \<Longrightarrow> flt_finite x \<Longrightarrow> 0 < flt_val d \<Longrightarrow> flt_val d < 1
    \<Longrightarrow> 0 < flt_val x \<and> flt_val x < 1"
  by (auto simp: resolve_open_unit_interval_def res_simps Let_def flt_cmp_finite split: if_splits)

lemma resolve_unit_interval_ok [resolved]:
  "resolve_unit_interval env n d = Inr x \<Longrightarrow> flt_finite x \<Longrightarrow> 0 \<le> flt_val d \<Longrightarrow> flt_val d \<le> 1
    \<Longrightarrow> 0 \<le> flt_val x \<and> flt_val x \<le> 1"
  by (auto simp: resolve_unit_interval_def res_simps Let_def flt_cmp_finite split: if_splits)

lemma resolve_ratio_threshold_ok [resolved]:
  "resolve_ratio_threshold env n d = Inr x \<Longrightarrow> flt_finite x \<Longrightarrow> 0 \<le> flt_val d \<Longrightarrow> flt_val d \<le> 1
    \<Longrightarrow> 0 \<le> flt_val x \<and> flt_val x \<le> 1"
  by (auto simp: resolve_ratio_threshold_def res_simps Let_def flt_cmp_finite split: if_splits)

lemma resolve_positive_int_ok [resolved]:
  "resolve_positive_int env n d = Inr x \<Longrightarrow> 0 < d \<Longrightarrow> 0 < x"
  by (auto simp: resolve_positive_int_def res_simps Let_def split: if_splits)

lemma res_bindE:
  assumes "res_bind r f = Inr y"
  obtains x where "r = Inr x" "f x = Inr y"
  using assms by (cases r) auto

lemma guardE:
  assumes "(if c then Inl e else r) = Inr y"
  obtains "\<not> c" "r = Inr y"
  using assms by (cases c) auto

lemma tuner_settings_parts:
  assumes "tuner_settings env links = Inr st"
  shows "resolve_unit_interval env ''PARALEON_DIRECTION_PROB_CAP'' (Fin (7/10)) = Inr (DIRECTION_PROB_CAP_MAX st)"
    "\<not> flt_lt (DIRECTION_PROB_CAP_MAX st) DIRECTION_PROB_CAP_MIN"
    "resolve_positive_float env ''PARALEON_TUNER_STEP_SCALE'' (Fin 1) = Inr (STEP_SCALE st)"
    "resolve_positive_int env ''PARALEON_TUNER_MUTATE_COUNT'' 13 = Inr (MUTATE_COUNT st)"
    "resolve_open_unit_interval env ''PARALEON_DIRECTION_BAD_EWMA_ALPHA'' (Fin (15/100)) = Inr (DIRECTION_BAD_EWMA_ALPHA st)"
    "resolve_positive_float env ''PARALEON_DIRECTION_DELTA_EPS'' (Fin (1/100)) = Inr (DIRECTION_DELTA_EPS st)"
    "resolve_positive_float env ''PARALEON_TUNER_INITIAL_TEMPERATURE'' (Fin (1/10)) = Inr (st_initial_temperature st)"
    "resolve_positive_float env ''PARALEON_TUNER_FINAL_TEMPERATURE'' (Fin (1/100)) = Inr (st_final_temperature st)"
    "resolve_positive_int env ''PARALEON_TUNER_ATTEMPT_TIMES'' 8 = Inr (st_attempt_times st)"
    "resolve_open_unit_interval env ''PARALEON_TUNER_COOLING_RATE'' (Fin (76/100)) = Inr (st_cooling_rate st)"
    "\<not> flt_lt (st_initial_temperature st) (st_final_temperature st)"
proof -
  have "resolve_unit_interval env ''PARALEON_DIRECTION_PROB_CAP'' (Fin (7/10)) = Inr (DIRECTION_PROB_CAP_MAX st) \<and>
      \<not> flt_lt (DIRECTION_PROB_CAP_MAX st) DIRECTION_PROB_CAP_MIN \<and>
      resolve_positive_float env ''PARALEON_TUNER_STEP_SCALE'' (Fin 1) = Inr (STEP_SCALE st) \<and>
      resolve_positive_int env ''PARALEON_TUNER_MUTATE_COUNT'' 13 = Inr (MUTATE_COUNT st) \<and>
      resolve_open_unit_interval env ''PARALEON_DIRECTION_BAD_EWMA_ALPHA'' (Fin (15/100)) = Inr (DIRECTION_BAD_EWMA_ALPHA st) \<and>
      resolve_positive_float env ''PARALEON_DIRECTION_DELTA_EPS'' (Fin (1/100)) = Inr (DIRECTION_DELTA_EPS st) \<and>
      resolve_positive_float env ''PARALEON_TUNER_INITIAL_TEMPERATURE'' (Fin (1/10)) = Inr (st_initial_temperature st) \<and>
      resolve_positive_float env ''PARALEON_TUNER_FINAL_TEMPERATURE'' (Fin (1/100)) = Inr (st_final_temperature st) \<and>
      resolve_positive_int env ''PARALEON_TUNER_ATTEMPT_TIMES'' 8 = Inr (st_attempt_times st) \<and>
      resolve_open_unit_interval env ''PARALEON_TUNER_COOLING_RATE'' (Fin (76/100)) = Inr (st_cooling_rate st) \<and>
      \<not> flt_lt (st_initial_temperature st) (st_final_temperature st)"
    using assms unfolding tuner_settings_def Let_def by (elim res_bindE guardE) clarsimp
  then show "resolve_unit_interval env ''PARALEON_DIRECTION_PROB_CAP'' (Fin (7/10)) = Inr (DIRECTION_PROB_CAP_MAX st)"
    "\<not> flt_lt (DIRECTION_PROB_CAP_MAX st) DIRECTION_PROB_CAP_MIN"
    "resolve_positive_float env ''PARALEON_TUNER_STEP_SCALE'' (Fin 1) = Inr (STEP_SCALE st)"
    "resolve_positive_int env ''PARALEON_TUNER_MUTATE_COUNT'' 13 = Inr (MUTATE_COUNT st)"
    "resolve_open_unit_interval env ''PARALEON_DIRECTION_BAD_EWMA_ALPHA'' (Fin (15/100)) = Inr (DIRECTION_BAD_EWMA_ALPHA st)"
    "resolve_positive_float env ''PARALEON_DIRECTION_DELTA_EPS'' (Fin (1/100)) = Inr (DIRECTION_DELTA_EPS st)"
    "resolve_positive_float env ''PARALEON_TUNER_INITIAL_TEMPERATURE'' (Fin (1/10)) = Inr (st_initial_temperature st)"
    "resolve_positive_float env ''PARALEON_TUNER_FINAL_TEMPERATURE'' (Fin (1/100)) = Inr (st_final_temperature st)"
    "resolve_positive_int env ''PARALEON_TUNER_ATTEMPT_TIMES'' 8 = Inr (st_attempt_times st)"
    "resolve_open_unit_interval env ''PARALEON_TUNER_COOLING_RATE'' (Fin (76/100)) = Inr (st_cooling_rate st)"
    "\<not> flt_lt (st_initial_temperature st) (st_final_temperature st)"
    by simp_all
qed

lemma settings_anneal:
  assumes "tuner_settings env links = Inr st" "all_finite st"
  shows "annealing_cfg_ok (to_cfg mean rep specs st)"
proof -
  note p = tuner_settings_parts [OF assms(1)]
  have f: "flt_finite (DIRECTION_PROB_CAP_MAX st)" "flt_finite (STEP_SCALE st)" "flt_finite (DIRECTION_BAD_EWMA_ALPHA st)"
    "flt_finite (DIRECTION_DELTA_EPS st)" "flt_finite (st_initial_temperature st)" "flt_finite (st_final_temperature st)"
    "flt_finite (st_cooling_rate st)"
    using assms(2) by (simp_all add: all_finite_def)
  have "0 \<le> flt_val (DIRECTION_PROB_CAP_MAX st) \<and> flt_val (DIRECTION_PROB_CAP_MAX st) \<le> 1"
    by (rule resolve_unit_interval_ok [OF p(1) f(1)]) simp_all
  moreover have "0 < flt_val (STEP_SCALE st)" "0 < flt_val (DIRECTION_DELTA_EPS st)"
    "0 < flt_val (st_initial_temperature st)" "0 < flt_val (st_final_temperature st)"
    using resolve_positive_float_ok [OF p(3) f(2)] resolve_positive_float_ok [OF p(6) f(4)]
      resolve_positive_float_ok [OF p(7) f(5)] resolve_positive_float_ok [OF p(8) f(6)] by simp_all
  moreover have "0 < flt_val (DIRECTION_BAD_EWMA_ALPHA st) \<and> flt_val (DIRECTION_BAD_EWMA_ALPHA st) < 1"
    "0 < flt_val (st_cooling_rate st) \<and> flt_val (st_cooling_rate st) < 1"
    using resolve_open_unit_interval_ok [OF p(5) f(3)] resolve_open_unit_interval_ok [OF p(10) f(7)] by simp_all
  moreover have "0 < MUTATE_COUNT st" "0 < st_attempt_times st"
    using resolve_positive_int_ok [OF p(4)] resolve_positive_int_ok [OF p(9)] by simp_all
  moreover have "1/2 \<le> flt_val (DIRECTION_PROB_CAP_MAX st)"
    using p(2) f(1) by (simp add: DIRECTION_PROB_CAP_MIN_def flt_cmp_finite not_less)
  moreover have "flt_val (st_final_temperature st) \<le> flt_val (st_initial_temperature st)"
    using p(11) f(5,6) by (simp add: flt_cmp_finite not_less)
  ultimately show ?thesis
    by (simp add: annealing_cfg_ok_def cfg_ok_def to_cfg_def DIRECTION_PROB_CAP_MIN_def)
qed

text \<open>C37: settings that start the tuner and are finite numbers are settings the annealing session terminates
  with: both temperatures positive and in order, a cooling rate strictly between 0 and 1, at least one attempt, a
  direction cap between one half and one, positive step, count and threshold.\<close>

theorem accepted_settings_anneal:
  assumes "tuner_settings env links = Inr st" "all_finite st"
  shows "annealing_cfg_ok (to_cfg mean rep specs st)"
  by (rule settings_anneal [OF assms])

lemma unset_None [simp]: "unset None" by (simp add: unset_def)

lemmas resolve_defs = resolve_mode_weights_def resolve_unit_interval_def resolve_positive_float_def
  resolve_open_unit_interval_def resolve_positive_int_def resolve_ratio_threshold_def resolve_positive_ms_def

lemma default_settings:
  "tuner_settings (\<lambda>_. None) (Inr n) =
    Inr \<lparr>monitor_interval_ms = Fin 1, parameter_tuning_interval_ms = Fin (1002/1000), st_chunk_bytes = 1048576,
         st_aggressive_weights = [Fin (6/10), Fin (2/10), Fin (2/10)],
         st_conservative_weights = [Fin (3/10), Fin (5/10), Fin (2/10)], st_mode_threshold = Fin (1/2),
         DIRECTION_CAP_POLICY = ''adaptive_ewma'', DIRECTION_PROB_CAP_MAX = Fin (7/10), st_collect_only = False,
         STEP_SCALE = Fin 1, MUTATE_COUNT = 13, DIRECTION_BAD_EWMA_ALPHA = Fin (15/100), DIRECTION_DELTA_EPS = Fin (1/100),
         st_links = n, st_initial_temperature = Fin (1/10), st_final_temperature = Fin (1/100), st_attempt_times = 8,
         st_cooling_rate = Fin (76/100), tuner_seed = None\<rparr>"
  by (simp add: tuner_settings_def resolve_defs DIRECTION_PROB_CAP_MIN_def Let_def)

theorem accepted_settings_anneal_witness:
  "\<exists>st. tuner_settings (\<lambda>_. None) (Inr 1) = Inr st \<and> annealing_cfg_ok (to_cfg (\<lambda>_. 0) short_rep [] st)"
  using accepted_settings_anneal [OF default_settings [of 1], of "\<lambda>_. 0" short_rep "[]"] default_settings [of 1]
  by (simp add: all_finite_def)

text \<open>Without any environment variable the tuner runs with exactly the default configuration, the one for
  which a session has 72 rounds.\<close>

theorem default_settings_cfg:
  "\<exists>st. tuner_settings (\<lambda>_. None) (Inr 1) = Inr st
     \<and> to_cfg (np_mean sample_cfg) (py_repr sample_cfg) (PARAMETER_SPECS sample_cfg) st = sample_cfg"
  using default_settings [of 1]
  by (simp add: to_cfg_def sample_cfg_def default_dir_cfg_def DIRECTION_PROB_CAP_MIN_def)

text \<open>The range checks do not reject NaN: every one of them passes it on, for any variable it resolves.
  Infinity passes the checks for a positive number.\<close>

theorem nan_passes_range_checks:
  assumes "env n = Some ''nan''" "env m = Some ''inf''"
  shows "resolve_unit_interval env n d = Inr NaN \<and> resolve_ratio_threshold env n d = Inr NaN
    \<and> resolve_positive_float env n d = Inr NaN \<and> resolve_positive_ms env n d = Inr NaN
    \<and> resolve_open_unit_interval env n d = Inr NaN \<and> resolve_mode_weights env n ws = Inr [NaN]
    \<and> resolve_positive_float env m d = Inr PosInf"
proof -
  have f: "py_float ''nan'' = Inr NaN" "py_float ''inf'' = Inr PosInf" "str_strip ''nan'' = ''nan''" "str_strip ''inf'' = ''inf''"
    "split_on (CHR '','') ''nan'' = [''nan'']"
    by code_simp+
  then have "\<not> unset (Some ''nan'')" "\<not> unset (Some ''inf'')" by (simp_all add: unset_def)
  with assms f show ?thesis by (simp add: resolve_defs Let_def flt_le_def)
qed

theorem nan_passes_range_checks_witness:
  "resolve_open_unit_interval (\<lambda>v. if v = ''PARALEON_TUNER_COOLING_RATE'' then Some ''nan'' else Some ''inf'')
     ''PARALEON_TUNER_COOLING_RATE'' (Fin (76/100)) = Inr NaN"
  using nan_passes_range_checks [of "\<lambda>v. if v = ''PARALEON_TUNER_COOLING_RATE'' then Some ''nan'' else Some ''inf''"
     "''PARALEON_TUNER_COOLING_RATE''" "[]"] by simp

end
