(* ===== verification/RunArgs.thy ===== *)
theory RunArgs
  imports Settings
begin

text \<open>
  The first half of \<^verbatim>\<open>run.py\<close>: the argument types of its parser, the texts it makes of numbers and
  messages, and the numbering of run directories.

  An argument type raises \<open>ArgumentTypeError\<close> on a bad text. \<open>fmt_g\<close> is \<^verbatim>\<open>'%.6g' % x\<close>: six significant
  digits, trailing zeros dropped, scientific notation below 0.0001 and from 1000000 on.
\<close>

section \<open>Argument types\<close>

definition as_arg :: "'a res \<Rightarrow> 'a res" where
  "as_arg r = (case r of Inl ValueError \<Rightarrow> Inl ArgumentTypeError | _ \<Rightarrow> r)"

fun parse_weights :: "string list \<Rightarrow> pyfloat list res" where
  "parse_weights [] = Inr []"
| "parse_weights (part # parts) =
    res_bind (as_arg (py_float part)) (\<lambda>weight.
      if flt_lt weight (Fin 0) \<or> flt_lt (Fin 1) weight then Inl ArgumentTypeError
      else res_bind (parse_weights parts) (\<lambda>ws. Inr (weight # ws)))"

definition parse_weight_triplet :: "string \<Rightarrow> pyfloat list res" where
  "parse_weight_triplet raw_value =
    (let parts = map str_strip (split_on (CHR '','') raw_value) in
     if length parts \<noteq> 3 then Inl ArgumentTypeError
     else res_bind (parse_weights parts) (\<lambda>weights.
       let deviation = flt_abs (flt_add (fold (\<lambda>w acc. flt_add acc w) weights (Fin 0)) (Fin (-1))) in
       if flt_lt (Fin (1 / 1000000)) deviation then Inl ArgumentTypeError else Inr weights))"

definition parse_unit_interval :: "string \<Rightarrow> pyfloat res" where
  "parse_unit_interval raw_value = res_bind (as_arg (py_float raw_value)) (\<lambda>value.
     if flt_lt value (Fin 0) \<or> flt_lt (Fin 1) value then Inl ArgumentTypeError else Inr value)"

definition parse_open_unit_interval :: "string \<Rightarrow> pyfloat res" where
  "parse_open_unit_interval raw_value = res_bind (as_arg (py_float raw_value)) (\<lambda>value.
     if flt_le value (Fin 0) \<or> flt_le (Fin 1) value then Inl ArgumentTypeError else Inr value)"

definition parse_positive_float :: "string \<Rightarrow> pyfloat res" where
  "parse_positive_float raw_value = res_bind (as_arg (py_float raw_value)) (\<lambda>value.
     if flt_le value (Fin 0) then Inl ArgumentTypeError else Inr value)"

definition parse_nonnegative_float :: "string \<Rightarrow> pyfloat res" where
  "parse_nonnegative_float raw_value = res_bind (as_arg (py_float raw_value)) (\<lambda>value.
     if flt_lt value (Fin 0) then Inl ArgumentTypeError else Inr value)"

definition parse_positive_int :: "string \<Rightarrow> int res" where
  "parse_positive_int raw_value = res_bind (as_arg (py_int raw_value)) (\<lambda>value.
     if value \<le> 0 then Inl ArgumentTypeError else Inr value)"

section \<open>Six significant digits\<close>

text \<open>\<open>m\<close> has six digits and stands for \<open>m / 10 ^ d\<close>.\<close>

definition fmt_g_fixed :: "nat \<Rightarrow> nat \<Rightarrow> string" where
  "fmt_g_fixed m d = (if d = 0 then str_nat m else trim_fixed (fmt_fixed d (real m / 10 ^ d)))"

definition fmt_g_scientific :: "nat \<Rightarrow> int \<Rightarrow> string" where
  "fmt_g_scientific m e =
    (let ds = str_nat m in
     trim_fixed (hd ds # CHR ''.'' # tl ds) @ ''e'' @ (if e < 0 then ''-'' else ''+'') @ pad_zeros 2 (str_nat (nat \<bar>e\<bar>)))"

text \<open>Where rounding carries into a seventh digit the exponent grows by one.\<close>

definition fmt_g_pos :: "real \<Rightarrow> string" where
  "fmt_g_pos y =
    (case find (\<lambda>d. 10 ^ 5 \<le> y * 10 ^ d \<and> y * 10 ^ d < 10 ^ 6) [0..<11] of
       Some d \<Rightarrow>
         (let m = nat (py_round (y * 10 ^ d)) in
          if m = 10 ^ 6
          then (if d = 0 then fmt_g_scientific (10 ^ 5) 6 else fmt_g_fixed (10 ^ 5) (d - 1))
          else if d = 10 then fmt_g_scientific m (-5) else fmt_g_fixed m d)
     | None \<Rightarrow>
         (let e = \<lfloor>log 10 y\<rfloor>; m = nat (py_round (y * 10 powr (5 - of_int e))) in
          if m = 10 ^ 6 then fmt_g_scientific (10 ^ 5) (e + 1) else fmt_g_scientific m e))"

fun fmt_g :: "pyfloat \<Rightarrow> string" where
  "fmt_g (Fin x) = (if x = 0 then ''0'' else if x < 0 then CHR ''-'' # fmt_g_pos (- x) else fmt_g_pos x)"
| "fmt_g PosInf = ''inf''"
| "fmt_g NegInf = ''-inf''"
| "fmt_g NaN = ''nan''"

definition format_weight_triplet :: "pyfloat list \<Rightarrow> string" where
  "format_weight_triplet weights = str_join '','' (map fmt_g weights)"

section \<open>Names of run directories\<close>

text \<open>The characters \<^verbatim>\<open>\w\<close> matches, among the first 256.\<close>

definition is_word :: "char \<Rightarrow> bool" where
  "is_word c = (let n = of_char c :: nat in
     (48 \<le> n \<and> n \<le> 57) \<or> (65 \<le> n \<and> n \<le> 90) \<or> n = 95 \<or> (97 \<le> n \<and> n \<le> 122)
     \<or> n \<in> {170, 178, 179, 181, 185, 186, 188, 189, 190} \<or> (192 \<le> n \<and> n \<noteq> 215 \<and> n \<noteq> 247))"

definition slug_char :: "char \<Rightarrow> bool" where
  "slug_char c \<longleftrightarrow> is_word c \<or> c = CHR ''-''"

text \<open>\<^verbatim>\<open>re.sub(p + '+', '-', s)\<close> for a character class \<open>p\<close>: every maximal run becomes one dash.\<close>

function squash :: "(char \<Rightarrow> bool) \<Rightarrow> string \<Rightarrow> string" where
  "squash P [] = []"
| "squash P (c # cs) =
    (if P c then CHR ''-'' # squash P (dropWhile P cs) else c # squash P cs)"
  by pat_completeness auto
termination
  by (relation "measure (\<lambda>(P, s). length s)") (auto intro: le_imp_less_Suc length_dropWhile_le)

definition slugify_message :: "string \<Rightarrow> string" where
  "slugify_message message =
    (let cleaned = squash (\<lambda>c. \<not> slug_char c) (str_strip message);
         cleaned = strip_by (\<lambda>c. c = CHR ''-'') (squash (\<lambda>c. c = CHR ''-'') cleaned)
     in if cleaned = [] then ''run'' else cleaned)"

definition py_isdigit :: "string \<Rightarrow> bool" where
  "py_isdigit s \<longleftrightarrow> s \<noteq> [] \<and> list_all (\<lambda>c. is_digit c \<or> of_char c \<in> {178, 179, 185 :: nat}) s"

definition dir_prefix :: "string \<Rightarrow> string" where
  "dir_prefix name = hd (split_on (CHR ''-'') name)"

text \<open>A directory listing: names, with whether each is a directory.\<close>

definition run_ids :: "(string \<times> bool) list \<Rightarrow> int list res" where
  "run_ids listing =
    res_map py_int (filter py_isdigit (map (\<lambda>(name, _). dir_prefix name) (filter snd listing)))"

definition next_run_id :: "(string \<times> bool) list \<Rightarrow> int res" where
  "next_run_id listing = res_bind (run_ids listing) (\<lambda>ids. Inr (fold max ids 0 + 1))"

definition create_run_dir :: "(string \<times> bool) list \<Rightarrow> string \<Rightarrow> string \<Rightarrow> (int \<times> string) res" where
  "create_run_dir listing timestamp message =
    res_bind (next_run_id listing) (\<lambda>run_id.
      (let name = py_str_int run_id @ ''-'' @ timestamp @ ''-'' @ slugify_message message in
       if name \<in> fst ` set listing then Inl FileExistsError else Inr (run_id, name)))"

section \<open>The text of a number reads back\<close>

lemma py_float_str_nat: "py_float (str_nat n) = Inr (Fin (real n))"
  using py_float_decimal [of "str_nat n" "[]" False] by (simp add: decimal_def str_nat_digits dec_val_def)

lemma py_float_g_fixed: "py_float (fmt_g_fixed m d) = Inr (Fin (real m / 10 ^ d))"
proof (cases "d = 0")
  case False
  have "\<not> real m / 10 ^ d < 0" by (simp add: not_less)
  then have "fixed_val d (real m / 10 ^ d) = real m / 10 ^ d"
    using py_round_of_int [of "int m"] by (simp add: fixed_val_def)
  with False show ?thesis by (simp add: fmt_g_fixed_def py_float_trimmed)
qed (simp add: fmt_g_fixed_def py_float_str_nat)

lemma six_digits_exist:
  fixes y :: real
  assumes "1 / 10000 \<le> y" "y < 10 ^ 6"
  shows "\<exists>d \<in> set [0..<10]. 10 ^ 5 \<le> y * 10 ^ d \<and> y * 10 ^ d < 10 ^ 6"
proof -
  have "\<exists>d < n. 10 ^ 5 \<le> z * 10 ^ d \<and> z * 10 ^ d < 10 ^ 6" if "z < 10 ^ 6" "10 ^ 5 \<le> z * 10 ^ (n - 1)" "0 < n" for n and z :: real
    using that
  proof (induction n arbitrary: z)
    case (Suc n)
    show ?case
    proof (cases "10 ^ 5 \<le> z")
      case True
      with Suc.prems show ?thesis by (intro exI [of _ 0]) simp
    next
      case False
      with Suc.prems have "0 < n" by (cases n) auto
      moreover have "10 ^ 5 \<le> z * 10 * 10 ^ (n - 1)"
        using Suc.prems(2) \<open>0 < n\<close> by (cases n) (simp_all add: mult.assoc)
      moreover have "z * 10 < 10 ^ 6" using False by simp
      ultimately obtain d where "d < n" "10 ^ 5 \<le> z * 10 * 10 ^ d" "z * 10 * 10 ^ d < 10 ^ 6" using Suc.IH [of "z * 10"] by blast
      then show ?thesis by (intro exI [of _ "Suc d"]) (simp add: mult.assoc)
    qed
  qed simp
  from this [of y 10] assms show ?thesis by auto
qed

lemma find_ex: "\<exists>x \<in> set xs. P x \<Longrightarrow> \<exists>x. find P xs = Some x \<and> P x \<and> x \<in> set xs"
  by (induction xs) auto

text \<open>The value of the six digits.\<close>

definition six_digits :: "real \<Rightarrow> real" where
  "six_digits y = (case find (\<lambda>d. 10 ^ 5 \<le> y * 10 ^ d \<and> y * 10 ^ d < 10 ^ 6) [0..<11] of
     Some d \<Rightarrow> of_int (py_round (y * 10 ^ d)) / 10 ^ d | None \<Rightarrow> 0)"

lemma six_digits_scale:
  assumes "1 / 10000 \<le> y" "y < 999999"
  obtains d where "find (\<lambda>d. 10 ^ 5 \<le> y * 10 ^ d \<and> y * 10 ^ d < (10 :: real) ^ 6) [0..<11] = Some d"
    "10 ^ 5 \<le> y * 10 ^ d" "y * 10 ^ d < 10 ^ 6" "six_digits y = of_int (py_round (y * 10 ^ d)) / 10 ^ d"
proof -
  let ?P = "\<lambda>d. 10 ^ 5 \<le> y * 10 ^ d \<and> y * 10 ^ d < (10 :: real) ^ 6"
  have "\<exists>d \<in> set [0..<11]. ?P d" using six_digits_exist [of y] assms by auto
  from find_ex [OF this] obtain d where "find ?P [0..<11] = Some d" "?P d" by blast
  then show thesis by (intro that [of d]) (simp_all add: six_digits_def)
qed

lemma six_digits_zero: "six_digits 0 = 0"
proof -
  have "find (\<lambda>d. 10 ^ 5 \<le> 0 * (10 :: real) ^ d \<and> 0 * 10 ^ d < (10 :: real) ^ 6) [0..<11] = None"
    by (simp add: find_None_iff)
  then show ?thesis by (simp add: six_digits_def)
qed

lemma six_digits_mono:
  assumes "1 / 10000 \<le> y" "y \<le> z" "z < 999999"
  shows "six_digits y \<le> six_digits z"
proof -
  obtain d where d: "10 ^ 5 \<le> y * 10 ^ d" "y * 10 ^ d < 10 ^ 6" "six_digits y = of_int (py_round (y * 10 ^ d)) / 10 ^ d"
    using six_digits_scale [of y] assms by auto
  obtain e where e: "10 ^ 5 \<le> z * 10 ^ e" "z * 10 ^ e < 10 ^ 6" "six_digits z = of_int (py_round (z * 10 ^ e)) / 10 ^ e"
    using six_digits_scale [of z] assms by auto
  have ed: "e \<le> d"
  proof (rule ccontr)
    assume "\<not> e \<le> d"
    then obtain k where k: "e = Suc (d + k)" by (metis add_Suc_right less_iff_Suc_add not_le)
    have one: "(1 :: real) \<le> 10 ^ k" by simp
    have "10 ^ 6 \<le> y * 10 ^ d * 10 * 1" using d(1) by simp
    also have "\<dots> \<le> y * 10 ^ d * 10 * 10 ^ k" using one assms(1) by (intro mult_left_mono) auto
    also have "\<dots> \<le> z * 10 ^ d * 10 * 10 ^ k" using assms(2) by (intro mult_right_mono) auto
    also have "\<dots> = z * 10 ^ e" by (simp add: k power_add)
    finally show False using e(2) by simp
  qed
  show ?thesis
  proof (cases "e = d")
    case True
    have "py_round (y * 10 ^ d) \<le> py_round (z * 10 ^ d)" using assms(2) by (intro py_round_mono mult_right_mono) simp_all
    then show ?thesis unfolding d(3) e(3) True by (intro divide_right_mono) simp_all
  next
    case False
    then obtain k where k: "d = Suc (e + k)" using ed by (metis add_Suc_right le_neq_implies_less less_iff_Suc_add)
    have "py_round (y * 10 ^ d) \<le> py_round (of_int (10 ^ 6))" using d(2) by (intro py_round_mono) simp
    then have "real_of_int (py_round (y * 10 ^ d)) \<le> of_int (10 ^ 6)" unfolding py_round_of_int of_int_le_iff .
    then have "of_int (py_round (y * 10 ^ d)) \<le> (10 :: real) ^ 6" by simp
    then have "six_digits y \<le> 10 ^ 6 / 10 ^ d" unfolding d(3) by (intro divide_right_mono) simp_all
    also have "\<dots> \<le> 10 ^ 5 / 10 ^ e" unfolding k by (simp add: power_add field_simps)
    also have "\<dots> \<le> six_digits z"
    proof -
      have "py_round (of_int (10 ^ 5)) \<le> py_round (z * 10 ^ e)" using e(1) by (intro py_round_mono) simp
      then have "real_of_int (10 ^ 5) \<le> of_int (py_round (z * 10 ^ e))" unfolding py_round_of_int of_int_le_iff .
      then show ?thesis unfolding e(3) by (intro divide_right_mono) simp_all
    qed
    finally show ?thesis .
  qed
qed

lemma six_digits_bounds: "six_digits 1 = 1" "six_digits (1 / 2) = 1 / 2"
proof -
  have ds: "[0..<11] = [0, 1, 2, 3, 4, 5, 6, 7, 8, 9, 10 :: nat]" by (simp add: upt_rec)
  show "six_digits 1 = 1" "six_digits (1 / 2) = 1 / 2"
    using py_round_of_int [of 100000] py_round_of_int [of 500000] by (simp_all add: six_digits_def ds)
qed

lemma six_digits_below_one:
  assumes "1 / 10000 \<le> y" "y < 9999995 / 10000000"
  shows "six_digits y < 1"
proof -
  obtain d where d: "10 ^ 5 \<le> y * 10 ^ d" "y * 10 ^ d < 10 ^ 6" "six_digits y = of_int (py_round (y * 10 ^ d)) / 10 ^ d"
    using six_digits_scale [of y] assms by auto
  have "6 \<le> d"
  proof (rule ccontr)
    assume "\<not> 6 \<le> d"
    then have "(10 :: real) ^ d \<le> 10 ^ 5" by (intro power_increasing) simp_all
    then have "y * 10 ^ d \<le> y * 10 ^ 5" using assms(1) by (intro mult_left_mono) simp_all
    with d(1) assms(2) show False by simp
  qed
  then consider "d = 6" | "7 \<le> d" by linarith
  then show ?thesis
  proof cases
    case 1
    have "of_int (py_round (y * 10 ^ 6)) - 1 / 2 \<le> y * 10 ^ 6" using py_round_bounds by blast
    also have "\<dots> < of_int 1000000 - 1 / 2" using assms(2) by simp
    finally have "real_of_int (py_round (y * 10 ^ 6)) < of_int 1000000" by linarith
    with d(3) 1 show ?thesis by simp
  next
    case 2
    then have "(10 :: real) ^ 7 \<le> 10 ^ d" by (intro power_increasing) simp_all
    then have "y * 10 ^ 7 \<le> y * 10 ^ d" using assms(1) by (intro mult_left_mono) simp_all
    with d(2) have "y \<le> 1 / 2" by simp
    with six_digits_mono [of y "1 / 2"] assms(1) show ?thesis by (simp add: six_digits_bounds)
  qed
qed

lemma fmt_g_pos_form:
  assumes "1 / 10000 \<le> y" "y < 999999"
  shows "\<exists>m d. fmt_g_pos y = fmt_g_fixed m d \<and> real m / 10 ^ d = six_digits y \<and> \<bar>six_digits y - y\<bar> \<le> y / 200000"
proof -
  let ?P = "\<lambda>d. 10 ^ 5 \<le> y * 10 ^ d \<and> y * 10 ^ d < (10 :: real) ^ 6"
  obtain d where d: "find ?P [0..<11] = Some d" "?P d" and six: "six_digits y = of_int (py_round (y * 10 ^ d)) / 10 ^ d"
    using six_digits_scale [OF assms] by auto
  define r where "r = py_round (y * 10 ^ d)"
  have r: "\<bar>of_int r - y * 10 ^ d\<bar> \<le> 1 / 2" unfolding r_def by (rule py_round_error)
  with d(2) have r6: "10 ^ 5 - 1 / 2 \<le> real_of_int r" "real_of_int r \<le> 10 ^ 6 + 1 / 2" by linarith+
  have "0 \<le> y * 10 ^ d" using assms(1) by simp
  then have "0 \<le> r" unfolding r_def by (rule py_round_nonneg)
  then have m: "real (nat r) = of_int r" by simp
  have val: "\<bar>six_digits y - y\<bar> \<le> y / 200000"
  proof -
    have "\<bar>of_int r / 10 ^ d - y\<bar> = \<bar>of_int r - y * 10 ^ d\<bar> / 10 ^ d" by (simp add: abs_divide diff_divide_distrib [symmetric] field_simps)
    also have "\<dots> \<le> (1 / 2) / 10 ^ d" using r by (intro divide_right_mono) auto
    also have "\<dots> \<le> y / 200000" using d(2) by (simp add: field_simps)
    finally show ?thesis unfolding six r_def .
  qed
  have d10: "nat r = 10 ^ 6" if "d = 10"
  proof -
    have "10 ^ 10 * y \<ge> 10 ^ 6" using assms(1) by simp
    with d(2) that show ?thesis by simp
  qed
  have d0: "nat r \<noteq> 10 ^ 6" if "d = 0"
  proof
    assume "nat r = 10 ^ 6"
    with m have "of_int r = (10 :: real) ^ 6" by simp
    with r that assms(2) show False by simp
  qed
  show ?thesis
  proof (cases "nat r = 10 ^ 6")
    case True
    with d0 have pos: "0 < d" by (cases d) auto
    have "fmt_g_pos y = fmt_g_fixed (10 ^ 5) (d - 1)"
      using d(1) True pos by (auto simp: fmt_g_pos_def Let_def r_def)
    moreover have "real (10 ^ 5) / 10 ^ (d - 1) = six_digits y"
      using True m pos unfolding six r_def [symmetric] by (cases d) (simp_all add: field_simps)
    ultimately show ?thesis using val by metis
  next
    case False
    with d10 have "d \<noteq> 10" by auto
    with False d(1) have "fmt_g_pos y = fmt_g_fixed (nat r) d"
      by (auto simp: fmt_g_pos_def Let_def r_def)
    moreover have "real (nat r) / 10 ^ d = six_digits y" unfolding six r_def [symmetric] m ..
    ultimately show ?thesis using val by metis
  qed
qed

lemma fmt_g_pos_reads_back:
  assumes "1 / 10000 \<le> y" "y < 999999"
  shows "py_float (fmt_g_pos y) = Inr (Fin (six_digits y)) \<and> \<bar>six_digits y - y\<bar> \<le> y / 200000"
  using fmt_g_pos_form [OF assms] py_float_g_fixed by metis

text \<open>A number that \<^verbatim>\<open>run.py\<close> passes to the tuner through the environment arrives with six significant
  digits: for every value from 0.0001 up to a million the printed text reads back within a relative error of
  five millionths, and infinities and NaN arrive as themselves.\<close>

theorem passed_number_reads_back:
  assumes "1 / 10000 \<le> y" "y < 999999"
  shows "(\<exists>q. py_float (fmt_g (Fin y)) = Inr (Fin q) \<and> \<bar>q - y\<bar> \<le> y / 200000)
    \<and> py_float (fmt_g PosInf) = Inr PosInf \<and> py_float (fmt_g NaN) = Inr NaN \<and> py_float (fmt_g (Fin 0)) = Inr (Fin 0)"
proof -
  have "py_float ''inf'' = Inr PosInf" "py_float ''nan'' = Inr NaN" "py_float ''0'' = Inr (Fin 0)" by code_simp+
  with fmt_g_pos_reads_back [OF assms] assms(1) show ?thesis by simp
qed

theorem passed_number_reads_back_witness:
  "\<exists>q. py_float (fmt_g (Fin (1002/1000))) = Inr (Fin q) \<and> \<bar>q - 1002/1000\<bar> \<le> (1002/1000) / 200000"
  using passed_number_reads_back [of "1002/1000"] by simp

section \<open>Slugs\<close>

definition no_double_dash :: "string \<Rightarrow> bool" where
  "no_double_dash s \<longleftrightarrow> (\<forall>a b. s \<noteq> a @ ''--'' @ b)"

lemma squash_set: "set (squash P s) \<subseteq> {c \<in> set s. \<not> P c} \<union> {CHR ''-''}"
  by (induction P s rule: squash.induct) (auto dest: set_dropWhileD)

lemma squash_id: "list_all (\<lambda>c. \<not> P c) s \<Longrightarrow> squash P s = s"
  by (induction s) auto

lemma no_double_dash_Cons:
  "no_double_dash (c # s) \<longleftrightarrow> no_double_dash s \<and> \<not> (c = CHR ''-'' \<and> s \<noteq> [] \<and> hd s = CHR ''-'')"
proof
  assume *: "no_double_dash (c # s)"
  have "s \<noteq> a @ ''--'' @ b" for a b
  proof
    assume "s = a @ ''--'' @ b"
    then have "c # s = (c # a) @ ''--'' @ b" by simp
    with * show False unfolding no_double_dash_def by blast
  qed
  moreover have "\<not> (c = CHR ''-'' \<and> s \<noteq> [] \<and> hd s = CHR ''-'')"
  proof
    assume "c = CHR ''-'' \<and> s \<noteq> [] \<and> hd s = CHR ''-''"
    then have "c # s = [] @ ''--'' @ tl s" by (cases s) auto
    with * show False unfolding no_double_dash_def by blast
  qed
  ultimately show "no_double_dash s \<and> \<not> (c = CHR ''-'' \<and> s \<noteq> [] \<and> hd s = CHR ''-'')"
    by (simp add: no_double_dash_def)
next
  assume *: "no_double_dash s \<and> \<not> (c = CHR ''-'' \<and> s \<noteq> [] \<and> hd s = CHR ''-'')"
  show "no_double_dash (c # s)" unfolding no_double_dash_def
  proof (intro allI notI)
    fix a b assume eq: "c # s = a @ ''--'' @ b"
    with * show False by (cases a) (auto simp: no_double_dash_def)
  qed
qed

lemma hd_dropWhile_squash:
  "squash P (dropWhile P s) \<noteq> [] \<Longrightarrow> hd (squash P (dropWhile P s)) = hd (dropWhile P s) \<and> \<not> P (hd (dropWhile P s))"
proof -
  assume ne: "squash P (dropWhile P s) \<noteq> []"
  then obtain c cs where c: "dropWhile P s = c # cs" by (cases "dropWhile P s") auto
  then have "\<not> P c" by (metis dropWhile_eq_Cons_conv)
  with c show ?thesis by simp
qed

lemma squash_dash_no_double: "no_double_dash (squash (\<lambda>c. c = CHR ''-'') s)"
proof (induction s rule: squash.induct [of "\<lambda>P s. P = (\<lambda>c. c = CHR ''-'') \<longrightarrow> no_double_dash (squash P s)", THEN mp])
  case (2 P c cs)
  show ?case
  proof
    assume P: "P = (\<lambda>c. c = CHR ''-'')"
    show "no_double_dash (squash P (c # cs))"
    proof (cases "P c")
      case True
      with 2(1) P have "no_double_dash (squash P (dropWhile P cs))" by simp
      with True P show ?thesis using hd_dropWhile_squash [of P cs] by (auto simp: no_double_dash_Cons)
    next
      case False
      with 2(2) P show ?thesis by (auto simp: no_double_dash_Cons)
    qed
  qed
qed (auto simp: no_double_dash_def)

lemma no_double_dash_append: "no_double_dash (a @ b @ c) \<Longrightarrow> no_double_dash b"
  unfolding no_double_dash_def
proof (intro allI notI)
  fix x y assume *: "\<forall>u v. a @ b @ c \<noteq> u @ ''--'' @ v" and "b = x @ ''--'' @ y"
  then have "a @ b @ c = (a @ x) @ ''--'' @ (y @ c)" by simp
  with * show False by blast
qed

lemma squash_dash_id: "no_double_dash s \<Longrightarrow> squash (\<lambda>c. c = CHR ''-'') s = s"
proof (induction s)
  case (Cons c s)
  then have s: "no_double_dash s" "\<not> (c = CHR ''-'' \<and> s \<noteq> [] \<and> hd s = CHR ''-'')" by (simp_all add: no_double_dash_Cons)
  then have "c = CHR ''-'' \<Longrightarrow> dropWhile (\<lambda>c. c = CHR ''-'') s = s" by (cases s) auto
  with Cons.IH s show ?case by simp
qed simp

lemma strip_by_split: "\<exists>a c. s = a @ strip_by P s @ c"
proof -
  have "s = takeWhile P s @ rstrip_by P (dropWhile P s) @ rev (takeWhile P (rev (dropWhile P s)))"
    unfolding rstrip_by_def by (metis rev_append rev_rev_ident takeWhile_dropWhile_id)
  then show ?thesis unfolding strip_by_def by blast
qed

lemma rstrip_by_end: "rstrip_by P s \<noteq> [] \<Longrightarrow> \<not> P (last (rstrip_by P s))"
  by (metis hd_dropWhile last_rev rev.simps(1) rev_rev_ident rstrip_by_def)

lemma rstrip_by_hd: "rstrip_by P s \<noteq> [] \<Longrightarrow> hd (rstrip_by P s) = hd s"
proof -
  assume ne: "rstrip_by P s \<noteq> []"
  have "s = rstrip_by P s @ rev (takeWhile P (rev s))"
    unfolding rstrip_by_def by (metis rev_append rev_rev_ident takeWhile_dropWhile_id)
  with ne show ?thesis by (metis hd_append2)
qed

lemma strip_by_ends:
  assumes "strip_by P s \<noteq> []"
  shows "\<not> P (hd (strip_by P s))" "\<not> P (last (strip_by P s))"
proof -
  have "rstrip_by P [] = []" by (simp add: rstrip_by_def)
  then have "dropWhile P s \<noteq> []" using assms unfolding strip_by_def by metis
  then show "\<not> P (hd (strip_by P s))"
    using rstrip_by_hd [of P "dropWhile P s"] assms hd_dropWhile [of P s] by (simp add: strip_by_def)
  show "\<not> P (last (strip_by P s))" using assms rstrip_by_end by (simp add: strip_by_def)
qed

lemma strip_by_clean: "s \<noteq> [] \<Longrightarrow> \<not> P (hd s) \<Longrightarrow> \<not> P (last s) \<Longrightarrow> strip_by P s = s"
  by (metis dropWhile.simps(2) hd_rev list.collapse rev_is_Nil_conv rev_rev_ident rstrip_by_def strip_by_def)

definition slug_ok :: "string \<Rightarrow> bool" where
  "slug_ok s \<longleftrightarrow> s \<noteq> [] \<and> list_all slug_char s \<and> hd s \<noteq> CHR ''-'' \<and> last s \<noteq> CHR ''-'' \<and> no_double_dash s"

lemma slugify_ok: "slug_ok (slugify_message m)"
proof -
  let ?a = "squash (\<lambda>c. \<not> slug_char c) (str_strip m)"
  let ?b = "squash (\<lambda>c. c = CHR ''-'') ?a"
  let ?c = "strip_by (\<lambda>c. c = CHR ''-'') ?b"
  have run: "slug_ok ''run''"
    unfolding slug_ok_def
  proof (intro conjI)
    show "no_double_dash ''run''" by (simp add: no_double_dash_Cons) (simp add: no_double_dash_def)
  qed (simp_all add: slug_char_def is_word_def)
  obtain x y where xy: "?b = x @ ?c @ y" using strip_by_split by blast
  have "list_all slug_char ?a"
    using squash_set [of "\<lambda>c. \<not> slug_char c" "str_strip m"] by (auto simp: list_all_iff slug_char_def)
  then have "list_all slug_char ?b"
    using squash_set [of "\<lambda>c. c = CHR ''-''" ?a] by (auto simp: list_all_iff slug_char_def)
  then have "list_all slug_char ?c" using xy by (metis list_all_append)
  moreover have "no_double_dash ?c"
    using no_double_dash_append [of x ?c y] squash_dash_no_double [of ?a] xy by simp
  ultimately have "slug_ok ?c" if "?c \<noteq> []"
    using strip_by_ends [OF that] that by (simp add: slug_ok_def)
  with run show ?thesis by (simp add: slugify_message_def Let_def)
qed

lemma slug_char_not_space: "slug_char c \<Longrightarrow> \<not> is_space c"
  by (auto simp: slug_char_def is_word_def is_space_def Let_def)

lemma slugify_id: "slug_ok s \<Longrightarrow> slugify_message s = s"
proof -
  assume s: "slug_ok s"
  then have "str_strip s = s"
    by (intro str_strip_id) (auto simp: slug_ok_def list_all_iff slug_char_not_space)
  moreover have "squash (\<lambda>c. \<not> slug_char c) s = s" using s by (intro squash_id) (simp add: slug_ok_def)
  moreover have "squash (\<lambda>c. c = CHR ''-'') s = s" using s by (intro squash_dash_id) (simp add: slug_ok_def)
  moreover have "strip_by (\<lambda>c. c = CHR ''-'') s = s" using s by (intro strip_by_clean) (simp_all add: slug_ok_def)
  ultimately show ?thesis using s by (simp add: slugify_message_def slug_ok_def)
qed

text \<open>A run's message becomes a safe directory name component: never empty, only word characters and single
  dashes, no dash at either end, hence no path separator and no leading dot; and the operation is stable under
  repetition.\<close>

theorem slug_is_safe:
  "slugify_message m \<noteq> []
   \<and> (\<forall>c \<in> set (slugify_message m). (is_word c \<or> c = CHR ''-'') \<and> c \<noteq> CHR ''/'' \<and> c \<noteq> CHR ''.'')
   \<and> hd (slugify_message m) \<noteq> CHR ''-'' \<and> last (slugify_message m) \<noteq> CHR ''-''
   \<and> (\<forall>a b. slugify_message m \<noteq> a @ ''--'' @ b)
   \<and> slugify_message (slugify_message m) = slugify_message m"
proof -
  have "is_word c \<or> c = CHR ''-'' \<Longrightarrow> c \<noteq> CHR ''/'' \<and> c \<noteq> CHR ''.''" for c by (auto simp: is_word_def)
  with slugify_ok [of m] slugify_id [OF slugify_ok [of m]] show ?thesis
    unfolding slug_ok_def no_double_dash_def list_all_iff slug_char_def by blast
qed

theorem slug_is_safe_witness: "slugify_message '' a/b:  c- '' = ''a-b-c'' \<and> slugify_message (slugify_message '' a/b:  c- '') = ''a-b-c''"
proof -
  have "slugify_message '' a/b:  c- '' = ''a-b-c''" by code_simp
  with slug_is_safe [of "'' a/b:  c- ''"] show ?thesis by metis
qed

section \<open>Run numbers\<close>

lemma fold_max_ge: "(n :: int) \<le> fold max ns n \<and> (\<forall>k \<in> set ns. k \<le> fold max ns n)"
proof (induction ns arbitrary: n)
  case (Cons k ns)
  from Cons [of "max k n"] show ?case by auto
qed simp

lemma run_ids_in:
  assumes "run_ids listing = Inr ids" "(name, True) \<in> set listing" "py_int (dir_prefix name) = Inr k" "py_isdigit (dir_prefix name)"
  shows "k \<in> set ids"
proof -
  have "res_map f xs = Inr ys \<Longrightarrow> x \<in> set xs \<Longrightarrow> f x = Inr y \<Longrightarrow> y \<in> set ys" for f :: "string \<Rightarrow> int res" and xs ys x y
    by (induction xs arbitrary: ys) (auto simp: res_simps)
  from this [OF assms(1) [unfolded run_ids_def] _ assms(3)] assms(2,4) show ?thesis by force
qed

lemma split_on_first: "x \<notin> set p \<Longrightarrow> hd (split_on x (p @ x # q)) = p"
  by (simp add: split_on_app)

lemma py_str_int_digits: "0 \<le> n \<Longrightarrow> list_all is_digit (py_str_int n) \<and> py_str_int n \<noteq> []"
  by (simp add: py_str_int_def str_nat_digits)

text \<open>C40: run numbers never repeat. Let the numbered directories present have readable numbers (a superscript two
  passes \<^verbatim>\<open>isdigit\<close> and not \<^verbatim>\<open>int\<close>), and let only directories have a numbered name. Then the next run gets a
  positive number larger than the number of every run directory present, under a name that nothing in the
  directory has and from which the number reads back: creating the directory does not fail with
  \<^verbatim>\<open>FileExistsError\<close>, for any message and time.\<close>

theorem run_dir_is_fresh:
  assumes "run_ids listing = Inr ids" "\<forall>(name, is_dir) \<in> set listing. py_isdigit (dir_prefix name) \<longrightarrow> is_dir"
  shows "\<exists>n name. create_run_dir listing timestamp message = Inr (n, name)
    \<and> 0 < n \<and> (\<forall>k \<in> set ids. k < n) \<and> name \<notin> fst ` set listing
    \<and> py_int (dir_prefix name) = Inr n"
proof -
  define n where "n = fold max ids 0 + 1"
  define name where "name = py_str_int n @ ''-'' @ timestamp @ ''-'' @ slugify_message message"
  have n: "0 < n" "\<forall>k \<in> set ids. k < n" using fold_max_ge [of 0 ids] by (auto simp: n_def)
  have dig: "list_all is_digit (py_str_int n)" "py_str_int n \<noteq> []" using py_str_int_digits [of n] n(1) by auto
  have "CHR ''-'' \<notin> set (py_str_int n)" using dig(1) by (auto simp: list_all_iff is_digit_def)
  then have pre: "dir_prefix name = py_str_int n" by (simp add: dir_prefix_def name_def split_on_first)
  have isd: "py_isdigit (dir_prefix name)" using dig by (auto simp: pre py_isdigit_def list_all_iff)
  have int: "py_int (dir_prefix name) = Inr n" by (simp add: pre py_int_str)
  have fresh: "name \<notin> fst ` set listing"
  proof
    assume "name \<in> fst ` set listing"
    then obtain d where d: "(name, d) \<in> set listing" by auto
    with assms(2) isd have "d" by auto
    with run_ids_in [OF assms(1) _ int isd] d n(2) show False by auto
  qed
  then have "create_run_dir listing timestamp message = Inr (n, name)"
    using assms(1) by (simp add: create_run_dir_def next_run_id_def n_def name_def Let_def)
  with n fresh int show ?thesis by blast
qed

theorem run_dir_is_fresh_witness:
  "\<exists>n name. create_run_dir [(''3-01:10:00-a'', True), (''topo_s.txt'', False)] ''02:11:30'' ''test'' = Inr (n, name) \<and> 3 < n"
proof -
  have "run_ids [(''3-01:10:00-a'', True), (''topo_s.txt'', False)] = Inr [3]" by code_simp
  moreover have "\<not> py_isdigit (dir_prefix ''topo_s.txt'')" by code_simp
  ultimately show ?thesis
    using run_dir_is_fresh [of "[(''3-01:10:00-a'', True), (''topo_s.txt'', False)]" "[3]" "''02:11:30''" "''test''"] by auto
qed

end
