(* ===== verification/RunSetup.thy ===== *)
theory RunSetup
  imports RunArgs
begin

text \<open>
  The second half of \<^verbatim>\<open>run.py\<close>: inspecting the inputs, the congestion-control profile and the simulator's
  configuration file, the controller command, the parameter file of the schemes without a controller, the checks of
  \<open>main\<close>, the environment it hands to the tuner, and the life of its two processes.

  Paths are the texts \<^verbatim>\<open>Path.resolve().as_posix()\<close> gives; \<open>exists\<close>, \<open>resolve\<close> and \<open>expanduser\<close> of the file
  system are arguments. \<open>rep\<close> is \<^verbatim>\<open>str\<close> on floats. Times given on the command line are finite.
\<close>

section \<open>Arguments\<close>

record run_args =
  scheme :: string
  cc :: string
  topo :: "string option"
  flow_file :: "string option"
  fixed_params_file :: "string option"
  bw :: int
  buffer_mb :: int
  window_ms :: int
  start_time :: real
  sim_time :: real
  arg_monitor_interval_ms :: real
  arg_parameter_tuning_interval_ms :: real
  qlen_mon_start_offset_ms :: real
  tuning_start_offset_ms :: real
  msg :: string
  down :: string
  utgt :: int
  mi :: int
  pint_log_base :: real
  pint_prob :: real
  enable_tr :: int
  skip_build :: bool
  no_tuner :: bool
  collect_only :: bool
  aggressive_weights :: "pyfloat list option"
  conservative_weights :: "pyfloat list option"
  direction_prob_cap :: pyfloat
  direction_cap_policy :: string
  aggressive_mode_threshold :: "pyfloat option"
  tuner_initial_temperature :: "pyfloat option"
  tuner_final_temperature :: "pyfloat option"
  tuner_cooling_rate :: "pyfloat option"
  tuner_attempt_times :: "int option"
  tuner_mutate_count :: "int option"
  tuner_step_scale :: "pyfloat option"
  arg_tuner_seed :: "int option"
  paraleon_plus_chunk_kb :: int
  acc_model :: "string option"
  acc_from_scratch :: bool
  acc_freeze_model :: bool
  acc_init_params :: "string option"

text \<open>The namespace \<open>parse_args\<close> returns for an empty command line.\<close>

definition default_args :: run_args where
  "default_args = \<lparr>scheme = ''paraleon'', cc = ''dcqcn'', topo = Some ''topo_s.txt'', flow_file = Some ''flow_normal_s2.txt'',
     fixed_params_file = None, bw = 100, buffer_mb = 12, window_ms = 100, start_time = 2, sim_time = 26/10,
     arg_monitor_interval_ms = 1, arg_parameter_tuning_interval_ms = 1002/1000, qlen_mon_start_offset_ms = 13,
     tuning_start_offset_ms = 15, msg = ''run'', down = ''0 0 0'', utgt = 95, mi = 0, pint_log_base = 101/100,
     pint_prob = 1, enable_tr = 0, skip_build = False, no_tuner = False, collect_only = False,
     aggressive_weights = Some [Fin (6/10), Fin (2/10), Fin (2/10)],
     conservative_weights = Some [Fin (3/10), Fin (5/10), Fin (2/10)], direction_prob_cap = Fin (7/10),
     direction_cap_policy = ''adaptive_ewma'', aggressive_mode_threshold = None,
     tuner_initial_temperature = Some (Fin (1/10)), tuner_final_temperature = Some (Fin (1/100)),
     tuner_cooling_rate = Some (Fin (76/100)), tuner_attempt_times = Some 8, tuner_mutate_count = Some 8,
     tuner_step_scale = None, arg_tuner_seed = None, paraleon_plus_chunk_kb = 1024, acc_model = None,
     acc_from_scratch = False, acc_freeze_model = False, acc_init_params = None\<rparr>"

section \<open>Paths and input files\<close>

definition resolve_optional_path :: "(string \<Rightarrow> string) \<Rightarrow> string option \<Rightarrow> string option" where
  "resolve_optional_path resolve path_value =
    (case path_value of None \<Rightarrow> None | Some p \<Rightarrow> if p = [] then None else Some (resolve p))"

definition resolve_acc_model_path :: "(string \<Rightarrow> string) \<Rightarrow> (string \<Rightarrow> bool) \<Rightarrow> string \<Rightarrow> run_args \<Rightarrow> string option" where
  "resolve_acc_model_path resolve exists default_model args =
    (if scheme args \<noteq> ''acc'' then None
     else if acc_model args \<noteq> None \<and> acc_model args \<noteq> Some [] then resolve_optional_path resolve (acc_model args)
     else if acc_from_scratch args then None
     else if exists default_model then Some (resolve default_model) else None)"

text \<open>The components of a pathlib path: empty ones and single dots do not survive its parsing.\<close>

definition path_parts :: "string \<Rightarrow> string list" where
  "path_parts p = filter (\<lambda>c. c \<noteq> [] \<and> c \<noteq> ''.'') (split_on (CHR ''/'') p)"

definition resolve_input_path ::
  "(string \<Rightarrow> string) \<Rightarrow> (string \<Rightarrow> string) \<Rightarrow> (string \<Rightarrow> bool) \<Rightarrow> string \<Rightarrow> string \<Rightarrow> string option \<Rightarrow> string \<Rightarrow> string res" where
  "resolve_input_path expanduser resolve exists root_dir mix_dir path_value default_name =
    (let candidate = (case path_value of None \<Rightarrow> default_name | Some p \<Rightarrow> expanduser p);
         parts = path_parts candidate;
         resolved = (if isabs candidate then resolve candidate
                     else if parts \<noteq> [] \<and> hd parts \<in> {''.'', ''..''} then resolve (path_join root_dir candidate)
                     else resolve (path_join mix_dir candidate))
     in if \<not> exists resolved then Inl SystemExit else Inr resolved)"

definition path_name :: "string \<Rightarrow> string" where
  "path_name p = (case path_parts p of [] \<Rightarrow> [] | ps \<Rightarrow> last ps)"

text \<open>\<^verbatim>\<open>Path.stem\<close>: the name without its last suffix; a leading dot starts no suffix.\<close>

definition path_stem :: "string \<Rightarrow> string" where
  "path_stem p =
    (let name = path_name p; ps = split_on (CHR ''.'') name
     in if length ps \<le> 1 \<or> last ps = [] \<or> str_join ''.'' (butlast ps) = [] then name
        else str_join ''.'' (butlast ps))"

record flow_metadata =
  fm_name :: string
  fm_path :: string
  flow_count :: int

record topology_metadata =
  tm_name :: string
  tm_path :: string
  node_count :: int
  switch_count :: int
  link_count :: int
  switch_ids :: "int list"

definition read_line :: "string list \<Rightarrow> string \<times> string list" where
  "read_line ls = (case ls of [] \<Rightarrow> ([], []) | l # rest \<Rightarrow> (l, rest))"

definition inspect_topology_file :: "string \<Rightarrow> string \<Rightarrow> topology_metadata res" where
  "inspect_topology_file path content =
    (let (line1, rest) = read_line (file_lines content); header = split_ws line1 in
     if length header \<noteq> 3 then Inl SystemExit
     else res_bind (res_map py_int header) (\<lambda>counts.
       (let (line2, _) = read_line rest; ids = split_ws line2 in
        if int (length ids) \<noteq> counts ! 1 then Inl SystemExit
        else res_bind (res_map py_int ids) (\<lambda>switch_ids.
          Inr \<lparr>tm_name = path_name path, tm_path = path, node_count = counts ! 0, switch_count = counts ! 1,
               link_count = counts ! 2, switch_ids = switch_ids\<rparr>))))"

definition inspect_flow_file :: "string \<Rightarrow> string \<Rightarrow> flow_metadata res" where
  "inspect_flow_file path content =
    (let header = str_strip (fst (read_line (file_lines content))) in
     if header = [] then Inl SystemExit
     else (case py_int header of 
             Inl _ \<Rightarrow> Inl SystemExit | Inr n \<Rightarrow> Inr \<lparr>fm_name = path_name path, fm_path = path, flow_count = n\<rparr>))"

definition build_trace_file :: "topology_metadata \<Rightarrow> string" where
  "build_trace_file meta =
    (let node_ids = [0..node_count meta - 1];
         ls = [py_str_int (int (length node_ids)), str_join '' '' (map py_str_int node_ids)]
     in str_join [nl] ls @ [nl])"

section \<open>The congestion-control profile\<close>

definition py_trunc :: "real \<Rightarrow> int" where
  "py_trunc x = (if x < 0 then \<lceil>x\<rceil> else \<lfloor>x\<rfloor>)"

record cc_profile =
  kmax_map :: string
  kmin_map :: string
  pmax_map :: string
  cp_pint_log_base :: real
  cp_pint_prob :: real
  cp_mi :: int
  u_tgt :: real
  link_down :: string
  cp_enable_tr :: int
  buffer_size_mb :: int
  cc_label :: string
  cp_mode :: int
  t_alpha :: int
  t_dec :: int
  t_inc :: int
  cp_g :: real
  ai :: int
  hai :: int
  rate_on_first_cnp :: real
  min_rate :: int
  dctcp_ai :: int
  has_win :: int
  vwin :: int
  us :: int
  int_multi :: int
  ack_prio :: int

definition map_d :: "int \<Rightarrow> int \<Rightarrow> int \<Rightarrow> string" where
  "map_d b x y = str_join '' '' [''2'', py_str_int (b * 1000000000), py_str_int x, py_str_int (b * 4 * 1000000000), py_str_int y]"

definition map_f :: "int \<Rightarrow> real \<Rightarrow> string" where
  "map_f b x = str_join '' '' [''2'', py_str_int (b * 1000000000), fmt_fixed 2 x, py_str_int (b * 4 * 1000000000), fmt_fixed 2 x]"

definition build_cc_profile :: "run_args \<Rightarrow> cc_profile res" where
  "build_cc_profile args =
    (let b = bw args;
         kmax = map_d b (py_trunc (400 * of_int b / 25)) (py_trunc (400 * of_int b * 4 / 25));
         kmin = map_d b (py_trunc (100 * of_int b / 25)) (py_trunc (100 * of_int b * 4 / 25));
         base = \<lparr>kmax_map = kmax, kmin_map = kmin, pmax_map = map_f b (2/10),
                 cp_pint_log_base = pint_log_base args, cp_pint_prob = pint_prob args, cp_mi = mi args,
                 u_tgt = of_int (utgt args) / 100, link_down = down args, cp_enable_tr = enable_tr args,
                 buffer_size_mb = buffer_mb args, cc_label = cc args, cp_mode = 1, t_alpha = 1, t_dec = 4, t_inc = 300,
                 cp_g = 390625 / 100000000, ai = 5, hai = 50, rate_on_first_cnp = 5/10, min_rate = 1, dctcp_ai = 1000,
                 has_win = 0, vwin = 0, us = 0, int_multi = 1, ack_prio = 1\<rparr> in
     if cc args = ''dcqcn''
     then Inr (if scheme args = ''expert''
               then base\<lparr>t_dec := 80, ai := 50, hai := 150, kmin_map := map_d b 1600 1600,
                         kmax_map := map_d b 6400 6400, pmax_map := map_f b (2/10)\<rparr>
               else base)
     else Inl ValueError)"

section \<open>The simulator's configuration\<close>

record config_metadata =
  failure_suffix :: string
  parameter_tuning_start :: int
  parameter_tuning_end :: int
  qlen_mon_start :: int
  qlen_mon_end :: int
  trace_output :: string
  fct_output :: string
  pfc_output :: string
  qlen_output :: string

definition config_metadata_of :: "string \<Rightarrow> cc_profile \<Rightarrow> string \<Rightarrow> run_args \<Rightarrow> config_metadata" where
  "config_metadata_of run_dir profile flow_path args =
    (let flow_label = path_stem flow_path;
         failure = (if down args \<noteq> ''0 0 0'' then ''_down'' else []);
         tag = flow_label @ ''_'' @ cc_label profile @ failure
     in \<lparr>failure_suffix = failure,
         parameter_tuning_start = py_trunc ((start_time args + tuning_start_offset_ms args / 1000) * 1000000000),
         parameter_tuning_end = py_trunc (min (sim_time args - 5/100) (start_time args + 5/10) * 1000000000),
         qlen_mon_start = py_trunc ((start_time args + qlen_mon_start_offset_ms args / 1000) * 1000000000),
         qlen_mon_end = py_trunc (min (sim_time args - 1/100)
            (max (start_time args + of_int (window_ms args) / 1000 + 5/100) (start_time args + 55/100)) * 1000000000),
         trace_output = path_join run_dir (''trace_'' @ tag @ ''.tr''),
         fct_output = path_join run_dir (''fct_'' @ tag @ ''.txt''),
         pfc_output = (if scheme args \<in> {''paraleon'', ''paraleon_plus''} then path_join run_dir ''pfc.txt''
                       else path_join run_dir (''pfc_'' @ tag @ ''.txt'')),
         qlen_output = path_join run_dir (''qlen_'' @ tag @ ''.txt'')\<rparr>)"

definition cline :: "string \<Rightarrow> string \<Rightarrow> string" where
  "cline key value = key @ '' '' @ value"

definition config_lines ::
  "(pyfloat \<Rightarrow> string) \<Rightarrow> (string \<Rightarrow> string) \<Rightarrow> cc_profile \<Rightarrow> config_metadata \<Rightarrow> string \<Rightarrow> string \<Rightarrow> string \<Rightarrow> run_args
     \<Rightarrow> string list" where
  "config_lines rep to_config_path p m topology_path flow_path trace_path args =
    (let monitor_interval = py_str_int (py_trunc (arg_monitor_interval_ms args * 1000000)) in
    [''ENABLE_QCN 1'', ''USE_DYNAMIC_PFC_THRESHOLD 1'', [], ''PACKET_PAYLOAD_SIZE 1000'', [],
     cline ''TOPOLOGY_FILE'' (to_config_path topology_path), cline ''FLOW_FILE'' (to_config_path flow_path),
     cline ''TRACE_FILE'' (to_config_path trace_path),
     cline ''TRACE_OUTPUT_FILE'' (to_config_path (trace_output m)), cline ''FCT_OUTPUT_FILE'' (to_config_path (fct_output m)),
     cline ''PFC_OUTPUT_FILE'' (to_config_path (pfc_output m)), [],
     cline ''SIMULATOR_STOP_TIME'' (fmt_fixed 2 (sim_time args)), [],
     cline ''CC_MODE'' (py_str_int (cp_mode p)), cline ''ALPHA_RESUME_INTERVAL'' (py_str_int (t_alpha p)),
     cline ''RATE_DECREASE_INTERVAL'' (py_str_int (t_dec p)), ''CLAMP_TARGET_RATE 0'',
     cline ''RP_TIMER'' (py_str_int (t_inc p)), cline ''EWMA_GAIN'' (rep (Fin (cp_g p))), ''FAST_RECOVERY_TIMES 1'',
     cline ''RATE_AI'' (py_str_int (ai p) @ ''Mb/s''), cline ''RATE_HAI'' (py_str_int (hai p) @ ''Mb/s''),
     cline ''RATE_ON_FIRST_CNP'' (rep (Fin (rate_on_first_cnp p))), cline ''MIN_RATE'' (py_str_int (min_rate p) @ ''Mb/s''),
     cline ''DCTCP_RATE_AI'' (py_str_int (dctcp_ai p) @ ''Mb/s''), [],
     ''ERROR_RATE_PER_LINK 0.0000'', ''L2_CHUNK_SIZE 4000'', ''L2_ACK_INTERVAL 1'', ''L2_BACK_TO_ZERO 0'', [],
     cline ''HAS_WIN'' (py_str_int (has_win p)), ''GLOBAL_T 1'', cline ''VAR_WIN'' (py_str_int (vwin p)),
     cline ''FAST_REACT'' (py_str_int (us p)), cline ''U_TARGET'' (rep (Fin (u_tgt p))),
     cline ''MI_THRESH'' (py_str_int (cp_mi p)), cline ''INT_MULTI'' (py_str_int (int_multi p)), ''MULTI_RATE 0'',
     ''SAMPLE_FEEDBACK 0'', cline ''PINT_LOG_BASE'' (rep (Fin (cp_pint_log_base p))),
     cline ''PINT_PROB'' (rep (Fin (cp_pint_prob p))), [],
     ''RATE_BOUND 1'', [], cline ''ACK_HIGH_PRIO'' (py_str_int (ack_prio p)), [], cline ''LINK_DOWN'' (link_down p), [],
     cline ''ENABLE_TRACE'' (py_str_int (cp_enable_tr p)), [],
     cline ''KMAX_MAP'' (kmax_map p), cline ''KMIN_MAP'' (kmin_map p), cline ''PMAX_MAP'' (pmax_map p),
     cline ''BUFFER_SIZE'' (py_str_int (buffer_size_mb p)), cline ''QLEN_MON_FILE'' (to_config_path (qlen_output m)),
     cline ''QLEN_MON_START'' (py_str_int (qlen_mon_start m)), cline ''QLEN_MON_END'' (py_str_int (qlen_mon_end m)),
     cline ''QLEN_MON_INTERVAL'' monitor_interval, cline ''SKETCH_MON_INTERVAL'' monitor_interval,
     cline ''ACC_MON_INTERVAL'' monitor_interval,
     cline ''PARAMETER_TUNING_START'' (py_str_int (parameter_tuning_start m)),
     cline ''PARAMETER_TUNING_END'' (py_str_int (parameter_tuning_end m)),
     cline ''PARAMETER_TUNING_INTERVAL'' (py_str_int (py_trunc (arg_parameter_tuning_interval_ms args * 1000000)))])"

definition build_config ::
  "(pyfloat \<Rightarrow> string) \<Rightarrow> (string \<Rightarrow> string) \<Rightarrow> string \<Rightarrow> cc_profile \<Rightarrow> string \<Rightarrow> string \<Rightarrow> string \<Rightarrow> run_args
     \<Rightarrow> string \<times> config_metadata" where
  "build_config rep to_config_path run_dir profile topology_path flow_path trace_path args =
    (let m = config_metadata_of run_dir profile flow_path args
     in (concat (map (\<lambda>l. l @ [nl]) (config_lines rep to_config_path profile m topology_path flow_path trace_path args)), m))"

definition resolve_simulator_command :: "(string \<Rightarrow> string) \<Rightarrow> bool \<Rightarrow> string \<Rightarrow> string \<Rightarrow> string list" where
  "resolve_simulator_command resolve built_binary root_dir config_path =
    (if built_binary then [path_join root_dir ''build/scratch/third'', resolve config_path]
     else [path_join root_dir ''waf'', ''--run'', ''scratch/third '' @ resolve config_path])"

definition resolve_python_executable :: "(string \<Rightarrow> bool) \<Rightarrow> string \<Rightarrow> string \<Rightarrow> string" where
  "resolve_python_executable exists root_dir sys_executable =
    (let venv_python = path_join root_dir ''venv/bin/python''
     in if exists venv_python then venv_python else sys_executable)"

section \<open>The controller\<close>

definition build_controller_command ::
  "(string \<Rightarrow> string) \<Rightarrow> (string \<Rightarrow> bool) \<Rightarrow> string \<Rightarrow> string \<Rightarrow> string \<Rightarrow> string \<Rightarrow> run_args
     \<Rightarrow> (string list \<times> string) option res" where
  "build_controller_command resolve exists default_model root_dir python_executable run_dir args =
    (if no_tuner args then Inr None
     else if scheme args \<in> {''paraleon'', ''paraleon_plus''}
     then Inr (Some ([python_executable, path_join root_dir ''scratch/tuning.py''], path_join run_dir ''tuner.log''))
     else if scheme args = ''acc''
     then (let model = resolve_acc_model_path resolve exists default_model args;
               command = [python_executable, path_join root_dir ''scratch/acc_controller.py'', ''--run-dir'', resolve run_dir]
                 @ (case model of None \<Rightarrow> [] | Some mp \<Rightarrow> if mp = [] then [] else [''--model'', mp])
                 @ (if acc_freeze_model args then [''--freeze-model''] else [])
                 @ (case resolve_optional_path resolve (acc_init_params args) of None \<Rightarrow> [] | Some p \<Rightarrow> [''--init-params'', p])
           in Inr (Some (command, path_join run_dir ''controller.log'')))
     else if scheme args \<in> {''dcqcn_plus'', ''expert'', ''fixed_params''} then Inr None
     else Inl ValueError)"

definition ensure_parameter_file :: "(string list \<times> string) option \<Rightarrow> string option \<Rightarrow> string option" where
  "ensure_parameter_file controller_command pfile =
    (if controller_command \<noteq> None then pfile
     else if pfile = None then Some [] else pfile)"

definition expert_parameter_lines :: "string list" where
  "expert_parameter_lines =
    [''ai_rate='' @ py_str_int 50, ''hai_rate='' @ py_str_int 150, ''kmin='' @ py_str_int 1600,
     ''kmax='' @ py_str_int 6400, ''pmax='' @ fmt_g (Fin (2/10))]"

definition apply_scheme_specific_parameter_defaults ::
  "(string \<Rightarrow> string) \<Rightarrow> (string \<Rightarrow> string option) \<Rightarrow> run_args \<Rightarrow> string option \<Rightarrow> string option res" where
  "apply_scheme_specific_parameter_defaults resolve files args pfile =
    (if scheme args = ''fixed_params''
     then (case resolve_optional_path resolve (fixed_params_file args) of
             None \<Rightarrow> Inl SystemExit
           | Some p \<Rightarrow> (case files p of None \<Rightarrow> Inl SystemExit | Some content \<Rightarrow> Inr (Some content)))
     else if scheme args \<noteq> ''expert'' then Inr pfile
     else Inr (Some (str_join [nl] expert_parameter_lines @ [nl])))"

section \<open>Checks and environment of main\<close>

definition main_checks :: "bool \<Rightarrow> bool \<Rightarrow> run_args \<Rightarrow> unit res" where
  "main_checks built_binary waf_succeeds args =
    (if (case (tuner_initial_temperature args, tuner_final_temperature args) of
           (Some t0, Some t1) \<Rightarrow> flt_lt t0 t1 | _ \<Rightarrow> False) then Inl SystemExit
     else if skip_build args \<and> \<not> built_binary then Inl SystemExit
     else if \<not> skip_build args \<and> \<not> waf_succeeds then Inl SystemExit
     else if sim_time args \<le> start_time args + 5/100 then Inl SystemExit
     else if collect_only args \<and> no_tuner args then Inl SystemExit
     else if collect_only args \<and> scheme args \<notin> {''paraleon'', ''paraleon_plus''} then Inl SystemExit
     else if scheme args \<in> {''acc'', ''dcqcn_plus'', ''paraleon_plus'', ''expert'', ''fixed_params''} \<and> cc args \<noteq> ''dcqcn''
     then Inl SystemExit
     else Inr ())"

definition set_if :: "string \<Rightarrow> 'v option \<Rightarrow> (string, 'v) dict \<Rightarrow> (string, 'v) dict" where
  "set_if name v env = (case v of None \<Rightarrow> env | Some t \<Rightarrow> dict_set name t env)"

definition extend_simulator_library_path :: "string \<Rightarrow> (string, string) dict \<Rightarrow> (string, string) dict" where
  "extend_simulator_library_path build_dir env =
    (case dict_get env ''LD_LIBRARY_PATH'' of
       Some existing \<Rightarrow> if existing \<noteq> [] then dict_set ''LD_LIBRARY_PATH'' (build_dir @ '':'' @ existing) env
                        else dict_set ''LD_LIBRARY_PATH'' build_dir env
     | None \<Rightarrow> dict_set ''LD_LIBRARY_PATH'' build_dir env)"

text \<open>The variables \<open>main\<close> sets, in its order; \<open>None\<close> where it leaves one alone.\<close>

definition tuner_vars :: "run_args \<Rightarrow> (string \<times> string option) list" where
  "tuner_vars args =
     [(''PARALEON_SCHEME'', Some (scheme args)),
      (''EXPERT_MIN_TIME_BETWEEN_CNPS'', if scheme args = ''expert'' then Some (py_str_int 96) else None),
      (''PARALEON_COLLECT_ONLY'', if collect_only args then Some ''1'' else None),
      (''PARALEON_AGGRESSIVE_WEIGHTS'', map_option format_weight_triplet (aggressive_weights args)),
      (''PARALEON_CONSERVATIVE_WEIGHTS'', map_option format_weight_triplet (conservative_weights args)),
      (''PARALEON_DIRECTION_PROB_CAP'', Some (fmt_g (direction_prob_cap args))),
      (''PARALEON_DIRECTION_CAP_POLICY'', Some (direction_cap_policy args)),
      (''PARALEON_AGGRESSIVE_MODE_LARGE_FLOW_THRESHOLD'', map_option fmt_g (aggressive_mode_threshold args)),
      (''PARALEON_TUNER_INITIAL_TEMPERATURE'', map_option fmt_g (tuner_initial_temperature args)),
      (''PARALEON_TUNER_FINAL_TEMPERATURE'', map_option fmt_g (tuner_final_temperature args)),
      (''PARALEON_TUNER_COOLING_RATE'', map_option fmt_g (tuner_cooling_rate args)),
      (''PARALEON_TUNER_ATTEMPT_TIMES'', map_option py_str_int (tuner_attempt_times args)),
      (''PARALEON_TUNER_MUTATE_COUNT'', map_option py_str_int (tuner_mutate_count args)),
      (''PARALEON_TUNER_STEP_SCALE'', map_option fmt_g (tuner_step_scale args)),
      (''PARALEON_TUNER_SEED'', map_option py_str_int (arg_tuner_seed args)),
      (''PARALEON_MONITOR_INTERVAL_MS'', Some (fmt_g (Fin (arg_monitor_interval_ms args)))),
      (''PARALEON_PARAMETER_TUNING_INTERVAL_MS'', Some (fmt_g (Fin (arg_parameter_tuning_interval_ms args)))),
      (''PARALEON_PLUS_CHUNK_BYTES'', Some (py_str_int (paraleon_plus_chunk_kb args * 1024))),
      (''PYTHONUNBUFFERED'', Some ''1''), (''PYTHONDONTWRITEBYTECODE'', Some ''1'')]"

definition tuner_env :: "run_args \<Rightarrow> (string, string) dict \<Rightarrow> (string, string) dict" where
  "tuner_env args env = fold (\<lambda>(name, v). set_if name v) (tuner_vars args) env"

definition main_env :: "string \<Rightarrow> string \<Rightarrow> run_args \<Rightarrow> (string, string) dict \<Rightarrow> (string, string) dict" where
  "main_env run_dir build_dir args environ =
    extend_simulator_library_path build_dir (tuner_env args (dict_set ''PARALEON_RUN_DIR'' run_dir environ))"

section \<open>Processes\<close>

text \<open>A process has exited with a code, or is running: then it answers the request to terminate within the five
  seconds with some exit code, or ignores it and is killed (code -9). That a killed process is gone within the five seconds
  of the second wait is taken from the operating system: the \<^verbatim>\<open>TimeoutExpired\<close> of that wait is not modelled.\<close>

datatype proc = Exited int | Running "int option"

definition terminate_process :: "proc option \<Rightarrow> int option \<times> proc option" where
  "terminate_process p =
    (case p of
       None \<Rightarrow> (None, None)
     | Some (Exited rc) \<Rightarrow> (None, Some (Exited rc))
     | Some (Running answer) \<Rightarrow>
         (let rc = (case answer of Some code \<Rightarrow> code | None \<Rightarrow> -9) in (Some rc, Some (Exited rc))))"

record run_outcome =
  simulator_returncode :: "int option"
  controller_returncode :: "int option"
  controller_end :: "proc option"

text \<open>The try block of \<open>main\<close>: the controller is launched when there is a command for it (which may raise), then the
  simulator (which may raise), and the clean-up runs in every case. \<open>controller\<close> is the state the controller is in
  when the simulator is done.\<close>

definition run_processes :: "bool \<Rightarrow> pyerr + proc \<Rightarrow> pyerr + int \<Rightarrow> (unit res \<times> run_outcome)" where
  "run_processes has_command controller simulator =
    (let launched = (if has_command then res_bind controller (\<lambda>c. Inr (Some c)) else Inr None);
         sim = res_bind launched (\<lambda>_. simulator);
         proc = (case launched of Inl _ \<Rightarrow> None | Inr p \<Rightarrow> p);
         (rc, fin) = terminate_process proc
     in (res_bind sim (\<lambda>code. if code \<noteq> 0 then Inl SystemExit else Inr ()),
         \<lparr>simulator_returncode = (case sim of Inl _ \<Rightarrow> None | Inr code \<Rightarrow> Some code),
          controller_returncode = rc, controller_end = fin\<rparr>))"

section \<open>The environment the tuner finds\<close>

lemma fold_set_if_get:
  "distinct (map fst kvs) \<Longrightarrow>
   dict_get (fold (\<lambda>(n, v). set_if n v) kvs env) k =
     (case map_of kvs k of Some (Some v) \<Rightarrow> Some v | _ \<Rightarrow> dict_get env k)"
proof (induction kvs arbitrary: env)
  case (Cons kv kvs)
  obtain n v where kv: "kv = (n, v)" by force
  from Cons have "n \<notin> set (map fst kvs)" by (simp add: kv)
  then have "map_of kvs n = None" by (simp add: map_of_eq_None_iff)
  with Cons show ?case by (auto simp: kv set_if_def dict_simps split: option.splits)
qed simp

lemma library_path_get:
  "k \<noteq> ''LD_LIBRARY_PATH'' \<Longrightarrow> dict_get (extend_simulator_library_path b env) k = dict_get env k"
  by (auto simp: extend_simulator_library_path_def dict_simps split: option.splits)

lemma tuner_vars_distinct: "distinct (map fst (tuner_vars args))"
  by (simp add: tuner_vars_def)

lemma main_env_get:
  assumes "k \<notin> {''PARALEON_RUN_DIR'', ''LD_LIBRARY_PATH''}"
  shows "dict_get (main_env rd bd args environ) k =
    (case map_of (tuner_vars args) k of Some (Some v) \<Rightarrow> Some v | _ \<Rightarrow> dict_get environ k)"
  using assms by (simp add: main_env_def library_path_get tuner_env_def fold_set_if_get tuner_vars_distinct dict_simps
    split: option.splits)

text \<open>The numbers whose six digits \<^verbatim>\<open>run.py\<close> prints without an exponent: zero, and those from 0.0001 up to
  999999.\<close>

definition passed :: "real \<Rightarrow> bool" where
  "passed y \<longleftrightarrow> 1 / 10000 \<le> y \<and> y < 999999"

definition plain_number :: "real \<Rightarrow> bool" where
  "plain_number y \<longleftrightarrow> y = 0 \<or> passed y"

definition near :: "real \<Rightarrow> pyfloat \<Rightarrow> bool" where
  "near y v \<longleftrightarrow> flt_finite v \<and> \<bar>flt_val v - y\<bar> \<le> y / 200000"

lemma near_Fin [simp]: "near y (Fin q) \<longleftrightarrow> \<bar>q - y\<bar> \<le> y / 200000"
  by (simp add: near_def)

lemma passed_plain: "passed y \<Longrightarrow> plain_number y"
  by (simp add: plain_number_def)

lemma fmt_g_reads:
  assumes "plain_number y"
  shows "py_float (fmt_g (Fin y)) = Inr (Fin (six_digits y))" "near y (Fin (six_digits y))"
proof -
  have "py_float ''0'' = Inr (Fin 0)" by code_simp
  then show "py_float (fmt_g (Fin y)) = Inr (Fin (six_digits y))" "near y (Fin (six_digits y))"
    using fmt_g_pos_reads_back [of y] assms by (auto simp: passed_def plain_number_def six_digits_zero)
qed

lemma six_digits_positive: "passed y \<Longrightarrow> 0 < six_digits y"
  using fmt_g_reads(2) [OF passed_plain, of y] unfolding near_Fin passed_def by linarith

lemma six_digits_unit:
  assumes "plain_number y" "y \<le> 1"
  shows "0 \<le> six_digits y" "six_digits y \<le> 1" "1 / 2 \<le> y \<Longrightarrow> 1 / 2 \<le> six_digits y"
proof -
  show "0 \<le> six_digits y" using assms six_digits_positive [of y] by (auto simp: plain_number_def six_digits_zero)
  show "six_digits y \<le> 1" using assms six_digits_mono [of y 1] by (auto simp: plain_number_def passed_def six_digits_zero six_digits_bounds)
  show "1 / 2 \<le> six_digits y" if "1 / 2 \<le> y"
    using that assms six_digits_mono [of "1 / 2" y] by (auto simp: passed_def six_digits_bounds)
qed

lemma number_not_unset:
  "py_float s = Inr v \<Longrightarrow> \<not> unset (Some s)" "py_int s = Inr n \<Longrightarrow> \<not> unset (Some s)"
proof -
  have "py_float [] = Inl ValueError" "py_int [] = Inl ValueError" "str_strip [] = []" by code_simp+
  moreover have "str_strip s = [] \<Longrightarrow> py_float s = py_float []" "str_strip s = [] \<Longrightarrow> py_int s = py_int []"
    using calculation(3) by (simp_all add: py_float_def py_int_def)
  ultimately show "py_float s = Inr v \<Longrightarrow> \<not> unset (Some s)" "py_int s = Inr n \<Longrightarrow> \<not> unset (Some s)"
    by (auto simp: unset_def)
qed

named_theorems handed \<open>what the tuner resolves from a number run.py printed\<close>

lemma handed_positive [handed]:
  assumes "env n = Some (fmt_g (Fin y))" "passed y"
  shows "resolve_positive_float env n d = Inr (Fin (six_digits y))"
    and "resolve_positive_ms env n d = Inr (Fin (six_digits y))"
    and "y < 9999995 / 10000000 \<Longrightarrow> resolve_open_unit_interval env n d = Inr (Fin (six_digits y))"
proof -
  note q = fmt_g_reads(1) [OF passed_plain [OF assms(2)]]
  have "\<not> six_digits y \<le> 0" "y < 9999995 / 10000000 \<Longrightarrow> \<not> 1 \<le> six_digits y"
    using six_digits_positive [OF assms(2)] six_digits_below_one [of y] assms(2) by (auto simp: passed_def)
  then show "resolve_positive_float env n d = Inr (Fin (six_digits y))" "resolve_positive_ms env n d = Inr (Fin (six_digits y))"
    "y < 9999995 / 10000000 \<Longrightarrow> resolve_open_unit_interval env n d = Inr (Fin (six_digits y))"
    using number_not_unset(1) [OF q] q assms(1)
    by (simp_all add: resolve_positive_float_def resolve_positive_ms_def resolve_open_unit_interval_def Let_def del: fmt_g.simps)
qed

lemma handed_unit [handed]:
  assumes "env n = Some (fmt_g (Fin y))" "plain_number y" "y \<le> 1"
  shows "resolve_unit_interval env n d = Inr (Fin (six_digits y))"
    and "resolve_ratio_threshold env n d = Inr (Fin (six_digits y))"
proof -
  note q = fmt_g_reads(1) [OF assms(2)]
  have "\<not> six_digits y < 0" "\<not> 1 < six_digits y" using six_digits_unit(1,2) [OF assms(2,3)] by simp_all
  then show "resolve_unit_interval env n d = Inr (Fin (six_digits y))" "resolve_ratio_threshold env n d = Inr (Fin (six_digits y))"
    using number_not_unset(1) [OF q] q assms(1)
    by (simp_all add: resolve_unit_interval_def resolve_ratio_threshold_def Let_def del: fmt_g.simps)
qed

lemma handed_int [handed]:
  assumes "env n = Some (py_str_int k)" "0 < k"
  shows "resolve_positive_int env n d = Inr k"
  using assms number_not_unset(2) [OF py_int_str [of k]] by (simp add: resolve_positive_int_def Let_def py_int_str)

lemma fmt_g_fixed_chars: "c \<in> set (fmt_g_fixed m d) \<Longrightarrow> is_digit c \<or> c = CHR ''.''"
proof (cases "d = 0")
  case True
  then show "c \<in> set (fmt_g_fixed m d) \<Longrightarrow> ?thesis"
    using str_nat_digits [of m] by (auto simp: fmt_g_fixed_def list_all_iff)
next
  case False
  then have "0 < d" by simp
  then obtain ip fp where ip: "list_all is_digit ip" "list_all is_digit fp"
    "fmt_fixed d (real m / 10 ^ d) = (if real m / 10 ^ d < 0 then ''-'' else []) @ decimal ip fp"
    by (rule fmt_fixed_decimal [of d "real m / 10 ^ d"]) blast
  moreover have "\<not> real m / 10 ^ d < 0" by (simp add: not_less)
  ultimately have "set (fmt_fixed d (real m / 10 ^ d)) \<subseteq> Collect is_digit \<union> {CHR ''.''}"
    by (auto simp: decimal_def list_all_iff split: if_splits)
  moreover have "set (fmt_g_fixed m d) \<subseteq> set (fmt_fixed d (real m / 10 ^ d))"
    using False by (simp add: fmt_g_fixed_def trim_fixed_def) (meson set_rstrip_by subset_trans)
  ultimately show "c \<in> set (fmt_g_fixed m d) \<Longrightarrow> ?thesis" by blast
qed

lemma fmt_g_plain:
  assumes "plain_number y" "c \<in> set (fmt_g (Fin y))"
  shows "\<not> is_space c \<and> c \<noteq> CHR '',''"
proof -
  have zero: "is_digit (CHR ''0'')" by code_simp
  have "is_digit c \<or> c = CHR ''.''"
  proof (cases "y = 0")
    case False
    with assms(1) have y: "passed y" by (simp add: plain_number_def)
    then obtain m d where "fmt_g_pos y = fmt_g_fixed m d" using fmt_g_pos_form [of y] by (auto simp: passed_def)
    with assms(2) y have "c \<in> set (fmt_g_fixed m d)" by (auto simp: passed_def split: if_splits)
    then show ?thesis by (rule fmt_g_fixed_chars)
  qed (use assms(2) zero in simp)
  moreover have "\<not> is_space (CHR ''.'')" by code_simp
  moreover have "\<not> is_digit (CHR '','')" by code_simp
  ultimately show ?thesis using is_space_digit by auto
qed

lemma handed_weights [handed]:
  assumes "env n = Some (format_weight_triplet ws)" "ws \<noteq> []" "\<forall>w \<in> set ws. \<exists>y. w = Fin y \<and> plain_number y"
  shows "\<exists>vs. resolve_mode_weights env n d = Inr vs \<and> list_all2 (\<lambda>w v. near (flt_val w) v) ws vs"
proof -
  let ?parts = "map fmt_g ws"
  have plain: "\<forall>w \<in> set ws. \<forall>c \<in> set (fmt_g w). \<not> is_space c \<and> c \<noteq> CHR '',''"
  proof (intro ballI)
    fix w c assume "w \<in> set ws" "c \<in> set (fmt_g w)"
    moreover from bspec [OF assms(3) this(1)] obtain y where "w = Fin y" "plain_number y" by (elim exE conjE)
    ultimately show "\<not> is_space c \<and> c \<noteq> CHR '',''" using fmt_g_plain by metis
  qed
  then have "\<forall>p \<in> set ?parts. CHR '','' \<notin> set p" by (simp del: fmt_g.simps) blast
  then have parts: "split_on (CHR '','') (format_weight_triplet ws) = ?parts"
    using assms(2) unfolding format_weight_triplet_def by (intro split_on_join) simp_all
  have num: "\<exists>v. py_float (str_strip (fmt_g w)) = Inr v \<and> near (flt_val w) v" if "w \<in> set ws" for w
  proof -
    from bspec [OF assms(3) that] obtain y where y: "w = Fin y" "plain_number y" by (elim exE conjE)
    have "str_strip (fmt_g w) = fmt_g w" using plain that by (intro str_strip_id) (simp add: list_all_iff)
    moreover have "flt_val w = y" using y(1) by simp
    ultimately show ?thesis using fmt_g_reads [OF y(2)] unfolding y(1) by metis
  qed
  have all: "\<exists>vs. res_map (\<lambda>part. py_float (str_strip part)) (map fmt_g us) = Inr vs
      \<and> list_all2 (\<lambda>w v. near (flt_val w) v) us vs" if "set us \<subseteq> set ws" for us
    using that
  proof (induction us)
    case (Cons u us)
    then obtain v vs where "py_float (str_strip (fmt_g u)) = Inr v" "near (flt_val u) v"
      "res_map (\<lambda>part. py_float (str_strip part)) (map fmt_g us) = Inr vs" "list_all2 (\<lambda>w v. near (flt_val w) v) us vs"
      using num [of u] by auto
    then show ?case by simp
  qed simp
  have "\<not> unset (Some (format_weight_triplet ws))"
  proof -
    obtain w us where ws: "ws = w # us" using assms(2) by (cases ws) auto
    then obtain v where v: "py_float (str_strip (fmt_g w)) = Inr v" using num [of w] by auto
    have "py_float (str_strip []) = Inl ValueError" by code_simp
    with v have "fmt_g w \<noteq> []" by auto
    with ws plain have c: "hd (fmt_g w) \<in> set (fmt_g w)" "\<not> is_space (hd (fmt_g w))" by auto
    then have "hd (fmt_g w) \<in> set (format_weight_triplet ws)" by (cases us) (simp_all add: ws format_weight_triplet_def)
    with c(2) show ?thesis by (simp add: unset_def strip_nonempty)
  qed
  with all [of ws] assms(1) parts show ?thesis by (simp add: resolve_mode_weights_def Let_def)
qed

text \<open>Optional numbers: an option that was not given leaves the variable alone.\<close>

definition opt_in :: "(real \<Rightarrow> bool) \<Rightarrow> pyfloat option \<Rightarrow> bool" where
  "opt_in P v = (case v of None \<Rightarrow> True | Some (Fin y) \<Rightarrow> P y | Some _ \<Rightarrow> False)"

lemma opt_inE:
  assumes "opt_in P v"
  obtains "v = None" | y where "v = Some (Fin y)" "P y"
  using assms by (auto simp: opt_in_def split: option.splits pyfloat.splits)

lemma handed_optional [handed]:
  assumes "env n = map_option fmt_g v"
  shows "opt_in passed v \<Longrightarrow> \<exists>q. resolve_positive_float env n (Fin d) = Inr (Fin q)"
    and "opt_in (\<lambda>y. plain_number y \<and> y \<le> 1) v \<Longrightarrow> \<exists>q. resolve_ratio_threshold env n (Fin d) = Inr (Fin q)"
proof -
  have none: "resolve_positive_float env n (Fin d) = Inr (Fin d)" "resolve_ratio_threshold env n (Fin d) = Inr (Fin d)" if "v = None"
    using that assms by (simp_all add: resolve_positive_float_def resolve_ratio_threshold_def)
  show "\<exists>q. resolve_positive_float env n (Fin d) = Inr (Fin q)" if "opt_in passed v"
    using that none(1) handed_positive(1) [of env n _ "Fin d"] assms by (cases rule: opt_inE) auto
  show "\<exists>q. resolve_ratio_threshold env n (Fin d) = Inr (Fin q)" if "opt_in (\<lambda>y. plain_number y \<and> y \<le> 1) v"
    using that none(2) handed_unit(2) [of env n _ "Fin d"] assms by (cases rule: opt_inE) auto
qed

text \<open>The names the tuner reads and \<^verbatim>\<open>run.py\<close> may leave as it found them.\<close>

definition inherited_names :: "string list" where
  "inherited_names = [''PARALEON_AGGRESSIVE_MODE_LARGE_FLOW_THRESHOLD'', ''PARALEON_TUNER_STEP_SCALE'', ''PARALEON_TUNER_SEED'',
     ''PARALEON_COLLECT_ONLY'', ''PARALEON_DIRECTION_BAD_EWMA_ALPHA'', ''PARALEON_DIRECTION_DELTA_EPS'']"

definition clean_environ :: "(string, string) dict \<Rightarrow> bool" where
  "clean_environ environ = list_all (\<lambda>n. dict_get environ n = None) inherited_names"

text \<open>The arguments a tuner can start with. Finite numbers that print without an exponent, positive where the
  tuner wants them positive, the direction cap from one half to one, the mode threshold in the unit interval, the
  cooling rate below 0.9999995 (from there on its six digits are 1), the final temperature not above the initial
  one.\<close>

definition triplet_passed :: "pyfloat list option \<Rightarrow> bool" where
  "triplet_passed w = (case w of Some ws \<Rightarrow> length ws = 3 \<and> list_all (\<lambda>v. opt_in plain_number (Some v)) ws | None \<Rightarrow> False)"

definition startable :: "run_args \<Rightarrow> bool" where
  "startable args \<longleftrightarrow>
     opt_in (\<lambda>c. 1 / 2 \<le> c \<and> c \<le> 1) (Some (direction_prob_cap args))
     \<and> direction_cap_policy args \<in> {''fixed'', ''adaptive_ewma''}
     \<and> opt_in (\<lambda>y. plain_number y \<and> y \<le> 1) (aggressive_mode_threshold args) \<and> opt_in passed (tuner_step_scale args)
     \<and> triplet_passed (aggressive_weights args) \<and> triplet_passed (conservative_weights args)
     \<and> tuner_initial_temperature args \<noteq> None \<and> tuner_final_temperature args \<noteq> None \<and> tuner_cooling_rate args \<noteq> None
     \<and> opt_in passed (tuner_initial_temperature args) \<and> opt_in passed (tuner_final_temperature args)
     \<and> flt_val (the (tuner_final_temperature args)) \<le> flt_val (the (tuner_initial_temperature args))
     \<and> opt_in (\<lambda>r. passed r \<and> r < 9999995 / 10000000) (tuner_cooling_rate args)
     \<and> (case tuner_attempt_times args of Some k \<Rightarrow> 0 < k | None \<Rightarrow> False)
     \<and> (case tuner_mutate_count args of Some k \<Rightarrow> 0 < k | None \<Rightarrow> False)
     \<and> passed (arg_monitor_interval_ms args) \<and> passed (arg_parameter_tuning_interval_ms args)
     \<and> 0 < paraleon_plus_chunk_kb args"

named_theorems env_simps \<open>the variables of the child environment\<close>

lemma child_env [env_simps]:
  assumes "env = dict_get (main_env rd bd args environ)" "clean_environ environ"
  shows "env ''PARALEON_MONITOR_INTERVAL_MS'' = Some (fmt_g (Fin (arg_monitor_interval_ms args)))"
    "env ''PARALEON_PARAMETER_TUNING_INTERVAL_MS'' = Some (fmt_g (Fin (arg_parameter_tuning_interval_ms args)))"
    "env ''PARALEON_PLUS_CHUNK_BYTES'' = Some (py_str_int (paraleon_plus_chunk_kb args * 1024))"
    "env ''PARALEON_DIRECTION_CAP_POLICY'' = Some (direction_cap_policy args)"
    "env ''PARALEON_DIRECTION_PROB_CAP'' = Some (fmt_g (direction_prob_cap args))"
    "env ''PARALEON_AGGRESSIVE_MODE_LARGE_FLOW_THRESHOLD'' = map_option fmt_g (aggressive_mode_threshold args)"
    "env ''PARALEON_TUNER_STEP_SCALE'' = map_option fmt_g (tuner_step_scale args)"
    "env ''PARALEON_TUNER_SEED'' = map_option py_str_int (arg_tuner_seed args)"
    "env ''PARALEON_COLLECT_ONLY'' = (if collect_only args then Some ''1'' else None)"
    "env ''PARALEON_DIRECTION_BAD_EWMA_ALPHA'' = None" "env ''PARALEON_DIRECTION_DELTA_EPS'' = None"
    "triplet_passed (aggressive_weights args) \<Longrightarrow>
       env ''PARALEON_AGGRESSIVE_WEIGHTS'' = map_option format_weight_triplet (aggressive_weights args)"
    "triplet_passed (conservative_weights args) \<Longrightarrow>
       env ''PARALEON_CONSERVATIVE_WEIGHTS'' = map_option format_weight_triplet (conservative_weights args)"
    "tuner_initial_temperature args = Some t0 \<Longrightarrow> env ''PARALEON_TUNER_INITIAL_TEMPERATURE'' = Some (fmt_g t0)"
    "tuner_final_temperature args = Some t1 \<Longrightarrow> env ''PARALEON_TUNER_FINAL_TEMPERATURE'' = Some (fmt_g t1)"
    "tuner_cooling_rate args = Some r \<Longrightarrow> env ''PARALEON_TUNER_COOLING_RATE'' = Some (fmt_g r)"
    "tuner_attempt_times args = Some a \<Longrightarrow> env ''PARALEON_TUNER_ATTEMPT_TIMES'' = Some (py_str_int a)"
    "tuner_mutate_count args = Some k \<Longrightarrow> env ''PARALEON_TUNER_MUTATE_COUNT'' = Some (py_str_int k)"
  using assms by (simp_all add: main_env_get tuner_vars_def clean_environ_def inherited_names_def triplet_passed_def del: fmt_g.simps split: option.splits)

lemma handed_seed [handed]:
  "env n = map_option py_str_int v \<Longrightarrow>
   (if unset (env n) then Inr None else res_bind (py_int (the (env n))) (\<lambda>k. Inr (Some k))) = Inr v"
  using number_not_unset(2) [OF py_int_str] by (cases v) (auto simp: py_int_str)

lemma near_weights: "list_all2 (\<lambda>w v. near (flt_val w) v) ws vs \<Longrightarrow> list_all flt_finite vs \<and> length vs = length ws"
  by (induction rule: list_all2_induct) (auto simp: near_def)

lemma opt_inD: "opt_in P (Some v) \<Longrightarrow> \<exists>y. v = Fin y \<and> P y"
  by (auto simp: opt_in_def split: pyfloat.splits)

lemma triplet_passedD:
  "triplet_passed w \<Longrightarrow> \<exists>ws. w = Some ws \<and> length ws = 3 \<and> (\<forall>v \<in> set ws. \<exists>y. v = Fin y \<and> plain_number y)"
  using opt_inD by (fastforce simp: triplet_passed_def list_all_iff split: option.splits)

lemma handed_triplet:
  assumes "env n = map_option format_weight_triplet w" "triplet_passed w"
  obtains vs where "resolve_mode_weights env n d = Inr vs" "list_all flt_finite vs" "length vs = 3"
proof -
  obtain ws where ws: "w = Some ws" "length ws = 3" "\<forall>v \<in> set ws. \<exists>y. v = Fin y \<and> plain_number y"
    using triplet_passedD [OF assms(2)] by (elim exE conjE)
  then have "env n = Some (format_weight_triplet ws)" "ws \<noteq> []" using assms(1) by auto
  from handed_weights [of env, OF this ws(3), of d] near_weights ws(2) that show thesis by metis
qed

text \<open>What the tuner has resolved when it comes to the direction cap.\<close>

lemma handed_prefix:
  assumes "startable (args\<lparr>direction_prob_cap := x\<rparr>)" "clean_environ environ" "env = dict_get (main_env rd bd args environ)"
  obtains q1 q2 va vc q3 where
    "resolve_positive_ms env ''PARALEON_MONITOR_INTERVAL_MS'' (Fin 1) = Inr (Fin q1)"
    "resolve_positive_ms env ''PARALEON_PARAMETER_TUNING_INTERVAL_MS'' (Fin (1002/1000)) = Inr (Fin q2)"
    "resolve_positive_int env ''PARALEON_PLUS_CHUNK_BYTES'' (1024 * 1024) = Inr (paraleon_plus_chunk_kb args * 1024)"
    "resolve_mode_weights env ''PARALEON_AGGRESSIVE_WEIGHTS'' [Fin (6/10), Fin (2/10), Fin (2/10)] = Inr va"
    "resolve_mode_weights env ''PARALEON_CONSERVATIVE_WEIGHTS'' [Fin (3/10), Fin (5/10), Fin (2/10)] = Inr vc"
    "resolve_ratio_threshold env ''PARALEON_AGGRESSIVE_MODE_LARGE_FLOW_THRESHOLD'' (Fin (1/2)) = Inr (Fin q3)"
    "list_all flt_finite va" "length va = 3" "list_all flt_finite vc" "length vc = 3"
proof -
  note e = child_env [OF assms(3,2)]
  have p: "passed (arg_monitor_interval_ms args)" "passed (arg_parameter_tuning_interval_ms args)"
    "0 < paraleon_plus_chunk_kb args * 1024" "opt_in (\<lambda>y. plain_number y \<and> y \<le> 1) (aggressive_mode_threshold args)"
    "triplet_passed (aggressive_weights args)" "triplet_passed (conservative_weights args)"
    using assms(1) by (simp_all add: startable_def)
  obtain va where va: "resolve_mode_weights env ''PARALEON_AGGRESSIVE_WEIGHTS'' [Fin (6/10), Fin (2/10), Fin (2/10)] = Inr va"
    "list_all flt_finite va" "length va = 3" by (rule handed_triplet [of env, OF e(12) [OF p(5)] p(5)])
  obtain vc where vc: "resolve_mode_weights env ''PARALEON_CONSERVATIVE_WEIGHTS'' [Fin (3/10), Fin (5/10), Fin (2/10)] = Inr vc"
    "list_all flt_finite vc" "length vc = 3" by (rule handed_triplet [of env, OF e(13) [OF p(6)] p(6)])
  obtain q1 where q1: "resolve_positive_ms env ''PARALEON_MONITOR_INTERVAL_MS'' (Fin 1) = Inr (Fin q1)"
    using handed_positive(2) [of env, OF e(1) p(1)] by metis
  obtain q2 where q2: "resolve_positive_ms env ''PARALEON_PARAMETER_TUNING_INTERVAL_MS'' (Fin (1002/1000)) = Inr (Fin q2)"
    using handed_positive(2) [of env, OF e(2) p(2)] by metis
  obtain q3 where q3: "resolve_ratio_threshold env ''PARALEON_AGGRESSIVE_MODE_LARGE_FLOW_THRESHOLD'' (Fin (1/2)) = Inr (Fin q3)"
    using handed_optional(2) [of env, OF e(6) p(4)] by metis
  show thesis by (rule that [OF q1 q2 handed_int [of env, OF e(3) p(3)] va(1) vc(1) q3 va(2,3) vc(2,3)])
qed

lemma handed_settings:
  assumes "startable args" "clean_environ environ" "env = dict_get (main_env rd bd args environ)"
  shows "\<exists>st. tuner_settings env (Inr n) = Inr st \<and> all_finite st
    \<and> MUTATE_COUNT st = the (tuner_mutate_count args) \<and> st_attempt_times st = the (tuner_attempt_times args)
    \<and> st_chunk_bytes st = paraleon_plus_chunk_kb args * 1024 \<and> tuner_seed st = arg_tuner_seed args
    \<and> st_collect_only st = collect_only args \<and> DIRECTION_CAP_POLICY st = direction_cap_policy args
    \<and> near (flt_val (direction_prob_cap args)) (DIRECTION_PROB_CAP_MAX st)
    \<and> near (flt_val (the (tuner_cooling_rate args))) (st_cooling_rate st)
    \<and> length (st_aggressive_weights st) = 3 \<and> length (st_conservative_weights st) = 3"
proof -
  note m = assms(1) [unfolded startable_def] and e = child_env [OF assms(3,2)] and opt = opt_inD
  have "startable (args\<lparr>direction_prob_cap := direction_prob_cap args\<rparr>)" using assms(1) by simp
  from handed_prefix [OF this assms(2,3)] obtain q1 q2 va vc q3 where pre:
    "resolve_positive_ms env ''PARALEON_MONITOR_INTERVAL_MS'' (Fin 1) = Inr (Fin q1)"
    "resolve_positive_ms env ''PARALEON_PARAMETER_TUNING_INTERVAL_MS'' (Fin (1002/1000)) = Inr (Fin q2)"
    "resolve_positive_int env ''PARALEON_PLUS_CHUNK_BYTES'' (1024 * 1024) = Inr (paraleon_plus_chunk_kb args * 1024)"
    "resolve_mode_weights env ''PARALEON_AGGRESSIVE_WEIGHTS'' [Fin (6/10), Fin (2/10), Fin (2/10)] = Inr va"
    "resolve_mode_weights env ''PARALEON_CONSERVATIVE_WEIGHTS'' [Fin (3/10), Fin (5/10), Fin (2/10)] = Inr vc"
    "resolve_ratio_threshold env ''PARALEON_AGGRESSIVE_MODE_LARGE_FLOW_THRESHOLD'' (Fin (1/2)) = Inr (Fin q3)"
    "list_all flt_finite va" "length va = 3" "list_all flt_finite vc" "length vc = 3" by metis
  obtain c where c: "direction_prob_cap args = Fin c" "1 / 2 \<le> c" "c \<le> 1" using m opt by fastforce
  then have c': "plain_number c" by (simp add: plain_number_def passed_def)
  obtain t0 where t0: "tuner_initial_temperature args = Some (Fin t0)" "passed t0" using m opt by fastforce
  obtain t1 where t1: "tuner_final_temperature args = Some (Fin t1)" "passed t1" using m opt by fastforce
  obtain r where r: "tuner_cooling_rate args = Some (Fin r)" "passed r" "r < 9999995 / 10000000" using m opt by fastforce
  obtain a where a: "tuner_attempt_times args = Some a" "0 < a" using m by (auto split: option.splits)
  obtain k where k: "tuner_mutate_count args = Some k" "0 < k" using m by (auto split: option.splits)
  have p: "direction_cap_policy args \<in> {''fixed'', ''adaptive_ewma''}" "opt_in passed (tuner_step_scale args)" "t1 \<le> t0"
    using m t0(1) t1(1) by simp_all
  note q4 = handed_unit(1) [of env, OF e(5) [unfolded c(1)] c' c(3)]
  have near: "near c (Fin (six_digits c))" "near r (Fin (six_digits r))" using fmt_g_reads(2) c' passed_plain [OF r(2)] by blast+
  have half: "1 / 2 \<le> six_digits c" by (rule six_digits_unit(3) [OF c' c(3,2)])
  obtain q5 where q5: "resolve_positive_float env ''PARALEON_TUNER_STEP_SCALE'' (Fin 1) = Inr (Fin q5)"
    using handed_optional(1) [of env, OF e(7) p(2)] by metis
  note q6 = handed_positive(1) [of env, OF e(14) [OF t0(1)] t0(2)] and q7 = handed_positive(1) [of env, OF e(15) [OF t1(1)] t1(2)]
    and q8 = handed_positive(3) [of env, OF e(16) [OF r(1)] r(2,3)]
  have q67: "\<not> six_digits t0 < six_digits t1"
    using six_digits_mono [of t1 t0] p(3) t0(2) t1(2) by (simp add: passed_def not_less)
  have d: "resolve_open_unit_interval env ''PARALEON_DIRECTION_BAD_EWMA_ALPHA'' (Fin (15/100)) = Inr (Fin (15/100))"
    "resolve_positive_float env ''PARALEON_DIRECTION_DELTA_EPS'' (Fin (1/100)) = Inr (Fin (1/100))"
    by (simp_all add: resolve_open_unit_interval_def resolve_positive_float_def e(10,11))
  note rs = pre(1-6) q4 q5 handed_int [of env, OF e(18) [OF k(1)] k(2)] d q6 q7
    handed_int [of env, OF e(17) [OF a(1)] a(2)] q8 handed_seed [of env, OF e(8)]
  show ?thesis using near half q67 pre(7-10) p(1) c(1) r(1) a(1) k(1)
    unfolding tuner_settings_def Let_def e(4,9) res_bind.simps option.case rs
    by (simp add: DIRECTION_PROB_CAP_MIN_def all_finite_def del: near_Fin)
qed

text \<open>A direction cap below one half passes the argument check of \<^verbatim>\<open>run.py\<close>, which accepts the whole
  unit interval, and stops the tuner: whatever the other arguments, its start-up check raises
  \<^verbatim>\<open>ValueError\<close>.\<close>

theorem low_cap_stops_tuner:
  assumes "startable (args\<lparr>direction_prob_cap := Fin (7/10)\<rparr>)" "clean_environ environ"
    "direction_prob_cap args = Fin c" "1/10000 \<le> c" "c \<le> 49/100"
  shows "tuner_settings (dict_get (main_env rd bd args environ)) (Inr n) = Inl ValueError"
proof -
  define env where "env = dict_get (main_env rd bd args environ)"
  note e = child_env [OF env_def assms(2)]
  obtain q1 q2 va vc q3 where pre:
    "resolve_positive_ms env ''PARALEON_MONITOR_INTERVAL_MS'' (Fin 1) = Inr (Fin q1)"
    "resolve_positive_ms env ''PARALEON_PARAMETER_TUNING_INTERVAL_MS'' (Fin (1002/1000)) = Inr (Fin q2)"
    "resolve_positive_int env ''PARALEON_PLUS_CHUNK_BYTES'' (1024 * 1024) = Inr (paraleon_plus_chunk_kb args * 1024)"
    "resolve_mode_weights env ''PARALEON_AGGRESSIVE_WEIGHTS'' [Fin (6/10), Fin (2/10), Fin (2/10)] = Inr va"
    "resolve_mode_weights env ''PARALEON_CONSERVATIVE_WEIGHTS'' [Fin (3/10), Fin (5/10), Fin (2/10)] = Inr vc"
    "resolve_ratio_threshold env ''PARALEON_AGGRESSIVE_MODE_LARGE_FLOW_THRESHOLD'' (Fin (1/2)) = Inr (Fin q3)"
    using handed_prefix [OF assms(1,2) env_def] by metis
  have c: "plain_number c" "c \<le> 1" using assms(4,5) by (simp_all add: plain_number_def passed_def)
  obtain q where q: "resolve_unit_interval env ''PARALEON_DIRECTION_PROB_CAP'' (Fin (7/10)) = Inr (Fin q)" "near c (Fin q)"
    using handed_unit(1) [of env, OF e(5) [unfolded assms(3)] c] fmt_g_reads(2) [OF c(1)] by metis
  have "q < 1/2" using q(2) assms(4,5) unfolding near_Fin by linarith
  then show ?thesis unfolding env_def [symmetric] tuner_settings_def Let_def e(4) res_bind.simps option.case pre q(1)
    by (simp add: DIRECTION_PROB_CAP_MIN_def)
qed

theorem low_cap_stops_tuner_witness:
  "parse_unit_interval ''0.3'' = Inr (Fin (3/10))
   \<and> tuner_settings (dict_get (main_env ''/r/mix/1'' ''/r/build'' (default_args\<lparr>direction_prob_cap := Fin (3/10)\<rparr>) [])) (Inr 10) = Inl ValueError"
proof -
  have "parse_unit_interval ''0.3'' = Inr (Fin (3/10))" by code_simp
  moreover have "startable (default_args\<lparr>direction_prob_cap := Fin (3/10), direction_prob_cap := Fin (7/10)\<rparr>)"
    by (simp add: startable_def default_args_def opt_in_def triplet_passed_def passed_def plain_number_def)
  moreover have "clean_environ []" by (simp add: clean_environ_def inherited_names_def dict_get_def)
  ultimately show ?thesis
    using low_cap_stops_tuner [where args = "default_args\<lparr>direction_prob_cap := Fin (3/10)\<rparr>" and environ = "[]" and n = 10
      and rd = "''/r/mix/1''" and bd = "''/r/build''" and c = "3/10"] by simp
qed

text \<open>C7: the tuner that \<^verbatim>\<open>run.py\<close> starts accepts its settings and anneals with them. Let every
  number handed over be finite and either at least 0.0001 and below 999999 or, for weights and the mode threshold, possibly
  zero; the direction cap between 0.5 and 1, the threshold at most 1, the cooling rate below 0.9999995 (its
  six digits are 1 from there on, which the tuner refuses), the final temperature not above the initial one, the
  policy one of the two choices, the counts, intervals, temperatures and chunk size positive, both weight options triples.
  Then, in an environment that does not already set the tuner's other variables and with a readable number of links, the
  start-up checks pass; counts, seed, chunk size, policy and the collect-only switch arrive exactly, the
  direction cap and the cooling rate within five millionths, both weight vectors as triples; and the settings
  satisfy what the termination of the session needs.\<close>

theorem started_tuner_accepts:
  assumes "startable args" "clean_environ environ"
  shows "\<exists>st. tuner_settings (dict_get (main_env rd bd args environ)) (Inr n) = Inr st
    \<and> MUTATE_COUNT st = the (tuner_mutate_count args) \<and> st_attempt_times st = the (tuner_attempt_times args)
    \<and> st_chunk_bytes st = paraleon_plus_chunk_kb args * 1024 \<and> tuner_seed st = arg_tuner_seed args
    \<and> st_collect_only st = collect_only args \<and> DIRECTION_CAP_POLICY st = direction_cap_policy args
    \<and> near (flt_val (direction_prob_cap args)) (DIRECTION_PROB_CAP_MAX st)
    \<and> near (flt_val (the (tuner_cooling_rate args))) (st_cooling_rate st)
    \<and> length (st_aggressive_weights st) = 3 \<and> length (st_conservative_weights st) = 3
    \<and> annealing_cfg_ok (to_cfg mean rep specs st)"
  using handed_settings [OF assms refl, where n = n and rd = rd and bd = bd] settings_anneal by blast

theorem started_tuner_accepts_witness:
  "startable default_args \<and> clean_environ [(''PATH'', ''/bin'')]
   \<and> (\<exists>st. tuner_settings (dict_get (main_env ''/r/mix/1'' ''/r/build'' default_args [(''PATH'', ''/bin'')])) (Inr 10) = Inr st
        \<and> MUTATE_COUNT st = 8)"
proof -
  have "startable default_args"
    by (simp add: startable_def default_args_def opt_in_def triplet_passed_def passed_def plain_number_def)
  moreover have "clean_environ [(''PATH'', ''/bin'')]" by (simp add: clean_environ_def inherited_names_def dict_get_def)
  moreover from started_tuner_accepts [OF calculation, where n = 10 and rd = "''/r/mix/1''" and bd = "''/r/build''"]
  obtain st where "tuner_settings (dict_get (main_env ''/r/mix/1'' ''/r/build'' default_args [(''PATH'', ''/bin'')])) (Inr 10) = Inr st"
    "MUTATE_COUNT st = the (tuner_mutate_count default_args)" by blast
  moreover have "tuner_mutate_count default_args = Some 8" by (simp add: default_args_def)
  ultimately show ?thesis by auto
qed

end
