(* ===== verification/RunMain.thy ===== *)
theory RunMain
  imports RunSetup
begin

text \<open>
  \<open>main\<close> of \<^verbatim>\<open>run.py\<close>: the manifest, the preparation of a run directory in the order of the code, and the try
  block around the two processes.

  A machine record holds what the program asks its surroundings for: the files that exist (a map from paths to
  contents), \<open>resolve\<close> and \<open>expanduser\<close>, the listing of \<^verbatim>\<open>mix\<close>, the time stamps, the environment, and whether
  \<^verbatim>\<open>waf\<close> succeeds.
\<close>

section \<open>The manifest\<close>

datatype jval = JNull | JBool bool | JInt int | JFloat pyfloat | JStr string | JList "jval list" | JObj "(string \<times> jval) list"

definition jget :: "jval \<Rightarrow> string \<Rightarrow> jval option" where
  "jget v k = (case v of JObj d \<Rightarrow> dict_get d k | _ \<Rightarrow> None)"

definition topology_json :: "topology_metadata \<Rightarrow> int \<Rightarrow> jval" where
  "topology_json t buffer =
    JObj [(''name'', JStr (tm_name t)), (''path'', JStr (tm_path t)), (''node_count'', JInt (node_count t)),
          (''switch_count'', JInt (switch_count t)), (''link_count'', JInt (link_count t)),
          (''switch_ids'', JList (map JInt (switch_ids t))), (''buffer_mb'', JInt buffer)]"

definition flow_json :: "flow_metadata \<Rightarrow> jval" where
  "flow_json f = JObj [(''name'', JStr (fm_name f)), (''path'', JStr (fm_path f)), (''flow_count'', JInt (flow_count f))]"

definition config_json :: "cc_profile \<Rightarrow> config_metadata \<Rightarrow> string \<Rightarrow> run_args \<Rightarrow> jval" where
  "config_json p c config_path args =
    JObj [(''cc_label'', JStr (cc_label p)), (''failure_suffix'', JStr (failure_suffix c)),
          (''parameter_tuning_start'', JInt (parameter_tuning_start c)), (''parameter_tuning_end'', JInt (parameter_tuning_end c)),
          (''qlen_mon_start'', JInt (qlen_mon_start c)), (''qlen_mon_end'', JInt (qlen_mon_end c)),
          (''trace_output'', JStr (trace_output c)), (''fct_output'', JStr (fct_output c)),
          (''pfc_output'', JStr (pfc_output c)), (''qlen_output'', JStr (qlen_output c)),
          (''path'', JStr config_path), (''cc'', JStr (cc args)), (''sim_time_s'', JFloat (Fin (sim_time args)))]"

definition files_json :: "string \<Rightarrow> string \<Rightarrow> string \<Rightarrow> config_metadata \<Rightarrow> run_args \<Rightarrow> bool \<Rightarrow> string option \<Rightarrow> string option \<Rightarrow> jval" where
  "files_json run_dir topology_path flow_path c args tuner_enabled controller_log acc_model_path =
    (let plus = (scheme args = ''paraleon_plus''); acc = (scheme args = ''acc'');
         loc = (\<lambda>name. JStr (path_join run_dir name));
         only = (\<lambda>b v. if b then Some v else None)
     in JObj (fold (\<lambda>(k, v). set_if k v)
       [(''controller_log'', map_option JStr controller_log),
        (''tuner_log'', only (controller_log \<noteq> None \<and> tuner_enabled) (loc ''tuner.log'')),
        (''monitor_output'', only (controller_log \<noteq> None \<and> tuner_enabled) (loc ''monitor_output.tr'')),
        (''host_flow_report'', only plus (loc ''host_flow_report.tr'')),
        (''acc_monitor'', only acc (loc ''acc_monitor.tr'')),
        (''acc_dataset'', only acc (loc ''acc_dataset.jsonl'')),
        (''acc_model'', only acc (loc ''acc_model_final.npz'')),
        (''acc_model_input'', if acc then map_option JStr acc_model_path else None)]
       [(''topology'', JStr topology_path), (''flow'', JStr flow_path), (''trace'', loc ''trace.txt''),
        (''config'', loc ''config.txt''), (''parameter'', loc ''parameter.txt''),
        (''trace_output'', JStr (trace_output c)), (''fct_output'', JStr (fct_output c)),
        (''pfc_output'', JStr (pfc_output c)), (''qlen_output'', JStr (qlen_output c)),
        (''simulator_log'', loc ''simulator.log'')]))"

definition weights_json :: "run_args \<Rightarrow> jval option" where
  "weights_json args =
    (if aggressive_weights args = None \<and> conservative_weights args = None then None
     else Some (JObj (fold (\<lambda>(k, v). set_if k v)
       [(''aggressive'', map_option (\<lambda>w. JList (map JFloat w)) (aggressive_weights args)),
        (''conservative'', map_option (\<lambda>w. JList (map JFloat w)) (conservative_weights args))] [])))"

definition tuner_config_json :: "run_args \<Rightarrow> jval" where
  "tuner_config_json args =
    JObj (fold (\<lambda>(k, v). set_if k v)
      [(''direction_cap_policy'', Some (JStr (direction_cap_policy args))),
       (''aggressive_mode_large_flow_threshold'', map_option JFloat (aggressive_mode_threshold args)),
       (''initial_temperature'', map_option JFloat (tuner_initial_temperature args)),
       (''final_temperature'', map_option JFloat (tuner_final_temperature args)),
       (''cooling_rate'', map_option JFloat (tuner_cooling_rate args)),
       (''attempt_times'', map_option JInt (tuner_attempt_times args)),
       (''mutate_count'', map_option JInt (tuner_mutate_count args)),
       (''step_scale'', map_option JFloat (tuner_step_scale args)),
       (''seed'', map_option JInt (arg_tuner_seed args))]
      [(''direction_prob_cap'', JFloat (direction_prob_cap args))])"

definition expert_json :: jval where
  "expert_json =
    JObj [(''ai_rate_mbps'', JInt 50), (''hai_rate_mbps'', JInt 150), (''rate_decrease_interval_us'', JInt 80),
          (''min_time_between_cnps_us'', JInt 96), (''kmin_kb'', JInt 1600), (''kmax_kb'', JInt 6400),
          (''pmax'', JFloat (Fin (2/10))),
          (''note'', JStr (''min_time_between_cnps is not independently configurable in the current simulator path; ''
            @ ''expert scheme preserves the static 80us rate decrease interval and records the 96us paper value ''
            @ ''here for traceability.''))]"

definition run_manifest ::
  "(string \<Rightarrow> string) \<Rightarrow> int \<Rightarrow> string \<Rightarrow> string \<Rightarrow> topology_metadata \<Rightarrow> flow_metadata \<Rightarrow> cc_profile \<Rightarrow> config_metadata
     \<Rightarrow> (string list \<times> string) option \<Rightarrow> string option \<Rightarrow> run_args \<Rightarrow> (string, jval) dict" where
  "run_manifest resolve run_id run_dir created_at t f p c command acc_model_path args =
    (let tuner_enabled = (scheme args \<in> {''paraleon'', ''paraleon_plus''} \<and> command \<noteq> None);
         controller_enabled = (scheme args = ''acc'' \<and> command \<noteq> None);
         only = (\<lambda>b v. if b then Some v else None)
     in fold (\<lambda>(k, v). set_if k v)
       [(''collect_only'', only (collect_only args) (JBool True)),
        (''tuner_weights'', weights_json args),
        (''tuner_direction_prob_cap'', only tuner_enabled (JFloat (direction_prob_cap args))),
        (''tuner_config'', only tuner_enabled (tuner_config_json args)),
        (''paraleon_plus_config'', only (scheme args = ''paraleon_plus'')
          (JObj [(''size_view'', JStr ''wr_chunk''), (''chunk_kb'', JInt (paraleon_plus_chunk_kb args)),
                 (''chunk_bytes'', JInt (paraleon_plus_chunk_kb args * 1024)), (''disable_potential_large'', JBool True)])),
        (''expert_baseline'', only (scheme args = ''expert'') expert_json),
        (''fixed_params_file'', only (scheme args = ''fixed_params'')
          (case resolve_optional_path resolve (fixed_params_file args) of None \<Rightarrow> JNull | Some q \<Rightarrow> JStr q))]
       [(''id'', JInt run_id), (''run_dir'', JStr run_dir), (''created_at'', JStr created_at), (''message'', JStr (msg args)),
        (''scheme'', JStr (scheme args)), (''topology'', topology_json t (buffer_mb args)), (''workload'', flow_json f),
        (''config'', config_json p c (path_join run_dir ''config.txt'') args),
        (''files'', files_json run_dir (tm_path t) (fm_path f) c args tuner_enabled (map_option snd command) acc_model_path),
        (''tuner_enabled'', JBool tuner_enabled), (''controller_enabled'', JBool controller_enabled)])"

definition completed_manifest :: "string \<Rightarrow> int option \<Rightarrow> int option \<Rightarrow> bool \<Rightarrow> (string, jval) dict \<Rightarrow> (string, jval) dict" where
  "completed_manifest completed_at sim_rc ctl_rc tuner_enabled man =
    (let code = (\<lambda>rc. case rc of None \<Rightarrow> JNull | Some n \<Rightarrow> JInt n)
     in set_if ''tuner_returncode'' (if tuner_enabled then Some (code ctl_rc) else None)
          (dict_set ''controller_returncode'' (code ctl_rc)
            (dict_set ''simulator_returncode'' (code sim_rc) (dict_set ''completed_at'' (JStr completed_at) man))))"

section \<open>Preparing and running\<close>

record machine =
  files :: "string \<Rightarrow> string option"
  listing :: "(string \<times> bool) list"
  m_resolve :: "string \<Rightarrow> string"
  m_expanduser :: "string \<Rightarrow> string"
  ROOT_DIR :: string
  sys_executable :: string
  waf_succeeds :: bool
  m_environ :: "(string, string) dict"
  timestamp :: string
  created_at :: string
  completed_at :: string
  m_repr :: "pyfloat \<Rightarrow> string"

definition MIX_DIR :: "machine \<Rightarrow> string" where
  "MIX_DIR m = path_join (ROOT_DIR m) ''mix''"

record prepared =
  run_dir :: string
  topology :: topology_metadata
  workload :: flow_metadata
  trace_text :: string
  config_text :: string
  config_meta :: config_metadata
  controller :: "(string list \<times> string) option"
  parameter_text :: "string option"
  manifest :: "(string, jval) dict"
  child_env :: "(string, string) dict"

definition read_input :: "machine \<Rightarrow> string option \<Rightarrow> string \<Rightarrow> (string \<times> string) res" where
  "read_input m value default_name =
    res_bind (resolve_input_path (m_expanduser m) (m_resolve m) (\<lambda>p. files m p \<noteq> None) (ROOT_DIR m) (MIX_DIR m) value default_name)
      (\<lambda>path. Inr (path, the (files m path)))"

text \<open>The parameter file of a new run directory starts out missing.\<close>

definition prepare_run :: "machine \<Rightarrow> run_args \<Rightarrow> prepared res" where
  "prepare_run m args =
    (let exists = (\<lambda>p. files m p \<noteq> None); built = exists (path_join (ROOT_DIR m) ''build/scratch/third'') in
    res_bind (main_checks built (waf_succeeds m) args) (\<lambda>_.
    res_bind (create_run_dir (listing m) (timestamp m) (msg args)) (\<lambda>(run_id, name).
    let dir = path_join (MIX_DIR m) name in
    res_bind (read_input m (topo args) ''topo_s.txt'') (\<lambda>(topology_path, topology_content).
    res_bind (inspect_topology_file topology_path topology_content) (\<lambda>t.
    res_bind (read_input m (flow_file args) ''flow_normal_s2.txt'') (\<lambda>(flow_path, flow_content).
    res_bind (inspect_flow_file flow_path flow_content) (\<lambda>f.
    let trace_path = path_join dir ''trace.txt'' in
    res_bind (build_cc_profile args) (\<lambda>profile.
    let (config, c) = build_config (m_repr m) (m_resolve m) dir profile topology_path flow_path trace_path args;
        python = resolve_python_executable exists (ROOT_DIR m) (sys_executable m);
        default_model = path_join (ROOT_DIR m) ''models/acc_default_base_model.npz'';
        acc_path = resolve_acc_model_path (m_resolve m) exists default_model args in
    res_bind (build_controller_command (m_resolve m) exists default_model (ROOT_DIR m) python dir args) (\<lambda>command.
    res_bind (apply_scheme_specific_parameter_defaults (m_resolve m) (files m) args (ensure_parameter_file command None))
      (\<lambda>params.
    Inr \<lparr>run_dir = dir, topology = t, workload = f, trace_text = build_trace_file t, config_text = config, config_meta = c,
         controller = command, parameter_text = params,
         manifest = run_manifest (m_resolve m) run_id dir (created_at m) t f profile c command acc_path args,
         child_env = main_env (m_resolve m dir) (m_resolve m (path_join (ROOT_DIR m) ''build'')) args (m_environ m)\<rparr>))))))))))"

text \<open>Runtime artifacts: files of \<^verbatim>\<open>mix\<close> that move into the run directory when they exist.\<close>

definition move_runtime_artifacts :: "string \<Rightarrow> string \<Rightarrow> (string \<Rightarrow> string option) \<Rightarrow> string \<Rightarrow> string option" where
  "move_runtime_artifacts mix_dir dir fs =
    fold (\<lambda>name g. let source = path_join mix_dir name in
            case g source of None \<Rightarrow> g | Some c \<Rightarrow> (g(source := None))(path_join dir name := Some c))
      [''nic_datarate.tr'', ''packet_path.tr'', ''nic_cnp_received.tr''] fs"

text \<open>\<open>main\<close> after a successful preparation: \<open>ctl\<close> is what launching the controller gives and the state it is in when the
  simulator is done, \<open>sim\<close> what the simulator gives. The final manifest is written unless the try block raises. The files that the
  clean-up moves into the run directory (\<open>move_runtime_artifacts\<close>) are among neither the result nor the manifest.\<close>

definition finish_run ::
  "machine \<Rightarrow> run_args \<Rightarrow> prepared \<Rightarrow> pyerr + proc \<Rightarrow> pyerr + int \<Rightarrow> unit res \<times> (string, jval) dict \<times> run_outcome" where
  "finish_run m args p ctl sim =
    (let (result, out) = run_processes (controller p \<noteq> None) ctl sim;
         tuner_enabled = (scheme args \<in> {''paraleon'', ''paraleon_plus''} \<and> controller p \<noteq> None)
     in (result,
         if simulator_returncode out = None then manifest p
         else completed_manifest (completed_at m) (simulator_returncode out) (controller_returncode out) tuner_enabled (manifest p),
         out))"

section \<open>What the tuner reads of a prepared run\<close>

definition manifest_links :: "prepared \<Rightarrow> int option" where
  "manifest_links p =
    (case jget (JObj (manifest p)) ''topology'' of
       Some t \<Rightarrow> (case jget t ''link_count'' of Some (JInt n) \<Rightarrow> Some n | _ \<Rightarrow> None)
     | None \<Rightarrow> None)"

lemma file_lines_Cons: "nl \<notin> set l \<Longrightarrow> file_lines (l @ nl # rest) = l # file_lines rest"
  by (simp add: file_lines_def split_on_app Let_def) (simp add: split_on_def)

lemma read_input_file: "read_input m v d = Inr (path, c) \<Longrightarrow> files m path = Some c"
  by (auto simp: read_input_def resolve_input_path_def Let_def res_simps split: if_splits)

lemma inspect_topology_path: "inspect_topology_file path c = Inr t \<Longrightarrow> tm_path t = path"
  unfolding inspect_topology_file_def Let_def split_beta by (elim guardE res_bindE) auto

lemma inspect_flow_path: "inspect_flow_file path c = Inr f \<Longrightarrow> fm_path f = path"
  by (auto simp: inspect_flow_file_def Let_def split: if_splits sum.splits)

lemma manifest_topology:
  "dict_get (run_manifest r i d c t f pr cm cmd acc args) ''topology'' = Some (topology_json t (buffer_mb args))"
  unfolding run_manifest_def Let_def by (subst fold_set_if_get) (simp_all add: dict_get_def)

lemma res_bind_prodE:
  assumes "res_bind r (\<lambda>(a, b). f a b) = Inr y"
  obtains a b where "r = Inr (a, b)" "f a b = Inr y"
  using assms by (cases r) auto

text \<open>The facts about a prepared run that later steps use.\<close>

definition prepared_facts :: "machine \<Rightarrow> run_args \<Rightarrow> prepared \<Rightarrow> string \<Rightarrow> cc_profile \<Rightarrow> bool" where
  "prepared_facts m args p content profile \<longleftrightarrow>
     config_meta p = config_metadata_of (run_dir p) profile (fm_path (workload p)) args
     \<and> files m (tm_path (topology p)) = Some content
     \<and> inspect_topology_file (tm_path (topology p)) content = Inr (topology p)
     \<and> config_text p = concat (map (\<lambda>l. l @ [nl]) (config_lines (m_repr m) (m_resolve m) profile (config_meta p)
         (tm_path (topology p)) (fm_path (workload p)) (path_join (run_dir p) ''trace.txt'') args))
     \<and> dict_get (manifest p) ''topology'' = Some (topology_json (topology p) (buffer_mb args))
     \<and> child_env p = main_env (m_resolve m (run_dir p)) (m_resolve m (path_join (ROOT_DIR m) ''build'')) args (m_environ m)
     \<and> main_checks (files m (path_join (ROOT_DIR m) ''build/scratch/third'') \<noteq> None) (waf_succeeds m) args = Inr ()"

lemma prepare_runD: "prepare_run m args = Inr p \<Longrightarrow> \<exists>content profile. prepared_facts m args p content profile"
  unfolding prepare_run_def Let_def build_config_def prod.case
  apply (elim res_bind_prodE res_bindE)
  subgoal premises prems for u ri name tp tc t fp fc f profile cmd pt
  proof -
    have "files m tp = Some tc" "tm_path t = tp" "fm_path f = fp"
      using prems read_input_file inspect_topology_path inspect_flow_path by blast+
    then show ?thesis using prems
      by (intro exI [of _ tc] exI [of _ profile]) (auto simp: prepared_facts_def manifest_topology)
  qed
  done

lemma second_word_cline:
  assumes "v \<noteq> []" "\<not> is_space (hd v)" "\<not> is_space (last v)"
  shows "second_word (cline ''TOPOLOGY_FILE'' v) = Inr v"
proof -
  have sp: "\<not> is_space (CHR ''T'')" "\<not> is_space (CHR ''O'')" "\<not> is_space (CHR ''P'')" "\<not> is_space (CHR ''L'')"
    "\<not> is_space (CHR ''G'')" "\<not> is_space (CHR ''Y'')" "\<not> is_space (CHR ''_'')" "\<not> is_space (CHR ''F'')"
    "\<not> is_space (CHR ''I'')" "\<not> is_space (CHR ''E'')" "is_space (CHR '' '')" by code_simp+
  have "dropWhile is_space v = v" using assms(1,2) by (cases v) auto
  moreover have "str_strip v = v" using assms by (simp add: str_strip_def strip_by_id)
  ultimately show ?thesis using assms(1) by (simp add: second_word_def cline_def sp Let_def)
qed

lemma topology_header:
  assumes "inspect_topology_file path content = Inr t"
  shows "\<exists>l rest. file_lines content = l # rest \<and> length (split_ws l) = 3 \<and> py_int (split_ws l ! 2) = Inr (link_count t)"
proof -
  have "split_ws [] = []" by code_simp
  then obtain l rest where l: "file_lines content = l # rest" "length (split_ws l) = 3"
    using assms by (cases "file_lines content") (auto simp: inspect_topology_file_def read_line_def Let_def split: if_splits)
  obtain counts where c: "res_map py_int (split_ws l) = Inr counts" "link_count t = counts ! 2"
    using assms unfolding inspect_topology_file_def Let_def split_beta
    by (elim guardE res_bindE) (auto simp: l(1) read_line_def)
  from res_map_nth [OF c(1), of 2] l(2) c(2) have "py_int (split_ws l ! 2) = Inr (link_count t)" by simp
  with l show ?thesis by blast
qed

lemma scan_prepared_config:
  assumes f: "prepared_facts m args p content profile" and tp: "tp = tm_path (topology p)" "m_resolve m tp = tp" "isabs tp"
      "nl \<notin> set tp" "\<not> is_space (last tp)"
    and fs: "fs tp = files m tp"
  shows "scan_config mix fs (file_lines (config_text p)) = Inr (Some (link_count (topology p) * 2))"
proof -
  have "tp \<noteq> []" "hd tp = CHR ''/''" using tp(3) by (cases tp; simp add: isabs_def starts_with_def)+
  moreover have "\<not> is_space (CHR ''/'')" by code_simp
  ultimately have sw: "second_word (cline ''TOPOLOGY_FILE'' tp) = Inr tp" using tp(5) by (intro second_word_cline) auto
  obtain l rest where l: "file_lines content = l # rest" "length (split_ws l) = 3" "py_int (split_ws l ! 2) = Inr (link_count (topology p))"
    using f topology_header unfolding prepared_facts_def by blast
  have nls: "nl \<notin> set ''ENABLE_QCN 1''" "nl \<notin> set ''USE_DYNAMIC_PFC_THRESHOLD 1''" "nl \<notin> set ''PACKET_PAYLOAD_SIZE 1000''"
    "nl \<notin> set ''TOPOLOGY_FILE''" "nl \<noteq> CHR '' ''" by code_simp+
  with tp(4) have nlt: "nl \<notin> set (cline ''TOPOLOGY_FILE'' tp)" by (simp add: cline_def)
  have st: "starts_with ''TOPOLOGY_FILE '' (cline ''TOPOLOGY_FILE'' tp)" by (simp add: starts_with_def cline_def)
  have nst: "\<not> starts_with ''TOPOLOGY_FILE '' ''ENABLE_QCN 1''" "\<not> starts_with ''TOPOLOGY_FILE '' ''USE_DYNAMIC_PFC_THRESHOLD 1''"
    "\<not> starts_with ''TOPOLOGY_FILE '' ''PACKET_PAYLOAD_SIZE 1000''" "\<not> starts_with ''TOPOLOGY_FILE '' []" by code_simp+
  let ?ls = "config_lines (m_repr m) (m_resolve m) profile (config_meta p) tp (fm_path (workload p))
    (path_join (run_dir p) ''trace.txt'') args"
  have "?ls = [''ENABLE_QCN 1'', ''USE_DYNAMIC_PFC_THRESHOLD 1'', [], ''PACKET_PAYLOAD_SIZE 1000'', [],
      cline ''TOPOLOGY_FILE'' tp] @ drop 6 ?ls" by (simp add: config_lines_def tp(2) Let_def)
  then have "config_text p = concat (map (\<lambda>l. l @ [nl]) ([''ENABLE_QCN 1'', ''USE_DYNAMIC_PFC_THRESHOLD 1'', [],
      ''PACKET_PAYLOAD_SIZE 1000'', [], cline ''TOPOLOGY_FILE'' tp] @ drop 6 ?ls))"
    using f unfolding prepared_facts_def tp(1) [symmetric] by metis
  then obtain tail where "config_text p = ''ENABLE_QCN 1'' @ nl # ''USE_DYNAMIC_PFC_THRESHOLD 1'' @ nl # [] @ nl #
      ''PACKET_PAYLOAD_SIZE 1000'' @ nl # [] @ nl # cline ''TOPOLOGY_FILE'' tp @ nl # tail" by simp
  then have "file_lines (config_text p) = [''ENABLE_QCN 1'', ''USE_DYNAMIC_PFC_THRESHOLD 1'', [], ''PACKET_PAYLOAD_SIZE 1000'', [],
      cline ''TOPOLOGY_FILE'' tp] @ file_lines tail"
    by (simp only: file_lines_Cons [OF nls(1)] file_lines_Cons [OF nls(2)] file_lines_Cons [OF nls(3)] file_lines_Cons [OF nlt]
        file_lines_Cons [of "[]", simplified] append_Nil) simp
  moreover have "fs tp = Some content" using fs f tp(1) by (simp add: prepared_facts_def)
  ultimately show ?thesis using st nst sw l tp(3) by (simp add: Let_def)
qed

text \<open>C11: the tuner computes the PFC ratio over the right number of links: for every run directory \<^verbatim>\<open>main\<close>
  prepares, \<open>load_total_directed_links\<close> finds twice the link count of the topology file \<^verbatim>\<open>run.py\<close> checked,
  whether it reads the manifest or has to fall back to the configuration file, which names that topology.\<close>

theorem prepared_links_agree:
  assumes "prepare_run m args = Inr p" "tp = tm_path (topology p)" "m_resolve m tp = tp" "isabs tp" "nl \<notin> set tp"
    "\<not> is_space (last tp)" "fs tp = files m tp" "fs (mix_path (run_dir p) ''config.txt'') = Some (config_text p)"
  shows "load_total_directed_links (run_dir p) (manifest_links p) fs = Inr (link_count (topology p) * 2)
    \<and> load_total_directed_links (run_dir p) None fs = Inr (link_count (topology p) * 2)"
proof -
  obtain content profile where f: "prepared_facts m args p content profile" using prepare_runD [OF assms(1)] by blast
  have "manifest_links p = Some (link_count (topology p))"
    using f by (simp add: manifest_links_def prepared_facts_def jget_def topology_json_def dict_get_def)
  then show ?thesis
    using assms(8) scan_prepared_config [where fs = fs, OF f assms(2-7), of "run_dir p"]
    by (simp add: load_total_directed_links_def)
qed

definition sample_machine :: machine where
  "sample_machine =
    \<lparr>files = [''/r/mix/topo_s.txt'' \<mapsto> ''2 1 1'' @ [nl] @ ''1'' @ [nl], ''/r/mix/flow_normal_s2.txt'' \<mapsto> ''0'' @ [nl]],
     listing = [], m_resolve = (\<lambda>p. p), m_expanduser = (\<lambda>p. p), ROOT_DIR = ''/r'', sys_executable = ''python3'',
     waf_succeeds = True, m_environ = [], timestamp = ''01:12:00'', created_at = [], completed_at = [], m_repr = short_rep\<rparr>"

lemma sample_prepared:
  "\<exists>p. prepare_run sample_machine default_args = Inr p \<and> tm_path (topology p) = ''/r/mix/topo_s.txt''
     \<and> run_dir p = ''/r/mix/1-01:12:00-run'' \<and> link_count (topology p) = 1 \<and> controller p \<noteq> None"
proof -
  let ?m = sample_machine
  have mix: "MIX_DIR ?m = ''/r/mix''" by code_simp
  have t: "read_input ?m (Some ''topo_s.txt'') ''topo_s.txt'' = Inr (''/r/mix/topo_s.txt'', ''2 1 1'' @ [nl] @ ''1'' @ [nl])"
    "read_input ?m (Some ''flow_normal_s2.txt'') ''flow_normal_s2.txt'' = Inr (''/r/mix/flow_normal_s2.txt'', ''0'' @ [nl])"
    by code_simp+
  have "inspect_topology_file ''/r/mix/topo_s.txt'' (''2 1 1'' @ [nl] @ ''1'' @ [nl]) =
      Inr \<lparr>tm_name = ''topo_s.txt'', tm_path = ''/r/mix/topo_s.txt'', node_count = 2, switch_count = 1, link_count = 1, switch_ids = [1]\<rparr>"
    "inspect_flow_file ''/r/mix/flow_normal_s2.txt'' (''0'' @ [nl]) =
      Inr \<lparr>fm_name = ''flow_normal_s2.txt'', fm_path = ''/r/mix/flow_normal_s2.txt'', flow_count = 0\<rparr>"
    by code_simp+
  moreover have "create_run_dir [] ''01:12:00'' ''run'' = Inr (1, ''1-01:12:00-run'')" by code_simp
  moreover have "path_join ''/r/mix'' ''1-01:12:00-run'' = ''/r/mix/1-01:12:00-run''" by code_simp
  moreover have "main_checks b True default_args = Inr ()" for b by (simp add: main_checks_def default_args_def)
  moreover have "\<exists>pr. build_cc_profile default_args = Inr pr" by (simp add: build_cc_profile_def default_args_def Let_def)
  moreover have "scheme default_args = ''paraleon''" "no_tuner default_args = False" "topo default_args = Some ''topo_s.txt''"
    "flow_file default_args = Some ''flow_normal_s2.txt''" "msg default_args = ''run''" by (simp_all add: default_args_def)
  moreover have "listing ?m = []" "timestamp ?m = ''01:12:00''" "waf_succeeds ?m" by (simp_all add: sample_machine_def)
  ultimately show ?thesis using t
    by (auto simp: prepare_run_def mix build_config_def Let_def build_controller_command_def
        apply_scheme_specific_parameter_defaults_def)
qed

theorem prepared_links_agree_witness:
  "\<exists>p. prepare_run sample_machine default_args = Inr p
    \<and> load_total_directed_links (run_dir p) None
        (\<lambda>q. if q = ''/r/mix/topo_s.txt'' then files sample_machine q else Some (config_text p)) = Inr 2"
proof -
  obtain p where p: "prepare_run sample_machine default_args = Inr p" "tm_path (topology p) = ''/r/mix/topo_s.txt''"
    "run_dir p = ''/r/mix/1-01:12:00-run''" "link_count (topology p) = 1"
    using sample_prepared by blast
  have "isabs ''/r/mix/topo_s.txt''" "nl \<notin> set ''/r/mix/topo_s.txt''" "\<not> is_space (last ''/r/mix/topo_s.txt'')"
    "mix_path ''/r/mix/1-01:12:00-run'' ''config.txt'' \<noteq> ''/r/mix/topo_s.txt''" by code_simp+
  with prepared_links_agree [OF p(1) p(2) [symmetric], where fs = "\<lambda>q. if q = ''/r/mix/topo_s.txt'' then files sample_machine q else Some (config_text p)"]
  show ?thesis using p by (auto simp: sample_machine_def)
qed

section \<open>How a run ends\<close>

definition sim_result :: "pyerr + int \<Rightarrow> unit res" where
  "sim_result sim = res_bind sim (\<lambda>code. if code \<noteq> 0 then Inl SystemExit else Inr ())"

lemma run_processes_cases:
  "run_processes False ctl sim = (sim_result sim,
     \<lparr>simulator_returncode = case_sum (\<lambda>_. None) Some sim, controller_returncode = None, controller_end = None\<rparr>)"
  "run_processes True (Inl e) sim =
     (Inl e, \<lparr>simulator_returncode = None, controller_returncode = None, controller_end = None\<rparr>)"
  "run_processes True (Inr (Exited rc)) sim = (sim_result sim,
     \<lparr>simulator_returncode = case_sum (\<lambda>_. None) Some sim, controller_returncode = None, controller_end = Some (Exited rc)\<rparr>)"
  "run_processes True (Inr (Running a)) sim = (sim_result sim,
     \<lparr>simulator_returncode = case_sum (\<lambda>_. None) Some sim, controller_returncode = Some (case_option (-9) id a),
      controller_end = Some (Exited (case_option (-9) id a))\<rparr>)"
  by (simp_all add: run_processes_def terminate_process_def sim_result_def Let_def split: option.splits)

lemma sim_result_ok: "sim_result sim = Inr () \<longleftrightarrow> sim = Inr 0"
  by (cases sim) (auto simp: sim_result_def)

lemma completed_codes:
  "dict_get (completed_manifest t (Some n) rc b man) ''simulator_returncode'' = Some (JInt n)"
  "dict_get (completed_manifest t s None b man) ''controller_returncode'' = Some JNull"
  by (simp_all add: completed_manifest_def set_if_def dict_simps Let_def)

text \<open>C12: no controller outlives its run, and the result is the simulator's. Whatever the two processes do, after
  \<^verbatim>\<open>main\<close> the controller is not running; the run succeeds exactly when the controller (if there is one) was
  launched and the simulator returned 0; when launching the controller raises, the simulator is never started and
  the manifest stays as prepared. A controller that ended by itself, with whatever code, is recorded with the
  return code \<^verbatim>\<open>null\<close>, and the run counts as a success all the same.\<close>

theorem finish_run_outcome:
  assumes "finish_run m args p ctl sim = (result, man, out)"
  shows "(\<forall>a. controller_end out \<noteq> Some (Running a))
    \<and> (result = Inr () \<longleftrightarrow> sim = Inr 0 \<and> (controller p = None \<or> (\<exists>c. ctl = Inr c)))
    \<and> (\<forall>e. controller p \<noteq> None \<and> ctl = Inl e \<longrightarrow> result = Inl e \<and> man = manifest p)
    \<and> (\<forall>rc n. controller p \<noteq> None \<and> ctl = Inr (Exited rc) \<and> sim = Inr n \<longrightarrow>
         dict_get man ''controller_returncode'' = Some JNull \<and> dict_get man ''simulator_returncode'' = Some (JInt n))"
proof -
  note d = finish_run_def run_processes_cases sim_result_ok Let_def
  show ?thesis
  proof (cases "controller p = None")
    case True
    with assms show ?thesis by (auto simp: d)
  next
    case some: False
    show ?thesis
    proof (cases ctl)
      case (Inl e)
      with assms some show ?thesis by (auto simp: d)
    next
      case (Inr c)
      with assms some show ?thesis by (cases c) (auto simp: d completed_codes)
    qed
  qed
qed

theorem finish_run_outcome_witness:
  "\<exists>p man out. prepare_run sample_machine default_args = Inr p
     \<and> finish_run sample_machine default_args p (Inr (Exited 1)) (Inr 0) = (Inr (), man, out)
     \<and> dict_get man ''controller_returncode'' = Some JNull"
proof -
  obtain p where p: "prepare_run sample_machine default_args = Inr p" "controller p \<noteq> None" using sample_prepared by blast
  obtain r man out where f: "finish_run sample_machine default_args p (Inr (Exited 1)) (Inr 0) = (r, man, out)"
    by (metis prod_cases3)
  from finish_run_outcome [OF f] p(2) have "r = Inr ()" "dict_get man ''controller_returncode'' = Some JNull" by auto
  with p f show ?thesis by blast
qed

section \<open>The tuning window\<close>

text \<open>The tuning window lies inside the simulation and starts after the flows; arguments that pass the checks can make it
  empty.\<close>

lemma tuning_window:
  assumes "main_checks b w args = Inr ()" "0 \<le> start_time args" "0 \<le> tuning_start_offset_ms args"
    "tuning_start_offset_ms args / 1000 \<le> min (sim_time args - 5/100 - start_time args) (1/2)"
  shows "parameter_tuning_start (config_metadata_of d pr f args) \<le> parameter_tuning_end (config_metadata_of d pr f args)"
proof -
  have "(start_time args + tuning_start_offset_ms args / 1000) * 1000000000 \<le> min (sim_time args - 5/100) (start_time args + 5/10) * 1000000000"
    using assms(4) by (auto simp: min_def)
  moreover have "0 \<le> (start_time args + tuning_start_offset_ms args / 1000) * 1000000000" using assms(2,3) by simp
  ultimately show ?thesis by (simp add: config_metadata_of_def Let_def py_trunc_def floor_mono)
qed

lemma empty_tuning_window:
  fixes d pr f
  defines "args \<equiv> default_args\<lparr>sim_time := 206/100\<rparr>"
  shows "main_checks b True args = Inr ()
    \<and> parameter_tuning_end (config_metadata_of d pr f args) < parameter_tuning_start (config_metadata_of d pr f args)"
  by (simp add: args_def main_checks_def default_args_def config_metadata_of_def Let_def py_trunc_def)

end
