(* ===== verification/LogAnalysis.thy ===== *)
theory LogAnalysis
  imports RunMain "HOL-Library.List_Lexorder" "HOL-Library.Char_ord"
begin

text \<open>
  The readers of the tuner's log: \<^verbatim>\<open>analysis/tuning_effect.py\<close> (blocks of the log, parameter and utility tables,
  output names), \<^verbatim>\<open>analysis/utility_components_plot.py\<close> (utility columns) and
  \<^verbatim>\<open>analysis/direction_cap_history.py\<close> (annealing rounds and the direction cap they imply).

  A parsed value is a \<open>pval\<close>; a block is a dictionary whose entries are values or dictionaries of values. A data frame is
  the list of its rows (dictionaries whose entries may be None). \<open>to_numeric\<close> is pandas' coercion. The figures
  and the main functions are in \<open>LogMains\<close>.
\<close>

section \<open>Values and lines\<close>

datatype pval = VBool bool | VInt int | VFloat pyfloat | VStr string

definition parse_scalar :: "string \<Rightarrow> pval" where
  "parse_scalar value =
    (let token = str_strip value in
     if str_lower token = ''true'' then VBool True
     else if str_lower token = ''false'' then VBool False
     else if list_ex (\<lambda>c. c \<in> set ''.eE'') token
     then (case py_float token of Inr x \<Rightarrow> VFloat x | Inl _ \<Rightarrow> VStr token)
     else (case py_int token of Inr n \<Rightarrow> VInt n | Inl _ \<Rightarrow> VStr token))"

text \<open>\<open>cur\<close> is the text since the last cut, reversed.\<close>

fun top_level_parts :: "nat \<Rightarrow> string \<Rightarrow> string \<Rightarrow> string list" where
  "top_level_parts depth cur [] = [str_strip (rev cur)]"
| "top_level_parts depth cur (c # cs) =
    (if c = CHR ''('' then top_level_parts (Suc depth) (c # cur) cs
     else if c = CHR '')'' then top_level_parts (depth - 1) (c # cur) cs
     else if c = CHR '','' \<and> depth = 0 then str_strip (rev cur) # top_level_parts depth [] cs
     else top_level_parts depth (c # cur) cs)"

definition split_top_level_commas :: "string \<Rightarrow> string list" where
  "split_top_level_commas s = filter (\<lambda>part. part \<noteq> []) (top_level_parts 0 [] s)"

definition set_assignment :: "string \<Rightarrow> (string, pval) dict \<Rightarrow> (string, pval) dict" where
  "set_assignment part values =
    (case split_first (CHR ''='') part of
       None \<Rightarrow> values
     | Some (key, value) \<Rightarrow> dict_set (str_strip key) (parse_scalar value) values)"

definition parse_key_value_line :: "string \<Rightarrow> (string, pval) dict" where
  "parse_key_value_line s = fold set_assignment (split_top_level_commas s) []"

text \<open>\<open>UTILITY_SEGMENT_RE\<close>: no class of the pattern contains the character that follows it, so each group is the longest
  run.\<close>

definition after :: "string \<Rightarrow> string \<Rightarrow> string option" where
  "after pre s = (if starts_with pre s then Some (drop (length pre) s) else None)"

definition utility_segment :: "string \<Rightarrow> (string \<times> string \<times> string \<times> string) option" where
  "utility_segment part =
    (let name = takeWhile is_word part in
     case after ''='' (dropWhile is_word part) of None \<Rightarrow> None | Some r1 \<Rightarrow>
     (let nrm = takeWhile (\<lambda>c. \<not> is_space c) r1 in
      case after '' (raw='' (dropWhile (\<lambda>c. \<not> is_space c) r1) of None \<Rightarrow> None | Some r2 \<Rightarrow>
      (let raw = takeWhile (\<lambda>c. c \<noteq> CHR '','') r2 in
       case after '', weighted='' (dropWhile (\<lambda>c. c \<noteq> CHR '','') r2) of None \<Rightarrow> None | Some r3 \<Rightarrow>
       (let weighted = takeWhile (\<lambda>c. c \<noteq> CHR '')'') r3; rest = dropWhile (\<lambda>c. c \<noteq> CHR '')'') r3 in
        if rest \<in> {'')'', '')'' @ [nl]} \<and> name \<noteq> [] \<and> nrm \<noteq> [] \<and> raw \<noteq> [] \<and> weighted \<noteq> []
        then Some (name, nrm, raw, weighted) else None))))"

function str_remove :: "string \<Rightarrow> string \<Rightarrow> string" where
  "str_remove pat s =
    (if pat = [] \<or> s = [] then s
     else if starts_with pat s then str_remove pat (drop (length pat) s)
     else hd s # str_remove pat (tl s))"
  by pat_completeness auto
termination
  by (relation "measure (\<lambda>(pat, s). length s)") auto

definition ends_with :: "string \<Rightarrow> string \<Rightarrow> bool" where
  "ends_with suf s \<longleftrightarrow> starts_with (rev suf) (rev s)"

definition parse_utility_part :: "string \<Rightarrow> (string, pval) dict \<Rightarrow> (string, pval) dict" where
  "parse_utility_part part values =
    (case utility_segment part of
       Some (name, nrm, raw, weighted) \<Rightarrow>
         (let prefix = (if ends_with ''_norm'' name then str_remove ''_norm'' name else name)
          in dict_set (prefix @ ''_weighted'') (parse_scalar weighted)
               (dict_set (prefix @ ''_raw'') (parse_scalar raw) (dict_set name (parse_scalar nrm) values)))
     | None \<Rightarrow> set_assignment part values)"

definition parse_utility_line :: "string \<Rightarrow> (string, pval) dict" where
  "parse_utility_line s = fold parse_utility_part (split_top_level_commas s) []"

section \<open>Blocks\<close>

datatype bval = BScalar pval | BDict "(string, pval) dict"

type_synonym block = "(string, bval) dict"

text \<open>\<^verbatim>\<open>str.splitlines\<close> on the first 256 characters.\<close>

definition is_linebreak :: "char \<Rightarrow> bool" where
  "is_linebreak c = ((of_char c :: nat) \<in> {10, 11, 12, 13, 28, 29, 30, 133})"

function splitlines_from :: "string \<Rightarrow> string \<Rightarrow> string list" where
  "splitlines_from cur [] = (if cur = [] then [] else [rev cur])"
| "splitlines_from cur (c # cs) =
    (if is_linebreak c
     then rev cur # splitlines_from [] (if of_char c = (13 :: nat) \<and> cs \<noteq> [] \<and> hd cs = nl then tl cs else cs)
     else splitlines_from (c # cur) cs)"
  by pat_completeness auto
termination
  by (relation "measure (\<lambda>(cur, s). length s)") auto

definition py_splitlines :: "string \<Rightarrow> string list" where
  "py_splitlines s = splitlines_from [] s"

definition set_section :: "string \<Rightarrow> block \<Rightarrow> block" where
  "set_section line block =
    (case split_first (CHR '':'') (str_strip line) of
       None \<Rightarrow> block
     | Some (prefix, content) \<Rightarrow>
         (let content = str_strip content in
          if prefix = ''utility'' then dict_set ''utility'' (BDict (parse_utility_line content)) block
          else dict_set prefix (BDict (parse_key_value_line content)) block))"

definition block_lines :: "string \<Rightarrow> string list" where
  "block_lines s = map str_rstrip (filter (\<lambda>line. str_strip line \<noteq> []) (py_splitlines s))"

definition parse_block :: "string \<Rightarrow> block option" where
  "parse_block s =
    (case block_lines s of
       [] \<Rightarrow> None
     | l # rest \<Rightarrow>
         (case split_first (CHR ''='') l of
            None \<Rightarrow> None
          | Some (first_key, first_value) \<Rightarrow>
              Some (fold set_section rest [(str_strip first_key, BScalar (parse_scalar first_value))])))"

text \<open>\<^verbatim>\<open>text.split('\n\n')\<close>: \<open>cur\<close> is the text since the last cut, reversed.\<close>

fun split_blocks :: "string \<Rightarrow> string \<Rightarrow> string list" where
  "split_blocks cur [] = [rev cur]"
| "split_blocks cur [c] = [rev (c # cur)]"
| "split_blocks cur (c # d # cs) =
    (if c = nl \<and> d = nl then rev cur # split_blocks [] cs else split_blocks (c # cur) (d # cs))"

definition load_tuning_blocks :: "string \<Rightarrow> block list res" where
  "load_tuning_blocks content =
    (let blocks = List.map_filter parse_block (split_blocks [] content)
     in if blocks = [] then Inl SystemExit else Inr blocks)"

definition flt_of :: "bval \<Rightarrow> pyfloat res" where
  "flt_of v =
    (case v of
       BScalar (VBool b) \<Rightarrow> Inr (Fin (if b then 1 else 0))
     | BScalar (VInt n) \<Rightarrow> Inr (Fin (of_int n))
     | BScalar (VFloat x) \<Rightarrow> Inr x
     | BScalar (VStr s) \<Rightarrow> py_float s
     | BDict _ \<Rightarrow> Inl TypeError)"

definition keep_block :: "pyfloat option \<Rightarrow> pyfloat option \<Rightarrow> block \<Rightarrow> bool res" where
  "keep_block from_time to_time block =
    (case dict_get block ''sim_time'' of
       None \<Rightarrow> Inr False
     | Some v \<Rightarrow> res_bind (flt_of v) (\<lambda>sim_time.
         Inr (\<not> (case from_time of None \<Rightarrow> False | Some a \<Rightarrow> flt_lt sim_time a)
              \<and> \<not> (case to_time of None \<Rightarrow> False | Some b \<Rightarrow> flt_lt b sim_time))))"

definition filter_blocks_by_time :: "block list \<Rightarrow> pyfloat option \<Rightarrow> pyfloat option \<Rightarrow> block list res" where
  "filter_blocks_by_time blocks from_time to_time =
    res_bind (res_map (keep_block from_time to_time) blocks) (\<lambda>keeps.
      (let kept = map fst (filter snd (zip blocks keeps))
       in if kept = [] then Inl SystemExit else Inr kept))"

definition format_time_node :: "pyfloat \<Rightarrow> string" where
  "format_time_node t = format_float t"

section \<open>Tables\<close>

definition get_dict :: "block \<Rightarrow> string \<Rightarrow> (string, pval) dict res" where
  "get_dict block key =
    (case dict_get block key of
       None \<Rightarrow> Inr []
     | Some (BDict d) \<Rightarrow> Inr d
     | Some (BScalar (VStr s)) \<Rightarrow> if s = [] then Inr [] else Inl ValueError
     | Some (BScalar _) \<Rightarrow> Inl TypeError)"

definition new_names :: "string list \<Rightarrow> (string, pval) dict \<Rightarrow> string list" where
  "new_names names parameters = fold (\<lambda>n ns. if n \<in> set ns then ns else ns @ [n]) (dict_keys parameters) names"

definition time_key :: "block \<Rightarrow> string res" where
  "time_key block =
    (case dict_get block ''sim_time'' of None \<Rightarrow> Inl TypeError | Some v \<Rightarrow> res_bind (flt_of v) (\<lambda>x. Inr (format_time_node x)))"

text \<open>The frame of parameters: its index, and its columns in insertion order.\<close>

definition build_parameter_dataframe :: "block list \<Rightarrow> (string list \<times> (string, (string, pval) dict) dict) res" where
  "build_parameter_dataframe blocks =
    res_bind (res_map (\<lambda>b. get_dict b ''parameters'') blocks) (\<lambda>ps.
    res_bind (res_map time_key blocks) (\<lambda>ts.
      Inr (fold (\<lambda>p ns. new_names ns p) ps [], fold (\<lambda>(t, p). dict_set t p) (zip ts ps) [])))"

fun num_of :: "pval \<Rightarrow> pynum option" where
  "num_of (VBool b) = Some (PInt (if b then 1 else 0))"
| "num_of (VInt n) = Some (PInt n)"
| "num_of (VFloat x) = Some (PFlt x)"
| "num_of (VStr s) = None"

definition pval_sub :: "pval \<Rightarrow> pval \<Rightarrow> pval res" where
  "pval_sub a b =
    (case (num_of a, num_of b) of
       (Some (PInt m), Some (PInt n)) \<Rightarrow> Inr (VInt (m - n))
     | (Some x, Some y) \<Rightarrow> Inr (VFloat (flt_add (num_flt x) (flt_neg (num_flt y))))
     | _ \<Rightarrow> Inl TypeError)"

type_synonym frame_row = "(string, bval option) dict"

definition add_cells :: "(string, pval) dict \<Rightarrow> frame_row \<Rightarrow> frame_row" where
  "add_cells d row = fold (\<lambda>(k, v). dict_set k (Some (BScalar v))) d row"

definition tuning_columns :: "string list" where
  "tuning_columns = [''session'', ''round'', ''state'', ''mode'', ''candidate'', ''accepted'', ''best_utility'']"

definition utility_row :: "block \<Rightarrow> pval option \<Rightarrow> (frame_row \<times> pval option) res" where
  "utility_row block previous_total =
    res_bind (get_dict block ''utility'') (\<lambda>utility.
    res_bind (case dict_get block ''tuning'' of None \<Rightarrow> Inr [] | Some (BDict d) \<Rightarrow> Inr d | Some (BScalar _) \<Rightarrow> Inl AttributeError)
      (\<lambda>tuning.
    (let row = (''sim_time'', dict_get block ''sim_time'') # map (\<lambda>k. (k, map_option BScalar (dict_get tuning k))) tuning_columns;
         row = add_cells utility row;
         total_value = dict_get utility ''total'' in
     case (previous_total, total_value) of
       (Some p, Some t) \<Rightarrow> res_bind (pval_sub t p) (\<lambda>d. Inr (dict_set ''delta_total'' (Some (BScalar d)) row, total_value))
     | _ \<Rightarrow> Inr (dict_set ''delta_total'' None row, total_value))))"

fun utility_rows :: "pval option \<Rightarrow> block list \<Rightarrow> frame_row list res" where
  "utility_rows previous_total [] = Inr []"
| "utility_rows previous_total (b # bs) =
    res_bind (utility_row b previous_total) (\<lambda>(row, t). res_bind (utility_rows t bs) (\<lambda>rows. Inr (row # rows)))"

definition build_utility_dataframe :: "block list \<Rightarrow> frame_row list res" where
  "build_utility_dataframe blocks = utility_rows None blocks"

definition build_parameter_plot_dataframe :: "block list \<Rightarrow> (frame_row list \<times> string list) res" where
  "build_parameter_plot_dataframe blocks =
    res_bind (res_map (\<lambda>b. res_bind (get_dict b ''utility'') (\<lambda>u. res_bind (get_dict b ''parameters'') (\<lambda>p. Inr (b, u, p)))) blocks)
      (\<lambda>bs. Inr (map (\<lambda>(b, u, p). add_cells (u @ p) [(''sim_time'', dict_get b ''sim_time'')]) bs,
                 fold (\<lambda>(b, u, p) ns. new_names ns p) bs []))"

section \<open>Where the log is and what the outputs are called\<close>

record effect_args =
  ea_id :: "string option"
  ea_log :: "string option"
  ea_start :: "pyfloat option"
  ea_end :: "pyfloat option"

definition parse_experiment_id :: "string \<Rightarrow> int res" where
  "parse_experiment_id raw_value = py_int (str_strip raw_value)"

fun find_run_dir :: "int \<Rightarrow> (string \<times> bool) list \<Rightarrow> string res" where
  "find_run_dir experiment_id [] = Inl SystemExit"
| "find_run_dir experiment_id ((name, is_dir) # rest) =
    (if \<not> is_dir \<or> \<not> py_isdigit (dir_prefix name) then find_run_dir experiment_id rest
     else res_bind (py_int (dir_prefix name)) (\<lambda>n.
       if n = experiment_id then Inr name else find_run_dir experiment_id rest))"

definition resolve_run_dir :: "string \<Rightarrow> (string \<times> bool) list \<Rightarrow> int \<Rightarrow> string res" where
  "resolve_run_dir mix_dir entries experiment_id =
    res_bind (find_run_dir experiment_id entries) (\<lambda>name. Inr (path_join mix_dir name))"

text \<open>\<open>manifest_of\<close> is the parsed \<^verbatim>\<open>manifest.json\<close> of a directory; a missing file is an empty object.\<close>

definition load_manifest :: "(string \<Rightarrow> jval option) \<Rightarrow> string \<Rightarrow> jval" where
  "load_manifest manifest_of dir = (case manifest_of dir of None \<Rightarrow> JObj [] | Some v \<Rightarrow> v)"

definition manifest_file :: "jval \<Rightarrow> string \<Rightarrow> string option" where
  "manifest_file man key =
    (case jget man ''files'' of None \<Rightarrow> None
     | Some fs \<Rightarrow> (case jget fs key of Some (JStr s) \<Rightarrow> if s = [] then None else Some s | _ \<Rightarrow> None))"

definition logged_path :: "jval \<Rightarrow> string option" where
  "logged_path man = (case manifest_file man ''tuner_log'' of Some s \<Rightarrow> Some s | None \<Rightarrow> manifest_file man ''controller_log'')"

definition log_of_run :: "(string \<Rightarrow> bool) \<Rightarrow> (string \<Rightarrow> jval option) \<Rightarrow> string \<Rightarrow> string res" where
  "log_of_run exists manifest_of dir =
    (let fallback = path_join dir ''tuner.log'';
         use_fallback = (if exists fallback then Inr fallback else Inl SystemExit) in
     case logged_path (load_manifest manifest_of dir) of
       Some p \<Rightarrow> if exists p then Inr p else use_fallback
     | None \<Rightarrow> use_fallback)"

definition resolve_tuner_log_path ::
  "(string \<Rightarrow> string) \<Rightarrow> (string \<Rightarrow> bool) \<Rightarrow> (string \<Rightarrow> jval option) \<Rightarrow> string \<Rightarrow> (string \<times> bool) list \<Rightarrow> effect_args \<Rightarrow> string res" where
  "resolve_tuner_log_path resolve exists manifest_of mix_dir entries args =
    (case ea_log args of
       Some l \<Rightarrow> if l \<noteq> [] then (if exists (resolve l) then Inr (resolve l) else Inl SystemExit)
                 else (case ea_id args of None \<Rightarrow> Inl SystemExit
                       | Some i \<Rightarrow> res_bind (parse_experiment_id i) (\<lambda>n.
                           res_bind (resolve_run_dir mix_dir entries n) (log_of_run exists manifest_of)))
     | None \<Rightarrow> (case ea_id args of None \<Rightarrow> Inl SystemExit
                | Some i \<Rightarrow> res_bind (parse_experiment_id i) (\<lambda>n.
                    res_bind (resolve_run_dir mix_dir entries n) (log_of_run exists manifest_of))))"

text \<open>\<^verbatim>\<open>re.sub\<close> with a run of characters replaced by one underscore.\<close>

definition stem_char :: "char \<Rightarrow> bool" where
  "stem_char c = (let n = of_char c :: nat in
     (48 \<le> n \<and> n \<le> 57) \<or> (65 \<le> n \<and> n \<le> 90) \<or> (97 \<le> n \<and> n \<le> 122) \<or> n \<in> {45, 46, 95})"

function squash_underscore :: "(char \<Rightarrow> bool) \<Rightarrow> string \<Rightarrow> string" where
  "squash_underscore P [] = []"
| "squash_underscore P (c # cs) =
    (if P c then CHR ''_'' # squash_underscore P (dropWhile P cs) else c # squash_underscore P cs)"
  by pat_completeness auto
termination
  by (relation "measure (\<lambda>(P, s). length s)") (auto intro: le_imp_less_Suc length_dropWhile_le)

definition path_parent_name :: "string \<Rightarrow> string" where
  "path_parent_name p = (case path_parts p of [] \<Rightarrow> [] | ps \<Rightarrow> if butlast ps = [] then [] else last (butlast ps))"

definition time_suffix :: "string \<Rightarrow> pyfloat option \<Rightarrow> string list" where
  "time_suffix word v = (case v of None \<Rightarrow> [] | Some x \<Rightarrow> [word @ map (\<lambda>c. if c = CHR ''.'' then CHR ''p'' else c) (format_time_node x)])"

definition build_output_stem :: "effect_args \<Rightarrow> string \<Rightarrow> string res" where
  "build_output_stem args log_path =
    res_bind (case ea_id args of Some i \<Rightarrow> res_bind (parse_experiment_id i) (\<lambda>n. Inr (''exp_'' @ py_str_int n))
              | None \<Rightarrow> Inr (path_parent_name log_path @ ''_'' @ path_stem log_path)) (\<lambda>source_name.
    (let suffix_parts = time_suffix ''from_'' (ea_start args) @ time_suffix ''to_'' (ea_end args);
         full_name = (if suffix_parts \<noteq> [] then source_name @ ''_'' @ str_join ''_'' suffix_parts else source_name)
     in Inr (squash_underscore (\<lambda>c. \<not> stem_char c) full_name)))"

definition build_time_window_label :: "effect_args \<Rightarrow> string option" where
  "build_time_window_label args =
    (case (ea_start args, ea_end args) of
       (None, None) \<Rightarrow> None
     | (Some a, Some b) \<Rightarrow> Some (fmt_g a @ '' <= t <= '' @ fmt_g b @ '' s'')
     | (Some a, None) \<Rightarrow> Some (''t >= '' @ fmt_g a @ '' s'')
     | (None, Some b) \<Rightarrow> Some (''t <= '' @ fmt_g b @ '' s''))"

definition build_plot_output_path :: "string \<Rightarrow> effect_args \<Rightarrow> string \<Rightarrow> string res" where
  "build_plot_output_path script_dir args log_path =
    res_bind (build_output_stem args log_path) (\<lambda>stem. Inr (path_join script_dir (''utility_history_'' @ stem @ ''.png'')))"

definition build_parameter_scatter_dir :: "string \<Rightarrow> effect_args \<Rightarrow> string \<Rightarrow> string res" where
  "build_parameter_scatter_dir script_dir args log_path =
    res_bind (build_output_stem args log_path) (\<lambda>stem. Inr (path_join script_dir (''parameter_scatter_'' @ stem)))"

definition build_plot_title :: "effect_args \<Rightarrow> string \<Rightarrow> string res" where
  "build_plot_title args log_path =
    res_bind (case ea_id args of
        Some i \<Rightarrow> res_bind (parse_experiment_id i) (\<lambda>n. Inr (''Utility History (Experiment '' @ py_str_int n @ '')''))
      | None \<Rightarrow> Inr (''Utility History ('' @ path_parent_name log_path @ '')'')) (\<lambda>title.
      Inr (case build_time_window_label args of None \<Rightarrow> title | Some l \<Rightarrow> title @ '', '' @ l))"

section \<open>Utility columns\<close>

definition uc_set_section :: "string \<Rightarrow> block \<Rightarrow> block" where
  "uc_set_section line block =
    (case split_first (CHR '':'') (str_strip line) of
       None \<Rightarrow> block
     | Some (prefix, content) \<Rightarrow>
         if prefix = ''utility'' then dict_set ''utility'' (BDict (parse_utility_line (str_strip content))) block else block)"

definition uc_parse_block :: "string \<Rightarrow> block option" where
  "uc_parse_block s =
    (case block_lines s of
       [] \<Rightarrow> None
     | l # rest \<Rightarrow>
         (case split_first (CHR ''='') l of
            None \<Rightarrow> None
          | Some (first_key, first_value) \<Rightarrow>
              Some (fold uc_set_section rest [(str_strip first_key, BScalar (parse_scalar first_value))])))"

definition uc_load_blocks :: "string \<Rightarrow> block list res" where
  "uc_load_blocks content =
    (let blocks = List.map_filter uc_parse_block (split_blocks [] content)
     in if blocks = [] then Inl SystemExit else Inr blocks)"

definition uc_columns :: "string list" where
  "uc_columns = [''throughput_norm'', ''rtt_norm'', ''pfc_norm'', ''throughput_raw'', ''rtt_raw'', ''pfc_raw'', ''total'']"

definition uc_build_dataframe :: "(bval option \<Rightarrow> pyfloat) \<Rightarrow> block list \<Rightarrow> (string, pyfloat) dict list res" where
  "uc_build_dataframe to_numeric blocks =
    res_bind (res_map (\<lambda>b. res_bind (get_dict b ''utility'') (\<lambda>utility.
        Inr ((''sim_time'', to_numeric (dict_get b ''sim_time''))
             # map (\<lambda>k. (k, to_numeric (map_option BScalar (dict_get utility k)))) uc_columns))) blocks)
      (\<lambda>rows. Inr (filter (\<lambda>row. dict_get row ''sim_time'' \<noteq> Some NaN) rows))"

section \<open>The history of the direction cap\<close>

text \<open>\<^verbatim>\<open>glob\<close> of \<^verbatim>\<open>id-*\<close>, sorted, last match.\<close>

definition cap_resolve_run_dir :: "string \<Rightarrow> string list \<Rightarrow> int \<Rightarrow> string res" where
  "cap_resolve_run_dir mix_dir names experiment_id =
    (let matches = sort (filter (starts_with (py_str_int experiment_id @ ''-'')) names)
     in if matches = [] then Inl SystemExit else Inr (path_join mix_dir (last matches)))"

definition resolve_tuner_log :: "(string \<Rightarrow> bool) \<Rightarrow> (string \<Rightarrow> jval option) \<Rightarrow> string \<Rightarrow> string list \<Rightarrow> int \<Rightarrow> string res" where
  "resolve_tuner_log exists manifest_of mix_dir names experiment_id =
    res_bind (cap_resolve_run_dir mix_dir names experiment_id) (log_of_run exists manifest_of)"

text \<open>\<^verbatim>\<open>re.search\<close> of a literal followed by a run of characters.\<close>

fun search_run :: "string \<Rightarrow> (char \<Rightarrow> bool) \<Rightarrow> string \<Rightarrow> string option" where
  "search_run pat P [] = None"
| "search_run pat P (c # cs) =
    (if starts_with pat (c # cs) \<and> takeWhile P (drop (length pat) (c # cs)) \<noteq> []
     then Some (takeWhile P (drop (length pat) (c # cs))) else search_run pat P cs)"

text \<open>\<^verbatim>\<open>re.search(r"accepted=(true|false)", line)\<close>.\<close>

fun search_accepted :: "string \<Rightarrow> bool option" where
  "search_accepted [] = None"
| "search_accepted (c # cs) =
    (if starts_with ''accepted=true'' (c # cs) then Some True
     else if starts_with ''accepted=false'' (c # cs) then Some False else search_accepted cs)"

record round_row =
  rr_round :: int
  rr_sim_time :: pyfloat
  candidate_total :: real
  rr_accepted :: "bool option"
  delta_true :: real

datatype record_line = RSkip | RBaseline real | RRound int pyfloat real "bool option"

text \<open>What one block contributes. The characters of the searched number are digits and dots, so a number that parses is
  finite.\<close>

definition read_record :: "string \<Rightarrow> record_line res" where
  "read_record block =
    (let ls = filter (\<lambda>l. l \<noteq> []) (map str_strip (py_splitlines block)) in
     if ls = [] \<or> \<not> starts_with ''sim_time='' (hd ls) then Inr RSkip
     else res_bind (py_float (snd (the (split_first (CHR ''='') (hd ls))))) (\<lambda>now.
       case (find (starts_with ''utility:'') ls, find (starts_with ''tuning:'') ls) of
         (Some utility_line, Some tuning_line) \<Rightarrow>
           (case (search_run ''total='' (\<lambda>c. is_digit c \<or> c = CHR ''.'') utility_line,
                  search_run ''round='' is_digit tuning_line,
                  search_run ''state='' (\<lambda>c. ((97 :: nat) \<le> of_char c \<and> of_char c \<le> (122 :: nat)) \<or> c = CHR ''_'') tuning_line) of
              (Some total_m, Some round_m, Some state) \<Rightarrow>
                res_bind (py_float total_m) (\<lambda>t. res_bind (py_int round_m) (\<lambda>round_no.
                  Inr (if round_no = 0 \<and> state = ''baseline'' then RBaseline (flt_val t)
                       else if round_no = 0 then RSkip
                       else RRound round_no now (flt_val t) (search_accepted tuning_line))))
            | _ \<Rightarrow> Inr RSkip)
       | _ \<Rightarrow> Inr RSkip))"

fun collect_records :: "real option \<Rightarrow> string list \<Rightarrow> round_row list res" where
  "collect_records current [] = Inr []"
| "collect_records current (b # bs) =
    res_bind (read_record b) (\<lambda>r.
      case r of
        RSkip \<Rightarrow> collect_records current bs
      | RBaseline t \<Rightarrow> collect_records (Some t) bs
      | RRound n now t acc \<Rightarrow>
          (case current of
             None \<Rightarrow> Inl TypeError
           | Some v \<Rightarrow> res_bind (collect_records (if acc = Some True then Some t else Some v) bs) (\<lambda>rows.
               Inr (\<lparr>rr_round = n, rr_sim_time = now, candidate_total = t, rr_accepted = acc, delta_true = t - v\<rparr> # rows))))"

definition parse_round_records :: "string \<Rightarrow> round_row list res" where
  "parse_round_records content = collect_records None (filter (\<lambda>b. str_strip b \<noteq> []) (split_blocks [] content))"

record history_row =
  hr_row :: round_row
  bad_signal :: real
  hr_bad_rate :: real
  hr_cap :: real

fun history_from :: "real \<Rightarrow> real \<Rightarrow> real \<Rightarrow> real \<Rightarrow> round_row list \<Rightarrow> history_row list" where
  "history_from pmax alpha eps bad_rate [] = []"
| "history_from pmax alpha eps bad_rate (row # rows) =
    (let bad = (if delta_true row < - eps then 1 else 0);
         rate = alpha * bad + (1 - alpha) * bad_rate;
         p_value = 1/2 + (pmax - 1/2) * (1 - rate)
     in \<lparr>hr_row = row, bad_signal = bad, hr_bad_rate = rate, hr_cap = p_value\<rparr> # history_from pmax alpha eps rate rows)"

definition reconstruct_history :: "round_row list \<Rightarrow> real \<Rightarrow> real \<Rightarrow> real \<Rightarrow> history_row list" where
  "reconstruct_history rows pmax alpha eps = history_from pmax alpha eps 0 rows"

end
