(* ===== verification/LogRoundTrip.thy ===== *)
theory LogRoundTrip
  imports LogAnalysis
begin

text \<open>
  The tuner writes its log (theory \<open>TunerLog\<close>), the analysis scripts read it (theory \<open>LogAnalysis\<close>). Here the two
  meet: every number, line and block that \<open>log_cycle_summary\<close> writes is read back by \<open>load_tuning_blocks\<close>
  within half of the sixth decimal, for a log of any length.
\<close>

section \<open>Reading a logged number\<close>

definition reads :: "pval \<Rightarrow> real \<Rightarrow> bool" where
  "reads v x = (case v of VInt n \<Rightarrow> \<bar>of_int n - x\<bar> \<le> 1 / 2000000 | VFloat (Fin q) \<Rightarrow> \<bar>q - x\<bar> \<le> 1 / 2000000 | _ \<Rightarrow> False)"

lemma not_word_number:
  assumes "s \<noteq> []" "is_digit (hd s) \<or> hd s = CHR ''-''"
  shows "str_lower s \<noteq> ''true'' \<and> str_lower s \<noteq> ''false''"
proof -
  obtain c cs where s: "s = c # cs" using assms(1) by (cases s) auto
  have "to_lower (CHR ''-'') = CHR ''-''" by code_simp
  moreover have "is_digit c \<Longrightarrow> to_lower c = c \<and> c \<noteq> CHR ''t'' \<and> c \<noteq> CHR ''f''" by (auto simp: to_lower_def is_digit_def Let_def)
  ultimately show ?thesis using s assms(2) by (auto simp: str_lower_def)
qed

lemma parse_scalar_number: "reads (parse_scalar (trim_fixed (fmt_fixed 6 x))) x"
proof -
  obtain ip fp where d: "ip \<noteq> []" "list_all is_digit ip" "list_all is_digit fp"
    "trim_fixed (fmt_fixed 6 x) = (if x < 0 then ''-'' else []) @ decimal ip fp"
    "(if x < 0 then -1 else 1) * dec_val ip fp = fixed_val 6 x"
    by (rule trimmed_decimal [of 6 x]) simp
  let ?t = "trim_fixed (fmt_fixed 6 x)"
  have chars: "c \<in> set ?t \<Longrightarrow> \<not> is_space c \<and> (c = CHR ''-'' \<or> is_digit c \<or> c = CHR ''.'')" for c
    using decimal_no_exp [OF d(2,3)] d(4) by (auto simp: is_space_def split: if_splits)
  then have strip: "str_strip ?t = ?t" by (intro str_strip_id) (auto simp: list_all_iff)
  have nw: "str_lower ?t \<noteq> ''true'' \<and> str_lower ?t \<noteq> ''false''"
    using d(1,2) by (intro not_word_number) (cases ip; auto simp: d(4) decimal_def)+
  have err: "\<bar>fixed_val 6 x - x\<bar> \<le> 1 / 2000000" using fixed_val_error [of 6 x] by simp
  show ?thesis
  proof (cases "fp = []")
    case True
    then have t: "?t = (if x < 0 then ''-'' else []) @ ip" by (simp add: d(4) decimal_def)
    have "\<not> list_ex (\<lambda>c. c \<in> set ''.eE'') ?t" using d(2) by (auto simp: t list_ex_iff list_all_iff is_digit_def Let_def)
    moreover have "py_int ?t = Inr ((if x < 0 then -1 else 1) * int (nat_val ip))" unfolding t by (rule py_int_signed [OF d(1,2)])
    moreover have "real_of_int ((if x < 0 then -1 else 1) * int (nat_val ip)) = fixed_val 6 x"
      using d(5) True by (auto simp: dec_val_def)
    ultimately show ?thesis using strip nw err by (simp add: parse_scalar_def reads_def Let_def)
  next
    case False
    then have "CHR ''.'' \<in> set ?t" by (simp add: d(4) decimal_def)
    then have "list_ex (\<lambda>c. c \<in> set ''.eE'') ?t" by (auto simp: list_ex_iff)
    moreover have "py_float ?t = Inr (Fin (fixed_val 6 x))" by (rule py_float_trimmed) simp
    ultimately show ?thesis using strip nw err by (simp add: parse_scalar_def reads_def Let_def)
  qed
qed

lemma parse_scalar_int: "parse_scalar (py_str_int n) = VInt n"
proof -
  have chars: "\<And>c. c \<in> set (py_str_int n) \<Longrightarrow> is_digit c \<or> c = CHR ''-''" by (rule py_str_int_chars)
  have "str_strip (py_str_int n) = py_str_int n"
    using plain_str_int [of n] plain_char_not by (intro str_strip_id) (simp add: list_all_iff)
  moreover have "str_lower (py_str_int n) \<noteq> ''true'' \<and> str_lower (py_str_int n) \<noteq> ''false''"
    using chars [OF hd_in_set [OF py_str_int_nonempty]] by (intro not_word_number) auto
  moreover have "\<not> list_ex (\<lambda>c. c \<in> set ''.eE'') (py_str_int n)"
    using chars by (fastforce simp: list_ex_iff is_digit_def Let_def)
  ultimately show ?thesis by (simp add: parse_scalar_def py_int_str Let_def)
qed


section \<open>Cutting lines at commas\<close>

definition flat :: "string \<Rightarrow> bool" where
  "flat s \<longleftrightarrow> CHR ''('' \<notin> set s \<and> CHR '')'' \<notin> set s \<and> CHR '','' \<notin> set s"

lemma top_level_flat: "flat a \<Longrightarrow> top_level_parts d cur (a @ s) = top_level_parts d (rev a @ cur) s"
  by (induction a arbitrary: cur) (auto simp: flat_def)

lemma flat_append [simp]: "flat (a @ b) \<longleftrightarrow> flat a \<and> flat b" by (auto simp: flat_def)

lemma flat_plain: "list_all plain_char s \<Longrightarrow> flat s"
  using plain_char_not by (auto simp: flat_def list_all_iff)

text \<open>A part of a line: no cut inside and no space at its ends.\<close>

definition trimmed :: "string \<Rightarrow> bool" where
  "trimmed p \<longleftrightarrow> p \<noteq> [] \<and> \<not> is_space (hd p) \<and> \<not> is_space (last p)"

lemma strip_trimmed: "trimmed p \<Longrightarrow> str_strip p = p" "trimmed p \<Longrightarrow> str_strip (CHR '' '' # p) = p"
proof -
  have sp: "is_space (CHR '' '')" by code_simp
  assume p: "trimmed p"
  then show "str_strip p = p" by (simp add: trimmed_def str_strip_def PyText.strip_by_id)
  with p sp show "str_strip (CHR '' '' # p) = p" by (simp add: str_strip_def strip_by_def)
qed

definition whole :: "string \<Rightarrow> bool" where
  "whole p \<longleftrightarrow> trimmed p \<and> (\<forall>cur s. top_level_parts 0 cur (p @ s) = top_level_parts 0 (rev p @ cur) s)"

lemma whole_flat: "flat p \<Longrightarrow> trimmed p \<Longrightarrow> whole p"
  by (simp add: whole_def top_level_flat)

lemma top_level_whole:
  assumes "ps \<noteq> []" "\<forall>p \<in> set ps. whole p"
  shows "top_level_parts 0 [] (str_join '', '' ps) = ps" "top_level_parts 0 '' '' (str_join '', '' ps) = ps"
proof -
  have one: "top_level_parts 0 [] p = [p]" "top_level_parts 0 '' '' p = [p]" if "whole p" for p
  proof -
    have "top_level_parts 0 cur (p @ []) = top_level_parts 0 (rev p @ cur) []" for cur using that by (simp only: whole_def)
    then show "top_level_parts 0 [] p = [p]" "top_level_parts 0 '' '' p = [p]"
      using that strip_trimmed by (simp_all add: whole_def)
  qed
  have "top_level_parts 0 [] (str_join '', '' ps) = ps \<and> top_level_parts 0 '' '' (str_join '', '' ps) = ps"
    using assms
  proof (induction ps rule: induct_list012)
    case (3 p q ps)
    then have w: "whole p" and IH: "top_level_parts 0 '' '' (str_join '', '' (q # ps)) = q # ps" by simp_all
    have "top_level_parts 0 cur (p @ '', '' @ r) = str_strip (rev cur @ p) # top_level_parts 0 '' '' r" for cur r
    proof -
      have "top_level_parts 0 cur (p @ '', '' @ r) = top_level_parts 0 (rev p @ cur) ('', '' @ r)" using w by (simp only: whole_def)
      then show ?thesis by simp
    qed
    from this [of "[]"] this [of "'' ''"] w IH show ?case by (simp add: whole_def strip_trimmed)
  qed (use one in simp_all)
  then show "top_level_parts 0 [] (str_join '', '' ps) = ps" "top_level_parts 0 '' '' (str_join '', '' ps) = ps" by blast+
qed

lemma split_whole:
  assumes "ps \<noteq> []" "\<forall>p \<in> set ps. whole p"
  shows "split_top_level_commas (str_join '', '' ps) = ps"
proof -
  have "filter (\<lambda>p. p \<noteq> []) ps = ps" using assms(2) by (auto simp: whole_def trimmed_def intro!: filter_True)
  with top_level_whole(1) [OF assms] show ?thesis by (simp add: split_top_level_commas_def)
qed


section \<open>The utility line\<close>

definition segment :: "string \<Rightarrow> string \<Rightarrow> string \<Rightarrow> string \<Rightarrow> string" where
  "segment name a r w = name @ ''='' @ a @ '' (raw='' @ r @ '', weighted='' @ w @ '')''"

lemma flat_word: "list_all is_word s \<Longrightarrow> flat s"
  by (auto simp: flat_def list_all_iff is_word_def)

lemma not_space_word: "is_word c \<Longrightarrow> \<not> is_space c"
  by (auto simp: is_word_def is_space_def Let_def)

lemma segment_whole:
  assumes "name \<noteq> []" "list_all is_word name" "list_all plain_char a" "list_all plain_char r" "list_all plain_char w"
  shows "whole (segment name a r w)"
proof -
  note fl = flat_word [OF assms(2)] assms(3-5) [THEN flat_plain]
  have "\<not> is_space (CHR '')'')" by code_simp
  then have "trimmed (segment name a r w)"
    using assms(1,2) not_space_word by (cases name) (auto simp: trimmed_def segment_def)
  moreover have "top_level_parts 0 cur (segment name a r w @ s) = top_level_parts 0 (rev (segment name a r w) @ cur) s" for cur s
    by (simp add: segment_def top_level_flat [OF fl(1)] top_level_flat [OF fl(2)] top_level_flat [OF fl(3)] top_level_flat [OF fl(4)])
  ultimately show ?thesis by (simp add: whole_def)
qed

lemma utility_segment_segment:
  assumes "name \<noteq> []" "list_all is_word name" "list_all plain_char a" "list_all plain_char r" "list_all plain_char w"
    "a \<noteq> []" "r \<noteq> []" "w \<noteq> []"
  shows "utility_segment (segment name a r w) = Some (name, a, r, w)"
proof -
  have c: "\<not> is_word (CHR ''='')" "is_space (CHR '' '')" by code_simp+
  have n: "takeWhile is_word (name @ CHR ''='' # s) = name" "dropWhile is_word (name @ CHR ''='' # s) = CHR ''='' # s" for s
    using assms(2) c(1) by (simp_all add: list_all_iff takeWhile_append2 dropWhile_append2)
  have pl: "\<forall>x \<in> set a. \<not> is_space x" "\<forall>x \<in> set r. x \<noteq> CHR '',''" "\<forall>x \<in> set w. x \<noteq> CHR '')''"
    using assms(3-5) plain_char_not by (auto simp: list_all_iff)
  have t: "takeWhile (\<lambda>x. \<not> is_space x) (a @ CHR '' '' # s) = a" "dropWhile (\<lambda>x. \<not> is_space x) (a @ CHR '' '' # s) = CHR '' '' # s"
    "takeWhile (\<lambda>x. x \<noteq> CHR '','') (r @ CHR '','' # s) = r" "dropWhile (\<lambda>x. x \<noteq> CHR '','') (r @ CHR '','' # s) = CHR '','' # s"
    "takeWhile (\<lambda>x. x \<noteq> CHR '')'') (w @ '')'') = w" "dropWhile (\<lambda>x. x \<noteq> CHR '')'') (w @ '')'') = '')''" for s
    using pl c(2) by (simp_all add: takeWhile_append2 dropWhile_append2)
  show ?thesis using assms(1,6-8)
    by (simp add: utility_segment_def segment_def n t after_def starts_with_def Let_def)
qed

lemma log_real_plain: "list_all plain_char (log_real x)" by (simp add: plain_trimmed)

lemma log_real_nonempty: "log_real x \<noteq> []"
proof -
  obtain ip fp where "ip \<noteq> []" "trim_fixed (fmt_fixed 6 x) = (if x < 0 then ''-'' else []) @ decimal ip fp"
    by (rule trimmed_decimal [of 6 x]) simp
  then show ?thesis by (simp add: decimal_def)
qed

lemma log_real_reads: "reads (parse_scalar (log_real x)) x" by (simp add: parse_scalar_number)

lemma utility_part_segment:
  assumes "name \<in> {''throughput'', ''rtt'', ''pfc''}"
  shows "parse_utility_part (segment (name @ ''_norm'') (log_real a) (log_real r) (log_real w)) values =
    dict_set (name @ ''_weighted'') (parse_scalar (log_real w)) (dict_set (name @ ''_raw'') (parse_scalar (log_real r))
      (dict_set (name @ ''_norm'') (parse_scalar (log_real a)) values))"
proof -
  have "list_all is_word (name @ ''_norm'')" "ends_with ''_norm'' (name @ ''_norm'')" "str_remove ''_norm'' (name @ ''_norm'') = name"
    using assms by (elim insertE emptyE; simp only:; code_simp)+
  with utility_segment_segment [of "name @ ''_norm''" "log_real a" "log_real r" "log_real w"] log_real_plain log_real_nonempty
  show ?thesis by (simp add: parse_utility_part_def)
qed


lemma set_assignment_kv:
  "trimmed k \<Longrightarrow> CHR ''='' \<notin> set k \<Longrightarrow> set_assignment (k @ CHR ''='' # v) d = dict_set k (parse_scalar v) d"
  by (simp add: set_assignment_def split_first_app strip_trimmed)

definition reads_at :: "(string, pval) dict \<Rightarrow> string \<Rightarrow> real \<Rightarrow> bool" where
  "reads_at d k x = (case dict_get d k of Some v \<Rightarrow> reads v x | None \<Rightarrow> False)"

definition utility_figures :: "(string \<times> (utility_breakdown \<Rightarrow> real)) list" where
  "utility_figures =
    [(''throughput_norm'', throughput_norm), (''throughput_raw'', ub_throughput), (''throughput_weighted'', throughput_utility),
     (''rtt_norm'', rtt_norm), (''rtt_raw'', ub_rtt), (''rtt_weighted'', rtt_utility),
     (''pfc_norm'', pfc_norm), (''pfc_raw'', ub_pfc), (''pfc_weighted'', pfc_utility), (''total'', total_utility)]"

text \<open>The ten figures and nothing else.\<close>

definition utility_reads :: "(string, pval) dict \<Rightarrow> utility_breakdown \<Rightarrow> bool" where
  "utility_reads d u \<longleftrightarrow> dict_ok d \<and> set (map fst d) = set (map fst utility_figures)
     \<and> list_all (\<lambda>(k, f). reads_at d k (f u)) utility_figures"

definition utility_parts :: "utility_breakdown \<Rightarrow> string list" where
  "utility_parts u =
    [segment (''throughput'' @ ''_norm'') (log_real (throughput_norm u)) (log_real (ub_throughput u)) (log_real (throughput_utility u)),
     segment (''rtt'' @ ''_norm'') (log_real (rtt_norm u)) (log_real (ub_rtt u)) (log_real (rtt_utility u)),
     segment (''pfc'' @ ''_norm'') (log_real (pfc_norm u)) (log_real (ub_pfc u)) (log_real (pfc_utility u)),
     ''total='' @ log_real (total_utility u)]"

lemma format_utility_parts: "format_utility_line u = ''utility: '' @ str_join '', '' (utility_parts u)"
  by (simp add: format_utility_line_def utility_parts_def segment_def del: format_log_value.simps)

lemma trimmed_total: "trimmed (''total='' @ log_real x)"
proof -
  have "last (log_real x) \<in> set (log_real x)" by (rule last_in_set [OF log_real_nonempty])
  with log_real_plain plain_char_not have "\<not> is_space (last (log_real x))" by (metis list_all_iff)
  moreover have "\<not> is_space (CHR ''t'')" by code_simp
  ultimately show ?thesis using log_real_nonempty [of x] by (simp add: trimmed_def del: format_log_value.simps)
qed

lemma utility_parts_whole: "\<forall>p \<in> set (utility_parts u). whole p"
proof -
  have w: "list_all is_word (n @ ''_norm'')" if "n \<in> {''throughput'', ''rtt'', ''pfc''}" for n
    using that by (elim insertE emptyE; simp only:; code_simp)+
  have "whole (segment (n @ ''_norm'') (log_real a) (log_real r) (log_real v))" if "n \<in> {''throughput'', ''rtt'', ''pfc''}" for n a r v
    using w [OF that] log_real_plain by (intro segment_whole) simp_all
  moreover have "flat (''total='' @ log_real x)" for x using flat_plain [OF log_real_plain [of x]] by (simp add: flat_def)
  ultimately show ?thesis
    unfolding utility_parts_def using whole_flat [OF _ trimmed_total] by (simp only: list.set ball_simps) blast
qed

lemma parse_utility_parts: "utility_reads (parse_utility_line (str_join '', '' (utility_parts u))) u"
proof -
  have sp: "split_top_level_commas (str_join '', '' (utility_parts u)) = utility_parts u"
    by (rule split_whole) (simp add: utility_parts_def, rule utility_parts_whole)
  have "utility_segment (''total='' @ s) = None" if "list_all plain_char s" for s
  proof -
    have "is_word (CHR ''t'')" "is_word (CHR ''o'')" "is_word (CHR ''a'')" "is_word (CHR ''l'')" "\<not> is_word (CHR ''='')" by code_simp+
    moreover have dw: "dropWhile (\<lambda>c. \<not> is_space c) s = []" using that plain_char_not by (auto simp: dropWhile_eq_Nil_conv list_all_iff)
    ultimately show ?thesis by (simp add: utility_segment_def after_def starts_with_def Let_def dw del: dropWhile_eq_Nil_conv)
  qed
  moreover have "trimmed ''total''" by (simp add: trimmed_def, code_simp)
  ultimately have tot: "parse_utility_part (''total='' @ log_real x) d = dict_set ''total'' (parse_scalar (log_real x)) d" for x d
    using set_assignment_kv [of "''total''" "log_real x" d] log_real_plain [of x]
    by (simp add: parse_utility_part_def del: format_log_value.simps)
  show ?thesis
    unfolding parse_utility_line_def sp unfolding utility_parts_def
    by (simp add: utility_part_segment [of "''throughput''", simplified] utility_part_segment [of "''rtt''", simplified]
        utility_part_segment [of "''pfc''", simplified] tot [simplified] utility_reads_def utility_figures_def reads_at_def
        dict_simps log_real_reads [simplified] del: set_map list.set_map) (auto simp: dict_simps simp del: set_map list.set_map)
qed


section \<open>Lines of assignments\<close>

definition assignment :: "string \<times> string \<Rightarrow> string" where
  "assignment kv = fst kv @ CHR ''='' # snd kv"

definition key_ok :: "string \<Rightarrow> bool" where
  "key_ok k \<longleftrightarrow> k \<noteq> [] \<and> list_all is_word k"

lemma key_ok_facts:
  assumes "key_ok k"
  shows "trimmed k" "CHR ''='' \<notin> set k" "flat k"
proof -
  show "trimmed k" using assms not_space_word by (auto simp: key_ok_def trimmed_def list_all_iff)
  have "\<not> is_word (CHR ''='')" by code_simp
  then show "CHR ''='' \<notin> set k" using assms by (auto simp: key_ok_def list_all_iff)
  show "flat k" using assms flat_word by (simp add: key_ok_def)
qed

definition text_ok :: "string \<Rightarrow> bool" where
  "text_ok v \<longleftrightarrow> v \<noteq> [] \<and> flat v \<and> \<not> is_space (last v)"

lemma assignment_whole: "key_ok (fst kv) \<Longrightarrow> text_ok (snd kv) \<Longrightarrow> whole (assignment kv)"
  using key_ok_facts [of "fst kv"]
  by (intro whole_flat) (auto simp: assignment_def text_ok_def trimmed_def flat_def)

lemma fold_assignments:
  "distinct (map fst kvs) \<Longrightarrow> \<forall>kv \<in> set kvs. key_ok (fst kv) \<Longrightarrow>
   dict_get (fold set_assignment (map assignment kvs) d) k =
     (case map_of kvs k of Some v \<Rightarrow> Some (parse_scalar v) | None \<Rightarrow> dict_get d k)"
proof (induction kvs arbitrary: d)
  case (Cons kv kvs)
  obtain n v where kv: "kv = (n, v)" by force
  have "set_assignment (assignment kv) d = dict_set n (parse_scalar v) d"
    using Cons.prems(2) key_ok_facts [of n] set_assignment_kv [of n v d] by (simp add: kv assignment_def)
  moreover have "map_of kvs n = None" using Cons.prems(1) by (simp add: kv map_of_eq_None_iff)
  ultimately show ?case using Cons by (auto simp: kv dict_simps split: option.splits)
qed simp

lemma parse_assignments:
  assumes "kvs \<noteq> []" "distinct (map fst kvs)" "\<forall>kv \<in> set kvs. key_ok (fst kv) \<and> text_ok (snd kv)"
  shows "dict_get (parse_key_value_line (str_join '', '' (map assignment kvs))) k = map_option parse_scalar (map_of kvs k)"
proof -
  have "split_top_level_commas (str_join '', '' (map assignment kvs)) = map assignment kvs"
    using assms(1,3) assignment_whole by (intro split_whole) auto
  then show ?thesis using fold_assignments [OF assms(2), of "[]" k] assms(3)
    by (simp add: parse_key_value_line_def dict_simps map_option_case split: option.splits)
qed

lemma parsed_keys: "dict_ok (parse_key_value_line t)" "k \<in> set (map fst d) \<longleftrightarrow> dict_get d k \<noteq> None"
proof -
  have "dict_ok (set_assignment part d)" if "dict_ok d" for part and d :: "(string, pval) dict"
    using that by (auto simp: set_assignment_def split: option.splits)
  then have "dict_ok (fold set_assignment ps d)" if "dict_ok d" for ps and d :: "(string, pval) dict"
    using that by (induction ps arbitrary: d) simp_all
  then show "dict_ok (parse_key_value_line t)" by (simp add: parse_key_value_line_def)
  show "k \<in> set (map fst d) \<longleftrightarrow> dict_get d k \<noteq> None" by (simp add: dict_get_def map_of_eq_None_iff)
qed

definition names_ok :: "param_spec list \<Rightarrow> bool" where
  "names_ok specs \<longleftrightarrow> specs \<noteq> [] \<and> distinct (map ps_name specs) \<and> list_all (\<lambda>s. key_ok (ps_name s)) specs"

definition param_kvs :: "param_spec list \<Rightarrow> pynum list \<Rightarrow> (string \<times> string) list" where
  "param_kvs specs vs = zip (map ps_name specs) (map (\<lambda>v. format_log_value (num_scalar v)) vs)"

lemma solution_map_get:
  assumes "distinct (map ps_name specs)" "length vs = length specs"
  shows "dict_get (solution_to_parameter_map specs vs) k = map_of (zip (map ps_name specs) (map num_scalar vs)) k"
proof -
  have n: "normalize_scalar (num_scalar v) = num_scalar v" for v by (cases v) auto
  let ?z = "zip (map ps_name specs) (map num_scalar vs)"
  have eq: "solution_to_parameter_map specs vs = fold (\<lambda>(k, v). dict_set k v) (zip (map ps_name specs) (map num_scalar vs)) []"
    unfolding solution_to_parameter_map_def zip_map_map fold_map n by (rule fold_cong) (auto simp: fun_eq_iff)
  have "distinct (map fst ?z)" using assms by simp
  from fold_dict_set_get [OF this, of "[]" k] show ?thesis
    unfolding eq by (cases "map_of ?z k") (simp_all only: option.case dict_get_empty)
qed

lemma format_parameter_assignments:
  assumes "distinct (map ps_name specs)" "length vs = length specs"
  shows "format_parameter_line specs vs = Inr (''parameters: '' @ str_join '', '' (map assignment (param_kvs specs vs)))"
proof -
  have "map_of (zip (map ps_name specs) (map num_scalar vs)) (ps_name (specs ! i)) = Some (num_scalar (vs ! i))" if "i < length specs" for i
    using map_of_zip_nth [of "map ps_name specs" "map num_scalar vs" i] assms that by simp
  then have "res_map (\<lambda>spec. case dict_get (solution_to_parameter_map specs vs) (ps_name spec) of None \<Rightarrow> Inl KeyError
      | Some v \<Rightarrow> Inr (ps_name spec @ ''='' @ format_log_value v)) specs = Inr (map assignment (param_kvs specs vs))"
    unfolding solution_map_get [OF assms] using assms(2)
    by (intro res_map_nthI) (simp_all add: param_kvs_def assignment_def del: map_of_eq_Some_iff)
  then show ?thesis by (simp add: format_parameter_line_def)
qed


section \<open>Lines and blocks\<close>

definition line_ok :: "string \<Rightarrow> bool" where
  "line_ok l \<longleftrightarrow> trimmed l \<and> list_all (\<lambda>c. \<not> is_linebreak c) l"

lemma splitlines_run:
  "list_all (\<lambda>c. \<not> is_linebreak c) l \<Longrightarrow> splitlines_from cur (l @ s) = splitlines_from (rev l @ cur) s"
  by (induction l arbitrary: cur) auto

lemma nl_break: "is_linebreak nl" "of_char nl \<noteq> (13 :: nat)" by (simp_all add: is_linebreak_def)

lemma splitlines_join:
  assumes "\<forall>l \<in> set ls. l \<noteq> [] \<and> list_all (\<lambda>c. \<not> is_linebreak c) l"
  shows "py_splitlines (str_join [nl] ls) = ls"
  using assms unfolding py_splitlines_def
proof (induction ls rule: induct_list012)
  case (2 l)
  then show ?case using splitlines_run [of l "[]" "[]"] by simp
next
  case (3 l m ls)
  then show ?case using splitlines_run [of l "[]" "nl # str_join [nl] (m # ls)"] nl_break by simp
qed simp

lemma split_blocks_run: "nl \<notin> set l \<Longrightarrow> l \<noteq> [] \<Longrightarrow> split_blocks cur (l @ nl # nl # s) = rev (rev l @ cur) # split_blocks [] s
    \<and> (c \<noteq> nl \<longrightarrow> split_blocks cur (l @ nl # c # s) = split_blocks (nl # rev l @ cur) (c # s))"
proof (induction l arbitrary: cur)
  case (Cons x l)
  show ?case
  proof (cases "l = []")
    case False
    then obtain y l' where "l = y # l'" by (cases l) auto
    with Cons show ?thesis by auto
  qed (use Cons.prems in auto)
qed simp

lemma split_blocks_join:
  assumes "ls \<noteq> []" "\<forall>l \<in> set ls. l \<noteq> [] \<and> nl \<notin> set l"
  shows "split_blocks cur (str_join [nl] ls @ nl # nl # s) = (rev cur @ str_join [nl] ls) # split_blocks [] s"
  using assms
proof (induction ls arbitrary: cur rule: induct_list012)
  case (2 l)
  then show ?case using split_blocks_run [of l cur s] by simp
next
  case (3 l m ls)
  obtain c r where c: "str_join [nl] (m # ls) @ nl # nl # s = c # r" "c \<noteq> nl"
    using 3(4) by (cases m; cases ls) auto
  have "split_blocks cur (str_join [nl] (l # m # ls) @ nl # nl # s) = split_blocks (nl # rev l @ cur) (c # r)"
    using split_blocks_run [of l cur r c] 3(4) c by simp
  also have "\<dots> = (rev (nl # rev l @ cur) @ str_join [nl] (m # ls)) # split_blocks [] s"
    using 3(2) [of "nl # rev l @ cur"] 3(4) unfolding c(1) by simp
  finally show ?case by simp
qed simp

lemma tab_strip:
  assumes "trimmed l"
  shows "str_strip (str_rstrip (tab # l)) = l" "str_strip (tab # l) \<noteq> []" "str_strip l \<noteq> []" "str_rstrip l = l"
proof -
  have sp: "is_space tab" by code_simp
  have "l \<noteq> []" "\<not> is_space (last l)" using assms by (auto simp: trimmed_def)
  then have r: "str_rstrip (tab # l) = tab # l" "str_rstrip l = l"
    by (simp_all add: str_rstrip_def PyText.rstrip_by_last)
  have "str_strip (tab # l) = str_strip l" using sp by (simp add: str_strip_def strip_by_def)
  with r strip_trimmed(1) [OF assms] \<open>l \<noteq> []\<close>
  show "str_strip (str_rstrip (tab # l)) = l" "str_strip (tab # l) \<noteq> []" "str_strip l \<noteq> []" "str_rstrip l = l" by simp_all
qed


section \<open>Entries of the log\<close>

lemma break_space: "is_linebreak c \<Longrightarrow> is_space c"
  by (auto simp: is_linebreak_def is_space_def Let_def)

definition unbroken :: "string \<Rightarrow> bool" where
  "unbroken s = list_all (\<lambda>c. \<not> is_linebreak c) s"

lemma unbroken_append [simp]: "unbroken (a @ b) \<longleftrightarrow> unbroken a \<and> unbroken b" "unbroken []"
  by (simp_all add: unbroken_def)

lemma unbroken_plain: "list_all plain_char s \<Longrightarrow> unbroken s"
  using plain_char_not break_space by (fastforce simp: unbroken_def list_all_iff)

lemma unbroken_word: "list_all is_word s \<Longrightarrow> unbroken s"
  using not_space_word break_space by (fastforce simp: unbroken_def list_all_iff)

lemma unbroken_join: "unbroken sep \<Longrightarrow> \<forall>p \<in> set ps. unbroken p \<Longrightarrow> unbroken (str_join sep ps)"
  by (induction sep ps rule: str_join.induct) simp_all

lemma str_join_ends:
  assumes "ps \<noteq> []" "\<forall>p \<in> set ps. p \<noteq> []"
  shows "str_join sep ps \<noteq> [] \<and> hd (str_join sep ps) = hd (hd ps) \<and> last (str_join sep ps) = last (last ps)"
  using assms by (induction ps rule: induct_list012) simp_all

lemma trimmed_join: "ps \<noteq> [] \<Longrightarrow> \<forall>p \<in> set ps. trimmed p \<Longrightarrow> trimmed (str_join '', '' ps)"
  using str_join_ends [of ps "'', ''"] by (auto simp: trimmed_def)

lemma trimmed_prefixed: "trimmed p \<Longrightarrow> trimmed s \<Longrightarrow> trimmed (p @ x @ s)"
  by (auto simp: trimmed_def)

lemma section_set:
  assumes "trimmed prefix" "CHR '':'' \<notin> set prefix" "trimmed content"
  shows "set_section (str_rstrip (tab # prefix @ '': '' @ content)) b =
    dict_set prefix (BDict (if prefix = ''utility'' then parse_utility_line content else parse_key_value_line content)) b"
proof -
  have "str_strip (str_rstrip (tab # prefix @ '': '' @ content)) = prefix @ '': '' @ content"
    by (rule tab_strip(1)) (rule trimmed_prefixed [OF assms(1,3)])
  moreover have "split_first (CHR '':'') (prefix @ '': '' @ content) = Some (prefix, '' '' @ content)"
    using assms(2) split_first_app [of "CHR '':''" prefix "'' '' @ content"] by simp
  ultimately show ?thesis using strip_trimmed(2) [OF assms(3)] by (simp add: set_section_def)
qed

text \<open>A block of the log: the time and four sections.\<close>

definition block_text :: "string \<Rightarrow> (string \<times> string) list \<Rightarrow> string" where
  "block_text t sections = str_join [nl] ((''sim_time='' @ t) # map (\<lambda>(p, c). tab # p @ '': '' @ c) sections)"

definition section_ok :: "string \<times> string \<Rightarrow> bool" where
  "section_ok pc \<longleftrightarrow> key_ok (fst pc) \<and> trimmed (snd pc) \<and> unbroken (snd pc)"

definition section_value :: "string \<times> string \<Rightarrow> bval" where
  "section_value pc = BDict (if fst pc = ''utility'' then parse_utility_line (snd pc) else parse_key_value_line (snd pc))"

lemma colon_not_word: "key_ok k \<Longrightarrow> CHR '':'' \<notin> set k"
proof -
  have "\<not> is_word (CHR '':'')" by code_simp
  then show "key_ok k \<Longrightarrow> ?thesis" by (auto simp: key_ok_def list_all_iff)
qed

lemma fold_sections:
  "list_all section_ok ss \<Longrightarrow>
   fold set_section (map str_rstrip (map (\<lambda>(p, c). tab # p @ '': '' @ c) ss)) b = fold (\<lambda>pc. dict_set (fst pc) (section_value pc)) ss b"
proof (induction ss arbitrary: b)
  case (Cons pc ss)
  then show ?case
    using section_set [of "fst pc" "snd pc" b] key_ok_facts(1) colon_not_word
    by (simp add: section_ok_def section_value_def split_beta)
qed simp

lemma parse_block_text:
  assumes "t \<noteq> []" "\<not> is_space (last t)" "unbroken t" "list_all section_ok ss"
  shows "parse_block (block_text t ss) =
    Some (fold (\<lambda>pc. dict_set (fst pc) (section_value pc)) ss [(''sim_time'', BScalar (parse_scalar t))])"
proof -
  let ?l = "''sim_time='' @ t" and ?ls = "map (\<lambda>(p, c). tab # p @ '': '' @ c) ss"
  have u0: "unbroken ''sim_time=''" "unbroken '': ''" "unbroken [tab]" by code_simp+
  have "trimmed ''sim_time=''" "trimmed ''sim_time''" by (simp_all add: trimmed_def) code_simp+
  then have l: "trimmed ?l" using assms(1,2) by (auto simp: trimmed_def)
  have lu: "unbroken ?l" using unbroken_append(1) [of "''sim_time=''" t] u0(1) assms(3) by blast
  have secs: "trimmed (p @ '': '' @ c) \<and> unbroken (tab # p @ '': '' @ c)" if "(p, c) \<in> set ss" for p c
  proof -
    have k: "key_ok p" "trimmed c" "unbroken c" using assms(4) that by (auto simp: section_ok_def list_all_iff)
    then have "unbroken p" using unbroken_word by (simp add: key_ok_def)
    with k u0 have "unbroken ([tab] @ p @ '': '' @ c)" unfolding unbroken_append by blast
    then have "unbroken (tab # p @ '': '' @ c)" by simp
    with trimmed_prefixed [OF key_ok_facts(1) [OF k(1)] k(2)] show ?thesis by blast
  qed
  have sp: "py_splitlines (block_text t ss) = ?l # ?ls"
    unfolding block_text_def using l lu secs by (intro splitlines_join) (auto simp: trimmed_def unbroken_def)
  have "filter (\<lambda>line. str_strip line \<noteq> []) (?l # ?ls) = ?l # ?ls"
    using tab_strip(2,3) l secs by (intro filter_True) auto
  then have "block_lines (block_text t ss) = ?l # map str_rstrip ?ls"
    using tab_strip(4) [OF l] by (simp add: block_lines_def sp)
  moreover have "split_first (CHR ''='') ?l = Some (''sim_time'', t)" using split_first_app [of "CHR ''=''" "''sim_time''" t] by simp
  moreover have "str_strip ''sim_time'' = ''sim_time''" by code_simp
  ultimately show ?thesis using fold_sections [OF assms(4)] by (simp add: parse_block_def)
qed


text \<open>Several blocks one after the other.\<close>

lemma split_log:
  assumes "\<forall>b \<in> set bs. \<exists>ls. b = str_join [nl] ls \<and> ls \<noteq> [] \<and> (\<forall>l \<in> set ls. l \<noteq> [] \<and> nl \<notin> set l)"
  shows "split_blocks [] (concat (map (\<lambda>b. b @ [nl, nl]) bs)) = bs @ [[]]"
  using assms
proof (induction bs)
  case (Cons b bs)
  then obtain ls where "b = str_join [nl] ls" "ls \<noteq> []" "\<forall>l \<in> set ls. l \<noteq> [] \<and> nl \<notin> set l" by auto
  with split_blocks_join [of ls "[]"] Cons show ?case by simp
qed simp

record log_entry =
  le_time :: real
  le_snapshot :: snapshot
  le_utility :: utility_breakdown
  le_solution :: "pynum list"
  le_info :: tuning_info
  le_previous :: "snapshot option"
  le_kl :: pyfloat

definition entry_text :: "param_spec list \<Rightarrow> log_entry \<Rightarrow> string res" where
  "entry_text specs e = log_cycle_summary specs (Fin (le_time e)) (le_snapshot e) (le_utility e) (le_solution e)
     (Some (le_info e)) (le_previous e) (SFloat (le_kl e))"

definition word_scalar :: "scalar \<Rightarrow> bool" where
  "word_scalar v = (case v of SStr s \<Rightarrow> key_ok s | _ \<Rightarrow> True)"

definition entry_ok :: "param_spec list \<Rightarrow> log_entry \<Rightarrow> bool" where
  "entry_ok specs e \<longleftrightarrow> length (le_solution e) = length specs \<and> list_all (\<lambda>v. flt_finite (num_flt v)) (le_solution e)
     \<and> list_all (\<lambda>(k, v). word_scalar v) (le_info e) \<and> (\<exists>s. dict_get (le_info e) ''state'' = Some (SStr s))"

definition info_kvs :: "tuning_info \<Rightarrow> (string \<times> string) list" where
  "info_kvs d = List.map_filter (\<lambda>(key, label). case dict_get d key of
     Some v \<Rightarrow> if v = SNone then None else Some (label, format_log_value v) | None \<Rightarrow> None) ordered_fields"

definition reads_entry :: "param_spec list \<Rightarrow> log_entry \<Rightarrow> block \<Rightarrow> bool" where
  "reads_entry specs e b \<longleftrightarrow>
     (\<exists>v. dict_get b ''sim_time'' = Some (BScalar v) \<and> reads v (le_time e))
     \<and> (\<exists>d. dict_get b ''utility'' = Some (BDict d) \<and> utility_reads d (le_utility e))
     \<and> (\<exists>d. dict_get b ''parameters'' = Some (BDict d) \<and> dict_ok d \<and> set (map fst d) = ps_name ` set specs
          \<and> (\<forall>i < length specs. reads_at d (ps_name (specs ! i)) (flt_val (num_flt (le_solution e ! i)))))
     \<and> (\<exists>d. dict_get b ''tuning'' = Some (BDict d)
          \<and> (\<forall>label. dict_get d label = map_option parse_scalar (map_of (info_kvs (le_info e)) label)))"

lemma format_log_word_ok: "word_scalar v \<Longrightarrow> text_ok (format_log_value v) \<and> unbroken (format_log_value v)"
proof -
  have p: "list_all plain_char s \<Longrightarrow> s \<noteq> [] \<Longrightarrow> text_ok s \<and> unbroken s" for s
    using flat_plain unbroken_plain plain_char_not last_in_set [of s] by (auto simp: text_ok_def list_all_iff)
  have ne: "format_float x \<noteq> []" for x using log_real_nonempty by (cases x) simp_all
  assume w: "word_scalar v"
  show ?thesis
  proof (cases "\<exists>s. v = SStr s")
    case True
    with w obtain s where "v = SStr s" "key_ok s" by (auto simp: word_scalar_def)
    then show ?thesis using key_ok_facts [of s] unbroken_word by (auto simp: text_ok_def trimmed_def key_ok_def)
  next
    case False
    then have "list_all plain_char (format_log_value v)" by (intro plain_format_log_value) blast
    moreover have "format_log_value v \<noteq> []" using False ne py_str_int_nonempty by (cases v) auto
    ultimately show ?thesis by (rule p)
  qed
qed


text \<open>Texts that end in a number.\<close>

definition tail_ok :: "string \<Rightarrow> bool" where
  "tail_ok s \<longleftrightarrow> s \<noteq> [] \<and> \<not> is_space (last s) \<and> unbroken s"

lemma tail_ok_number: "tail_ok (log_real x)" "tail_ok (py_str_int n)" "tail_ok (format_float y)"
  using format_log_word_ok [of "sfin x"] format_log_word_ok [of "SInt n"] format_log_word_ok [of "SFloat y"]
  by (simp_all add: tail_ok_def text_ok_def word_scalar_def)

lemma tail_ok_append: "unbroken a \<Longrightarrow> tail_ok b \<Longrightarrow> tail_ok (a @ b)"
  by (auto simp: tail_ok_def)

lemma tail_ok_trimmed: "tail_ok s \<Longrightarrow> \<not> is_space (hd s) \<Longrightarrow> trimmed s \<and> unbroken s"
  by (auto simp: tail_ok_def trimmed_def)

lemma str_join_prefix: "str_join sep ((p @ a) # ps) = p @ str_join sep (a # ps)"
  by (cases ps) simp_all

lemma unbroken_lits:
  "unbroken ''large=''" "unbroken '', small=''" "unbroken '', total=''" "unbroken '', large_ratio=''" "unbroken '', small_ratio=''"
  "unbroken ''observed_distribution: ''" "unbroken ''potential_large=''" "unbroken ''small=''" "unbroken ''potential_effective=''"
  "unbroken ''previous_distribution: large_ratio=''" "unbroken ''kl_divergence=''" "unbroken '', ''"
  by code_simp+

lemma unbroken_numbers: "unbroken (log_real x)" "unbroken (py_str_int n)" "unbroken (format_float y)"
  using tail_ok_number by (simp_all add: tail_ok_def)

definition flow_head :: "flow_ratio \<Rightarrow> string" where
  "flow_head r = (let (lr, sr) = ratio_pair (r_large r) (r_small r)
     in ''large='' @ log_real (r_large r) @ '', small='' @ log_real (r_small r) @ '', total='' @ log_real (r_large r + r_small r)
        @ '', large_ratio='' @ log_real lr @ '', small_ratio='' @ log_real sr)"

definition flow_more :: "snapshot \<Rightarrow> snapshot option \<Rightarrow> string list" where
  "flow_more snap previous =
    (case snd snap of None \<Rightarrow> []
       | Some m \<Rightarrow> [''observed_distribution: '' @ str_join '', ''
           [''large='' @ py_str_int (large_count m), ''potential_large='' @ py_str_int (potential_large m),
            ''small='' @ py_str_int (small_count m), ''potential_effective='' @ log_real (potential_effective m)]])
    @ (case previous of None \<Rightarrow> []
       | Some (p, _) \<Rightarrow> if r_small p = -1 then []
           else (let (pl, ps) = ratio_pair (r_large p) (r_small p)
                 in [''previous_distribution: large_ratio='' @ log_real pl @ '', small_ratio='' @ log_real ps]))"

lemma flow_line_form:
  "format_flow_distribution_line snap previous (SFloat k) =
    ''flow_distribution: '' @ str_join '', '' (flow_head (fst snap) # flow_more snap previous @ [''kl_divergence='' @ format_float k])"
proof -
  obtain r m where snap: "snap = (r, m)" by force
  obtain lr sr where rp: "ratio_pair (r_large r) (r_small r) = (lr, sr)" by force
  show ?thesis
    unfolding format_flow_distribution_line_def snap Let_def prod.case rp fst_conv flow_head_def
    by (subst str_join_prefix [symmetric]) (simp add: flow_more_def Let_def split: option.splits)
qed

lemma flow_more_unbroken: "\<forall>p \<in> set (flow_more snap previous). unbroken p"
proof -
  have "unbroken (''observed_distribution: '' @ str_join '', ''
      [''large='' @ py_str_int a, ''potential_large='' @ py_str_int b, ''small='' @ py_str_int c, ''potential_effective='' @ log_real d])" for a b c d
    unfolding str_join.simps unbroken_append using unbroken_lits unbroken_numbers by blast
  moreover have "unbroken (''previous_distribution: large_ratio='' @ log_real x @ '', small_ratio='' @ log_real y)" for x y
    unfolding unbroken_append using unbroken_lits unbroken_numbers by blast
  ultimately show ?thesis unfolding flow_more_def Let_def
    by (auto simp del: format_log_value.simps append_Cons str_join.simps split: option.splits prod.splits if_splits)
qed

lemma flow_section:
  "section_ok (''flow_distribution'', str_join '', '' (flow_head r # flow_more snap previous @ [''kl_divergence='' @ format_float k]))"
proof -
  let ?ps = "flow_head r # flow_more snap previous @ [''kl_divergence='' @ format_float k]"
  obtain lr sr where "ratio_pair (r_large r) (r_small r) = (lr, sr)" by force
  then have h: "flow_head r = ''large='' @ log_real (r_large r) @ '', small='' @ log_real (r_small r) @ '', total=''
      @ log_real (r_large r + r_small r) @ '', large_ratio='' @ log_real lr @ '', small_ratio='' @ log_real sr"
    by (simp only: flow_head_def prod.case Let_def)
  have "unbroken (flow_head r)" "unbroken (''kl_divergence='' @ format_float k)"
    unfolding h unbroken_append using unbroken_lits unbroken_numbers by blast+
  then have u: "unbroken (str_join '', '' ?ps)" using flow_more_unbroken unbroken_lits(12) by (intro unbroken_join) auto
  have "\<forall>p \<in> set ?ps. p \<noteq> []" by (auto simp: h flow_more_def Let_def split: option.splits prod.splits if_splits)
  from str_join_ends [OF _ this, of "'', ''"]
  have e: "str_join '', '' ?ps \<noteq> []" "hd (str_join '', '' ?ps) = CHR ''l''" "last (str_join '', '' ?ps) = last (format_float k)"
    using tail_ok_number(3) [of k] by (auto simp: h tail_ok_def)
  moreover have "\<not> is_space (CHR ''l'')" by code_simp
  moreover have "key_ok ''flow_distribution''" by code_simp
  ultimately show ?thesis using tail_ok_number(3) [of k] u by (simp add: section_ok_def trimmed_def tail_ok_def)
qed

definition entry_sections :: "param_spec list \<Rightarrow> log_entry \<Rightarrow> (string \<times> string) list" where
  "entry_sections specs e =
    [(''flow_distribution'', str_join '', '' (flow_head (fst (le_snapshot e)) # flow_more (le_snapshot e) (le_previous e)
        @ [''kl_divergence='' @ format_float (le_kl e)])),
     (''utility'', str_join '', '' (utility_parts (le_utility e))),
     (''parameters'', str_join '', '' (map assignment (param_kvs specs (le_solution e)))),
     (''tuning'', str_join '', '' (map assignment (info_kvs (le_info e))))]"

lemma assignments_section:
  assumes "kvs \<noteq> []" "\<forall>kv \<in> set kvs. key_ok (fst kv) \<and> text_ok (snd kv) \<and> unbroken (snd kv)" "key_ok p"
  shows "section_ok (p, str_join '', '' (map assignment kvs))"
proof -
  have "\<forall>q \<in> set (map assignment kvs). trimmed q" using assms(2) assignment_whole by (auto simp: whole_def)
  moreover have "unbroken ''=''" by code_simp
  then have "\<forall>q \<in> set (map assignment kvs). unbroken q"
    using assms(2) unbroken_word unbroken_append(1) [of _ "''='' @ _"] unbroken_append(1) [of "''=''"]
    by (auto simp: assignment_def key_ok_def)
  ultimately show ?thesis using trimmed_join [of "map assignment kvs"] unbroken_join [OF unbroken_lits(12)] assms(1,3)
    by (simp add: section_ok_def)
qed

lemma concat_map_filter:
  "concat (map (\<lambda>x. case f x of None \<Rightarrow> [] | Some y \<Rightarrow> [g y]) xs) = map g (List.map_filter f xs)"
  by (induction xs) (auto simp: List.map_filter_def split: option.splits)

definition info_field :: "tuning_info \<Rightarrow> string \<times> string \<Rightarrow> (string \<times> string) option" where
  "info_field d = (\<lambda>(key, label). case dict_get d key of
     Some v \<Rightarrow> if v = SNone then None else Some (label, format_log_value v) | None \<Rightarrow> None)"

lemma info_kvs_field: "info_kvs d = List.map_filter (info_field d) ordered_fields"
  by (simp add: info_kvs_def info_field_def)

lemma info_kvs_ok:
  assumes "list_all (\<lambda>(k, v). word_scalar v) d" "dict_get d ''state'' = Some (SStr s)"
  shows "info_kvs d \<noteq> []" "\<forall>kv \<in> set (info_kvs d). key_ok (fst kv) \<and> text_ok (snd kv) \<and> unbroken (snd kv)"
    "distinct (map fst (info_kvs d))"
proof -
  show "info_kvs d \<noteq> []" using assms(2) by (simp add: info_kvs_def ordered_fields_def List.map_filter_simps)
  have labels: "\<forall>kl \<in> set ordered_fields. key_ok (snd kl)" by code_simp
  have "word_scalar v" if "dict_get d k = Some v" for k v
    using dict_get_Some_in [OF that] assms(1) by (auto simp: list_all_iff)
  then have "key_ok (fst kv) \<and> text_ok (snd kv) \<and> unbroken (snd kv)" if "kl \<in> set ordered_fields" "info_field d kl = Some kv" for kl kv
    using that labels format_log_word_ok by (force simp: info_field_def split: prod.splits option.splits if_splits)
  then show "\<forall>kv \<in> set (info_kvs d). key_ok (fst kv) \<and> text_ok (snd kv) \<and> unbroken (snd kv)"
    by (auto simp: info_kvs_field List.map_filter_def)
  have "map fst (List.map_filter (info_field d) xs) = map snd (filter (\<lambda>kl. info_field d kl \<noteq> None) xs)" for xs
    by (induction xs) (auto simp: List.map_filter_simps info_field_def split: option.splits if_splits)
  moreover have "distinct (map snd ordered_fields)" by code_simp
  ultimately show "distinct (map fst (info_kvs d))" by (simp add: info_kvs_field distinct_map_filter)
qed

lemma param_kvs_ok:
  assumes "names_ok specs" "length vs = length specs"
  shows "param_kvs specs vs \<noteq> []" "\<forall>kv \<in> set (param_kvs specs vs). key_ok (fst kv) \<and> text_ok (snd kv) \<and> unbroken (snd kv)"
    "distinct (map fst (param_kvs specs vs))"
proof -
  show "param_kvs specs vs \<noteq> []" "distinct (map fst (param_kvs specs vs))"
    using assms by (cases specs; cases vs; auto simp: param_kvs_def names_ok_def)+
  have "word_scalar (num_scalar v)" for v by (cases v) (simp_all add: word_scalar_def)
  then show "\<forall>kv \<in> set (param_kvs specs vs). key_ok (fst kv) \<and> text_ok (snd kv) \<and> unbroken (snd kv)"
    using assms(1) format_log_word_ok by (auto simp: param_kvs_def names_ok_def list_all_iff elim!: in_set_zipE)
qed

lemma tuning_line_form:
  assumes "info_kvs d \<noteq> []"
  shows "format_tuning_line (Some d) = ''tuning: '' @ str_join '', '' (map assignment (info_kvs d))"
proof -
  have "concat (map (\<lambda>(key, label). case dict_get d key of None \<Rightarrow> []
      | Some v \<Rightarrow> if v = SNone then [] else [label @ ''='' @ format_log_value v]) ordered_fields)
    = concat (map (\<lambda>x. case info_field d x of None \<Rightarrow> [] | Some y \<Rightarrow> [assignment y]) ordered_fields)"
    by (rule arg_cong [where f = concat], rule map_cong) (auto simp: info_field_def assignment_def split: option.splits)
  also have "\<dots> = map assignment (info_kvs d)" by (simp add: concat_map_filter info_kvs_field)
  finally have eq: "concat (map (\<lambda>(key, label). case dict_get d key of None \<Rightarrow> []
      | Some v \<Rightarrow> if v = SNone then [] else [label @ ''='' @ format_log_value v]) ordered_fields) = map assignment (info_kvs d)" .
  have "d \<noteq> []" using assms by (auto simp: info_kvs_def ordered_fields_def List.map_filter_simps dict_get_def)
  then show ?thesis using assms by (simp only: format_tuning_line_def option.case eq Let_def) simp
qed

lemma entry_form:
  assumes "names_ok specs" "entry_ok specs e"
  shows "entry_text specs e = Inr (block_text (log_real (le_time e)) (entry_sections specs e) @ [nl, nl])"
proof -
  have l: "length (le_solution e) = length specs" "distinct (map ps_name specs)" using assms by (simp_all add: entry_ok_def names_ok_def)
  have i: "info_kvs (le_info e) \<noteq> []" using assms(2) info_kvs_ok(1) by (auto simp: entry_ok_def)
  show ?thesis
    unfolding entry_text_def log_cycle_summary_def format_parameter_assignments [OF l(2,1)] res_bind.simps
      flow_line_form format_utility_parts tuning_line_form [OF i] write_trace_block_def block_text_def entry_sections_def
    by simp
qed

lemma utility_parts_unbroken: "\<forall>p \<in> set (utility_parts u). unbroken p"
proof -
  have l: "unbroken ''=''" "unbroken '' (raw=''" "unbroken '', weighted=''" "unbroken '')''" "unbroken ''total=''" "unbroken ''_norm''"
    "unbroken ''throughput''" "unbroken ''rtt''" "unbroken ''pfc''" by code_simp+
  show ?thesis unfolding utility_parts_def segment_def list.set using l unbroken_numbers(1)
    by (simp only: ball_simps unbroken_append)
qed

lemma sections_ok:
  assumes "names_ok specs" "entry_ok specs e"
  shows "list_all section_ok (entry_sections specs e)"
proof -
  have k: "key_ok ''utility''" "key_ok ''parameters''" "key_ok ''tuning''" by code_simp+
  have l: "length (le_solution e) = length specs" using assms by (simp add: entry_ok_def)
  obtain s where i: "list_all (\<lambda>(k, v). word_scalar v) (le_info e)" "dict_get (le_info e) ''state'' = Some (SStr s)"
    using assms(2) by (auto simp: entry_ok_def)
  have "\<forall>p \<in> set (utility_parts u). trimmed p" for u using utility_parts_whole by (simp add: whole_def)
  moreover have "utility_parts u \<noteq> []" for u by (simp add: utility_parts_def)
  ultimately have "section_ok (''utility'', str_join '', '' (utility_parts u))" for u
    using trimmed_join [of "utility_parts u"] unbroken_join [OF unbroken_lits(12) utility_parts_unbroken] k(1) by (simp add: section_ok_def)
  then show ?thesis
    unfolding entry_sections_def using flow_section assignments_section [OF param_kvs_ok(1,2) [OF assms(1) l] k(2)]
      assignments_section [OF info_kvs_ok(1,2) [OF i] k(3)] by simp
qed

definition entry_block :: "param_spec list \<Rightarrow> log_entry \<Rightarrow> block" where
  "entry_block specs e = fold (\<lambda>pc. dict_set (fst pc) (section_value pc)) (entry_sections specs e)
     [(''sim_time'', BScalar (parse_scalar (log_real (le_time e))))]"

lemma parse_entry:
  assumes "names_ok specs" "entry_ok specs e"
  shows "parse_block (block_text (log_real (le_time e)) (entry_sections specs e)) = Some (entry_block specs e)"
  unfolding entry_block_def using tail_ok_number(1) [of "le_time e"] sections_ok [OF assms]
  by (intro parse_block_text) (simp_all add: tail_ok_def del: format_log_value.simps)

lemma param_reads: "flt_finite (num_flt v) \<Longrightarrow> reads (parse_scalar (format_log_value (num_scalar v))) (flt_val (num_flt v))"
proof (cases v)
  case (PFlt x)
  then show "flt_finite (num_flt v) \<Longrightarrow> ?thesis" using parse_scalar_number by (cases x) auto
qed (simp add: parse_scalar_int reads_def)

lemma reads_entry_block:
  assumes "names_ok specs" "entry_ok specs e"
  shows "reads_entry specs e (entry_block specs e)"
proof -
  have l: "length (le_solution e) = length specs" "list_all (\<lambda>v. flt_finite (num_flt v)) (le_solution e)" using assms by (simp_all add: entry_ok_def)
  obtain s where i: "list_all (\<lambda>(k, v). word_scalar v) (le_info e)" "dict_get (le_info e) ''state'' = Some (SStr s)"
    using assms(2) by (auto simp: entry_ok_def)
  let ?u = "str_join '', '' (utility_parts (le_utility e))" and ?p = "param_kvs specs (le_solution e)" and ?i = "info_kvs (le_info e)"
  have g: "dict_get (entry_block specs e) ''sim_time'' = Some (BScalar (parse_scalar (log_real (le_time e))))"
    "dict_get (entry_block specs e) ''utility'' = Some (BDict (parse_utility_line ?u))"
    "dict_get (entry_block specs e) ''parameters'' = Some (BDict (parse_key_value_line (str_join '', '' (map assignment ?p))))"
    "dict_get (entry_block specs e) ''tuning'' = Some (BDict (parse_key_value_line (str_join '', '' (map assignment ?i))))"
    by (simp_all add: entry_block_def entry_sections_def section_value_def dict_simps del: format_log_value.simps) (simp add: dict_get_def)
  have tun: "\<forall>label. dict_get (parse_key_value_line (str_join '', '' (map assignment ?i))) label = map_option parse_scalar (map_of ?i label)"
    using parse_assignments [OF info_kvs_ok(1) [OF i] info_kvs_ok(3) [OF i]] info_kvs_ok(2) [OF i] by blast
  have par: "reads_at (parse_key_value_line (str_join '', '' (map assignment ?p))) (ps_name (specs ! j)) (flt_val (num_flt (le_solution e ! j)))"
    if "j < length specs" for j
  proof -
    have "map_of ?p (ps_name (specs ! j)) = Some (format_log_value (num_scalar (le_solution e ! j)))"
      using map_of_zip_nth [of "map ps_name specs" "map (\<lambda>v. format_log_value (num_scalar v)) (le_solution e)" j] that l(1) assms(1)
      by (simp add: param_kvs_def names_ok_def)
    moreover have "flt_finite (num_flt (le_solution e ! j))" using l that by (simp add: list_all_length)
    ultimately show ?thesis
      using parse_assignments [OF param_kvs_ok(1,3) [OF assms(1) l(1)], of "ps_name (specs ! j)"] param_kvs_ok(2) [OF assms(1) l(1)] param_reads
      by (simp add: reads_at_def)
  qed
  have "map fst ?p = map ps_name specs" using l(1) by (simp add: param_kvs_def)
  then have "map_of ?p k \<noteq> None \<longleftrightarrow> k \<in> ps_name ` set specs" for k
    unfolding map_of_eq_None_iff by (metis list.set_map)
  then have keys: "set (map fst (parse_key_value_line (str_join '', '' (map assignment ?p)))) = ps_name ` set specs"
    using parse_assignments [OF param_kvs_ok(1,3) [OF assms(1) l(1)]] param_kvs_ok(2) [OF assms(1) l(1)]
    unfolding set_eq_iff parsed_keys(2) by simp
  show ?thesis
    unfolding reads_entry_def g using log_real_reads parse_utility_parts tun par keys parsed_keys(1) by blast
qed


lemma entry_lines:
  assumes "names_ok specs" "entry_ok specs e"
  shows "\<exists>ls. block_text (log_real (le_time e)) (entry_sections specs e) = str_join [nl] ls \<and> ls \<noteq> [] \<and> (\<forall>l \<in> set ls. l \<noteq> [] \<and> nl \<notin> set l)"
proof -
  have u: "unbroken l \<Longrightarrow> nl \<notin> set l" for l using nl_break(1) by (auto simp: unbroken_def list_all_iff)
  have lit: "unbroken ''sim_time=''" "unbroken [tab]" "unbroken '': ''" by code_simp+
  have "unbroken (''sim_time='' @ log_real (le_time e))" unfolding unbroken_append using lit(1) unbroken_numbers(1) by blast
  moreover have "unbroken (tab # p @ '': '' @ c)" if "(p, c) \<in> set (entry_sections specs e)" for p c
  proof -
    have "section_ok (p, c)" using sections_ok [OF assms] that by (auto simp: list_all_iff)
    then have "unbroken p" "unbroken c" using unbroken_word by (simp_all add: section_ok_def key_ok_def)
    with lit have "unbroken ([tab] @ p @ '': '' @ c)" unfolding unbroken_append by blast
    then show ?thesis by simp
  qed
  ultimately have "\<forall>l \<in> set ((''sim_time='' @ log_real (le_time e)) # map (\<lambda>(p, c). tab # p @ '': '' @ c) (entry_sections specs e)). unbroken l \<and> l \<noteq> []"
    by (simp del: format_log_value.simps append_Cons unbroken_append) auto
  with u show ?thesis unfolding block_text_def by blast
qed

lemma log_blocks:
  assumes "names_ok specs" "list_all (entry_ok specs) entries" "res_map (entry_text specs) entries = Inr texts"
  shows "split_blocks [] (concat texts) = map (\<lambda>e. block_text (log_real (le_time e)) (entry_sections specs e)) entries @ [[]]"
proof -
  let ?b = "\<lambda>e. block_text (log_real (le_time e)) (entry_sections specs e)"
  have "res_map (entry_text specs) es = Inr (map (\<lambda>e. ?b e @ [nl, nl]) es)" if "list_all (entry_ok specs) es" for es
    using that entry_form[OF assms(1)] by (induction es) (simp_all del: format_log_value.simps)
  with assms(2,3) have t: "texts = map (\<lambda>b. b @ [nl, nl]) (map ?b entries)" by (simp add: comp_def)
  have "\<forall>b \<in> set (map ?b entries). \<exists>ls. b = str_join [nl] ls \<and> ls \<noteq> [] \<and> (\<forall>l \<in> set ls. l \<noteq> [] \<and> nl \<notin> set l)"
    using entry_lines[OF assms(1)] assms(2) by (auto simp: list_all_iff)
  then show ?thesis unfolding t by (rule split_log)
qed

lemma load_entries:
  assumes "names_ok specs" "entries \<noteq> []" "list_all (entry_ok specs) entries" "res_map (entry_text specs) entries = Inr texts"
  shows "load_tuning_blocks (concat texts) = Inr (map (entry_block specs) entries)"
    and "list_all2 (reads_entry specs) entries (map (entry_block specs) entries)"
proof -
  let ?b = "\<lambda>e. block_text (log_real (le_time e)) (entry_sections specs e)"
  note sp = log_blocks [OF assms(1,3,4)]
  have "parse_block [] = None" by code_simp
  moreover have "List.map_filter parse_block (map ?b es) = map (entry_block specs) es" if "list_all (entry_ok specs) es" for es
    using that parse_entry [OF assms(1)] by (induction es) (simp_all add: List.map_filter_simps del: format_log_value.simps)
  moreover have "List.map_filter f (xs @ ys) = List.map_filter f xs @ List.map_filter f ys" for f :: "string \<Rightarrow> block option" and xs ys
    by (simp add: List.map_filter_def)
  ultimately have "List.map_filter parse_block (split_blocks [] (concat texts)) = map (entry_block specs) entries"
    using assms(3) by (simp add: sp List.map_filter_simps)
  then show "load_tuning_blocks (concat texts) = Inr (map (entry_block specs) entries)"
    using assms(2) by (simp add: load_tuning_blocks_def)
  show "list_all2 (reads_entry specs) entries (map (entry_block specs) entries)"
    using assms(3) reads_entry_block [OF assms(1)] by (auto simp: list_all2_conv_all_nth list_all_length)
qed



lemma table_names_ok: "names_ok (ALL_PARAMETER_SPECS arange)"
proof -
  have "ALL_PARAMETER_SPECS arange \<noteq> []" by (simp add: ALL_PARAMETER_SPECS_def)
  moreover have "list_all key_ok (map ps_name (ALL_PARAMETER_SPECS arange))"
    unfolding ALL_PARAMETER_SPECS_def by (simp add: key_ok_def is_word_def Let_def)
  ultimately show ?thesis using specs_names [of arange] by (auto simp: names_ok_def list_all_iff)
qed

definition sample_entry :: log_entry where
  "sample_entry = \<lparr>le_time = 2015/1000, le_snapshot = (\<lparr>r_large = 1, r_small = 3\<rparr>, None),
     le_utility = calculate_utility_breakdown 50 40 0 (6/10) (2/10) (2/10),
     le_solution = map ps_default (ALL_PARAMETER_SPECS (\<lambda>_ _ _. [])),
     le_info = [(''state'', SStr ''baseline''), (''tuning_round'', SInt 0)], le_previous = None, le_kl = Fin 0\<rparr>"


section \<open>What does not read back\<close>

lemma special_values_are_text: "parse_scalar (format_float NaN) = VStr ''nan'' \<and> parse_scalar (format_float PosInf) = VStr ''inf''"
  by code_simp

text \<open>The sections that follow on the line of the flow distribution reuse its keys, and the later value wins: with one
  large and three small flows counted from five and seven observed ones, the line reads back as seven small flows.\<close>

lemma flow_section_overwrites:
  fixes m :: flow_meta
  assumes "large_count m = 5" "potential_large m = 0" "small_count m = 7" "potential_effective m = 0"
  shows "dict_get (parse_key_value_line (str_join '', '' (flow_head \<lparr>r_large = 1, r_small = 3\<rparr>
      # flow_more (\<lparr>r_large = 1, r_small = 3\<rparr>, Some m) None @ [''kl_divergence='' @ format_float (Fin 0)]))) ''small'' = Some (VInt 7)"
proof -
  have n: "trim_fixed (fmt_fixed 6 1) = ''1''" "trim_fixed (fmt_fixed 6 3) = ''3''" "trim_fixed (fmt_fixed 6 4) = ''4''"
    "trim_fixed (fmt_fixed 6 0) = ''0''" "trim_fixed (fmt_fixed 6 (1/4)) = ''0.25''" "trim_fixed (fmt_fixed 6 (3/4)) = ''0.75''"
    by (simp_all add: fmt_fixed_def py_round_def pad_zeros_def trim_fixed_def rstrip_by_def text_simps)
  have i: "py_str_int 5 = ''5''" "py_str_int 0 = ''0''" "py_str_int 7 = ''7''" by code_simp+
  have "dict_get (parse_key_value_line (''large=1, small=3, total=4, large_ratio=0.25, small_ratio=0.75, ''
      @ ''observed_distribution: large=5, potential_large=0, small=7, potential_effective=0, kl_divergence=0'')) ''small'' = Some (VInt 7)"
    by code_simp
  then show ?thesis by (simp add: flow_head_def flow_more_def ratio_pair_def n i assms)
qed

end
