(* ===== verification/RoundRecords.thy ===== *)
theory RoundRecords
  imports LogRoundTrip
begin

text \<open>
  The round records that \<^verbatim>\<open>direction_cap_history.py\<close> searches out of a tuner log. The script does not parse the lines: it
  looks for the first occurrence of a label with its equals sign. That it finds the right one in a log of the tuner rests
  on two facts about skipping text, one for values and one for other labels. The rounds it collects are those of the
  entries, and the direction cap rebuilt from them is the tuner's.
\<close>

section \<open>Searching for a label\<close>

definition no_match :: "string \<Rightarrow> string \<Rightarrow> string \<Rightarrow> bool" where
  "no_match lab x y \<longleftrightarrow> (\<forall>i < length x. \<not> starts_with (lab @ ''='') (drop i (x @ y)))"

lemma no_match_Cons: "no_match lab (c # x) y \<longleftrightarrow> \<not> starts_with (lab @ ''='') (c # x @ y) \<and> no_match lab x y"
  unfolding no_match_def by (auto simp: less_Suc_eq_0_disj)

lemma search_skip: "no_match lab x y \<Longrightarrow> search_run (lab @ ''='') P (x @ y) = search_run (lab @ ''='') P y"
  by (induction x) (simp_all add: no_match_Cons)

lemma starts_with_nth: "starts_with p s \<longleftrightarrow> length p \<le> length s \<and> (\<forall>k < length p. s ! k = p ! k)"
  by (auto simp: starts_with_def list_eq_iff_nth_eq min_def)

lemma starts_with_drop: "starts_with p (drop i s) \<Longrightarrow> i \<le> length s \<Longrightarrow> k < length p \<Longrightarrow> s ! (i + k) = p ! k"
  by (metis nth_drop starts_with_nth)

text \<open>Text without an equals sign that ends in a character foreign to the label is skipped.\<close>

lemma no_match_text:
  assumes "CHR ''='' \<notin> set v" "c \<notin> set lab" "c \<noteq> CHR ''=''"
  shows "no_match lab (v @ [c]) y"
  unfolding no_match_def
proof (intro allI impI notI)
  fix i assume i: "i < length (v @ [c])" and m: "starts_with (lab @ ''='') (drop i ((v @ [c]) @ y))"
  then have eq: "((v @ [c]) @ y) ! (i + k) = (lab @ ''='') ! k" if "k < length lab + 1" for k
    using starts_with_drop[OF m, of k] i that by simp
  show False
  proof (cases "i + length lab < length (v @ [c])")
    case True
    then have "(v @ [c]) ! (i + length lab) = ((v @ [c]) @ y) ! (i + length lab)" by (rule nth_append_left[symmetric])
    then have "(v @ [c]) ! (i + length lab) = CHR ''=''" using eq[of "length lab"] by simp
    then have "CHR ''='' \<in> set (v @ [c])" using True nth_mem by metis
    then show False using assms by simp
  next
    case False
    then have "length v - i < length lab" using i by simp
    then have "lab ! (length v - i) = c" "lab ! (length v - i) \<in> set lab"
      using eq[of "length v - i"] i by (simp_all add: nth_append split: if_splits)
    then show False using assms(2) by simp
  qed
qed

text \<open>Another label is skipped unless the one searched for is its end.\<close>

lemma no_match_label:
  assumes "CHR ''='' \<notin> set k" "CHR ''='' \<notin> set lab" "drop (length k - length lab) k \<noteq> lab"
  shows "no_match lab (k @ ''='') y"
  unfolding no_match_def
proof (intro allI impI notI)
  fix i assume i: "i < length (k @ ''='')" and m: "starts_with (lab @ ''='') (drop i ((k @ ''='') @ y))"
  then have eq: "((k @ ''='') @ y) ! (i + j) = (lab @ ''='') ! j" if "j < length lab + 1" for j
    using starts_with_drop[OF m, of j] i that by simp
  consider "i + length lab < length k" | "i + length lab = length k" | "length k < i + length lab" by linarith
  then show False
  proof cases
    case 1
    then have "k ! (i + length lab) = CHR ''=''" using eq[of "length lab"] by (simp add: nth_append)
    then show False using assms(1) 1 nth_mem by metis
  next
    case 2
    have "drop i k = lab"
    proof (rule nth_equalityI)
      show "length (drop i k) = length lab" using 2 by simp
      show "drop i k ! j = lab ! j" if "j < length (drop i k)" for j
      proof -
        have "j < length lab" "i + j < length k" using that 2 by simp_all
        then show ?thesis using eq[of j] by (simp add: nth_append)
      qed
    qed
    moreover have "length k - length lab = i" using 2 by simp
    ultimately show False using assms(3) by simp
  next
    case 3
    then have j: "length k - i < length lab" using i by simp
    then have "lab ! (length k - i) = CHR ''=''" using eq[of "length k - i"] i by (simp add: nth_append)
    then show False using assms(2) j nth_mem by metis
  qed
qed

lemma search_none: "CHR ''='' \<notin> set v \<Longrightarrow> search_run (lab @ ''='') P v = None"
proof (induction v)
  case (Cons c v)
  have "\<not> starts_with (lab @ ''='') (c # v)"
  proof
    assume "starts_with (lab @ ''='') (c # v)"
    then have "CHR ''='' \<in> set (take (length (lab @ ''='')) (c # v))" by (simp add: starts_with_def)
    then show False using Cons.prems set_take_subset by fastforce
  qed
  then show ?case using Cons by simp
qed simp

lemma search_here:
  assumes "v \<noteq> []" "list_all P v" "y = [] \<or> \<not> P (hd y)"
  shows "search_run (lab @ ''='') P (lab @ ''='' @ v @ y) = Some v"
proof -
  have t: "takeWhile P (v @ y) = v" using assms(2,3) by (cases y) (auto simp: takeWhile_append2 list_all_iff)
  obtain c s where s: "lab @ ''='' @ v @ y = c # s" by (cases "lab @ ''='' @ v @ y") auto
  have "starts_with (lab @ ''='') (lab @ ''='' @ v @ y)" by (simp add: starts_with_def)
  moreover have "drop (length (lab @ ''='')) (lab @ ''='' @ v @ y) = v @ y" by simp
  ultimately show ?thesis using t assms(1) unfolding s search_run.simps by (simp add: Let_def)
qed

definition no_eq :: "string \<times> string \<Rightarrow> bool" where
  "no_eq kv \<longleftrightarrow> CHR ''='' \<notin> set (fst kv) \<and> CHR ''='' \<notin> set (snd kv)"

text \<open>What a search for \<open>lab=\<close> has to do: pass over text where the label does not start, find nothing without an equals
  sign, and read the value (of the kind \<open>good\<close>) where the label stands.\<close>

locale label_search =
  fixes search :: "string \<Rightarrow> 'a option" and lab :: string and read_value :: "string \<Rightarrow> 'a option" and good :: "string \<Rightarrow> bool"
  assumes skip: "no_match lab x y \<Longrightarrow> search (x @ y) = search y"
    and none: "CHR ''='' \<notin> set v \<Longrightarrow> search v = None"
    and here: "good v \<Longrightarrow> y = [] \<or> hd y = CHR '','' \<Longrightarrow> search (lab @ ''='' @ v @ y) = read_value v"
    and plain_label: "CHR ''='' \<notin> set lab" "CHR '' '' \<notin> set lab" "CHR '','' \<notin> set lab"
begin

lemma skip_value: "CHR ''='' \<notin> set v \<Longrightarrow> c = CHR '' '' \<or> c = CHR '','' \<Longrightarrow> search (v @ c # y) = search y"
  using skip[OF no_match_text[of v c lab y]] plain_label by auto

lemma skip_label: "CHR ''='' \<notin> set k \<Longrightarrow> drop (length k - length lab) k \<noteq> lab \<Longrightarrow> search (k @ CHR ''='' # y) = search y"
  using skip[OF no_match_label[of k lab y]] plain_label by simp

lemma find_assignment:
  "\<forall>kv \<in> set kvs. no_eq kv \<and> (fst kv = lab \<or> drop (length (fst kv) - length lab) (fst kv) \<noteq> lab) \<Longrightarrow>
    (\<forall>v. map_of kvs lab = Some v \<longrightarrow> good v) \<Longrightarrow>
    search (str_join '', '' (map assignment kvs)) = (case map_of kvs lab of None \<Rightarrow> None | Some v \<Rightarrow> read_value v)"
proof (induction kvs)
  case Nil
  then show ?case by (simp add: none)
next
  case (Cons kv kvs)
  obtain k v where kv: "kv = (k, v)" by force
  let ?y = "if kvs = [] then [] else '', '' @ str_join '', '' (map assignment kvs)"
  have j: "str_join '', '' (map assignment (kv # kvs)) = k @ ''='' @ v @ ?y"
    by (cases kvs) (simp_all add: kv assignment_def)
  show ?case
  proof (cases "k = lab")
    case True
    then have "search (lab @ ''='' @ v @ ?y) = read_value v"
      using Cons.prems(2) by (intro here) (simp_all add: kv)
    then show ?thesis using True unfolding j by (simp add: kv)
  next
    case False
    have l: "search (k @ CHR ''='' # v @ ?y) = search (v @ ?y)"
      using Cons.prems(1) False by (intro skip_label) (auto simp: kv no_eq_def)
    have v: "CHR ''='' \<notin> set v" using Cons.prems(1) by (simp add: kv no_eq_def)
    have ih: "search (str_join '', '' (map assignment kvs)) = (case map_of kvs lab of None \<Rightarrow> None | Some v \<Rightarrow> read_value v)"
      using Cons False by (simp add: kv)
    have "search (v @ ?y) = search (str_join '', '' (map assignment kvs))"
    proof (cases "kvs = []")
      case True
      then show ?thesis using none[OF v] none[of "[]"] by simp
    next
      case c: False
      have "search ((v @ '','') @ CHR '' '' # str_join '', '' (map assignment kvs)) = search (str_join '', '' (map assignment kvs))"
        using v by (intro skip_value) simp_all
      then show ?thesis using c by simp
    qed
    then show ?thesis using l ih False unfolding j by (simp add: kv)
  qed
qed

end

definition number_char :: "char \<Rightarrow> bool" where
  "number_char c \<longleftrightarrow> is_digit c \<or> c = CHR ''.''"

definition state_char :: "char \<Rightarrow> bool" where
  "state_char c \<longleftrightarrow> ((97 :: nat) \<le> of_char c \<and> of_char c \<le> (122 :: nat)) \<or> c = CHR ''_''"

lemma search_run_label:
  assumes "\<not> P (CHR '','')" "CHR ''='' \<notin> set lab" "CHR '' '' \<notin> set lab" "CHR '','' \<notin> set lab"
  shows "label_search (search_run (lab @ ''='') P) lab Some (\<lambda>v. v \<noteq> [] \<and> list_all P v)"
proof
  show "search_run (lab @ ''='') P (lab @ ''='' @ v @ y) = Some v" if "v \<noteq> [] \<and> list_all P v" "y = [] \<or> hd y = CHR '','' " for v y
    using that assms(1) by (intro search_here) auto
qed (use assms search_skip search_none in auto)

interpretation total: label_search "search_run (''total'' @ ''='') number_char" "''total''" Some "\<lambda>v. v \<noteq> [] \<and> list_all number_char v"
  by (rule search_run_label) (simp_all add: number_char_def is_digit_def)

interpretation round: label_search "search_run (''round'' @ ''='') is_digit" "''round''" Some "\<lambda>v. v \<noteq> [] \<and> list_all is_digit v"
  by (rule search_run_label) (simp_all add: is_digit_def)

interpretation state: label_search "search_run (''state'' @ ''='') state_char" "''state''" Some "\<lambda>v. v \<noteq> [] \<and> list_all state_char v"
  by (rule search_run_label) (simp_all add: state_char_def)

lemma starts_with_prefix: "starts_with (a @ b) s \<Longrightarrow> starts_with a s"
  by (auto simp: starts_with_nth nth_append)

lemma accepted_starts:
  "starts_with ''accepted=true'' s \<Longrightarrow> starts_with (''accepted'' @ ''='') s"
  "starts_with ''accepted=false'' s \<Longrightarrow> starts_with (''accepted'' @ ''='') s"
  using starts_with_prefix[of "''accepted='' " "''true''" s] starts_with_prefix[of "''accepted='' " "''false''" s] by simp_all

lemma accepted_skip: "no_match ''accepted'' x y \<Longrightarrow> search_accepted (x @ y) = search_accepted y"
  by (induction x) (auto simp: no_match_Cons dest: accepted_starts)

lemma accepted_none: "CHR ''='' \<notin> set v \<Longrightarrow> search_accepted v = None"
proof (induction v)
  case (Cons c v)
  have "\<not> starts_with (''accepted'' @ ''='') (c # v)"
    using search_none[OF Cons.prems, of "''accepted''" "\<lambda>_. True"]
    by (auto simp: starts_with_def) (metis Cons.prems in_set_takeD list.set_intros)
  then show ?case using Cons accepted_starts[of "c # v"] by auto
qed simp

lemma accepted_here:
  "v = ''true'' \<or> v = ''false'' \<Longrightarrow> search_accepted (''accepted'' @ ''='' @ v @ y) = Some (v = ''true'')"
  by (auto simp: starts_with_def)

interpretation accepted: label_search search_accepted "''accepted''" "\<lambda>v. Some (v = ''true'')" "\<lambda>v. v = ''true'' \<or> v = ''false''"
  by unfold_locales (use accepted_skip accepted_none accepted_here in auto)

section \<open>The utility line\<close>

lemma plain_no_eq: "list_all plain_char s \<Longrightarrow> CHR ''='' \<notin> set s"
  using plain_char_not by (fastforce simp: list_all_iff)

lemma skip_segment:
  assumes "CHR ''='' \<notin> set k" "drop (length k - length ''total'') k \<noteq> ''total''"
  shows "search_run (''total'' @ ''='') number_char (segment k (log_real a) (log_real r) (log_real w) @ '', '' @ y)
    = search_run (''total'' @ ''='') number_char y"
proof -
  have n: "CHR ''='' \<notin> set (log_real x)" for x by (rule plain_no_eq[OF log_real_plain])
  let ?S = "search_run (''total'' @ ''='') number_char"
  have "?S (k @ CHR ''='' # y) = ?S y" for y using assms by (intro total.skip_label) simp_all
  moreover have "?S (''(raw'' @ CHR ''='' # y) = ?S y" "?S ('' weighted'' @ CHR ''='' # y) = ?S y" for y
    by (intro total.skip_label; simp)+
  moreover have "?S (log_real x @ CHR '' '' # y) = ?S y" "?S (log_real x @ CHR '','' # y) = ?S y"
    "?S ((log_real x @ '')'' @ '','') @ CHR '' '' # y) = ?S y" for x y
    using n by (intro total.skip_value; simp del: format_log_value.simps)+
  ultimately have "?S (k @ CHR ''='' # (log_real a @ CHR '' '' # (''(raw'' @ CHR ''='' # (log_real r @ CHR '','' # ('' weighted'' @ CHR ''='' #
        ((log_real w @ '')'' @ '','') @ CHR '' '' # y)))))) = ?S y"
    by (simp only:)
  moreover have "segment k (log_real a) (log_real r) (log_real w) @ '', '' @ y =
      k @ CHR ''='' # (log_real a @ CHR '' '' # (''(raw'' @ CHR ''='' # (log_real r @ CHR '','' # ('' weighted'' @ CHR ''='' #
        ((log_real w @ '')'' @ '','') @ CHR '' '' # y)))))"
    by (simp add: segment_def del: format_log_value.simps)
  ultimately show ?thesis by (simp only:)
qed

lemma log_real_number:
  assumes "0 \<le> x"
  shows "list_all number_char (log_real x)"
proof -
  obtain ip fp where "list_all is_digit ip" "list_all is_digit fp" "trim_fixed (fmt_fixed 6 x) = (if x < 0 then ''-'' else []) @ decimal ip fp"
    by (rule trimmed_decimal[of 6 x]) simp_all
  then show ?thesis using assms by (auto simp: number_char_def decimal_def list_all_iff)
qed

lemma search_total:
  assumes "0 \<le> total_utility u"
  shows "search_run ''total='' number_char (''utility: '' @ str_join '', '' (utility_parts u)) = Some (log_real (total_utility u))"
proof -
  let ?S = "search_run (''total'' @ ''='') number_char" and ?t = "''total'' @ ''='' @ log_real (total_utility u) @ []"
  have "?S (''utility:'' @ CHR '' '' # y) = ?S y" for y by (intro total.skip_value) simp_all
  then have a: "?S (''utility: '' @ y) = ?S y" for y by simp
  have s: "?S (segment (n @ ''_norm'') (log_real x) (log_real r) (log_real w) @ '', '' @ y) = ?S y"
    if "n \<in> {''throughput'', ''rtt'', ''pfc''}" for n x r w y
    using that by (intro skip_segment) auto
  have "str_join '', '' (utility_parts u) =
      segment (''throughput'' @ ''_norm'') (log_real (throughput_norm u)) (log_real (ub_throughput u)) (log_real (throughput_utility u)) @ '', '' @
      segment (''rtt'' @ ''_norm'') (log_real (rtt_norm u)) (log_real (ub_rtt u)) (log_real (rtt_utility u)) @ '', '' @
      segment (''pfc'' @ ''_norm'') (log_real (pfc_norm u)) (log_real (ub_pfc u)) (log_real (pfc_utility u)) @ '', '' @ ?t"
    by (simp only: utility_parts_def str_join.simps append_assoc append_Nil2) simp
  then have "?S (''utility: '' @ str_join '', '' (utility_parts u)) = ?S ?t" by (simp only: a s insert_iff simp_thms)
  also have "\<dots> = Some (log_real (total_utility u))"
    using assms log_real_number log_real_nonempty by (intro search_here) simp_all
  finally show ?thesis by simp
qed

section \<open>The tuning line\<close>

lemma info_field_label: "info_field d x = Some kv \<Longrightarrow> fst kv = snd x"
  by (cases x) (auto simp: info_field_def split: option.splits if_splits)

lemma map_of_info_absent: "lab \<notin> snd ` set xs \<Longrightarrow> map_of (List.map_filter (info_field d) xs) lab = None"
  by (induction xs) (auto simp: List.map_filter_simps dest: info_field_label split: option.splits)

lemma map_of_info_fields:
  "distinct (map snd xs) \<Longrightarrow> (key, lab) \<in> set xs \<Longrightarrow>
     map_of (List.map_filter (info_field d) xs) lab = map_option snd (info_field d (key, lab))"
proof (induction xs)
  case (Cons x xs)
  show ?case
  proof (cases "x = (key, lab)")
    case True
    then show ?thesis using map_of_info_absent[of lab xs d] Cons.prems(1)
      by (cases "info_field d x") (auto simp: List.map_filter_simps dest: info_field_label)
  next
    case False
    then have i: "(key, lab) \<in> set xs" using Cons.prems by auto
    then have "lab \<in> snd ` set xs" by force
    then have "snd x \<noteq> lab" using Cons.prems(1) by auto
    then show ?thesis using Cons i by (cases "info_field d x") (auto simp: List.map_filter_simps dest: info_field_label)
  qed
qed simp

lemma map_of_info:
  assumes "(key, lab) \<in> set ordered_fields"
  shows "map_of (info_kvs d) lab =
    (case dict_get d key of None \<Rightarrow> None | Some v \<Rightarrow> if v = SNone then None else Some (format_log_value v))"
proof -
  have "distinct (map snd ordered_fields)" by code_simp
  from map_of_info_fields[OF this assms, of d] show ?thesis
    by (simp add: info_kvs_field info_field_def split: option.splits)
qed

lemma text_no_eq: "word_scalar v \<Longrightarrow> CHR ''='' \<notin> set (format_log_value v)"
proof (cases "\<exists>s. v = SStr s")
  case True
  then show "word_scalar v \<Longrightarrow> ?thesis" using key_ok_facts(2) by (auto simp: word_scalar_def)
next
  case False
  then show ?thesis using plain_no_eq[OF plain_format_log_value] by blast
qed

definition ends_apart :: "string \<Rightarrow> string \<Rightarrow> bool" where
  "ends_apart lab k \<longleftrightarrow> k = lab \<or> drop (length k - length lab) k \<noteq> lab"

lemma info_searchable:
  assumes "list_all (\<lambda>(k, v). word_scalar v) d" "lab \<in> {''round'', ''state'', ''accepted''}"
  shows "\<forall>kv \<in> set (info_kvs d). no_eq kv \<and> (fst kv = lab \<or> drop (length (fst kv) - length lab) (fst kv) \<noteq> lab)"
proof
  fix kv assume "kv \<in> set (info_kvs d)"
  then obtain key where k: "(key, fst kv) \<in> set ordered_fields" "info_field d (key, fst kv) = Some kv"
    by (auto simp: info_kvs_field List.map_filter_def info_field_def split: option.splits if_splits)
  have l: "\<forall>kl \<in> set ordered_fields. key_ok (snd kl) \<and> list_all (\<lambda>lab. ends_apart lab (snd kl)) [''round'', ''state'', ''accepted'']"
    by code_simp
  have "word_scalar v" if "dict_get d key = Some v" for v
    using dict_get_Some_in[OF that] assms(1) by (auto simp: list_all_iff)
  then have "CHR ''='' \<notin> set (snd kv)"
    using k(2) text_no_eq by (cases kv) (auto simp: info_field_def split: option.splits if_splits)
  moreover have "CHR ''='' \<notin> set (fst kv)" using l k(1) key_ok_facts(2) by force
  moreover have "ends_apart lab (fst kv)" using l k(1) assms(2) by (fastforce simp: list_all_iff)
  ultimately show "no_eq kv \<and> (fst kv = lab \<or> drop (length (fst kv) - length lab) (fst kv) \<noteq> lab)"
    by (simp add: no_eq_def ends_apart_def)
qed

section \<open>The record of an entry\<close>

text \<open>What the script should find in an entry, from the fields the tuner logged; numbers as they are printed.\<close>

definition entry_state :: "log_entry \<Rightarrow> string" where
  "entry_state e = (case dict_get (le_info e) ''state'' of Some (SStr s) \<Rightarrow> s | _ \<Rightarrow> [])"

definition entry_accepted :: "log_entry \<Rightarrow> bool option" where
  "entry_accepted e = (case dict_get (le_info e) ''accepted'' of Some (SBool b) \<Rightarrow> Some b | _ \<Rightarrow> None)"

definition entry_record :: "log_entry \<Rightarrow> record_line" where
  "entry_record e =
    (let shown = fixed_val 6 (total_utility (le_utility e)) in
     case dict_get (le_info e) ''tuning_round'' of
       Some (SInt n) \<Rightarrow>
         if n = 0 then (if entry_state e = ''baseline'' then RBaseline shown else RSkip)
         else RRound n (Fin (fixed_val 6 (le_time e))) shown (entry_accepted e)
     | _ \<Rightarrow> RSkip)"

text \<open>The fields the tuner writes: a lower-case state, round numbers from 0 on, a truth value for acceptance, and a
  utility that is not negative (a minus sign is outside the searched characters).\<close>

definition searchable :: "param_spec list \<Rightarrow> log_entry \<Rightarrow> bool" where
  "searchable specs e \<longleftrightarrow> entry_ok specs e \<and> 0 \<le> total_utility (le_utility e) \<and> list_all state_char (entry_state e)
     \<and> (case dict_get (le_info e) ''tuning_round'' of None \<Rightarrow> True | Some v \<Rightarrow> v = SNone \<or> (\<exists>n. v = SInt (int n)))
     \<and> (case dict_get (le_info e) ''accepted'' of None \<Rightarrow> True | Some v \<Rightarrow> v = SNone \<or> (\<exists>b. v = SBool b))"

lemma ordered: "(''state'', ''state'') \<in> set ordered_fields" "(''tuning_round'', ''round'') \<in> set ordered_fields"
  "(''accepted'', ''accepted'') \<in> set ordered_fields"
  by (simp_all add: ordered_fields_def)

lemma tuning_found:
  assumes "searchable specs e"
  defines "line \<equiv> ''tuning: '' @ str_join '', '' (map assignment (info_kvs (le_info e)))"
  shows "search_run ''state='' state_char line = Some (entry_state e)"
    "search_run ''round='' is_digit line = (case dict_get (le_info e) ''tuning_round'' of Some (SInt n) \<Rightarrow> Some (py_str_int n) | _ \<Rightarrow> None)"
    "search_accepted line = entry_accepted e"
proof -
  let ?d = "le_info e" and ?j = "str_join '', '' (map assignment (info_kvs (le_info e)))"
  have w: "list_all (\<lambda>(k, v). word_scalar v) ?d" using assms(1) by (simp add: searchable_def entry_ok_def)
  note s = info_searchable[OF w]
  obtain st where st: "dict_get ?d ''state'' = Some (SStr st)" using assms(1) by (auto simp: searchable_def entry_ok_def)
  then have "word_scalar (SStr st)" using dict_get_Some_in[OF st] w by (auto simp: list_all_iff)
  then have g: "st \<noteq> []" "list_all state_char st" "entry_state e = st"
    using assms(1) st by (simp_all add: searchable_def entry_state_def word_scalar_def key_ok_def)
  have m: "map_of (info_kvs ?d) ''state'' = Some st" using map_of_info[OF ordered(1)] st by simp
  have "search_run (''state'' @ ''='') state_char (''tuning:'' @ CHR '' '' # ?j) = Some st"
    using state.find_assignment[OF s] m g by (subst state.skip_value) simp_all
  then show "search_run ''state='' state_char line = Some (entry_state e)" by (simp add: line_def g)
  have n: "(\<forall>v. map_of (info_kvs ?d) ''round'' = Some v \<longrightarrow> v \<noteq> [] \<and> list_all is_digit v)"
    "map_of (info_kvs ?d) ''round'' = (case dict_get ?d ''tuning_round'' of Some (SInt n) \<Rightarrow> Some (py_str_int n) | _ \<Rightarrow> None)"
    using assms(1) map_of_info[OF ordered(2), of ?d] str_nat_nonempty str_nat_digits
    by (auto simp: searchable_def py_str_int_def split: option.splits)
  have "search_run (''round'' @ ''='') is_digit (''tuning:'' @ CHR '' '' # ?j) = map_of (info_kvs ?d) ''round''"
    using round.find_assignment[OF s n(1)] by (subst round.skip_value) (simp_all split: option.splits)
  then show "search_run ''round='' is_digit line = (case dict_get ?d ''tuning_round'' of Some (SInt n) \<Rightarrow> Some (py_str_int n) | _ \<Rightarrow> None)"
    by (simp add: line_def n(2))
  have a: "(\<forall>v. map_of (info_kvs ?d) ''accepted'' = Some v \<longrightarrow> v = ''true'' \<or> v = ''false'')"
    "(case map_of (info_kvs ?d) ''accepted'' of None \<Rightarrow> None | Some v \<Rightarrow> Some (v = ''true'')) = entry_accepted e"
    using assms(1) map_of_info[OF ordered(3), of ?d]
    by (auto simp: searchable_def entry_accepted_def split: option.splits if_splits)
  have "search_accepted (''tuning:'' @ CHR '' '' # ?j) = entry_accepted e"
    using accepted.find_assignment[OF s a(1)] a(2) by (subst accepted.skip_value) simp_all
  then show "search_accepted line = entry_accepted e" by (simp add: line_def)
qed

section \<open>Reading the log\<close>

lemma strip_tabbed: "trimmed l \<Longrightarrow> str_strip (tab # l) = l"
proof -
  assume l: "trimmed l"
  have "is_space tab" by code_simp
  then have "str_strip (tab # l) = str_strip l" by (simp add: str_strip_def strip_by_def)
  then show ?thesis using strip_trimmed(1)[OF l] by simp
qed

lemma block_text_lines:
  assumes "tail_ok t" "list_all section_ok sections"
  shows "filter (\<lambda>l. l \<noteq> []) (map str_strip (py_splitlines (block_text t sections))) =
    (''sim_time='' @ t) # map (\<lambda>(p, c). p @ '': '' @ c) sections"
proof -
  let ?ls = "(''sim_time='' @ t) # map (\<lambda>(p, c). tab # p @ '': '' @ c) sections"
  have lit: "unbroken ''sim_time=''" "unbroken [tab]" "unbroken '': ''" "\<not> is_space (CHR ''s'')" by code_simp+
  have sec: "trimmed (p @ '': '' @ c) \<and> unbroken (p @ '': '' @ c)" if "(p, c) \<in> set sections" for p c
  proof -
    have "section_ok (p, c)" using assms(2) that by (auto simp: list_all_iff)
    then have "trimmed p" "trimmed c" "unbroken p" "unbroken c"
      using unbroken_word key_ok_facts(1) by (simp_all add: section_ok_def key_ok_def)
    then show ?thesis using lit(3) trimmed_prefixed[of p c "'': ''"] unfolding unbroken_append by blast
  qed
  have head: "trimmed (''sim_time='' @ t) \<and> unbroken (''sim_time='' @ t)"
    using tail_ok_append[OF lit(1) assms(1)] lit(4) by (intro tail_ok_trimmed) simp_all
  have "unbroken l \<and> l \<noteq> []" if "l \<in> set ?ls" for l
    using that head sec lit(2) unbroken_append(1)[of "[tab]"] by fastforce
  then have "py_splitlines (block_text t sections) = ?ls"
    unfolding block_text_def by (intro splitlines_join) (simp add: unbroken_def)
  moreover have "map str_strip ?ls = (''sim_time='' @ t) # map (\<lambda>(p, c). p @ '': '' @ c) sections"
    using strip_trimmed(1) head sec strip_tabbed by auto
  moreover have "p @ '': '' @ c \<noteq> []" for p c :: string by simp
  ultimately show ?thesis by (simp add: filter_id_conv split_beta)
qed

lemma state_char_eq: "(\<lambda>c. ((97 :: nat) \<le> of_char c \<and> of_char c \<le> (122 :: nat)) \<or> c = CHR ''_'') = state_char"
  by (simp add: fun_eq_iff state_char_def)

lemma number_char_eq: "(\<lambda>c. is_digit c \<or> c = CHR ''.'') = number_char"
  by (simp add: fun_eq_iff number_char_def)

lemma read_record_entry:
  assumes "names_ok specs" "searchable specs e"
  shows "read_record (block_text (log_real (le_time e)) (entry_sections specs e)) = Inr (entry_record e)"
proof -
  let ?tl = "''tuning: '' @ str_join '', '' (map assignment (info_kvs (le_info e)))"
  let ?ul = "''utility: '' @ str_join '', '' (utility_parts (le_utility e))"
  let ?ls = "filter (\<lambda>l. l \<noteq> []) (map str_strip (py_splitlines (block_text (log_real (le_time e)) (entry_sections specs e))))"
  have ok: "entry_ok specs e" "0 \<le> total_utility (le_utility e)" using assms(2) by (simp_all add: searchable_def)
  have ls: "?ls = (''sim_time='' @ log_real (le_time e)) # map (\<lambda>(p, c). p @ '': '' @ c) (entry_sections specs e)"
    by (rule block_text_lines[OF tail_ok_number(1) sections_ok[OF assms(1) ok(1)]])
  have f: "find (starts_with ''utility:'') ?ls = Some ?ul" "find (starts_with ''tuning:'') ?ls = Some ?tl"
    unfolding ls unfolding entry_sections_def by (simp_all add: starts_with_def del: format_log_value.simps)
  have h: "?ls \<noteq> []" "hd ?ls = ''sim_time='' @ log_real (le_time e)" unfolding ls by simp_all
  have t: "split_first (CHR ''='') (''sim_time='' @ log_real (le_time e)) = Some (''sim_time'', log_real (le_time e))"
    using split_first_app[of "CHR ''=''" "''sim_time''" "log_real (le_time e)"] by (simp del: format_log_value.simps)
  have n: "py_float (log_real x) = Inr (Fin (fixed_val 6 x))" for x by (simp add: py_float_trimmed)
  have st: "starts_with ''sim_time='' (''sim_time='' @ log_real (le_time e))" by (simp add: starts_with_def del: format_log_value.simps)
  show ?thesis
    unfolding read_record_def Let_def f h(2) t state_char_eq number_char_eq option.case prod.case search_total[OF ok(2)] tuning_found[OF assms(2)]
    using h(1) st n py_int_str
    by (auto simp: entry_record_def Let_def simp del: format_log_value.simps split: option.splits scalar.splits)
qed

section \<open>The direction cap\<close>

text \<open>The tuner's own sequence: the rate after each observed change and the cap it implies.\<close>

fun ewma_trace :: "dir_cfg \<Rightarrow> real \<Rightarrow> real list \<Rightarrow> (real \<times> real) list" where
  "ewma_trace cfg r [] = []"
| "ewma_trace cfg r (d # ds) =
    (let r' = update_bad_rate_ewma cfg d r in (r', get_direction_prob_cap cfg r') # ewma_trace cfg r' ds)"

text \<open>With the adaptive policy and the tuner's floor of one half, the rate and the cap rebuilt from any rows are those
  of \<open>update_bad_rate_ewma\<close> and \<open>get_direction_prob_cap\<close> on their changes.\<close>

lemma history_trace:
  assumes "cap_adaptive cfg" "prob_cap_min cfg = 1/2"
  shows "map (\<lambda>h. (hr_bad_rate h, hr_cap h)) (reconstruct_history rows (prob_cap_max cfg) (ewma_alpha cfg) (delta_eps cfg))
      = ewma_trace cfg 0 (map delta_true rows)"
proof -
  have "map (\<lambda>h. (hr_bad_rate h, hr_cap h)) (history_from (prob_cap_max cfg) (ewma_alpha cfg) (delta_eps cfg) r rows)
      = ewma_trace cfg r (map delta_true rows)" for r
    by (induction rows arbitrary: r) (simp_all add: update_bad_rate_ewma_def get_direction_prob_cap_def assms Let_def)
  then show ?thesis by (simp add: reconstruct_history_def)
qed

text \<open>The changes of utility the tuner saw: against the baseline, then against the last accepted candidate.\<close>

definition is_round :: "log_entry \<Rightarrow> bool" where
  "is_round e \<longleftrightarrow> (\<exists>n. n \<noteq> 0 \<and> dict_get (le_info e) ''tuning_round'' = Some (SInt n))"

definition is_baseline :: "log_entry \<Rightarrow> bool" where
  "is_baseline e \<longleftrightarrow> dict_get (le_info e) ''tuning_round'' = Some (SInt 0) \<and> entry_state e = ''baseline''"

definition entry_round :: "log_entry \<Rightarrow> int" where
  "entry_round e = (case dict_get (le_info e) ''tuning_round'' of Some (SInt n) \<Rightarrow> n | _ \<Rightarrow> 0)"

fun rounds_after :: "real \<Rightarrow> log_entry list \<Rightarrow> (int \<times> real) list" where
  "rounds_after v [] = []"
| "rounds_after v (e # es) =
    (let t = total_utility (le_utility e) in
     if is_baseline e then rounds_after t es
     else if is_round e then (entry_round e, t - v) # rounds_after (if entry_accepted e = Some True then t else v) es
     else rounds_after v es)"

text \<open>The rounds of a session that starts with the baseline entry \<open>b\<close>: their numbers and changes.\<close>

definition session_rounds :: "log_entry \<Rightarrow> log_entry list \<Rightarrow> (int \<times> real) list" where
  "session_rounds b es = rounds_after (total_utility (le_utility b)) es"

text \<open>A change that the six printed digits do not move across the threshold.\<close>

definition clear_change :: "dir_cfg \<Rightarrow> real \<Rightarrow> bool" where
  "clear_change cfg d \<longleftrightarrow> 1 / 1000000 < \<bar>d + delta_eps cfg\<bar>"

definition near_rounds :: "(int \<times> real) list \<Rightarrow> round_row list \<Rightarrow> bool" where
  "near_rounds rs rows = list_all2 (\<lambda>(n, d) row. rr_round row = n \<and> \<bar>delta_true row - d\<bar> \<le> 1 / 1000000) rs rows"

lemma history_rows: "map hr_row (reconstruct_history rows pmax alpha eps) = rows"
proof -
  have "map hr_row (history_from pmax alpha eps r rows) = rows" for r
    by (induction rows arbitrary: r) (simp_all add: Let_def)
  then show ?thesis by (simp add: reconstruct_history_def)
qed

lemma printed_change: "\<bar>(fixed_val 6 t - fixed_val 6 v) - (t - v)\<bar> \<le> 1 / 1000000"
proof -
  have "\<bar>fixed_val 6 t - t\<bar> \<le> 1 / 2000000" "\<bar>fixed_val 6 v - v\<bar> \<le> 1 / 2000000"
    using fixed_val_error[of 6 t] fixed_val_error[of 6 v] by simp_all
  then show ?thesis by (simp only: abs_le_iff) linarith
qed

lemma entry_record_cases:
  "entry_record e =
    (if is_baseline e then RBaseline (fixed_val 6 (total_utility (le_utility e)))
     else if is_round e
     then RRound (entry_round e) (Fin (fixed_val 6 (le_time e)))
            (fixed_val 6 (total_utility (le_utility e))) (entry_accepted e)
     else RSkip)"
  by (auto simp: entry_record_def is_baseline_def is_round_def entry_round_def Let_def split: option.splits scalar.splits)

lemma collect_near:
  assumes "list_all2 (\<lambda>b e. read_record b = Inr (entry_record e)) bs es"
  shows "\<exists>rows. collect_records (Some (fixed_val 6 v)) bs = Inr rows \<and> near_rounds (rounds_after v es) rows"
  using assms
proof (induction arbitrary: v rule: list_all2_induct)
  case Nil
  then show ?case by (simp add: near_rounds_def)
next
  case (Cons b bs e es)
  let ?t = "total_utility (le_utility e)"
  show ?case
  proof (cases "is_baseline e \<or> \<not> is_round e")
    case True
    then show ?thesis using Cons.IH[of ?t] Cons.IH[of v] Cons.hyps(1) by (auto simp: entry_record_cases)
  next
    case False
    have "(if entry_accepted e = Some True then Some (fixed_val 6 ?t) else Some (fixed_val 6 v)) =
        Some (fixed_val 6 (if entry_accepted e = Some True then ?t else v))" by simp
    then show ?thesis
      using Cons.IH[of "if entry_accepted e = Some True then ?t else v"] Cons.hyps(1) False printed_change[of ?t v]
      by (auto simp: entry_record_cases near_rounds_def Let_def)
  qed
qed

lemma ewma_trace_cong:
  "list_all2 (\<lambda>d d'. d < - delta_eps cfg \<longleftrightarrow> d' < - delta_eps cfg) ds ds' \<Longrightarrow> ewma_trace cfg r ds = ewma_trace cfg r ds'"
  by (induction arbitrary: r rule: list_all2_induct) (simp_all add: update_bad_rate_ewma_def Let_def)

lemma clear_near: "clear_change cfg d \<Longrightarrow> \<bar>d' - d\<bar> \<le> 1 / 1000000 \<Longrightarrow> d < - delta_eps cfg \<longleftrightarrow> d' < - delta_eps cfg"
  unfolding clear_change_def by linarith

lemma collect_unseen:
  assumes "list_all2 (\<lambda>b e. read_record b = Inr (entry_record e)) bs es" "list_all (\<lambda>e. \<not> is_round e) es"
  shows "\<exists>c. \<forall>bs'. collect_records current (bs @ bs') = collect_records c bs'"
  using assms
proof (induction arbitrary: current rule: list_all2_induct)
  case Nil
  then show ?case by auto
next
  case (Cons b bs e es)
  then show ?case by (cases "is_baseline e") (auto simp: entry_record_cases)
qed

lemma block_not_blank: "str_strip (block_text t sections) \<noteq> []"
proof (rule strip_nonempty[of "CHR ''s''"])
  show "CHR ''s'' \<in> set (block_text t sections)" by (cases sections) (simp_all add: block_text_def)
  show "\<not> is_space (CHR ''s'')" by code_simp
qed

lemma searchable_entry: "list_all (searchable specs) es \<Longrightarrow> list_all (entry_ok specs) es"
  by (simp add: list_all_iff searchable_def)

lemma record_blocks:
  assumes "names_ok specs" "list_all (searchable specs) entries" "res_map (entry_text specs) entries = Inr texts"
  shows "\<exists>bs. list_all2 (\<lambda>b e. read_record b = Inr (entry_record e)) bs entries
    \<and> parse_round_records (concat texts) = collect_records None bs"
proof -
  let ?b = "\<lambda>e. block_text (log_real (le_time e)) (entry_sections specs e)"
  have e: "str_strip [] = []" by code_simp
  have "filter (\<lambda>b. str_strip b \<noteq> []) (map (\<lambda>e. block_text (t e) (f e)) es @ [[]]) = map (\<lambda>e. block_text (t e) (f e)) es"
    for t f and es :: "log_entry list" by (induction es) (simp_all add: block_not_blank e)
  then have "filter (\<lambda>b. str_strip b \<noteq> []) (split_blocks [] (concat texts)) = map ?b entries"
    unfolding log_blocks[OF assms(1) searchable_entry[OF assms(2)] assms(3)] .
  moreover have "list_all2 (\<lambda>b e. read_record b = Inr (entry_record e)) (map ?b entries) entries"
    unfolding list.rel_map by (rule list.rel_refl_strong, rule read_record_entry[OF assms(1)]) (use assms(2) in \<open>simp only: list_all_iff\<close>)
  ultimately show ?thesis unfolding parse_round_records_def by (intro exI[of _ "map ?b entries"] conjI) (simp_all only:)
qed

text \<open>The direction-cap history rebuilt from a tuner log is the tuner's. From the log of a session, with entries before
  the baseline, rounds that are accepted, rejected or undecided and entries in between that are no rounds,
  \<^verbatim>\<open>direction_cap_history.py\<close> recovers one row per round, each change of utility to within a millionth; the rate and the
  cap of every row are those of \<open>update_bad_rate_ewma\<close> and \<open>get_direction_prob_cap\<close> on the changes of the rows, and when no
  change lies within a millionth of the threshold, on the unrounded changes.\<close>

lemma cap_history_from_log:
  assumes "names_ok specs" "entries = pre @ b # es" "list_all (\<lambda>e. \<not> is_round e) pre" "is_baseline b"
    and "list_all (searchable specs) entries" "res_map (entry_text specs) entries = Inr texts"
    and "cap_adaptive cfg" "prob_cap_min cfg = 1/2"
  shows "\<exists>rows. parse_round_records (concat texts) = Inr rows \<and> near_rounds (session_rounds b es) rows
    \<and> map (\<lambda>h. (hr_bad_rate h, hr_cap h)) (reconstruct_history rows (prob_cap_max cfg) (ewma_alpha cfg) (delta_eps cfg))
      = ewma_trace cfg 0 (map delta_true rows)
    \<and> (list_all (\<lambda>(n, d). clear_change cfg d) (session_rounds b es)
        \<longrightarrow> ewma_trace cfg 0 (map delta_true rows) = ewma_trace cfg 0 (map snd (session_rounds b es)))"
proof -
  obtain bs where bs: "list_all2 (\<lambda>b e. read_record b = Inr (entry_record e)) bs entries"
    "parse_round_records (concat texts) = collect_records None bs"
    using record_blocks[OF assms(1,5,6)] by blast
  obtain ps b' cs where split: "bs = ps @ b' # cs" "list_all2 (\<lambda>b e. read_record b = Inr (entry_record e)) ps pre"
    "read_record b' = Inr (entry_record b)" "list_all2 (\<lambda>b e. read_record b = Inr (entry_record e)) cs es"
    using bs(1) unfolding assms(2) list_all2_append2 list_all2_Cons2 by blast
  obtain c where "collect_records None bs = collect_records c (b' # cs)"
    using collect_unseen[OF split(2) assms(3)] split(1) by blast
  then have "collect_records None bs = collect_records (Some (fixed_val 6 (total_utility (le_utility b)))) cs"
    using split(3) assms(4) by (simp add: entry_record_cases)
  then obtain rows where rows: "parse_round_records (concat texts) = Inr rows" "near_rounds (session_rounds b es) rows"
    using collect_near[OF split(4)] bs(2) unfolding session_rounds_def by metis
  have "list_all2 (\<lambda>d d'. d < - delta_eps cfg \<longleftrightarrow> d' < - delta_eps cfg) 
      (map snd (session_rounds b es)) (map delta_true rows)" if "list_all (\<lambda>(n, d). clear_change cfg d) (session_rounds b es)"
    using rows(2) that clear_near by (fastforce simp: near_rounds_def list_all2_conv_all_nth list_all_length split_beta)
  then have "list_all (\<lambda>(n, d). clear_change cfg d) (session_rounds b es)
      \<longrightarrow> ewma_trace cfg 0 (map delta_true rows) = ewma_trace cfg 0 (map snd (session_rounds b es))"
    using ewma_trace_cong by metis
  then show ?thesis using rows history_trace[OF assms(7,8), of rows] by blast
qed

definition sample_round :: "log_entry" where
  "sample_round = sample_entry \<lparr>le_utility := calculate_utility_breakdown 30 40 0 (6/10) (2/10) (2/10),
     le_info := [(''state'', SStr ''candidate''), (''tuning_round'', SInt 1), (''accepted'', SBool False)]\<rparr>"

lemma samples_searchable: "list_all (searchable (ALL_PARAMETER_SPECS (\<lambda>_ _ _. []))) [sample_entry, sample_round]"
proof -
  have k: "key_ok ''baseline''" "key_ok ''candidate''" by code_simp+
  have z: "\<exists>n. (0 :: int) = int n" "\<exists>n. (1 :: int) = int n" "Ex Not" by (metis of_nat_0, metis of_nat_1, blast)
  show ?thesis
    by (simp add: searchable_def entry_ok_def sample_round_def sample_entry_def word_scalar_def k dict_get_def entry_state_def
      state_char_def calculate_utility_breakdown_def Let_def base_throughput_def base_rtt_def z)
      (simp add: ALL_PARAMETER_SPECS_def)
qed

end
