(* ===== verification/Workspace.thy ===== *)
theory Workspace
  imports Actions Settings
begin

text \<open>
  What a script can see and change: the files by the path they are opened with, the paths at which a file can be
  created, and the lines printed. The mains of the traffic generators and of the analysis scripts are actions over it.
  \<open>only_writes\<close> says that a script changes no file but those of a set.
\<close>

record workspace =
  disk :: "string \<Rightarrow> string option"
  creatable :: "string \<Rightarrow> bool"
  printed :: "string list"

definition read_text :: "string \<Rightarrow> (workspace, string) action" where
  "read_text path = act_bind (act_get (\<lambda>w. disk w path))
    (\<lambda>c. act_lift (case c of None \<Rightarrow> Inl FileNotFoundError | Some t \<Rightarrow> Inr t))"

definition write_text :: "string \<Rightarrow> string \<Rightarrow> (workspace, unit) action" where
  "write_text path t = act_bind (act_get (\<lambda>w. creatable w path))
    (\<lambda>c. if c then act_put (\<lambda>w. w\<lparr>disk := (disk w)(path \<mapsto> t)\<rparr>) else act_lift (Inl FileNotFoundError))"

definition print_line :: "string \<Rightarrow> (workspace, unit) action" where
  "print_line line = act_put (\<lambda>w. w\<lparr>printed := printed w @ [line]\<rparr>)"

definition print_lines :: "string list \<Rightarrow> (workspace, unit) action" where
  "print_lines ls = act_fold (\<lambda>l _. print_line l) ls ()"

text \<open>A look at the files that may raise.\<close>

definition consult :: "(workspace \<Rightarrow> 'a res) \<Rightarrow> (workspace, 'a) action" where
  "consult f = act_bind (act_get f) act_lift"

definition has_file :: "workspace \<Rightarrow> string \<Rightarrow> bool" where
  "has_file w path \<longleftrightarrow> disk w path \<noteq> None"

text \<open>\<^verbatim>\<open>path.parent.mkdir(parents=True, exist_ok=True)\<close>, and the same for a directory that will hold files.\<close>

definition make_parent :: "string \<Rightarrow> (workspace, unit) action" where
  "make_parent path = act_put (\<lambda>w. w\<lparr>creatable := (creatable w)(path := True)\<rparr>)"

definition in_dir :: "string \<Rightarrow> string \<Rightarrow> bool" where
  "in_dir dir path \<longleftrightarrow> starts_with (path_join dir []) path
     \<and> drop (length (path_join dir [])) path \<noteq> [] \<and> CHR ''/'' \<notin> set (drop (length (path_join dir [])) path)"

definition make_dir :: "string \<Rightarrow> (workspace, unit) action" where
  "make_dir dir = act_put (\<lambda>w. w\<lparr>creatable := (\<lambda>p. in_dir dir p \<or> creatable w p)\<rparr>)"

text \<open>\<^verbatim>\<open>for p in dir.glob('*.png'): p.unlink()\<close>.\<close>

definition is_png :: "string \<Rightarrow> bool" where
  "is_png path \<longleftrightarrow> starts_with (rev ''.png'') (rev path)"

definition remove_pngs :: "string \<Rightarrow> (workspace, unit) action" where
  "remove_pngs dir = act_put (\<lambda>w. w\<lparr>disk := (\<lambda>p. if in_dir dir p \<and> is_png p then None else disk w p)\<rparr>)"

section \<open>Steps\<close>

lemma act_bind_Some:
  "act_bind m f s = Some (Inr y, s') \<longleftrightarrow> (\<exists>x t. m s = Some (Inr x, t) \<and> f x t = Some (Inr y, s'))"
  by (auto simp: act_bind_def split: option.splits sum.splits)

lemma act_fold_unit_Cons:
  "act_fold (\<lambda>x _. f x) (x # xs) () s = Some (Inr (), s') \<longleftrightarrow>
     (\<exists>t. f x s = Some (Inr (), t) \<and> act_fold (\<lambda>x _. f x) xs () t = Some (Inr (), s'))"
  by (simp add: act_bind_Some)

lemma read_text_Some: "read_text path w = Some (Inr t, w') \<longleftrightarrow> w' = w \<and> disk w path = Some t"
  by (auto simp: read_text_def act_bind_def act_get_def act_lift_def split: option.splits)

lemma write_text_Some:
  "write_text path t w = Some (Inr (), w') \<longleftrightarrow> creatable w path \<and> w' = w\<lparr>disk := (disk w)(path \<mapsto> t)\<rparr>"
  by (auto simp: write_text_def act_bind_def act_get_def act_lift_def act_put_def)

lemma act_lift_Some: "act_lift r w = Some (Inr x, w') \<longleftrightarrow> r = Inr x \<and> w' = w"
  by (auto simp: act_lift_def)

lemma print_line_Some: "print_line l w = Some (Inr (), w') \<longleftrightarrow> w' = w\<lparr>printed := printed w @ [l]\<rparr>"
  by (auto simp: print_line_def act_put_def)

lemma consult_Some: "consult f w = Some (Inr x, w') \<longleftrightarrow> f w = Inr x \<and> w' = w"
  by (auto simp: consult_def act_bind_def act_get_def act_lift_def)

lemmas file_steps = act_bind_Some read_text_Some write_text_Some act_lift_Some print_line_Some consult_Some

lemma print_lines_Some: "print_lines ls w = Some (Inr (), w\<lparr>printed := printed w @ ls\<rparr>)"
proof (induction ls arbitrary: w)
  case Nil
  then show ?case by (simp add: print_lines_def act_ret_def)
next
  case (Cons l ls)
  then show ?case by (simp add: print_lines_def act_bind_def print_line_def act_put_def)
qed

section \<open>Paths in a directory\<close>

lemma path_join_inj: "path_join dir a = path_join dir b \<Longrightarrow> \<not> isabs a \<Longrightarrow> \<not> isabs b \<Longrightarrow> a = b"
  by (simp add: path_join_def split: if_splits)

text \<open>What a directory puts in front of a relative name.\<close>

lemma path_join_prefix: "\<exists>pre. \<forall>a. \<not> isabs a \<longrightarrow> path_join dir a = pre @ a"
proof -
  let ?pre = "if dir = [] then [] else if last dir = CHR ''/'' then dir else dir @ ''/''"
  have "\<forall>a. \<not> isabs a \<longrightarrow> path_join dir a = ?pre @ a" by (simp add: path_join_def)
  then show ?thesis by blast
qed

lemma not_isabs: "CHR ''/'' \<notin> set a \<Longrightarrow> \<not> isabs a"
  by (cases a) (auto simp: isabs_def starts_with_def)

lemma in_dir_join: "a \<noteq> [] \<Longrightarrow> CHR ''/'' \<notin> set a \<Longrightarrow> in_dir dir (path_join dir a)"
proof -
  assume a: "a \<noteq> []" "CHR ''/'' \<notin> set a"
  obtain pre where pre: "\<And>a. \<not> isabs a \<Longrightarrow> path_join dir a = pre @ a" using path_join_prefix by blast
  have "path_join dir a = pre @ a" "path_join dir [] = pre"
    using pre[OF not_isabs[OF a(2)]] pre[of "[]"] by (simp_all add: isabs_def starts_with_def)
  then show ?thesis using a by (simp add: in_dir_def starts_with_def)
qed

section \<open>Which files change\<close>

definition only_writes :: "(string \<Rightarrow> bool) \<Rightarrow> workspace \<Rightarrow> workspace \<Rightarrow> bool" where
  "only_writes P w w' \<longleftrightarrow> (\<forall>p. \<not> P p \<longrightarrow> disk w' p = disk w p)"

interpretation writes: step_relation "only_writes P" for P
  by unfold_locales (simp_all add: only_writes_def)

lemma write_text_writes: "P path \<Longrightarrow> guarantees (only_writes P) (write_text path t)"
  unfolding write_text_def
  by (intro writes.bind writes.get) (auto simp: guarantees_def act_put_def act_lift_def only_writes_def)

lemma steps_write [guarantee]:
  "guarantees (only_writes P) (read_text path)" "guarantees (only_writes P) (consult f)"
  "guarantees (only_writes P) (print_line l)" "guarantees (only_writes P) (print_lines ls)"
  "guarantees (only_writes P) (make_parent path)" "guarantees (only_writes P) (make_dir path)"
proof -
  have put: "guarantees (only_writes P) (act_put f)" if "\<And>w. disk (f w) = disk w" for f
    using that by (simp add: guarantees_def act_put_def only_writes_def)
  then show l: "guarantees (only_writes P) (print_line l)" for l by (simp add: print_line_def)
  show "guarantees (only_writes P) (read_text path)" "guarantees (only_writes P) (consult f)"
    unfolding read_text_def consult_def by (intro writes.bind writes.get writes.lift)+
  show "guarantees (only_writes P) (print_lines ls)" unfolding print_lines_def by (intro writes.fold l)
  show "guarantees (only_writes P) (make_parent path)" "guarantees (only_writes P) (make_dir path)"
    unfolding make_parent_def make_dir_def by (auto intro: put)
qed

lemma remove_pngs_writes: "(\<And>p. in_dir dir p \<Longrightarrow> P p) \<Longrightarrow> guarantees (only_writes P) (remove_pngs dir)"
  by (auto simp: guarantees_def remove_pngs_def act_put_def only_writes_def)

end
