(* ===== verification/LogMains.thy ===== *)
theory LogMains
  imports RoundRecords Workspace
begin

text \<open>
  The main functions of the scripts that read the tuner's log: \<^verbatim>\<open>direction_cap_history.py\<close>,
  \<^verbatim>\<open>utility_components_plot.py\<close> and \<^verbatim>\<open>tuning_effect.py\<close>, with the functions that choose what is drawn. They are actions
  over the files (theory \<open>Workspace\<close>).

  A figure is what its axes hold: title, labels and the points of its curves; sizes, axis limits and line
  styles are left out.
  \<open>studio\<close> is what the scripts take from pandas and matplotlib: the coercion of a cell, the texts of a data frame and the
  bytes of a figure. \<open>archive\<close> is what they see of \<^verbatim>\<open>mix/\<close>: the entries of the directory, the parsed manifest and the
  names in each run directory. A path exists when a file can be read there; a directory in place of a log is outside the
  model.
\<close>

section \<open>Figures, frames and places\<close>

datatype mark =
    Line string "string option" "(pyfloat \<times> pyfloat) list"
  | Dots "(pyfloat \<times> pyfloat) list"
  | Note string "pyfloat \<times> pyfloat"

record figure =
  fg_title :: string
  fg_xlabel :: string
  fg_ylabel :: string
  fg_marks :: "mark list"
  fg_second :: "(string \<times> mark list) option"

type_synonym num_row = "(string, pyfloat) dict"

record studio =
  to_numeric :: "bval option \<Rightarrow> pyfloat"
  csv_text :: "frame_row list \<Rightarrow> string"
  num_csv :: "num_row list \<Rightarrow> string"
  tsv_text :: "string list \<times> (string, (string, pval) dict) dict \<Rightarrow> string"
  shown :: "frame_row list \<Rightarrow> string"
  render :: "figure \<Rightarrow> string"

record archive =
  script_dir :: string
  mix_dir :: string
  mix_entries :: "(string \<times> bool) list"
  manifest_at :: "string \<Rightarrow> jval option"
  names_in :: "string \<Rightarrow> string list"
  expand_user :: "string \<Rightarrow> string"
  resolve_path :: "string \<Rightarrow> string"

definition or_default :: "string option \<Rightarrow> string \<Rightarrow> string" where
  "or_default given usual = (case given of Some p \<Rightarrow> if p = [] then usual else p | None \<Rightarrow> usual)"

text \<open>A column exists when some row has the key; a row without it has an empty cell there.\<close>

definition has_column :: "frame_row list \<Rightarrow> string \<Rightarrow> bool" where
  "has_column df name \<longleftrightarrow> list_ex (\<lambda>row. dict_get row name \<noteq> None) df"

definition cell :: "frame_row \<Rightarrow> string \<Rightarrow> bval option" where
  "cell row name = (case dict_get row name of None \<Rightarrow> None | Some v \<Rightarrow> v)"

section \<open>The history of the direction cap\<close>

definition history_row_cells :: "history_row \<Rightarrow> frame_row" where
  "history_row_cells h =
    (let r = hr_row h; flt = (\<lambda>x. Some (BScalar (VFloat (Fin x)))) in
     [(''round'', Some (BScalar (VInt (rr_round r)))), (''sim_time'', Some (BScalar (VFloat (rr_sim_time r)))),
      (''candidate_total'', flt (candidate_total r)), (''accepted'', map_option (\<lambda>b. BScalar (VBool b)) (rr_accepted r)),
      (''delta_true'', flt (delta_true r)), (''bad_signal'', flt (bad_signal h)), (''bad_rate_ewma'', flt (hr_bad_rate h)),
      (''direction_prob_cap'', flt (hr_cap h))])"

definition cap_figure :: "int \<Rightarrow> history_row list \<Rightarrow> figure" where
  "cap_figure experiment_id history =
    (let curve = (\<lambda>f. map (\<lambda>h. (Fin (of_int (rr_round (hr_row h))), Fin (f h))) history) in
     \<lparr>fg_title = ''Adaptive direction-cap history (exp '' @ py_str_int experiment_id @ '')'',
      fg_xlabel = ''Tuning Round'', fg_ylabel = ''Direction Prob Cap'',
      fg_marks = [Line ''direction_prob_cap'' (Some ''#1f77b4'') (curve hr_cap)],
      fg_second = Some (''Bad Rate EWMA'', [Line ''bad_rate_ewma'' (Some ''#d62728'') (curve hr_bad_rate)])\<rparr>)"

record cap_args =
  ca_id :: int
  ca_pmax :: real
  ca_alpha :: real
  ca_delta_eps :: real
  ca_prefix :: "string option"

definition cap_out :: "archive \<Rightarrow> cap_args \<Rightarrow> string \<Rightarrow> string" where
  "cap_out ar args ext =
    path_join (script_dir ar) (or_default (ca_prefix args) (''direction_cap_history_exp_'' @ py_str_int (ca_id args)) @ ext)"

text \<open>A frame without rows has no columns, so a log without rounds raises after the table is written.\<close>

definition cap_main :: "studio \<Rightarrow> archive \<Rightarrow> cap_args \<Rightarrow> (workspace, unit) action" where
  "cap_main st ar args =
    act_bind (consult (\<lambda>w. resolve_tuner_log (has_file w) (manifest_at ar) (mix_dir ar) (map fst (mix_entries ar)) (ca_id args)))
      (\<lambda>log_path.
    act_bind (read_text log_path) (\<lambda>content.
    act_bind (act_lift (parse_round_records content)) (\<lambda>rows.
    (let history = reconstruct_history rows (ca_pmax args) (ca_alpha args) (ca_delta_eps args);
         df = map history_row_cells history in
     act_bind (write_text (cap_out ar args ''.csv'') (csv_text st df)) (\<lambda>_.
     act_bind (act_lift (if has_column df ''round'' then Inr () else Inl KeyError)) (\<lambda>_.
     act_bind (write_text (cap_out ar args ''.png'') (render st (cap_figure (ca_id args) history))) (\<lambda>_.
     print_lines [''csv = '' @ cap_out ar args ''.csv'', ''plot = '' @ cap_out ar args ''.png'', [], shown st df])))))))"

section \<open>The components of the utility\<close>

record components_args =
  co_id :: int
  co_prefix :: "string option"
  co_raw :: bool

definition components_out :: "archive \<Rightarrow> components_args \<Rightarrow> string \<Rightarrow> string" where
  "components_out ar args ext =
    path_join (script_dir ar) (or_default (co_prefix args) (''utility_components_exp_'' @ py_str_int (co_id args)) @ ext)"

text \<open>The points of two columns of a numeric frame; the curve breaks where a value is no number.\<close>

definition num_points :: "num_row list \<Rightarrow> string \<Rightarrow> string \<Rightarrow> (pyfloat \<times> pyfloat) list" where
  "num_points df x y = map (\<lambda>row. (dict_get_or row x NaN, dict_get_or row y NaN)) df"

definition components_figure :: "components_args \<Rightarrow> num_row list \<Rightarrow> figure" where
  "components_figure args df =
    (let suffix = (if co_raw args then ''_raw'' else ''_norm'');
         names = [''throughput'' @ suffix, ''rtt'' @ suffix, ''pfc'' @ suffix, ''total'']
     in \<lparr>fg_title = ''Utility component history ('' @ (if co_raw args then ''raw'' else ''normalized'') @ '', exp ''
            @ py_str_int (co_id args) @ '')'',
         fg_xlabel = ''Simulation Time (s)'', fg_ylabel = ''Value'',
         fg_marks = map (\<lambda>n. Line n None (num_points df ''sim_time'' n)) names, fg_second = None\<rparr>)"

definition find_run_log :: "archive \<Rightarrow> int \<Rightarrow> workspace \<Rightarrow> string res" where
  "find_run_log ar experiment_id w =
    res_bind (resolve_run_dir (mix_dir ar) (mix_entries ar) experiment_id) (log_of_run (has_file w) (manifest_at ar))"

definition components_main :: "studio \<Rightarrow> archive \<Rightarrow> components_args \<Rightarrow> (workspace, unit) action" where
  "components_main st ar args =
    act_bind (consult (find_run_log ar (co_id args))) (\<lambda>log_path.
    act_bind (read_text log_path) (\<lambda>content.
    act_bind (act_lift (res_bind (uc_load_blocks content) (uc_build_dataframe (to_numeric st)))) (\<lambda>df.
    act_bind (write_text (components_out ar args ''.csv'') (num_csv st df)) (\<lambda>_.
    act_bind (write_text (components_out ar args ''.png'') (render st (components_figure args df))) (\<lambda>_.
    print_lines [''csv = '' @ components_out ar args ''.csv'', ''plot = '' @ components_out ar args ''.png''])))))"

section \<open>The effect of tuning\<close>

text \<open>The rows of two columns that have numbers in both.\<close>

definition paired :: "studio \<Rightarrow> frame_row list \<Rightarrow> string \<Rightarrow> string \<Rightarrow> (pyfloat \<times> pyfloat) list" where
  "paired st df x y =
    filter (\<lambda>(a, b). a \<noteq> NaN \<and> b \<noteq> NaN) (map (\<lambda>row. (to_numeric st (cell row x), to_numeric st (cell row y))) df)"

definition plot_columns :: "string list" where
  "plot_columns = [''throughput_norm'', ''rtt_norm'', ''pfc_norm'', ''total'']"

definition utility_lines :: "studio \<Rightarrow> frame_row list \<Rightarrow> mark list" where
  "utility_lines st df =
    List.map_filter (\<lambda>c. let ps = paired st df ''sim_time'' c in if ps = [] then None else Some (Line c None ps)) plot_columns"

definition utility_figure :: "studio \<Rightarrow> string \<Rightarrow> frame_row list \<Rightarrow> figure" where
  "utility_figure st title df =
    \<lparr>fg_title = title, fg_xlabel = ''Simulation Time (s)'', fg_ylabel = ''Utility'', fg_marks = utility_lines st df, fg_second = None\<rparr>"

definition plot_utility_history :: "studio \<Rightarrow> frame_row list \<Rightarrow> string \<Rightarrow> string \<Rightarrow> (workspace, unit) action" where
  "plot_utility_history st utility_df output_path title =
    (if \<not> list_all (has_column utility_df) plot_columns then act_lift (Inl SystemExit)
     else if list_all (\<lambda>row. to_numeric st (cell row ''sim_time'') = NaN) utility_df then act_lift (Inl SystemExit)
     else if utility_lines st utility_df = [] then act_lift (Inl SystemExit)
     else act_bind (make_parent output_path) (\<lambda>_. write_text output_path (render st (utility_figure st title utility_df))))"

definition relationship_columns :: "string list" where
  "relationship_columns = [''throughput_norm'', ''rtt_norm'', ''pfc_norm'']"

definition relation_name :: "string \<Rightarrow> string \<Rightarrow> string" where
  "relation_name parameter_name other = parameter_name @ ''_vs_'' @ other @ ''.png''"

definition time_figure :: "string \<Rightarrow> string \<Rightarrow> (pyfloat \<times> pyfloat) list \<Rightarrow> figure" where
  "time_figure title_prefix parameter_name points =
    \<lparr>fg_title = title_prefix @ '' - '' @ parameter_name @ '' vs time'', fg_xlabel = ''Simulation Time (s)'',
     fg_ylabel = parameter_name, fg_marks = [Line [] None points], fg_second = None\<rparr>"

definition relation_figure :: "string \<Rightarrow> string \<Rightarrow> string \<Rightarrow> (pyfloat \<times> pyfloat) list \<Rightarrow> figure" where
  "relation_figure title_prefix parameter_name utility_column points =
    \<lparr>fg_title = title_prefix @ '' - '' @ parameter_name @ '' vs '' @ utility_column, fg_xlabel = parameter_name,
     fg_ylabel = utility_column, fg_marks = [Dots points], fg_second = None\<rparr>"

definition plot_relation ::
  "studio \<Rightarrow> frame_row list \<Rightarrow> string \<Rightarrow> string \<Rightarrow> string \<Rightarrow> string \<Rightarrow> (workspace, unit) action" where
  "plot_relation st plot_df output_dir title_prefix parameter_name utility_column =
    (if \<not> has_column plot_df utility_column then act_lift (Inl KeyError)
     else (let points = paired st plot_df parameter_name utility_column in
       if points = [] then act_ret ()
       else write_text (path_join output_dir (relation_name parameter_name utility_column))
              (render st (relation_figure title_prefix parameter_name utility_column points))))"

definition plot_parameter ::
  "studio \<Rightarrow> frame_row list \<Rightarrow> string \<Rightarrow> string \<Rightarrow> string \<Rightarrow> (workspace, unit) action" where
  "plot_parameter st plot_df output_dir title_prefix parameter_name =
    (let points = paired st plot_df ''sim_time'' parameter_name in
     if points = [] then act_ret ()
     else act_bind (write_text (path_join output_dir (relation_name parameter_name ''time''))
              (render st (time_figure title_prefix parameter_name points))) (\<lambda>_.
          act_fold (\<lambda>utility_column _. plot_relation st plot_df output_dir title_prefix parameter_name utility_column)
            relationship_columns ()))"

definition plot_parameter_relationships ::
  "studio \<Rightarrow> frame_row list \<Rightarrow> string list \<Rightarrow> string \<Rightarrow> string \<Rightarrow> (workspace, unit) action" where
  "plot_parameter_relationships st plot_df parameter_names output_dir title_prefix =
    act_bind (make_dir output_dir) (\<lambda>_.
    act_bind (remove_pngs output_dir) (\<lambda>_.
    act_fold (\<lambda>parameter_name _. plot_parameter st plot_df output_dir title_prefix parameter_name) parameter_names ()))"

definition find_effect_log :: "archive \<Rightarrow> effect_args \<Rightarrow> workspace \<Rightarrow> string res" where
  "find_effect_log ar args w =
    resolve_tuner_log_path (\<lambda>p. resolve_path ar (expand_user ar p)) (has_file w) (manifest_at ar) (mix_dir ar) (mix_entries ar) args"

definition effect_tables :: "effect_args \<Rightarrow> string \<Rightarrow>
    ((string list \<times> (string, (string, pval) dict) dict) \<times> frame_row list \<times> frame_row list \<times> string list) res" where
  "effect_tables args content =
    res_bind (load_tuning_blocks content) (\<lambda>bs.
    res_bind (filter_blocks_by_time bs (ea_start args) (ea_end args)) (\<lambda>blocks.
    res_bind (build_parameter_dataframe blocks) (\<lambda>parameter_df.
    res_bind (build_utility_dataframe blocks) (\<lambda>utility_df.
    res_bind (build_parameter_plot_dataframe blocks) (\<lambda>(plot_df, parameter_names).
      Inr (parameter_df, utility_df, plot_df, parameter_names))))))"

definition effect_paths :: "archive \<Rightarrow> effect_args \<Rightarrow> string \<Rightarrow> (string \<times> string \<times> string) res" where
  "effect_paths ar args log_path =
    res_bind (build_plot_output_path (script_dir ar) args log_path) (\<lambda>utility_plot_path.
    res_bind (build_parameter_scatter_dir (script_dir ar) args log_path) (\<lambda>parameter_scatter_dir.
      Inr (path_join (script_dir ar) ''parameter.tsv'', utility_plot_path, parameter_scatter_dir)))"

definition effect_main :: "studio \<Rightarrow> archive \<Rightarrow> effect_args \<Rightarrow> (workspace, unit) action" where
  "effect_main st ar args =
    act_bind (consult (find_effect_log ar args)) (\<lambda>log_path.
    act_bind (read_text log_path) (\<lambda>content.
    act_bind (act_lift (effect_tables args content)) (\<lambda>(parameter_df, utility_df, plot_df, parameter_names).
    act_bind (act_lift (effect_paths ar args log_path)) (\<lambda>(parameter_path, utility_plot_path, scatter_dir).
    act_bind (write_text parameter_path (tsv_text st parameter_df)) (\<lambda>_.
    act_bind (act_lift (build_plot_title args log_path)) (\<lambda>title.
    act_bind (plot_utility_history st utility_df utility_plot_path title) (\<lambda>_.
    act_bind (plot_parameter_relationships st plot_df parameter_names scatter_dir ''Parameter Plot'') (\<lambda>_.
    print_lines [''tuner_log = '' @ log_path, ''parameter_file = '' @ parameter_path, ''utility_plot = '' @ utility_plot_path,
      ''parameter_scatter_dir = '' @ scatter_dir, [], ''Utility History'', shown st utility_df]))))))))"

section \<open>The history on disk\<close>

lemma path_join_suffix: "\<exists>pre. \<forall>e. path_join dir (name @ CHR ''.'' # e) = pre @ CHR ''.'' # e"
proof (cases "isabs (name @ ''.'') \<or> dir = []")
  case True
  then have "path_join dir (name @ CHR ''.'' # e) = name @ CHR ''.'' # e" for e
    by (cases name) (auto simp: path_join_def isabs_def starts_with_def)
  then show ?thesis by blast
next
  case False
  then have "path_join dir (name @ CHR ''.'' # e) = (if last dir = CHR ''/'' then dir else dir @ ''/'') @ name @ CHR ''.'' # e" for e
    by (cases name) (auto simp: path_join_def isabs_def starts_with_def)
  then show ?thesis by (metis append.assoc)
qed

lemma cap_out_differ: "cap_out ar args ''.csv'' \<noteq> cap_out ar args ''.png''"
  using path_join_suffix[of "script_dir ar" "or_default (ca_prefix args) (''direction_cap_history_exp_'' @ py_str_int (ca_id args))"]
  unfolding cap_out_def by fastforce

text \<open>Nothing but the two named files changes, whatever the log holds and wherever the script stops.\<close>

lemma cap_main_writes: "guarantees (only_writes (\<lambda>p. p \<in> cap_out ar args ` {''.csv'', ''.png''})) (cap_main st ar args)"
  unfolding cap_main_def Let_def by (intro writes.bind writes.lift guarantee write_text_writes) simp_all

lemma components_main_writes:
  "guarantees (only_writes (\<lambda>p. p \<in> components_out ar args ` {''.csv'', ''.png''})) (components_main st ar args)"
  unfolding components_main_def by (intro writes.bind writes.lift guarantee write_text_writes) simp_all

text \<open>A run over a log whose rounds are \<open>rows\<close>.\<close>

lemma cap_main_run:
  fixes st :: studio
  assumes "resolve_tuner_log (has_file w) (manifest_at ar) (mix_dir ar) (map fst (mix_entries ar)) (ca_id args) = Inr log_path"
    and "disk w log_path = Some content" "parse_round_records content = Inr rows"
    and "creatable w (cap_out ar args ''.csv'')" "creatable w (cap_out ar args ''.png'')"
  defines "history \<equiv> reconstruct_history rows (ca_pmax args) (ca_alpha args) (ca_delta_eps args)"
  defines "w1 \<equiv> w\<lparr>disk := (disk w)(cap_out ar args ''.csv'' \<mapsto> csv_text st (map history_row_cells history))\<rparr>"
  shows "rows = [] \<Longrightarrow> cap_main st ar args w = Some (Inl KeyError, w1)"
    and "rows \<noteq> [] \<Longrightarrow> \<exists>w'. cap_main st ar args w = Some (Inr (), w')
      \<and> disk w' = (disk w1)(cap_out ar args ''.png'' \<mapsto> render st (cap_figure (ca_id args) history))"
proof -
  have h: "history = [] \<longleftrightarrow> rows = []" by (cases rows) (simp_all add: history_def reconstruct_history_def Let_def)
  have c: "has_column (map history_row_cells history) ''round'' \<longleftrightarrow> rows \<noteq> []"
    unfolding h[symmetric] by (cases history) (simp_all add: has_column_def history_row_cells_def dict_get_def Let_def)
  have step: "cap_main st ar args w = act_bind (act_lift (if rows \<noteq> [] then Inr () else Inl KeyError)) (\<lambda>_.
     act_bind (write_text (cap_out ar args ''.png'') (render st (cap_figure (ca_id args) history))) (\<lambda>_.
     print_lines [''csv = '' @ cap_out ar args ''.csv'', ''plot = '' @ cap_out ar args ''.png'', [], shown st (map history_row_cells history)])) w1"
    using assms(1-5)
    by (simp add: cap_main_def act_bind_def consult_def act_get_def act_lift_def read_text_def write_text_def act_put_def
        history_def[symmetric] w1_def[symmetric] c Let_def)
  show "rows = [] \<Longrightarrow> cap_main st ar args w = Some (Inl KeyError, w1)"
    unfolding step by (simp add: act_bind_def act_lift_def)
  have "creatable w1 (cap_out ar args ''.png'')" using assms(5) by (simp add: w1_def)
  then show "rows \<noteq> [] \<Longrightarrow> \<exists>w'. cap_main st ar args w = Some (Inr (), w')
      \<and> disk w' = (disk w1)(cap_out ar args ''.png'' \<mapsto> render st (cap_figure (ca_id args) history))"
    unfolding step
    by (simp add: act_bind_def act_lift_def write_text_def act_get_def act_put_def print_lines_Some)
qed

text \<open>A log without rounds, for instance of a tuner that was never triggered: the table is written, then the script fails.\<close>

lemma roundless_log_raises:
  assumes "resolve_tuner_log (has_file w) (manifest_at ar) (mix_dir ar) (map fst (mix_entries ar)) (ca_id args) = Inr log_path"
    and "disk w log_path = Some content" "parse_round_records content = Inr []"
    and "creatable w (cap_out ar args ''.csv'')" "creatable w (cap_out ar args ''.png'')"
  shows "cap_main st ar args w = Some (Inl KeyError, w\<lparr>disk := (disk w)(cap_out ar args ''.csv'' \<mapsto> csv_text st [])\<rparr>)"
  using cap_main_run(1)[OF assms, of st] by (simp add: reconstruct_history_def)

text \<open>C31: The figure of \<^verbatim>\<open>direction_cap_history.py\<close> shows the tuner's own direction cap. Take the log of a session under the
  adaptive policy whose cap starts at one half: entries before the baseline, at least one round, rounds that are accepted,
  rejected or undecided, and entries in between that are no rounds, all printed in the form the script searches for. Run on
  it with the \<^verbatim>\<open>--pmax\<close>, \<^verbatim>\<open>--alpha\<close> and \<^verbatim>\<open>--delta-eps\<close> of that session, and with places to write, the script finishes and
  changes two files only. Its figure has one point per round, each change of utility to within a millionth; the rate and the
  cap drawn are those of \<open>update_bad_rate_ewma\<close> and \<open>get_direction_prob_cap\<close> on the changes drawn; and when no change of
  utility lies within a millionth of the threshold, they are exactly those on the unrounded changes.\<close>

theorem cap_figure_from_log:
  assumes "names_ok specs" "entries = pre @ b # es" "list_all (\<lambda>e. \<not> is_round e) pre" "is_baseline b"
    and "list_all (searchable specs) entries" "res_map (entry_text specs) entries = Inr texts"
    and "cap_adaptive cfg" "prob_cap_min cfg = 1/2" "session_rounds b es \<noteq> []"
    and "ca_pmax args = prob_cap_max cfg" "ca_alpha args = ewma_alpha cfg" "ca_delta_eps args = delta_eps cfg"
    and "resolve_tuner_log (has_file w) (manifest_at ar) (mix_dir ar) (map fst (mix_entries ar)) (ca_id args) = Inr log_path"
    and "disk w log_path = Some (concat texts)"
    and "creatable w (cap_out ar args ''.csv'')" "creatable w (cap_out ar args ''.png'')"
  shows "\<exists>w' history. cap_main st ar args w = Some (Inr (), w')
    \<and> disk w' (cap_out ar args ''.png'') = Some (render st (cap_figure (ca_id args) history))
    \<and> disk w' (cap_out ar args ''.csv'') = Some (csv_text st (map history_row_cells history))
    \<and> (\<forall>p. p \<noteq> cap_out ar args ''.png'' \<and> p \<noteq> cap_out ar args ''.csv'' \<longrightarrow> disk w' p = disk w p)
    \<and> near_rounds (session_rounds b es) (map hr_row history)
    \<and> map (\<lambda>h. (hr_bad_rate h, hr_cap h)) history = ewma_trace cfg 0 (map (\<lambda>h. delta_true (hr_row h)) history)
    \<and> (list_all (\<lambda>(n, d). clear_change cfg d) (session_rounds b es)
        \<longrightarrow> map (\<lambda>h. (hr_bad_rate h, hr_cap h)) history = ewma_trace cfg 0 (map snd (session_rounds b es)))"
proof -
  obtain rows where rows: "parse_round_records (concat texts) = Inr rows" "near_rounds (session_rounds b es) rows"
    "map (\<lambda>h. (hr_bad_rate h, hr_cap h)) (reconstruct_history rows (prob_cap_max cfg) (ewma_alpha cfg) (delta_eps cfg))
       = ewma_trace cfg 0 (map delta_true rows)"
    "list_all (\<lambda>(n, d). clear_change cfg d) (session_rounds b es)
      \<longrightarrow> ewma_trace cfg 0 (map delta_true rows) = ewma_trace cfg 0 (map snd (session_rounds b es))"
    using cap_history_from_log[OF assms(1-8)] by blast
  let ?h = "reconstruct_history rows (prob_cap_max cfg) (ewma_alpha cfg) (delta_eps cfg)"
  have "rows \<noteq> []" using rows(2) assms(9) by (auto simp: near_rounds_def)
  from cap_main_run(2)[OF assms(13,14) rows(1) assms(15,16) this, of st] obtain w' where
    w': "cap_main st ar args w = Some (Inr (), w')"
    "disk w' = (disk w)(cap_out ar args ''.csv'' \<mapsto> csv_text st (map history_row_cells ?h),
      cap_out ar args ''.png'' \<mapsto> render st (cap_figure (ca_id args) ?h))" unfolding assms(10-12) by auto
  have h: "map hr_row ?h = rows" by (simp add: history_rows)
  then have "map (\<lambda>h. delta_true (hr_row h)) ?h = map delta_true rows" by (metis (no_types, lifting) comp_apply map_cong map_map)
  then show ?thesis
    using w' rows(2-4) h cap_out_differ[of ar args] by (intro exI[of _ w'] exI[of _ ?h]) simp
qed

definition bare_studio :: studio where
  "bare_studio = \<lparr>to_numeric = (\<lambda>c. case c of Some (BScalar (VInt n)) \<Rightarrow> Fin (of_int n) | Some (BScalar (VFloat x)) \<Rightarrow> x | _ \<Rightarrow> NaN),
     csv_text = (\<lambda>df. []), num_csv = (\<lambda>df. []), tsv_text = (\<lambda>df. []), shown = (\<lambda>df. []), render = fg_title\<rparr>"

definition demo_archive :: archive where
  "demo_archive = \<lparr>script_dir = ''/a'', mix_dir = ''/m'', mix_entries = [(''7-run'', True)], manifest_at = (\<lambda>_. None),
     names_in = (\<lambda>_. []), expand_user = (\<lambda>p. p), resolve_path = (\<lambda>p. p)\<rparr>"

definition demo_cap_args :: cap_args where
  "demo_cap_args = \<lparr>ca_id = 7, ca_pmax = 7/10, ca_alpha = 15/100, ca_delta_eps = 1/100, ca_prefix = None\<rparr>"

definition demo_desk :: "string \<Rightarrow> workspace" where
  "demo_desk content = \<lparr>disk = [''/m/7-run/tuner.log'' \<mapsto> content], creatable = (\<lambda>_. True), printed = []\<rparr>"

theorem cap_figure_from_log_witness:
  "\<exists>t u w'. res_map (entry_text (ALL_PARAMETER_SPECS (\<lambda>_ _ _. []))) [sample_entry, sample_round] = Inr [t, u]
    \<and> cap_main bare_studio demo_archive demo_cap_args (demo_desk (t @ u)) = Some (Inr (), w')
    \<and> disk w' ''/a/direction_cap_history_exp_7.png'' = Some ''Adaptive direction-cap history (exp 7)''"
proof -
  let ?s = "ALL_PARAMETER_SPECS (\<lambda>_ _ _. [])"
  have ok: "list_all (entry_ok ?s) [sample_entry, sample_round]" by (rule searchable_entry[OF samples_searchable])
  obtain t u where t: "res_map (entry_text ?s) [sample_entry, sample_round] = Inr [t, u]"
    using ok entry_form[OF table_names_ok] by (fastforce simp del: format_log_value.simps)
  have d: "is_baseline sample_entry" "session_rounds sample_entry [sample_round] = [(1, -12/100)]" "clear_change default_dir_cfg (-12/100)"
    by (simp_all add: is_baseline_def is_round_def entry_state_def entry_round_def session_rounds_def clear_change_def
      default_dir_cfg_def sample_entry_def sample_round_def dict_get_def calculate_utility_breakdown_def Let_def
      base_throughput_def base_rtt_def)
  have seven: "py_str_int 7 = ''7''" by code_simp
  have out: "cap_out demo_archive demo_cap_args ''.png'' = ''/a/direction_cap_history_exp_7.png''"
    by (simp add: cap_out_def demo_archive_def demo_cap_args_def or_default_def path_join_def isabs_def starts_with_def seven)
  have find: "resolve_tuner_log (has_file (demo_desk c)) (manifest_at demo_archive) (mix_dir demo_archive)
      (map fst (mix_entries demo_archive)) (ca_id demo_cap_args) = Inr ''/m/7-run/tuner.log''" for c
    by (simp add: resolve_tuner_log_def cap_resolve_run_dir_def log_of_run_def load_manifest_def logged_path_def manifest_file_def
      jget_def dict_get_def has_file_def demo_desk_def demo_archive_def demo_cap_args_def path_join_def isabs_def starts_with_def seven)
  have b: "session_rounds sample_entry [sample_round] \<noteq> []" using d(2) by simp
  have c: "cap_adaptive default_dir_cfg" "prob_cap_min default_dir_cfg = 1/2" "ca_pmax demo_cap_args = prob_cap_max default_dir_cfg"
    "ca_alpha demo_cap_args = ewma_alpha default_dir_cfg" "ca_delta_eps demo_cap_args = delta_eps default_dir_cfg"
    by (simp_all add: default_dir_cfg_def demo_cap_args_def)
  have w: "disk (demo_desk (t @ u)) ''/m/7-run/tuner.log'' = Some (concat [t, u])" "creatable (demo_desk (t @ u)) p" for p
    by (simp_all add: demo_desk_def)
  have "[sample_entry, sample_round] = [] @ sample_entry # [sample_round]" "list_all (\<lambda>e. \<not> is_round e) []" by simp_all
  from cap_figure_from_log[OF table_names_ok this d(1) samples_searchable t c(1,2) b c(3-5) find w(1) w(2) w(2), of bare_studio]
  have "\<exists>w' history. cap_main bare_studio demo_archive demo_cap_args (demo_desk (t @ u)) = Some (Inr (), w')
    \<and> disk w' ''/a/direction_cap_history_exp_7.png'' = Some (render bare_studio (cap_figure (ca_id demo_cap_args) history))"
    unfolding out by blast
  moreover have "render bare_studio (cap_figure (ca_id demo_cap_args) h) = ''Adaptive direction-cap history (exp 7)''" for h
    by (simp add: bare_studio_def cap_figure_def demo_cap_args_def seven Let_def)
  ultimately show ?thesis using t by auto
qed

end
