(* ===== verification/EffectFacts.thy ===== *)
theory EffectFacts
  imports LogMains
begin

text \<open>
  What \<^verbatim>\<open>tuning_effect.py\<close> draws from a log of the tuner. The rows of its frames show the logged figures, whatever else a
  row holds; the run over all parameters is a list of pictures written one after the other, so that the final state of
  the directory can be read off the list.
\<close>

section \<open>Cells\<close>

definition close_to :: "pyfloat \<Rightarrow> real \<Rightarrow> bool" where
  "close_to v x = (case v of Fin q \<Rightarrow> \<bar>q - x\<bar> \<le> 1 / 2000000 | _ \<Rightarrow> False)"

text \<open>The documented behaviour of \<^verbatim>\<open>pd.to_numeric\<close> on a cell that is a number already.\<close>

definition coerces_numbers :: "studio \<Rightarrow> bool" where
  "coerces_numbers st \<longleftrightarrow> (\<forall>n. to_numeric st (Some (BScalar (VInt n))) = Fin (of_int n))
     \<and> (\<forall>x. to_numeric st (Some (BScalar (VFloat (Fin x)))) = Fin x)"

lemma close_reads: "coerces_numbers st \<Longrightarrow> reads v x \<Longrightarrow> close_to (to_numeric st (Some (BScalar v))) x"
  by (auto simp: coerces_numbers_def reads_def close_to_def split: pval.splits pyfloat.splits)

lemma close_not_nan: "close_to v x \<Longrightarrow> v \<noteq> NaN"
  by (auto simp: close_to_def)

lemma reads_num: "reads v x \<Longrightarrow> num_of v \<noteq> None"
  by (auto simp: reads_def split: pval.splits)

lemma add_cells_get:
  assumes "dict_ok d"
  shows "dict_get (add_cells d row) k = (case dict_get d k of Some v \<Rightarrow> Some (Some (BScalar v)) | None \<Rightarrow> dict_get row k)"
proof -
  let ?d = "map (\<lambda>(k, v). (k, Some (BScalar v))) d"
  have "add_cells d row = fold (\<lambda>(k, v). dict_set k v) ?d row"
    by (simp add: add_cells_def fold_map comp_def case_prod_unfold)
  moreover have "distinct (map fst ?d)" using assms by (simp add: dict_ok_def comp_def split_beta)
  moreover have "map_of ?d k = map_option (\<lambda>v. Some (BScalar v)) (dict_get d k)"
    unfolding dict_get_def by (induction d) auto
  ultimately show ?thesis using fold_dict_set_get[of ?d row k] by (simp split: option.splits)
qed

lemma cell_figure:
  assumes "utility_reads u b" "(c, f) \<in> set utility_figures"
  obtains v where "dict_get u c = Some v" "reads v (f b)"
  using assms unfolding utility_reads_def list_all_iff by (force simp: reads_at_def split: option.splits)

lemma figures_only: "utility_reads u b \<Longrightarrow> k \<notin> set (map fst utility_figures) \<Longrightarrow> dict_get u k = None"
  using parsed_keys(2)[of k u] by (simp add: utility_reads_def)

section \<open>Rows\<close>

text \<open>The figures that are drawn, by their column.\<close>

definition drawn :: "(string \<times> (utility_breakdown \<Rightarrow> real)) list" where
  "drawn = [(''throughput_norm'', throughput_norm), (''rtt_norm'', rtt_norm), (''pfc_norm'', pfc_norm), (''total'', total_utility)]"

lemma drawn_figures: "set drawn \<subseteq> set utility_figures" "map fst drawn = plot_columns"
  by (simp_all add: drawn_def utility_figures_def plot_columns_def)

definition shows_at :: "studio \<Rightarrow> frame_row \<Rightarrow> string \<Rightarrow> real \<Rightarrow> bool" where
  "shows_at st row c x \<longleftrightarrow> dict_get row c \<noteq> None \<and> close_to (to_numeric st (cell row c)) x"

definition shows_entry :: "studio \<Rightarrow> log_entry \<Rightarrow> frame_row \<Rightarrow> bool" where
  "shows_entry st e row \<longleftrightarrow> shows_at st row ''sim_time'' (le_time e)
     \<and> list_all (\<lambda>(c, f). shows_at st row c (f (le_utility e))) drawn"

lemma shows_value: "coerces_numbers st \<Longrightarrow> reads v x \<Longrightarrow> dict_get row c = Some (Some (BScalar v)) \<Longrightarrow> shows_at st row c x"
  by (simp add: shows_at_def cell_def close_reads)

lemma reads_entry_parts:
  assumes "reads_entry specs e b"
  obtains t u p g where "dict_get b ''sim_time'' = Some (BScalar t)" "reads t (le_time e)"
    "dict_get b ''utility'' = Some (BDict u)" "utility_reads u (le_utility e)" "dict_get b ''parameters'' = Some (BDict p)"
    "dict_ok p" "set (map fst p) = ps_name ` set specs" "dict_get b ''tuning'' = Some (BDict g)"
    "\<forall>i < length specs. reads_at p (ps_name (specs ! i)) (flt_val (num_flt (le_solution e ! i)))"
  using assms unfolding reads_entry_def by blast

lemma utility_row_shows:
  assumes "coerces_numbers st" "reads_entry specs e b" "case prev of None \<Rightarrow> True | Some v \<Rightarrow> num_of v \<noteq> None"
  shows "\<exists>row v. utility_row b prev = Inr (row, Some v) \<and> num_of v \<noteq> None \<and> shows_entry st e row"
proof -
  obtain t u g where b: "dict_get b ''sim_time'' = Some (BScalar t)" "reads t (le_time e)" "dict_get b ''utility'' = Some (BDict u)"
    "utility_reads u (le_utility e)" "dict_get b ''tuning'' = Some (BDict g)"
    using assms(2) by (elim reads_entry_parts) blast
  obtain v where v: "dict_get u ''total'' = Some v" "reads v (total_utility (le_utility e))"
    using cell_figure[OF b(4), of "''total''" total_utility] by (auto simp: utility_figures_def)
  let ?base = "(''sim_time'', dict_get b ''sim_time'') # map (\<lambda>k. (k, map_option BScalar (dict_get g k))) tuning_columns"
  let ?row = "\<lambda>d. dict_set ''delta_total'' d (add_cells u ?base)"
  have d: "dict_ok u" using b(4) by (simp add: utility_reads_def)
  have "shows_at st (?row x) ''sim_time'' (le_time e)" for x
    using figures_only[OF b(4), of "''sim_time''"] b(1,2)
    by (intro shows_value[OF assms(1)])
      (auto simp: dict_simps add_cells_get[OF d] utility_figures_def, simp add: dict_get_def)
  moreover have "list_all (\<lambda>(c, f). shows_at st (?row x) c (f (le_utility e))) drawn" for x
    unfolding list_all_iff
  proof (intro ballI, clarify)
    fix c f assume c: "(c, f) \<in> set drawn"
    then have "(c, f) \<in> set utility_figures" using drawn_figures(1) by blast
    then obtain q where "dict_get u c = Some q" "reads q (f (le_utility e))" using cell_figure[OF b(4)] by blast
    moreover have "c \<noteq> ''delta_total''" using c by (auto simp: drawn_def)
    ultimately show "shows_at st (?row x) c (f (le_utility e))"
      by (intro shows_value[OF assms(1), of q]) (simp_all add: dict_simps add_cells_get[OF d])
  qed
  ultimately have s: "shows_entry st e (?row x)" for x by (simp add: shows_entry_def)
  have sub: "\<exists>q. pval_sub v p = Inr q" if "num_of p \<noteq> None" for p
    using that reads_num[OF v(2)] by (auto simp: pval_sub_def split: option.splits pynum.splits)
  have n: "num_of v \<noteq> None" by (rule reads_num[OF v(2)])
  have r: "utility_row b prev = (case prev of None \<Rightarrow> Inr (?row None, Some v)
      | Some p \<Rightarrow> res_bind (pval_sub v p) (\<lambda>q. Inr (?row (Some (BScalar q)), Some v)))"
    by (simp add: utility_row_def get_dict_def b(3,5) v(1) Let_def split: option.splits)
  show ?thesis
  proof (cases prev)
    case None
    then show ?thesis unfolding r using s n by auto
  next
    case (Some p)
    then obtain q where "pval_sub v p = Inr q" using sub assms(3) by auto
    then show ?thesis unfolding r using Some s n by auto
  qed
qed

lemma utility_rows_show:
  assumes "coerces_numbers st" "list_all2 (reads_entry specs) entries bs" "case prev of None \<Rightarrow> True | Some v \<Rightarrow> num_of v \<noteq> None"
  shows "\<exists>rows. utility_rows prev bs = Inr rows \<and> list_all2 (shows_entry st) entries rows"
  using assms(2,3)
proof (induction arbitrary: prev rule: list_all2_induct)
  case (Cons e es b bs)
  obtain row v where r: "utility_row b prev = Inr (row, Some v)" "num_of v \<noteq> None" "shows_entry st e row"
    using utility_row_shows[OF assms(1) Cons.hyps(1) Cons.prems] by blast
  moreover obtain rows where "utility_rows (Some v) bs = Inr rows" "list_all2 (shows_entry st) es rows"
    using Cons.IH[of "Some v"] r(2) by auto
  ultimately show ?case by auto
qed simp

section \<open>Tables\<close>

lemma nothing_filtered:
  assumes "list_all2 (reads_entry specs) entries bs" "bs \<noteq> []"
  shows "filter_blocks_by_time bs None None = Inr bs"
proof -
  have "keep_block None None b = Inr True" if r: "reads_entry specs e b" for e b
  proof -
    obtain t where t: "dict_get b ''sim_time'' = Some (BScalar t)" "reads t (le_time e)" using r by (elim reads_entry_parts) blast
    then have "\<exists>x. flt_of (BScalar t) = Inr x" by (auto simp: flt_of_def reads_def split: pval.splits)
    then show ?thesis using t by (auto simp: keep_block_def)
  qed
  note keep = this
  have "res_map (keep_block None None) bs = Inr (replicate (length bs) True)"
    using assms(1) by (induction rule: list_all2_induct) (auto simp: keep)
  moreover have "filter snd (zip xs (replicate (length xs) True)) = map (\<lambda>x. (x, True)) xs" for xs :: "block list"
    by (induction xs) auto
  ultimately show ?thesis using assms(2) by (simp add: filter_blocks_by_time_def Let_def comp_def)
qed

lemma parameter_table_built:
  assumes "list_all2 (reads_entry specs) entries bs"
  shows "\<exists>df. build_parameter_dataframe bs = Inr df"
proof -
  have "\<exists>ps ts. res_map (\<lambda>b. get_dict b ''parameters'') bs = Inr ps \<and> res_map time_key bs = Inr ts"
    using assms
  proof (induction rule: list_all2_induct)
    case (Cons e es b bs)
    obtain t p where t: "dict_get b ''sim_time'' = Some (BScalar t)" "reads t (le_time e)" "dict_get b ''parameters'' = Some (BDict p)"
      using Cons.hyps(1) by (elim reads_entry_parts) blast
    then have "\<exists>x. flt_of (BScalar t) = Inr x" by (auto simp: flt_of_def reads_def split: pval.splits)
    then show ?case using t Cons.IH by (auto simp: time_key_def get_dict_def)
  qed simp
  then show ?thesis by (auto simp: build_parameter_dataframe_def)
qed

definition shows_parameters :: "studio \<Rightarrow> param_spec list \<Rightarrow> log_entry \<Rightarrow> frame_row \<Rightarrow> bool" where
  "shows_parameters st specs e row \<longleftrightarrow>
     (\<forall>i < length specs. shows_at st row (ps_name (specs ! i)) (flt_val (num_flt (le_solution e ! i))))"

text \<open>Parameters whose names are not those of the other columns that are drawn with them.\<close>

definition apart :: "param_spec list \<Rightarrow> bool" where
  "apart specs \<longleftrightarrow> list_all (\<lambda>s. ps_name s \<notin> set (''sim_time'' # relationship_columns)) specs"

definition shows_related :: "studio \<Rightarrow> log_entry \<Rightarrow> frame_row \<Rightarrow> bool" where
  "shows_related st e row \<longleftrightarrow> shows_at st row ''sim_time'' (le_time e)
     \<and> list_all (\<lambda>(c, f). shows_at st row c (f (le_utility e))) (butlast drawn)"

lemma related_row_shows:
  assumes "coerces_numbers st" "reads_entry specs e b" "apart specs"
    and "dict_get b ''utility'' = Some (BDict u)" "dict_get b ''parameters'' = Some (BDict p)"
  defines "row \<equiv> add_cells (u @ p) [(''sim_time'', dict_get b ''sim_time'')]"
  shows "shows_related st e row \<and> shows_parameters st specs e row"
proof -
  obtain t where b: "dict_get b ''sim_time'' = Some (BScalar t)" "reads t (le_time e)" "utility_reads u (le_utility e)"
    "dict_ok p" "set (map fst p) = ps_name ` set specs"
    "\<forall>i < length specs. reads_at p (ps_name (specs ! i)) (flt_val (num_flt (le_solution e ! i)))"
    using assms(2,4,5) by (elim reads_entry_parts) auto
  have u: "dict_ok u" using b(3) by (simp add: utility_reads_def)
  have "row = add_cells p (add_cells u [(''sim_time'', Some (BScalar t))])" by (simp add: row_def add_cells_def b(1))
  moreover have "dict_get [(k0, v)] k = (if k = k0 then Some v else None)" for k0 k :: string and v :: "bval option"
    by (simp add: dict_get_def)
  ultimately have g: "dict_get row k = (case dict_get p k of Some v \<Rightarrow> Some (Some (BScalar v)) | None \<Rightarrow>
      (case dict_get u k of Some v \<Rightarrow> Some (Some (BScalar v)) | None \<Rightarrow> if k = ''sim_time'' then Some (Some (BScalar t)) else None))" for k
    by (simp only: add_cells_get[OF b(4)] add_cells_get[OF u])
  have other: "dict_get p k = None" if "k \<in> set (''sim_time'' # relationship_columns)" for k
    using that assms(3) parsed_keys(2)[of k p] unfolding b(5) apart_def list_all_iff by blast
  have "''sim_time'' \<notin> set (map fst utility_figures)" by (simp add: utility_figures_def)
  then have "shows_at st row ''sim_time'' (le_time e)"
    using other figures_only[OF b(3)] by (intro shows_value[OF assms(1) b(2)]) (simp add: g)
  moreover have "shows_at st row c (f (le_utility e))" if c: "(c, f) \<in> set (butlast drawn)" for c f
  proof -
    have "(c, f) \<in> set utility_figures" using drawn_figures(1) c by (meson in_set_butlastD subsetD)
    then obtain q where "dict_get u c = Some q" "reads q (f (le_utility e))" using cell_figure[OF b(3)] by blast
    moreover have "c \<in> set (''sim_time'' # relationship_columns)" using c by (auto simp: drawn_def relationship_columns_def)
    ultimately show ?thesis using other by (intro shows_value[OF assms(1), of q]) (simp_all add: g)
  qed
  moreover have "shows_parameters st specs e row"
    unfolding shows_parameters_def
  proof (intro allI impI)
    fix i assume "i < length specs"
    then obtain q where "dict_get p (ps_name (specs ! i)) = Some q" "reads q (flt_val (num_flt (le_solution e ! i)))"
      using b(6) by (auto simp: reads_at_def split: option.splits)
    then show "shows_at st row (ps_name (specs ! i)) (flt_val (num_flt (le_solution e ! i)))"
      by (intro shows_value[OF assms(1), of q]) (simp_all add: g)
  qed
  ultimately show ?thesis by (auto simp: shows_related_def list_all_iff)
qed

lemma new_names_set: "set (new_names ns p) = set ns \<union> set (map fst p)"
proof -
  have "set (fold (\<lambda>n ns. if n \<in> set ns then ns else ns @ [n]) ks ns) = set ns \<union> set ks" for ks
    by (induction ks arbitrary: ns) auto
  then show ?thesis by (simp add: new_names_def dict_keys_def)
qed

lemma plot_table_built:
  assumes "coerces_numbers st" "list_all2 (reads_entry specs) entries bs" "apart specs" "bs \<noteq> []"
  shows "\<exists>rows names. build_parameter_plot_dataframe bs = Inr (rows, names) \<and> set names = ps_name ` set specs
    \<and> list_all2 (\<lambda>e row. shows_related st e row \<and> shows_parameters st specs e row) entries rows"
proof -
  let ?q = "\<lambda>b. res_bind (get_dict b ''utility'') (\<lambda>u. res_bind (get_dict b ''parameters'') (\<lambda>p. Inr (b, u, p)))"
  let ?row = "\<lambda>(b, u, p). add_cells (u @ p) [(''sim_time'', dict_get b ''sim_time'')]"
  have "\<exists>ts. res_map ?q bs = Inr ts \<and> length ts = length bs \<and> (\<forall>(b, u, p) \<in> set ts. set (map fst p) = ps_name ` set specs)
      \<and> list_all2 (\<lambda>e row. shows_related st e row \<and> shows_parameters st specs e row) entries (map ?row ts)"
    using assms(2)
  proof (induction rule: list_all2_induct)
    case (Cons e es b bs)
    obtain u p where u: "dict_get b ''utility'' = Some (BDict u)" "dict_get b ''parameters'' = Some (BDict p)"
      "set (map fst p) = ps_name ` set specs" using Cons.hyps(1) by (elim reads_entry_parts) blast
    then have "?q b = Inr (b, u, p)" by (simp add: get_dict_def)
    then show ?case using Cons.IH u related_row_shows[OF assms(1) Cons.hyps(1) assms(3) u(1,2)] by fastforce
  qed simp
  then obtain ts where ts: "res_map ?q bs = Inr ts" "length ts = length bs" "\<forall>(b, u, p) \<in> set ts. set (map fst p) = ps_name ` set specs"
    "list_all2 (\<lambda>e row. shows_related st e row \<and> shows_parameters st specs e row) entries (map ?row ts)" by blast
  have "set (fold (\<lambda>(b, u, p) ns. new_names ns p) ts ns) = set ns \<union> ps_name ` set specs"
    if "\<forall>(b, u, p) \<in> set ts. set (map fst p) = ps_name ` set specs" "ts \<noteq> []"
    for ts :: "(block \<times> (string, pval) dict \<times> (string, pval) dict) list" and ns
    using that
  proof (induction ts arbitrary: ns)
    case (Cons t ts)
    then show ?case by (cases "ts = []") (auto simp: new_names_set split_beta)
  qed simp
  moreover have "ts \<noteq> []" using ts(2) assms(4) by auto
  ultimately have "set (fold (\<lambda>(b, u, p) ns. new_names ns p) ts []) = ps_name ` set specs" using ts(3) by simp
  then show ?thesis using ts(1,4) by (auto simp: build_parameter_plot_dataframe_def)
qed

section \<open>Curves\<close>

text \<open>One point per summary, in order, at the logged figures.\<close>

definition curve_of :: "(log_entry \<Rightarrow> real) \<Rightarrow> (log_entry \<Rightarrow> real) \<Rightarrow> log_entry list \<Rightarrow> (pyfloat \<times> pyfloat) list \<Rightarrow> bool" where
  "curve_of f g entries ps = list_all2 (\<lambda>e (x, y). close_to x (f e) \<and> close_to y (g e)) entries ps"

lemma paired_curve:
  assumes "list_all2 (\<lambda>e row. shows_at st row x (f e) \<and> shows_at st row y (g e)) entries rows"
  shows "curve_of f g entries (paired st rows x y)"
  using assms unfolding curve_of_def paired_def
  by (induction rule: list_all2_induct) (auto simp: shows_at_def dest!: close_not_nan)

lemma curve_nonempty: "curve_of f g entries ps \<Longrightarrow> entries \<noteq> [] \<Longrightarrow> ps \<noteq> []"
  by (auto simp: curve_of_def)

lemma shown_column: "list_all2 (\<lambda>e row. shows_at st row c (f e)) entries rows \<Longrightarrow> entries \<noteq> [] \<Longrightarrow> has_column rows c"
  by (cases entries; cases rows) (auto simp: has_column_def shows_at_def)

definition history_curves :: "log_entry list \<Rightarrow> mark list \<Rightarrow> bool" where
  "history_curves entries marks =
    list_all2 (\<lambda>(c, f) m. \<exists>ps. m = Line c None ps \<and> curve_of le_time (\<lambda>e. f (le_utility e)) entries ps) drawn marks"

lemma utility_lines_curves:
  assumes "list_all2 (shows_entry st) entries rows" "entries \<noteq> []"
  shows "history_curves entries (utility_lines st rows)"
proof -
  have "curve_of le_time (\<lambda>e. f (le_utility e)) entries (paired st rows ''sim_time'' c)" if "(c, f) \<in> set drawn" for c f
    using that assms(1) by (intro paired_curve) (auto simp: shows_entry_def list_all_iff elim!: list_all2_mono)
  then have c: "\<forall>(c, f) \<in> set drawn. curve_of le_time (\<lambda>e. f (le_utility e)) entries (paired st rows ''sim_time'' c)" by blast
  have "list_all2 (\<lambda>(c, f) m. \<exists>ps. m = Line c None ps \<and> curve_of le_time (\<lambda>e. f (le_utility e)) entries ps) cs
      (List.map_filter (\<lambda>c. let ps = paired st rows ''sim_time'' c in if ps = [] then None else Some (Line c None ps)) (map fst cs))"
    if "\<forall>(c, f) \<in> set cs. curve_of le_time (\<lambda>e. f (le_utility e)) entries (paired st rows ''sim_time'' c)"
    for cs :: "(string \<times> (utility_breakdown \<Rightarrow> real)) list"
    using that curve_nonempty[OF _ assms(2)]
    by (induction cs) (fastforce simp: List.map_filter_simps Let_def)+
  from this[OF c] show ?thesis by (simp add: history_curves_def utility_lines_def drawn_figures(2))
qed

lemma plot_utility_history_saves:
  assumes "list_all2 (shows_entry st) entries rows" "entries \<noteq> []"
  shows "\<exists>w'. plot_utility_history st rows path title w = Some (Inr (), w')
    \<and> disk w' = (disk w)(path \<mapsto> render st (utility_figure st title rows)) \<and> (\<forall>p. creatable w p \<longrightarrow> creatable w' p)"
proof -
  have "has_column rows c" if col: "c \<in> set plot_columns" for c
  proof -
    obtain f where "(c, f) \<in> set drawn" using col unfolding drawn_figures(2)[symmetric] by auto
    then have "list_all2 (\<lambda>e row. shows_at st row c (f (le_utility e))) entries rows"
      using assms(1) by (auto simp: shows_entry_def list_all_iff elim!: list_all2_mono)
    then show ?thesis using assms(2) by (rule shown_column)
  qed
  then have c: "list_all (has_column rows) plot_columns" by (simp add: list_all_iff)
  obtain row where "row \<in> set rows" "shows_at st row ''sim_time'' (le_time (hd entries))"
    using assms by (cases entries; cases rows) (auto simp: shows_entry_def)
  then have t: "\<not> list_all (\<lambda>row. to_numeric st (cell row ''sim_time'') = NaN) rows"
    using close_not_nan by (auto simp: shows_at_def list_all_iff)
  have "utility_lines st rows \<noteq> []"
    using utility_lines_curves[OF assms] by (auto simp: history_curves_def drawn_def)
  then show ?thesis
    using c t by (simp add: plot_utility_history_def act_bind_def make_parent_def act_put_def write_text_def act_get_def)
qed

section \<open>Pictures\<close>

text \<open>What is drawn of one parameter: the paths and the figures there, in the order they are written.\<close>

definition picture :: "studio \<Rightarrow> string \<Rightarrow> string \<Rightarrow> string \<Rightarrow> (pyfloat \<times> pyfloat) list \<Rightarrow> string" where
  "picture st title_prefix name other points =
    render st (if other = ''time'' then time_figure title_prefix name points else relation_figure title_prefix name other points)"

definition axis_pairs :: "string \<Rightarrow> (string \<times> string \<times> string) list" where
  "axis_pairs name = (''time'', ''sim_time'', name) # map (\<lambda>c. (c, name, c)) relationship_columns"

definition pictures_of :: "studio \<Rightarrow> frame_row list \<Rightarrow> string \<Rightarrow> string \<Rightarrow> string \<Rightarrow> (string \<times> string) list" where
  "pictures_of st df dir title_prefix name =
    map (\<lambda>(other, x, y). (path_join dir (relation_name name other), picture st title_prefix name other (paired st df x y))) (axis_pairs name)"

definition save :: "(string \<times> string) list \<Rightarrow> workspace \<Rightarrow> workspace" where
  "save ps w = w\<lparr>disk := disk w ++ map_of (rev ps)\<rparr>"

lemma save_Cons: "save ((p, t) # ps) w = save ps (w\<lparr>disk := (disk w)(p \<mapsto> t)\<rparr>)"
  by (simp add: save_def map_add_def fun_eq_iff split: option.splits)

lemma save_append: "save (ps @ qs) w = save qs (save ps w)"
  by (simp add: save_def map_of_append map_add_assoc)

lemma save_creatable [simp]: "creatable (save ps w) = creatable w"
  by (simp add: save_def)

lemma plot_parameter_saves:
  assumes "list_all (has_column df) relationship_columns" "\<forall>(other, x, y) \<in> set (axis_pairs name). paired st df x y \<noteq> []"
    and "\<forall>(other, z) \<in> set (axis_pairs name). creatable w (path_join dir (relation_name name other))"
  shows "plot_parameter st df dir title_prefix name w = Some (Inr (), save (pictures_of st df dir title_prefix name) w)"
proof -
  have wr: "write_text p t v = Some (Inr (), save [(p, t)] v)" if "creatable v p" for p t v
    using that by (simp add: write_text_def act_bind_def act_get_def act_put_def save_def)
  have rel: "plot_relation st df dir title_prefix name c v
      = Some (Inr (), save [(path_join dir (relation_name name c), picture st title_prefix name c (paired st df name c))] v)"
    if "c \<in> set relationship_columns" "creatable v (path_join dir (relation_name name c))" for c v
  proof -
    have "paired st df name c \<noteq> []" "has_column df c" "c \<noteq> ''time''"
      using assms(1,2) that(1) by (auto simp: axis_pairs_def list_all_iff relationship_columns_def)
    then show ?thesis using that(2) by (simp add: plot_relation_def picture_def wr Let_def)
  qed
  have cols: "act_fold (\<lambda>c _. plot_relation st df dir title_prefix name c) cs () v
      = Some (Inr (), save (map (\<lambda>c. (path_join dir (relation_name name c), picture st title_prefix name c (paired st df name c))) cs) v)"
    if "set cs \<subseteq> set relationship_columns" "\<forall>c \<in> set cs. creatable v (path_join dir (relation_name name c))" for cs v
    using that
  proof (induction cs arbitrary: v)
    case Nil
    then show ?case by (simp add: act_ret_def save_def)
  next
    case (Cons c cs)
    then show ?case using rel[of c v] by (simp add: act_bind_def save_append[symmetric])
  qed
  have "paired st df ''sim_time'' name \<noteq> []" using assms(2) by (simp add: axis_pairs_def)
  moreover have cr: "creatable w (path_join dir (relation_name name ''time''))"
    "\<forall>c \<in> set relationship_columns. creatable w (path_join dir (relation_name name c))"
    using assms(3) by (auto simp: axis_pairs_def)
  ultimately show ?thesis
    using cols[OF subset_refl, of "save [_] w"] wr
    by (simp add: plot_parameter_def act_bind_def pictures_of_def axis_pairs_def picture_def comp_def
        save_append[symmetric] Let_def)
qed

lemma plot_parameters_save:
  assumes "list_all (has_column df) relationship_columns"
    and "\<forall>name \<in> set names. \<forall>(other, x, y) \<in> set (axis_pairs name). paired st df x y \<noteq> []"
    and "\<forall>name \<in> set names. \<forall>(other, z) \<in> set (axis_pairs name). creatable w (path_join dir (relation_name name other))"
  shows "act_fold (\<lambda>name _. plot_parameter st df dir title_prefix name) names () w
    = Some (Inr (), save (concat (map (pictures_of st df dir title_prefix) names)) w)"
  using assms(2,3)
proof (induction names arbitrary: w)
  case Nil
  then show ?case by (simp add: act_ret_def save_def)
next
  case (Cons name names)
  then show ?case using plot_parameter_saves[OF assms(1), of name st w dir title_prefix] by (simp add: act_bind_def save_append)
qed

text \<open>Different figures have different paths.\<close>

lemma relation_name_inj:
  assumes "relation_name n other = relation_name n' other'" "{other, other'} \<subseteq> insert ''time'' (set relationship_columns)"
  shows "n = n' \<and> other = other'"
proof -
  let ?s = "\<lambda>other. ''_vs_'' @ other @ ''.png''"
  have eq: "n @ ?s other = n' @ ?s other'" using assms(1) by (simp add: relation_name_def)
  have suf: "list_all (\<lambda>a. list_all (\<lambda>b. ends_with (?s a) (?s b) \<longrightarrow> a = b) (''time'' # relationship_columns)) (''time'' # relationship_columns)"
    by code_simp
  have in_suf: "ends_with b (us @ b)" for us b :: string by (simp add: ends_with_def starts_with_def)
  have mem: "other \<in> set (''time'' # relationship_columns)" "other' \<in> set (''time'' # relationship_columns)" using assms(2) by simp_all
  from append_eq_append_conv2[THEN iffD1, OF eq]
  have "ends_with (?s other) (?s other') \<or> ends_with (?s other') (?s other)"
  proof (elim exE disjE conjE)
    fix us assume "us @ ?s other = ?s other'"
    then show ?thesis using in_suf[of "?s other" us] by (simp only: simp_thms)
  next
    fix us assume "?s other = us @ ?s other'"
    then show ?thesis using in_suf[of "?s other'" us] by (simp only: simp_thms)
  qed
  then have "other = other'" using suf mem unfolding list_all_iff by metis
  then show ?thesis using eq by simp
qed

lemma relation_name_plain:
  assumes "key_ok n" "other \<in> insert ''time'' (set relationship_columns)"
  shows "relation_name n other \<noteq> []" "CHR ''/'' \<notin> set (relation_name n other)"
proof -
  show "relation_name n other \<noteq> []" by (simp add: relation_name_def)
  have "\<not> is_word (CHR ''/'')" by code_simp
  then have "CHR ''/'' \<notin> set n" using assms(1) by (auto simp: key_ok_def list_all_iff)
  then show "CHR ''/'' \<notin> set (relation_name n other)" using assms(2) by (auto simp: relation_name_def relationship_columns_def)
qed

lemma picture_saved:
  assumes "\<forall>n \<in> set names. key_ok n" "n \<in> set names" "(other, x, y) \<in> set (axis_pairs n)"
  shows "disk (save (concat (map (pictures_of st df dir title_prefix) names)) w) (path_join dir (relation_name n other))
    = Some (picture st title_prefix n other (paired st df x y))"
proof -
  let ?ps = "concat (map (pictures_of st df dir title_prefix) names)" and ?p = "path_join dir (relation_name n other)"
  have ax: "(o1, z) \<in> set (axis_pairs m) \<Longrightarrow> o1 \<in> insert ''time'' (set relationship_columns)" for o1 z m by (auto simp: axis_pairs_def)
  have fn: "(o1, z) \<in> set (axis_pairs m) \<Longrightarrow> (o1, z') \<in> set (axis_pairs m) \<Longrightarrow> z = z'" for o1 z z' m
    by (auto simp: axis_pairs_def relationship_columns_def)
  have "(?p, picture st title_prefix n other (paired st df x y)) \<in> set ?ps"
    using assms(2,3) by (force simp: pictures_of_def)
  moreover have "t = picture st title_prefix n other (paired st df x y)" if t: "(?p, t) \<in> set ?ps" for t
  proof -
    obtain m o1 x1 y1 where m: "m \<in> set names" "(o1, x1, y1) \<in> set (axis_pairs m)" "path_join dir (relation_name m o1) = ?p"
      "t = picture st title_prefix m o1 (paired st df x1 y1)" using t by (auto simp: pictures_of_def)
    have k: "key_ok m" "key_ok n" using assms(1,2) m(1) by blast+
    have "relation_name m o1 = relation_name n other"
      by (rule path_join_inj[OF m(3) not_isabs[OF relation_name_plain(2)[OF k(1) ax[OF m(2)]]]
        not_isabs[OF relation_name_plain(2)[OF k(2) ax[OF assms(3)]]]])
    from relation_name_inj[OF this] have "m = n \<and> o1 = other" using ax[OF m(2)] ax[OF assms(3)] by blast
    then show ?thesis using m(2,4) fn assms(3) by blast
  qed
  moreover from calculation(1) have "map_of (rev ?ps) ?p \<noteq> None" unfolding map_of_eq_None_iff by force
  ultimately have "map_of (rev ?ps) ?p = Some (picture st title_prefix n other (paired st df x y))"
    using map_of_SomeD[of "rev ?ps" ?p] unfolding set_rev by (cases "map_of (rev ?ps) ?p") blast+
  then show ?thesis by (simp add: save_def)
qed

section \<open>The run\<close>

lemma in_dir_prefix: "in_dir dir p \<Longrightarrow> \<exists>u. p = dir @ u"
proof -
  assume "in_dir dir p"
  then have "take (length (path_join dir [])) p = path_join dir []" by (simp add: in_dir_def starts_with_def)
  then have "p = path_join dir [] @ drop (length (path_join dir [])) p" by (metis append_take_drop_id)
  moreover have "\<exists>v. path_join dir [] = dir @ v" by (simp add: path_join_def isabs_def starts_with_def)
  ultimately show ?thesis by (metis append.assoc)
qed

lemma effect_paths_apart:
  assumes "effect_paths ar args log_path = Inr (table_path, plot_path, dir)"
  shows "plot_path \<noteq> table_path" "\<not> in_dir dir plot_path" "\<not> in_dir dir table_path" "\<exists>title. build_plot_title args log_path = Inr title"
proof -
  obtain stem where stem: "build_output_stem args log_path = Inr stem"
    and p: "table_path = path_join (script_dir ar) ''parameter.tsv''"
      "plot_path = path_join (script_dir ar) (''utility_history_'' @ stem @ ''.png'')"
      "dir = path_join (script_dir ar) (''parameter_scatter_'' @ stem)"
    using assms by (auto simp: effect_paths_def build_plot_output_path_def build_parameter_scatter_dir_def res_simps)
  obtain pre where pre: "\<And>a. \<not> isabs a \<Longrightarrow> path_join (script_dir ar) a = pre @ a" using path_join_prefix by blast
  have rel: "\<not> isabs ''parameter.tsv''" "\<not> isabs (''utility_history_'' @ x)" "\<not> isabs (''parameter_scatter_'' @ x)" for x
    by (simp_all add: isabs_def starts_with_def)
  show "plot_path \<noteq> table_path" unfolding p pre[OF rel(1)] pre[OF rel(2)] by simp
  have "pre @ a \<noteq> dir @ u" if "take 10 a \<noteq> ''parameter_''" for a u
    unfolding p pre[OF rel(3)] using that by auto
  then have "\<not> in_dir dir (pre @ a)" if "take 10 a \<noteq> ''parameter_''" for a using that in_dir_prefix by blast
  then show "\<not> in_dir dir plot_path" "\<not> in_dir dir table_path"
    unfolding p(1,2) pre[OF rel(1)] pre[OF rel(2)] by simp_all
  show "\<exists>title. build_plot_title args log_path = Inr title"
    using stem by (auto simp: build_plot_title_def build_output_stem_def res_simps split: option.splits)
qed

lemma axis_pairs_shown:
  assumes "list_all2 (\<lambda>e row. shows_related st e row \<and> shows_parameters st specs e row) entries rows"
    and "i < length specs"
  shows "curve_of le_time (\<lambda>e. flt_val (num_flt (le_solution e ! i))) entries (paired st rows ''sim_time'' (ps_name (specs ! i)))"
    and "(c, f) \<in> set (butlast drawn) \<Longrightarrow>
      curve_of (\<lambda>e. flt_val (num_flt (le_solution e ! i))) (\<lambda>e. f (le_utility e)) entries (paired st rows (ps_name (specs ! i)) c)"
  using assms
  by (auto intro!: paired_curve simp: shows_related_def shows_parameters_def list_all_iff elim!: list_all2_mono)

lemma related_columns: "c \<in> set relationship_columns \<longleftrightarrow> (\<exists>f. (c, f) \<in> set (butlast drawn))"
  by (auto simp: relationship_columns_def drawn_def)

lemma parameters_drawn:
  assumes "list_all2 (\<lambda>e row. shows_related st e row \<and> shows_parameters st specs e row) entries rows" "entries \<noteq> []"
    and "names_ok specs" "set names = ps_name ` set specs"
  shows "\<exists>w'. plot_parameter_relationships st rows names dir title_prefix w = Some (Inr (), w')
    \<and> (\<forall>p. \<not> in_dir dir p \<longrightarrow> disk w' p = disk w p)
    \<and> (\<forall>n \<in> set names. \<forall>(other, x, y) \<in> set (axis_pairs n).
         disk w' (path_join dir (relation_name n other)) = Some (picture st title_prefix n other (paired st rows x y)))"
proof -
  have keys: "\<forall>n \<in> set names. key_ok n" using assms(3,4) by (auto simp: names_ok_def list_all_iff)
  have cols: "list_all (has_column rows) relationship_columns"
    unfolding list_all_iff related_columns
  proof (intro ballI)
    fix c assume "c \<in> set relationship_columns"
    then obtain f where "(c, f) \<in> set (butlast drawn)" using related_columns by blast
    then show "has_column rows c"
      using assms(1) by (intro shown_column[OF _ assms(2), of st c "\<lambda>e. f (le_utility e)"])
        (auto simp: shows_related_def list_all_iff elim!: list_all2_mono)
  qed
  have ne: "\<forall>n \<in> set names. \<forall>(other, x, y) \<in> set (axis_pairs n). paired st rows x y \<noteq> []"
  proof (intro ballI, clarify)
    fix n other x y assume n: "n \<in> set names" "(other, x, y) \<in> set (axis_pairs n)" "paired st rows x y = []"
    then obtain i where i: "i < length specs" "n = ps_name (specs ! i)" using assms(4) by (auto simp: in_set_conv_nth)
    have "(x, y) = (''sim_time'', n) \<or> (\<exists>f. x = n \<and> (y, f) \<in> set (butlast drawn))"
      using n(2) related_columns by (auto simp: axis_pairs_def)
    then show False using n(3) axis_pairs_shown[OF assms(1) i(1)] curve_nonempty[OF _ assms(2)] i(2) by fastforce
  qed
  let ?w = "w\<lparr>creatable := (\<lambda>p. in_dir dir p \<or> creatable w p), disk := (\<lambda>p. if in_dir dir p \<and> is_png p then None else disk w p)\<rparr>"
  let ?ps = "concat (map (pictures_of st rows dir title_prefix) names)"
  have plain: "in_dir dir (path_join dir (relation_name n other))" if "n \<in> set names" "(other, z) \<in> set (axis_pairs n)" for n other z
    using relation_name_plain[of n other] keys that by (intro in_dir_join) (auto simp: axis_pairs_def)
  have "act_fold (\<lambda>name _. plot_parameter st rows dir title_prefix name) names () ?w = Some (Inr (), save ?ps ?w)"
    by (rule plot_parameters_save[OF cols ne]) (use plain in auto)
  then have run: "plot_parameter_relationships st rows names dir title_prefix w = Some (Inr (), save ?ps ?w)"
    by (simp add: plot_parameter_relationships_def act_bind_def make_dir_def remove_pngs_def act_put_def cong: if_cong)
  have out: "disk (save ?ps ?w) p = disk w p" if "\<not> in_dir dir p" for p
  proof -
    have "p \<notin> fst ` set (rev ?ps)" using that plain by (auto simp: pictures_of_def)
    then have "map_of (rev ?ps) p = None" by (simp add: map_of_eq_None_iff)
    then show ?thesis using that by (simp add: save_def map_add_def)
  qed
  show ?thesis
    using run out picture_saved[OF keys] by (intro exI[of _ "save ?ps ?w"]) auto
qed

text \<open>The figures of one run: four curves over time, and for every parameter its own curve and its relation to each of the
  three components.\<close>

definition parameter_pictures :: "studio \<Rightarrow> string \<Rightarrow> param_spec list \<Rightarrow> log_entry list \<Rightarrow> workspace \<Rightarrow> bool" where
  "parameter_pictures st dir specs entries w \<longleftrightarrow> (\<forall>i < length specs.
     (let name = ps_name (specs ! i); value_of = (\<lambda>e. flt_val (num_flt (le_solution e ! i))) in
      (\<exists>ps. curve_of le_time value_of entries ps
         \<and> disk w (path_join dir (relation_name name ''time'')) = Some (render st (time_figure ''Parameter Plot'' name ps)))
      \<and> (\<forall>(c, f) \<in> set (butlast drawn). \<exists>ps. curve_of value_of (\<lambda>e. f (le_utility e)) entries ps
         \<and> disk w (path_join dir (relation_name name c)) = Some (render st (relation_figure ''Parameter Plot'' name c ps)))))"

lemma parameter_pictures_drawn:
  assumes "list_all2 (\<lambda>e row. shows_related st e row \<and> shows_parameters st specs e row) entries rows" "entries \<noteq> []"
    and "names_ok specs" "set names = ps_name ` set specs"
  shows "\<exists>w'. plot_parameter_relationships st rows names dir ''Parameter Plot'' w = Some (Inr (), w')
    \<and> (\<forall>p. \<not> in_dir dir p \<longrightarrow> disk w' p = disk w p) \<and> parameter_pictures st dir specs entries w'"
proof -
  obtain w' where w': "plot_parameter_relationships st rows names dir ''Parameter Plot'' w = Some (Inr (), w')"
    "\<forall>p. \<not> in_dir dir p \<longrightarrow> disk w' p = disk w p"
    "\<forall>n \<in> set names. \<forall>(other, x, y) \<in> set (axis_pairs n).
       disk w' (path_join dir (relation_name n other)) = Some (picture st ''Parameter Plot'' n other (paired st rows x y))"
    using parameters_drawn[OF assms] by blast
  have "parameter_pictures st dir specs entries w'"
    unfolding parameter_pictures_def Let_def
  proof (intro allI impI conjI ballI, goal_cases)
    case (1 i)
    then have "ps_name (specs ! i) \<in> set names" using assms(4) by auto
    then have "disk w' (path_join dir (relation_name (ps_name (specs ! i)) ''time''))
        = Some (picture st ''Parameter Plot'' (ps_name (specs ! i)) ''time'' (paired st rows ''sim_time'' (ps_name (specs ! i))))"
      using w'(3) by (auto simp: axis_pairs_def)
    then show ?case using axis_pairs_shown(1)[OF assms(1) 1] by (auto simp: picture_def)
  next
    case (2 i cf)
    obtain c f where c: "cf = (c, f)" by force
    have n: "ps_name (specs ! i) \<in> set names" using assms(4) 2(1) by auto
    have col: "c \<in> set relationship_columns" using 2(2) related_columns c by blast
    then have "disk w' (path_join dir (relation_name (ps_name (specs ! i)) c))
        = Some (picture st ''Parameter Plot'' (ps_name (specs ! i)) c (paired st rows (ps_name (specs ! i)) c))"
      using w'(3) n by (fastforce simp: axis_pairs_def)
    moreover have "c \<noteq> ''time''" using col by (auto simp: relationship_columns_def)
    ultimately show ?case using axis_pairs_shown(2)[OF assms(1) 2(1), of c f] 2(2) by (auto simp: picture_def c)
  qed
  then show ?thesis using w'(1,2) by blast
qed

text \<open>A log without summaries, for instance of a run that only collects: the script stops before it writes anything.\<close>

lemma empty_log_stops:
  assumes "find_effect_log ar args w = Inr log_path" "disk w log_path = Some []"
  shows "effect_main st ar args w = Some (Inl SystemExit, w)"
proof -
  have "load_tuning_blocks [] = Inl SystemExit" by code_simp
  then show ?thesis
    using assms by (simp add: effect_main_def act_bind_def consult_def act_get_def act_lift_def read_text_def effect_tables_def)
qed

lemma effect_figures_drawn:
  assumes "names_ok specs" "apart specs" "entries \<noteq> []" "list_all (entry_ok specs) entries"
    and "res_map (entry_text specs) entries = Inr texts" "coerces_numbers st"
    and "find_effect_log ar args w = Inr log_path" "disk w log_path = Some (concat texts)"
    and "ea_start args = None" "ea_end args = None"
    and "effect_paths ar args log_path = Inr (table_path, plot_path, dir)" "creatable w table_path"
  shows "\<exists>w' title df. effect_main st ar args w = Some (Inr (), w') \<and> build_plot_title args log_path = Inr title
    \<and> disk w' plot_path = Some (render st (utility_figure st title df)) \<and> history_curves entries (utility_lines st df)
    \<and> parameter_pictures st dir specs entries w'
    \<and> (\<forall>p. p \<noteq> table_path \<and> p \<noteq> plot_path \<and> \<not> in_dir dir p \<longrightarrow> disk w' p = disk w p)"
proof -
  let ?bs = "map (entry_block specs) entries"
  note load = load_entries[OF assms(1,3-5)]
  have bs: "?bs \<noteq> []" using assms(3) by simp
  obtain table where table: "build_parameter_dataframe ?bs = Inr table" using parameter_table_built[OF load(2)] by blast
  obtain df where df: "build_utility_dataframe ?bs = Inr df" "list_all2 (shows_entry st) entries df"
    using utility_rows_show[OF assms(6) load(2), of None] by (auto simp: build_utility_dataframe_def)
  obtain rows names where rows: "build_parameter_plot_dataframe ?bs = Inr (rows, names)" "set names = ps_name ` set specs"
    "list_all2 (\<lambda>e row. shows_related st e row \<and> shows_parameters st specs e row) entries rows"
    using plot_table_built[OF assms(6) load(2) assms(2) bs] by blast
  have tables: "effect_tables args (concat texts) = Inr (table, df, rows, names)"
    using nothing_filtered[OF load(2) bs] by (simp add: effect_tables_def load(1) assms(9,10) table df(1) rows(1))
  note apart = effect_paths_apart[OF assms(11)]
  obtain title where title: "build_plot_title args log_path = Inr title" using apart(4) by blast
  let ?w1 = "w\<lparr>disk := (disk w)(table_path \<mapsto> tsv_text st table)\<rparr>"
  obtain w2 where w2: "plot_utility_history st df plot_path title ?w1 = Some (Inr (), w2)"
    "disk w2 = (disk ?w1)(plot_path \<mapsto> render st (utility_figure st title df))"
    using plot_utility_history_saves[OF df(2) assms(3)] by blast
  obtain w3 where w3: "plot_parameter_relationships st rows names dir ''Parameter Plot'' w2 = Some (Inr (), w3)"
    "\<forall>p. \<not> in_dir dir p \<longrightarrow> disk w3 p = disk w2 p" "parameter_pictures st dir specs entries w3"
    using parameter_pictures_drawn[OF rows(3) assms(3,1) rows(2)] by blast
  have run: "effect_main st ar args w = print_lines [''tuner_log = '' @ log_path, ''parameter_file = '' @ table_path,
      ''utility_plot = '' @ plot_path, ''parameter_scatter_dir = '' @ dir, [], ''Utility History'', shown st df] w3"
    using assms(7,8,11,12) w2(1) w3(1)
    by (simp add: effect_main_def act_bind_def consult_def act_get_def act_lift_def read_text_def write_text_def act_put_def tables title)
  have pics: "parameter_pictures st dir specs entries (w3\<lparr>printed := ls\<rparr>)" for ls
    using w3(3) by (simp add: parameter_pictures_def)
  show ?thesis
    unfolding run print_lines_Some
    using w2(2) w3(2) pics apart title utility_lines_curves[OF df(2) assms(3)] by (intro exI[of _ "w3\<lparr>printed := _\<rparr>"] exI[of _ title] exI[of _ df]) auto
qed

text \<open>C30: The figures of \<^verbatim>\<open>tuning_effect.py\<close> show the log. On a log of the tuner with no summary the script stops with
  \<^verbatim>\<open>SystemExit\<close> and writes nothing. On any longer one, without time limits, with a place to write, with parameters whose
  names are distinct and none of which is the name of a column of the script, and with pandas coercing a number to itself,
  it finishes; the utility history then has one curve per component and one for the total, and every parameter has its curve
  over time and its three scatter plots, each with one point per summary, in order, within half of the sixth decimal of the
  figures the tuner logged; no other file outside the directory of the scatter plots changes.\<close>

theorem effect_figures_from_log:
  assumes "names_ok specs" "apart specs" "list_all (entry_ok specs) entries"
    and "res_map (entry_text specs) entries = Inr texts" "coerces_numbers st"
    and "find_effect_log ar args w = Inr log_path" "disk w log_path = Some (concat texts)"
    and "ea_start args = None" "ea_end args = None"
    and "effect_paths ar args log_path = Inr (table_path, plot_path, dir)" "creatable w table_path"
  shows "if entries = [] then effect_main st ar args w = Some (Inl SystemExit, w)
    else \<exists>w' title df. effect_main st ar args w = Some (Inr (), w') \<and> build_plot_title args log_path = Inr title
    \<and> disk w' plot_path = Some (render st (utility_figure st title df)) \<and> history_curves entries (utility_lines st df)
    \<and> parameter_pictures st dir specs entries w'
    \<and> (\<forall>p. p \<noteq> table_path \<and> p \<noteq> plot_path \<and> \<not> in_dir dir p \<longrightarrow> disk w' p = disk w p)"
proof (cases "entries = []")
  case True
  then have "disk w log_path = Some []" using assms(4,7) by simp
  from empty_log_stops[OF assms(6) this] show ?thesis using True by simp
next
  case False
  from effect_figures_drawn[OF assms(1,2) False assms(3-11)] show ?thesis using False by simp
qed

definition demo_effect_args :: effect_args where
  "demo_effect_args = \<lparr>ea_id = None, ea_log = Some ''/l/t.log'', ea_start = None, ea_end = None\<rparr>"

definition demo_log_desk :: "string \<Rightarrow> workspace" where
  "demo_log_desk content = \<lparr>disk = [''/l/t.log'' \<mapsto> content], creatable = (\<lambda>_. True), printed = []\<rparr>"

theorem effect_figures_from_log_witness:
  "\<exists>t w'. entry_text (ALL_PARAMETER_SPECS (\<lambda>_ _ _. [])) sample_entry = Inr t
    \<and> effect_main bare_studio demo_archive demo_effect_args (demo_log_desk (t @ t)) = Some (Inr (), w')
    \<and> disk w' ''/a/utility_history_l_t.png'' = Some ''Utility History (l)''"
proof -
  let ?s = "ALL_PARAMETER_SPECS (\<lambda>_ _ _. [])"
  have ok: "entry_ok ?s sample_entry" using samples_searchable by (simp add: searchable_def)
  obtain t where t: "entry_text ?s sample_entry = Inr t" using entry_form[OF table_names_ok ok] by blast
  have es: "[sample_entry, sample_entry] \<noteq> []" "list_all (entry_ok ?s) [sample_entry, sample_entry]"
    "res_map (entry_text ?s) [sample_entry, sample_entry] = Inr [t, t]" using ok t by simp_all
  have ap: "apart ?s" unfolding apart_def ALL_PARAMETER_SPECS_def by (simp add: relationship_columns_def Let_def)
  have num: "coerces_numbers bare_studio" by (simp add: coerces_numbers_def bare_studio_def)
  have find: "find_effect_log demo_archive demo_effect_args (demo_log_desk c) = Inr ''/l/t.log''" for c
    by (simp add: find_effect_log_def resolve_tuner_log_path_def demo_effect_args_def demo_archive_def demo_log_desk_def has_file_def)
  have parts: "path_parent_name ''/l/t.log'' = ''l''" "path_stem ''/l/t.log'' = ''t''"
    "stem_char (CHR ''l'')" "stem_char (CHR ''_'')" "stem_char (CHR ''t'')" by code_simp+
  have p: "effect_paths demo_archive demo_effect_args ''/l/t.log''
      = Inr (''/a/parameter.tsv'', ''/a/utility_history_l_t.png'', ''/a/parameter_scatter_l_t'')"
    "build_plot_title demo_effect_args ''/l/t.log'' = Inr ''Utility History (l)''"
    by (simp_all add: effect_paths_def build_plot_output_path_def build_parameter_scatter_dir_def build_output_stem_def time_suffix_def
      build_plot_title_def build_time_window_label_def demo_effect_args_def demo_archive_def parts path_join_def isabs_def starts_with_def)
  have a: "ea_start demo_effect_args = None" "ea_end demo_effect_args = None" by (simp_all add: demo_effect_args_def)
  have d: "disk (demo_log_desk (t @ t)) ''/l/t.log'' = Some (concat [t, t])" "creatable (demo_log_desk (t @ t)) ''/a/parameter.tsv''"
    by (simp_all add: demo_log_desk_def)
  from effect_figures_from_log[OF table_names_ok ap es(2,3) num find d(1) a p(1) d(2)] obtain w' where
    w': "effect_main bare_studio demo_archive demo_effect_args (demo_log_desk (t @ t)) = Some (Inr (), w')"
    "\<exists>df. disk w' ''/a/utility_history_l_t.png'' = Some (render bare_studio (utility_figure bare_studio ''Utility History (l)'' df))"
    unfolding p(2) by auto
  then show ?thesis using t by (auto simp: bare_studio_def utility_figure_def)
qed

end
