(* ===== verification/Traffic.thy ===== *)
theory Traffic
  imports RunSetup "HOL-Library.Product_Lexorder" "HOL-Library.Multiset"
begin

text \<open>
  The traffic generators under \<^verbatim>\<open>traffic_gen/\<close>: flows with their port counters, flow sizes drawn from a
  cumulative distribution, Poisson arrivals (\<^verbatim>\<open>gen_traffic.py\<close> and its two drivers), and the rounds of all-to-all
  traffic (\<^verbatim>\<open>gen_llm_onoff_topo_s.py\<close>, \<^verbatim>\<open>llm_traffic_gen.py\<close>), with the flow files they write and
  \<^verbatim>\<open>run.py\<close> reads.

  The module-level port table and the two random streams are a record that is passed along: \<open>unif\<close> the results of
  \<^verbatim>\<open>random.random\<close>, \<open>idxs\<close> the positions \<^verbatim>\<open>random.choice\<close> takes. Times and sizes are exact reals
  until they are truncated or printed.
\<close>

section \<open>Flows\<close>

record flow =
  f_src :: int
  f_dst :: int
  f_size :: int
  f_time :: real
  f_dport :: int

record traffic_state =
  ports :: "int \<times> int \<Rightarrow> int option"
  unif :: "nat \<Rightarrow> real"
  upos :: nat
  idxs :: "nat \<Rightarrow> nat"
  ipos :: nat

text \<open>\<open>first\<close> is the first port of a pair: 1 in \<^verbatim>\<open>gen_traffic.py\<close>, 10000 in the other two modules.\<close>

definition port_of :: "int \<Rightarrow> int \<Rightarrow> int \<Rightarrow> (int \<times> int \<Rightarrow> int option) \<Rightarrow> int" where
  "port_of first s d m = (case m (s, d) of None \<Rightarrow> first | Some p \<Rightarrow> p)"

definition new_flow :: "int \<Rightarrow> int \<Rightarrow> int \<Rightarrow> int \<Rightarrow> real \<Rightarrow> (int \<times> int \<Rightarrow> int option) \<Rightarrow> flow \<times> (int \<times> int \<Rightarrow> int option)" where
  "new_flow first s d sz t m =
    (let p = port_of first s d m
     in (\<lparr>f_src = s, f_dst = d, f_size = max sz 100, f_time = t, f_dport = p\<rparr>, m((s, d) \<mapsto> p + 1)))"

definition flow_line :: "flow \<Rightarrow> string" where
  "flow_line f = str_join '' '' [py_str_int (f_src f), py_str_int (f_dst f), ''3'', py_str_int (f_dport f),
     py_str_int (f_size f), fmt_fixed 9 (f_time f)]"

definition write_flow_file :: "flow list \<Rightarrow> string" where
  "write_flow_file fs = concat (map (\<lambda>l. l @ [nl]) (py_str_int (int (length fs)) # map flow_line fs))"

text \<open>\<^verbatim>\<open>llm_traffic_gen.py\<close> writes no count.\<close>

definition write_flows_to_file :: "flow list \<Rightarrow> string" where
  "write_flows_to_file fs = concat (map (\<lambda>f. flow_line f @ [nl]) fs)"

section \<open>Rounds of all-to-all traffic\<close>

definition estimate_alltoall_on_time :: "int \<Rightarrow> int \<Rightarrow> real \<Rightarrow> real res" where
  "estimate_alltoall_on_time num_workers flow_size_bytes bandwidth_gbps =
    (if bandwidth_gbps * 1000000000 = 0 then Inl ZeroDivisionError
     else Inr (of_int ((num_workers - 1) * flow_size_bytes) * 8 / (bandwidth_gbps * 1000000000)))"

definition tor_take :: "int \<Rightarrow> int \<Rightarrow> int" where
  "tor_take worker_count tor_index = worker_count div 8 + (if tor_index < worker_count mod 8 then 1 else 0)"

definition spread_workers_for_topo_s :: "int \<Rightarrow> int list res" where
  "spread_workers_for_topo_s worker_count =
    (if worker_count \<le> 0 \<or> worker_count > 64 then Inl ValueError
     else (let workers = concat (map (\<lambda>tor. [tor * 8 .. tor * 8 + tor_take worker_count tor - 1]) [0..7])
           in if int (length workers) \<noteq> worker_count then Inl ValueError else Inr workers))"

definition round_pairs :: "int list \<Rightarrow> (int \<times> int) list" where
  "round_pairs workers = concat (map (\<lambda>s. map (\<lambda>d. (s, d)) (filter (\<lambda>d. s \<noteq> d) workers)) workers)"

fun add_flows :: "int \<Rightarrow> int \<Rightarrow> real \<Rightarrow> (int \<times> int) list \<Rightarrow> (int \<times> int \<Rightarrow> int option) \<Rightarrow> flow list \<times> (int \<times> int \<Rightarrow> int option)" where
  "add_flows first sz t [] m = ([], m)"
| "add_flows first sz t ((s, d) # ps) m =
    (let (f, m1) = new_flow first s d sz t m; (fs, m2) = add_flows first sz t ps m1 in (f # fs, m2))"

fun add_rounds ::
  "int \<Rightarrow> int list \<Rightarrow> int \<Rightarrow> real list \<Rightarrow> (int \<times> int \<Rightarrow> int option) \<Rightarrow> flow list \<times> (int \<times> int \<Rightarrow> int option)" where
  "add_rounds first workers sz [] m = ([], m)"
| "add_rounds first workers sz (t # ts) m =
    (let (fs, m1) = add_flows first sz t (round_pairs workers) m; (gs, m2) = add_rounds first workers sz ts m1 in (fs @ gs, m2))"

definition round_times :: "real \<Rightarrow> real \<Rightarrow> nat \<Rightarrow> real list" where
  "round_times base period n = map (\<lambda>r. base + real r * period) [0..<n]"

definition generate_onoff_alltoall_flows ::
  "int list \<Rightarrow> real \<Rightarrow> nat \<Rightarrow> int \<Rightarrow> real \<Rightarrow> real \<Rightarrow> real option \<Rightarrow> (int \<times> int \<Rightarrow> int option)
     \<Rightarrow> (flow list \<times> real list \<times> real \<times> real \<times> (int \<times> int \<Rightarrow> int option)) res" where
  "generate_onoff_alltoall_flows workers base_time_s num_rounds flow_size_bytes off_time_s bandwidth_gbps period_override m =
    res_bind (estimate_alltoall_on_time (int (length workers)) flow_size_bytes bandwidth_gbps) (\<lambda>on_time_s.
    (let period_s = (case period_override of Some p \<Rightarrow> p | None \<Rightarrow> on_time_s + off_time_s);
         round_starts = round_times base_time_s period_s num_rounds;
         (fs, m') = add_rounds 10000 workers flow_size_bytes round_starts m
     in Inr (sort_key (\<lambda>f. (f_time f, f_src f, f_dst f, f_dport f)) fs, round_starts, on_time_s, period_s, m')))"

text \<open>The variant of \<^verbatim>\<open>llm_traffic_gen.py\<close>: exactly twenty workers, no sorting.\<close>

definition llm_generate_flows ::
  "int list \<Rightarrow> real \<Rightarrow> nat \<Rightarrow> int \<Rightarrow> real \<Rightarrow> real \<Rightarrow> real option \<Rightarrow> (int \<times> int \<Rightarrow> int option)
     \<Rightarrow> (flow list \<times> real list \<times> real \<times> (int \<times> int \<Rightarrow> int option)) res" where
  "llm_generate_flows workers base_t num_rounds flow_size_bytes off_time bandwidth_gbps period_override m =
    (if length workers \<noteq> 20 then Inl AssertionError
     else res_bind (case period_override of Some p \<Rightarrow> Inr p
          | None \<Rightarrow> res_bind (estimate_alltoall_on_time (int (length workers)) flow_size_bytes bandwidth_gbps)
                     (\<lambda>on_time. Inr (on_time + off_time))) (\<lambda>period.
       (let round_starts = round_times base_t period num_rounds;
            (fs, m') = add_rounds 10000 workers flow_size_bytes round_starts m
        in Inr (fs, round_starts, period, m'))))"

record llm_args =
  la_workers :: int
  la_rounds :: int
  la_base_time :: real
  la_flow_size_mb :: real
  la_off_ms :: real
  la_bw_gbps :: real
  la_period_ms :: "real option"

text \<open>What \<open>main\<close> of \<^verbatim>\<open>gen_llm_onoff_topo_s.py\<close> computes before it writes: workers, flow size, flows, starts of the rounds
  and the two durations.\<close>

definition llm_plan :: "llm_args \<Rightarrow> (int list \<times> int \<times> flow list \<times> real list \<times> real \<times> real) res" where
  "llm_plan args =
    (if la_rounds args \<le> 0 then Inl SystemExit
     else if la_flow_size_mb args \<le> 0 \<or> la_off_ms args < 0 \<or> la_bw_gbps args \<le> 0 then Inl SystemExit
     else res_bind (spread_workers_for_topo_s (la_workers args)) (\<lambda>workers.
       (let flow_size_bytes = py_trunc (la_flow_size_mb args * 1024 * 1024) in
        res_bind (generate_onoff_alltoall_flows workers (la_base_time args) (nat (la_rounds args))
            flow_size_bytes (la_off_ms args / 1000) (la_bw_gbps args)
            (map_option (\<lambda>p. p / 1000) (la_period_ms args)) (\<lambda>_. None))
          (\<lambda>(fs, round_starts, on_time_s, period_s, m).
             Inr (workers, flow_size_bytes, fs, round_starts, on_time_s, period_s)))))"

text \<open>The text of the flow file and the flows in it.\<close>

definition llm_main :: "llm_args \<Rightarrow> (string \<times> flow list) res" where
  "llm_main args =
    res_bind (llm_plan args) (\<lambda>(workers, flow_size_bytes, fs, round_starts, on_time_s, period_s). Inr (write_flow_file fs, fs))"

section \<open>Sizes from a distribution\<close>

definition parse_cdf_line :: "string \<Rightarrow> (pyfloat \<times> pyfloat) res" where
  "parse_cdf_line line =
    res_bind (res_map py_float (split_ws (str_strip line))) (\<lambda>vs.
      if length vs = 2 then Inr (vs ! 0, vs ! 1) else Inl ValueError)"

fun rising :: "(pyfloat \<times> pyfloat) list \<Rightarrow> bool" where
  "rising ((x0, y0) # (x1, y1) # ps) \<longleftrightarrow> (flt_lt y0 y1 \<or> flt_lt x0 x1) \<and> rising ((x1, y1) # ps)"
| "rising _ \<longleftrightarrow> True"

definition CustomRand :: "string \<Rightarrow> (pyfloat \<times> pyfloat) list res" where
  "CustomRand content =
    res_bind (res_map parse_cdf_line (file_lines content)) (\<lambda>cdf.
      if cdf = [] then Inl IndexError
      else if \<not> (flt_eq (snd (hd cdf)) (Fin 0) \<and> flt_eq (snd (last cdf)) (Fin 100)) then Inl AssertionError
      else if \<not> rising cdf then Inl AssertionError else Inr cdf)"

text \<open>The numbers of a distribution are finite in what follows; \<open>None\<close> marks a file with an infinity or \<^verbatim>\<open>nan\<close> in
  it, whose arithmetic is not modelled.\<close>

definition points :: "(pyfloat \<times> pyfloat) list \<Rightarrow> (real \<times> real) list option" where
  "points cdf = (if list_all (\<lambda>(x, y). flt_finite x \<and> flt_finite y) cdf
                 then Some (map (\<lambda>(x, y). (flt_val x, flt_val y)) cdf) else None)"

fun area :: "(real \<times> real) list \<Rightarrow> real" where
  "area ((x0, y0) # (x1, y1) # ps) = (x1 + x0) / 2 * (y1 - y0) + area ((x1, y1) # ps)"
| "area _ = 0"

definition get_avg :: "(real \<times> real) list \<Rightarrow> real" where
  "get_avg cdf = area cdf / 100"

fun get_value_from_percentile :: "(real \<times> real) list \<Rightarrow> real \<Rightarrow> real option res" where
  "get_value_from_percentile ((x0, y0) # (x1, y1) # ps) percentile =
    (if percentile \<le> y1
     then (if y1 - y0 = 0 then Inl ZeroDivisionError else Inr (Some (x0 + (x1 - x0) / (y1 - y0) * (percentile - y0))))
     else get_value_from_percentile ((x1, y1) # ps) percentile)"
| "get_value_from_percentile _ percentile = Inr None"

definition next_uniform :: "traffic_state \<Rightarrow> real \<times> traffic_state" where
  "next_uniform g = (unif g (upos g), g\<lparr>upos := Suc (upos g)\<rparr>)"

definition choice :: "'a list \<Rightarrow> traffic_state \<Rightarrow> 'a \<times> traffic_state" where
  "choice xs g = (xs ! (idxs g (ipos g) mod length xs), g\<lparr>ipos := Suc (ipos g)\<rparr>)"

definition poisson :: "real \<Rightarrow> real \<Rightarrow> int" where
  "poisson lam u = py_trunc (- ln (1 - u) * lam)"

definition units :: "char \<Rightarrow> real" where
  "units c = (if c = CHR ''G'' then 1000000000 else if c = CHR ''M'' then 1000000 else if c = CHR ''K'' then 1000 else 1)"

fun flt_scale :: "real \<Rightarrow> pyfloat \<Rightarrow> pyfloat" where
  "flt_scale c (Fin x) = Fin (x * c)"
| "flt_scale c v = v"

definition translate_bandwidth :: "string \<Rightarrow> pyfloat res" where
  "translate_bandwidth bw_str =
    (if length bw_str < 2 then Inl ValueError
     else res_bind (py_float (butlast bw_str)) (\<lambda>v. Inr (flt_scale (units (last bw_str)) v)))"

section \<open>Poisson arrivals\<close>

text \<open>
  The \<^verbatim>\<open>while\<close> loop of one source host. \<open>lam\<close> is the mean gap in nanoseconds, \<open>step\<close> the length of a nanosecond in
  the unit of \<open>cur\<close>, \<open>unit_s\<close> the length of that unit in seconds. The loop need not end (a gap may be 0), which is
  the value \<open>None\<close>.
\<close>

partial_function (option) host_flows ::
  "(real \<times> real) list \<Rightarrow> int list \<Rightarrow> real \<Rightarrow> real \<Rightarrow> real \<Rightarrow> real \<Rightarrow> int \<Rightarrow> real \<Rightarrow> flow list \<Rightarrow> traffic_state
     \<Rightarrow> (flow list \<times> traffic_state) res option" where
  "host_flows cdf dsts lam step unit_s stop s cur fs g =
    (if cur < stop then
       (let cand = filter (\<lambda>h. h \<noteq> s) dsts in
        if cand = [] then Some (Inl IndexError)
        else
          (let (d, g1) = choice cand g; (u, g2) = next_uniform g1 in
           (case get_value_from_percentile cdf (100 * u) of
              Inl e \<Rightarrow> Some (Inl e)
            | Inr None \<Rightarrow> Some (Inl TypeError)
            | Inr (Some v) \<Rightarrow>
                (let (f, m) = new_flow 1 s d (py_trunc v) (cur * unit_s) (ports g2);
                     (u', g3) = next_uniform (g2\<lparr>ports := m\<rparr>)
                 in host_flows cdf dsts lam step unit_s stop s (cur + of_int (poisson lam u') * step) (fs @ [f]) g3))))
     else Some (Inr (fs, g)))"

fun all_hosts ::
  "(real \<times> real) list \<Rightarrow> int list \<Rightarrow> real \<Rightarrow> real \<Rightarrow> real \<Rightarrow> real \<Rightarrow> real \<Rightarrow> int list \<Rightarrow> flow list \<Rightarrow> traffic_state
     \<Rightarrow> (flow list \<times> traffic_state) res option" where
  "all_hosts cdf dsts lam step unit_s base stop [] fs g = Some (Inr (fs, g))"
| "all_hosts cdf dsts lam step unit_s base stop (s # ss) fs g =
    (let (u, g1) = next_uniform g in
     (case host_flows cdf dsts lam step unit_s stop s (base + of_int (poisson lam u) * step) fs g1 of
        None \<Rightarrow> None
      | Some (Inl e) \<Rightarrow> Some (Inl e)
      | Some (Inr (fs', g')) \<Rightarrow> all_hosts cdf dsts lam step unit_s base stop ss fs' g'))"

definition avg_gap :: "real \<Rightarrow> real \<Rightarrow> real res" where
  "avg_gap rate avg_size = (if avg_size = 0 \<or> rate = 0 then Inl ZeroDivisionError else Inr (1 / (rate / 8 / avg_size)))"

definition generate_intra_as_flows ::
  "int list \<Rightarrow> string \<Rightarrow> real \<Rightarrow> real \<Rightarrow> real \<Rightarrow> real \<Rightarrow> traffic_state \<Rightarrow> (flow list \<times> traffic_state) res option" where
  "generate_intra_as_flows hosts content bandwidth load duration base_time g =
    (case CustomRand content of
       Inl e \<Rightarrow> Some (Inl e)
     | Inr pts \<Rightarrow> (case points pts of
         None \<Rightarrow> None
       | Some cdf \<Rightarrow> (case avg_gap (bandwidth * load) (get_avg cdf) of
           Inl e \<Rightarrow> Some (Inl e)
         | Inr avg_interval \<Rightarrow>
             map_option (map_sum id (\<lambda>(fs, g'). (sort_key f_time fs, g')))
               (all_hosts cdf hosts (avg_interval * 1000000000) 1 (1 / 1000000000) base_time (base_time + duration) hosts [] g))))"

definition total_size :: "flow list \<Rightarrow> int" where
  "total_size fs = sum_list (map f_size fs)"

text \<open>
  \<^verbatim>\<open>generate_flows\<close> calls itself again when the load is off target; \<open>depth\<close> is the number of nested calls the
  interpreter allows. A rate that is infinite or not a number is outside the model.
\<close>

fun generate_flows ::
  "nat \<Rightarrow> int list \<Rightarrow> int list \<Rightarrow> string \<Rightarrow> string \<Rightarrow> real \<Rightarrow> real \<Rightarrow> bool \<Rightarrow> traffic_state
     \<Rightarrow> (flow list \<times> traffic_state) res option" where
  "generate_flows 0 src_hosts dst_hosts content host_rate duration base_time restrict g = Some (Inl RecursionError)"
| "generate_flows (Suc depth) src_hosts dst_hosts content host_rate duration base_time restrict g =
    (case CustomRand content of
       Inl e \<Rightarrow> Some (Inl e)
     | Inr pts \<Rightarrow>
    (case translate_bandwidth host_rate of
       Inl e \<Rightarrow> Some (Inl e)
     | Inr rate_per_host \<Rightarrow>
    (case (points pts, rate_per_host) of
       (Some cdf, Fin rate) \<Rightarrow>
      (case avg_gap rate (get_avg cdf) of
         Inl e \<Rightarrow> Some (Inl e)
       | Inr avg_interval \<Rightarrow>
      (case all_hosts cdf dst_hosts (avg_interval * 1000000000) (1 / 1000000000) 1 base_time (base_time + duration)
              src_hosts [] g of
         None \<Rightarrow> None
       | Some (Inl e) \<Rightarrow> Some (Inl e)
       | Some (Inr (fs, g')) \<Rightarrow>
           (if duration = 0 then Some (Inl ZeroDivisionError)
            else
              (let flows = sort_key f_time fs;
                   actual_rate = of_int (total_size flows) / duration * 8;
                   target_rate = rate * real (length src_hosts)
               in if 9 / 10 * target_rate \<le> actual_rate \<and> actual_rate \<le> 11 / 10 * target_rate \<or> \<not> restrict
                  then Some (Inr (flows, g'))
                  else generate_flows depth src_hosts dst_hosts content host_rate duration base_time True g'))))
     | _ \<Rightarrow> None)))"

section \<open>Loads and distributions\<close>

definition load_token :: "string \<Rightarrow> int list \<Rightarrow> int list res" where
  "load_token part loads =
    (let token = str_strip part in
     if token = [] then Inr loads
     else res_bind (py_int token) (\<lambda>load. Inr (if load \<in> set loads then loads else loads @ [load])))"

definition parse_loads :: "string \<Rightarrow> int list res" where
  "parse_loads raw_value =
    res_bind (res_fold load_token (split_on (CHR '','') raw_value) []) (\<lambda>loads.
      if loads = [] then Inl SystemExit else Inr loads)"

text \<open>\<^verbatim>\<open>plot_flow_size_cdf.py\<close>: the points with a positive size, and the tick labels.\<close>

definition cdf_row :: "string \<Rightarrow> (pyfloat \<times> pyfloat) list \<Rightarrow> (pyfloat \<times> pyfloat) list res" where
  "cdf_row line acc =
    (let parts = split_ws (str_strip line) in
     if parts = [] then Inr acc
     else if length parts \<noteq> 2 then Inl SystemExit
     else res_bind (py_float (parts ! 0)) (\<lambda>x. res_bind (py_float (parts ! 1)) (\<lambda>y.
       if flt_le x (Fin 0) then Inr acc else Inr (acc @ [(x, y)]))))"

definition load_cdf_points :: "string \<Rightarrow> (pyfloat \<times> pyfloat) list res" where
  "load_cdf_points content =
    res_bind (res_fold cdf_row (file_lines content) []) (\<lambda>ps. if ps = [] then Inl SystemExit else Inr ps)"

definition is_multiple :: "real \<Rightarrow> real \<Rightarrow> bool" where
  "is_multiple v q \<longleftrightarrow> of_int \<lfloor>v / q\<rfloor> * q = v"

definition format_size_ticks :: "real \<Rightarrow> string" where
  "format_size_ticks v =
    (if v \<ge> 1000000 then (if is_multiple v 1000000 then fmt_g (Fin (v / 1000000)) else fmt_fixed 1 (v / 1000000)) @ ''M''
     else if v \<ge> 1000 then (if is_multiple v 1000 then fmt_g (Fin (v / 1000)) else fmt_fixed 1 (v / 1000)) @ ''K''
     else fmt_g (Fin v))"

section \<open>Ports\<close>

text \<open>The flows made so far have distinct identifiers, all below the counters in \<open>m\<close>.\<close>

definition flow_id3 :: "flow \<Rightarrow> int \<times> int \<times> int" where
  "flow_id3 f = (f_src f, f_dst f, f_dport f)"

definition below_ports :: "int \<Rightarrow> (int \<times> int \<Rightarrow> int option) \<Rightarrow> flow list \<Rightarrow> bool" where
  "below_ports first m fs \<longleftrightarrow> distinct (map flow_id3 fs) \<and> (\<forall>f \<in> set fs. f_dport f < port_of first (f_src f) (f_dst f) m)"

lemma below_ports_empty [simp]: "below_ports first m []"
  by (simp add: below_ports_def)

lemma port_of_upd [simp]:
  "port_of first a b (m((s, d) \<mapsto> p)) = (if (a, b) = (s, d) then p else port_of first a b m)"
  by (simp add: port_of_def)

lemma new_flow_fields:
  "new_flow first s d sz t m = (f, m') \<Longrightarrow> f_src f = s \<and> f_dst f = d \<and> f_size f = max sz 100 \<and> f_time f = t"
  by (auto simp: new_flow_def Let_def)

lemma below_ports_new:
  assumes "below_ports first m fs" "new_flow first s d sz t m = (f, m')"
  shows "below_ports first m' (fs @ [f])"
proof -
  let ?p = "port_of first s d m"
  have f: "f = \<lparr>f_src = s, f_dst = d, f_size = max sz 100, f_time = t, f_dport = ?p\<rparr>" and m': "m' = m((s, d) \<mapsto> ?p + 1)"
    using assms(2) by (simp_all add: new_flow_def Let_def)
  have old: "f_dport h < port_of first (f_src h) (f_dst h) m" if "h \<in> set fs" for h
    using assms(1) that by (simp add: below_ports_def)
  have "flow_id3 f \<notin> flow_id3 ` set fs"
  proof
    assume "flow_id3 f \<in> flow_id3 ` set fs"
    then obtain h where h: "h \<in> set fs" "flow_id3 f = flow_id3 h" by blast
    then have "f_dport h = port_of first (f_src h) (f_dst h) m" by (auto simp: flow_id3_def f)
    with old[OF h(1)] show False by simp
  qed
  moreover have "f_dport h < port_of first (f_src h) (f_dst h) m'" if "h \<in> set (fs @ [f])" for h
  proof (cases "h \<in> set fs")
    case True
    then show ?thesis using old[OF True] by (auto simp: m')
  next
    case False
    then show ?thesis using that by (simp add: f m')
  qed
  ultimately show ?thesis
    using assms(1) unfolding below_ports_def by simp
qed

lemma below_ports_add_flows:
  "below_ports first m fs0 \<Longrightarrow> add_flows first sz t ps m = (fs, m') \<Longrightarrow> below_ports first m' (fs0 @ fs)"
proof (induction first sz t ps m arbitrary: fs0 fs rule: add_flows.induct)
  case (2 first sz t s d ps m)
  obtain f m1 where n: "new_flow first s d sz t m = (f, m1)" by fastforce
  obtain gs m2 where r: "add_flows first sz t ps m1 = (gs, m2)" by fastforce
  have "fs = f # gs" "m' = m2" using 2(3) n r by simp_all
  then show ?case
    using 2(1)[OF n[symmetric] refl below_ports_new[OF 2(2) n]] r by simp
qed simp

lemma below_ports_add_rounds:
  "below_ports first m fs0 \<Longrightarrow> add_rounds first workers sz ts m = (fs, m') \<Longrightarrow> below_ports first m' (fs0 @ fs)"
proof (induction ts arbitrary: m fs0 fs)
  case (Cons t ts)
  obtain gs m1 where n: "add_flows first sz t (round_pairs workers) m = (gs, m1)" by fastforce
  obtain hs m2 where r: "add_rounds first workers sz ts m1 = (hs, m2)" by fastforce
  have "fs = gs @ hs" "m' = m2" using Cons(3) n r by simp_all
  then show ?case
    using Cons(1)[OF below_ports_add_flows[OF Cons(2) n]] r by simp
qed simp

section \<open>All-to-all rounds\<close>

definition link3 :: "flow \<Rightarrow> real \<times> int \<times> int" where
  "link3 f = (f_time f, f_src f, f_dst f)"

lemma add_flows_links:
  "add_flows first sz t ps m = (fs, m') \<Longrightarrow>
     map link3 fs = map (\<lambda>p. (t, p)) ps \<and> (\<forall>f \<in> set fs. f_size f = max sz 100)"
  by (induction first sz t ps m arbitrary: fs m' rule: add_flows.induct)
     (auto simp: link3_def new_flow_def Let_def split: prod.splits)

lemma add_rounds_links:
  "add_rounds first workers sz ts m = (fs, m') \<Longrightarrow>
     map link3 fs = concat (map (\<lambda>t. map (\<lambda>p. (t, p)) (round_pairs workers)) ts) \<and> (\<forall>f \<in> set fs. f_size f = max sz 100)"
proof (induction ts arbitrary: m fs m')
  case (Cons t ts)
  obtain gs m1 where n: "add_flows first sz t (round_pairs workers) m = (gs, m1)" by fastforce
  obtain hs m2 where r: "add_rounds first workers sz ts m1 = (hs, m2)" by fastforce
  have "fs = gs @ hs" using Cons(2) n r by simp
  then show ?case
    using add_flows_links[OF n] Cons(1)[OF r] by auto
qed simp

lemma round_pairs_set: "set (round_pairs workers) = {(s, d). s \<in> set workers \<and> d \<in> set workers \<and> s \<noteq> d}"
  by (auto simp: round_pairs_def)

lemma round_pairs_distinct:
  assumes "distinct workers"
  shows "distinct (round_pairs workers)"
proof -
  have "distinct (concat (map (\<lambda>s. map (Pair s) (filter (\<lambda>d. s \<noteq> d) workers)) ws))" if "distinct ws" for ws
    using that by (induction ws) (auto simp: distinct_map assms intro: inj_onI)
  then show ?thesis using assms by (simp add: round_pairs_def)
qed

lemma round_pairs_length:
  assumes "distinct workers"
  shows "length (round_pairs workers) = length workers * (length workers - 1)"
proof -
  have "length (filter (\<lambda>d. s \<noteq> d) workers) = length workers - 1" if "s \<in> set workers" for s
    using assms that by (simp add: distinct_remove1_removeAll[symmetric] length_remove1 flip: removeAll_filter_not_eq)
  then have "map (\<lambda>s. length (filter (\<lambda>d. s \<noteq> d) workers)) workers = map (\<lambda>s. length workers - 1) workers"
    by simp
  then show ?thesis
    unfolding round_pairs_def by (simp add: length_concat comp_def sum_list_triv cong: map_cong)
qed

lemma filter_eq_distinct: "distinct xs \<Longrightarrow> x \<in> set xs \<Longrightarrow> filter (\<lambda>y. y = x) xs = [x]"
  by (induction xs) (auto simp: filter_empty_conv)

definition link_times :: "int \<Rightarrow> int \<Rightarrow> flow list \<Rightarrow> real list" where
  "link_times s d fs = map f_time (filter (\<lambda>f. f_src f = s \<and> f_dst f = d) fs)"

lemma link_times_links: "link_times s d fs = map fst (filter (\<lambda>l. snd l = (s, d)) (map link3 fs))"
  by (induction fs) (auto simp: link_times_def link3_def)

lemma add_rounds_link_times:
  assumes "distinct workers" "s \<in> set workers" "d \<in> set workers" "s \<noteq> d" "add_rounds first workers sz ts m = (fs, m')"
  shows "link_times s d fs = ts"
proof -
  have "filter (\<lambda>p. p = (s, d)) (round_pairs workers) = [(s, d)]"
    using assms(1-4) by (intro filter_eq_distinct round_pairs_distinct) (simp_all add: round_pairs_set)
  then have "filter ((\<lambda>l. snd l = (s, d)) \<circ> Pair t) (round_pairs workers) = [(s, d)]" for t :: real
    by (simp add: comp_def)
  then show ?thesis
    unfolding link_times_links conjunct1[OF add_rounds_links[OF assms(5)]]
    by (induction ts) (simp_all add: filter_map)
qed

lemma add_rounds_length:
  assumes "distinct workers" "add_rounds first workers sz ts m = (fs, m')"
  shows "length fs = length ts * (length workers * (length workers - 1))"
proof -
  have "length fs = length (map link3 fs)" by simp
  also have "\<dots> = length ts * (length workers * (length workers - 1))"
    unfolding conjunct1[OF add_rounds_links[OF assms(2)]]
    by (simp add: length_concat comp_def sum_list_triv round_pairs_length[OF assms(1)])
  finally show ?thesis .
qed

lemma sort_key_mset_map: "mset (map g (sort_key k xs)) = mset (map g xs)"
  by simp

lemma link_times_sort: "mset (link_times s d (sort_key k fs)) = mset (link_times s d fs)"
  unfolding link_times_def mset_map mset_filter by simp

lemma distinct_sort_key: "distinct (map g (sort_key k xs)) = distinct (map g xs)"
  by (rule mset_eq_imp_distinct_iff[OF sort_key_mset_map])

text \<open>The four-part sort key orders the flows by time first.\<close>

lemma sorted_key_time: "sorted (map f_time (sort_key (\<lambda>f. (f_time f, f_src f, f_dst f, f_dport f)) fs))"
proof -
  have "sorted (map (\<lambda>f. (f_time f, f_src f, f_dst f, f_dport f)) xs) \<Longrightarrow> sorted (map f_time xs)" for xs
    by (induction xs) (auto simp: less_eq_prod_def)
  from this[OF sorted_sort_key] show ?thesis .
qed

lemma tor_take_bounds:
  assumes "0 < n" "n \<le> 64" "0 \<le> k"
  shows "0 \<le> tor_take n k \<and> tor_take n k \<le> 8"
proof (cases "k < n mod 8")
  case True
  then have "n \<noteq> 64" using assms(3) by auto
  then show ?thesis using assms True unfolding tor_take_def by auto
next
  case False
  then show ?thesis using assms unfolding tor_take_def by auto
qed

lemma upto_7: "[0..7] = [0, 1, 2, 3, 4, 5, 6, 7::int]"
  by (simp add: upto.simps)

lemma tor_take_sum: "(\<Sum>k\<leftarrow>[0..7]. tor_take n k) = n"
  unfolding upto_7 by (auto simp: tor_take_def) presburger+

definition tor_hosts :: "int \<Rightarrow> int list \<Rightarrow> int list" where
  "tor_hosts n ks = concat (map (\<lambda>tor. [tor * 8 .. tor * 8 + tor_take n tor - 1]) ks)"

lemma tor_hosts_length:
  "0 < n \<Longrightarrow> n \<le> 64 \<Longrightarrow> \<forall>k \<in> set ks. 0 \<le> k \<Longrightarrow> int (length (tor_hosts n ks)) = (\<Sum>k\<leftarrow>ks. tor_take n k)"
  using tor_take_bounds[of n] by (induction ks) (simp_all add: tor_hosts_def)

lemma tor_hosts_set: "h \<in> set (tor_hosts n ks) \<longleftrightarrow> (\<exists>k \<in> set ks. k * 8 \<le> h \<and> h < k * 8 + tor_take n k)"
  by (auto simp: tor_hosts_def)

lemma tor_hosts_div:
  assumes "0 < n" "n \<le> 64" "0 \<le> k" "k * 8 \<le> h" "h < k * 8 + tor_take n k"
  shows "h div 8 = k"
  using tor_take_bounds[OF assms(1-3)] assms(4,5) by linarith

lemma tor_hosts_distinct:
  assumes "0 < n" "n \<le> 64"
  shows "distinct ks \<Longrightarrow> \<forall>k \<in> set ks. 0 \<le> k \<Longrightarrow> distinct (tor_hosts n ks)"
proof (induction ks)
  case (Cons k ks)
  have "h \<notin> set (tor_hosts n ks)" if h: "k * 8 \<le> h" "h < k * 8 + tor_take n k" for h
  proof
    assume "h \<in> set (tor_hosts n ks)"
    then obtain j where "j \<in> set ks" "j * 8 \<le> h" "h < j * 8 + tor_take n j" by (auto simp: tor_hosts_set)
    with tor_hosts_div[OF assms, of j h] tor_hosts_div[OF assms, of k h] h Cons(2,3) show False by auto
  qed
  then have "set [k * 8 .. k * 8 + tor_take n k - 1] \<inter> set (tor_hosts n ks) = {}" by auto
  then show ?case using Cons by (simp add: tor_hosts_def)
qed (simp add: tor_hosts_def)

lemma tor_hosts_count:
  assumes "0 < n" "n \<le> 64" "0 \<le> k" "k \<le> 7"
  shows "{h \<in> set (tor_hosts n [0..7]). h div 8 = k} = {k * 8 ..< k * 8 + tor_take n k}"
proof (intro set_eqI iffI)
  fix h
  assume "h \<in> {h \<in> set (tor_hosts n [0..7]). h div 8 = k}"
  then obtain j where "0 \<le> j" "j * 8 \<le> h" "h < j * 8 + tor_take n j" "h div 8 = k"
    by (auto simp: tor_hosts_set)
  then show "h \<in> {k * 8 ..< k * 8 + tor_take n k}" using tor_hosts_div[OF assms(1,2), of j h] by auto
next
  fix h
  assume "h \<in> {k * 8 ..< k * 8 + tor_take n k}"
  then have "k * 8 \<le> h" "h < k * 8 + tor_take n k" by simp_all
  moreover have "k \<in> set [0..7]" using assms(3,4) by simp
  ultimately show "h \<in> {h \<in> set (tor_hosts n [0..7]). h div 8 = k}"
    using tor_hosts_div[OF assms(1-3)] unfolding mem_Collect_eq tor_hosts_set by blast
qed

lemma spread_workers:
  assumes "0 < n" "n \<le> 64"
  shows "spread_workers_for_topo_s n = Inr (tor_hosts n [0..7])"
proof -
  have "int (length (tor_hosts n [0..7])) = n"
    using tor_hosts_length[OF assms, of "[0..7]"] tor_take_sum[of n] by simp
  then show ?thesis
    using assms unfolding spread_workers_for_topo_s_def tor_hosts_def[symmetric] by (simp add: Let_def)
qed

text \<open>\<^verbatim>\<open>spread_workers_for_topo_s\<close> places every legal number of workers: the hosts are distinct, there are as many as
  asked for, every rack of eight hosts gets its share (the number divided by eight, rounded down or up), and any
  other number is refused.\<close>

theorem spread_workers_balanced:
  "if 0 < n \<and> n \<le> 64
   then (\<exists>ws. spread_workers_for_topo_s n = Inr ws \<and> int (length ws) = n \<and> distinct ws \<and> set ws \<subseteq> {0..<64}
          \<and> (\<forall>k. 0 \<le> k \<and> k \<le> 7 \<longrightarrow> int (card {h \<in> set ws. h div 8 = k}) \<in> {n div 8, (n + 7) div 8}))
   else spread_workers_for_topo_s n = Inl ValueError"
proof (cases "0 < n \<and> n \<le> 64")
  case True
  let ?ws = "tor_hosts n [0..7]"
  have n: "0 < n" "n \<le> 64" using True by simp_all
  have "h \<in> {0..<64}" if "h \<in> set ?ws" for h
  proof -
    from that obtain k where "0 \<le> k" "k \<le> 7" "k * 8 \<le> h" "h < k * 8 + tor_take n k" by (auto simp: tor_hosts_set)
    then show ?thesis using tor_take_bounds[OF n, of k] by auto
  qed
  moreover have "int (card {h \<in> set ?ws. h div 8 = k}) \<in> {n div 8, (n + 7) div 8}" if "0 \<le> k \<and> k \<le> 7" for k
  proof -
    have "0 < n mod 8 \<Longrightarrow> (n + 7) div 8 = n div 8 + 1" by presburger
    then have "tor_take n k = n div 8 \<or> tor_take n k = (n + 7) div 8"
      using that unfolding tor_take_def by simp
    then show ?thesis using tor_hosts_count[OF n, of k] tor_take_bounds[OF n, of k] that by auto
  qed
  moreover have "distinct ?ws" "int (length ?ws) = n"
    using tor_hosts_distinct[OF n, of "[0..7]"] tor_hosts_length[OF n, of "[0..7]"] tor_take_sum[of n] by simp_all
  ultimately show ?thesis using True spread_workers[OF n] by auto
next
  case False
  then show ?thesis by (auto simp: spread_workers_for_topo_s_def)
qed

theorem spread_workers_balanced_witness:
  "\<exists>ws. spread_workers_for_topo_s 20 = Inr ws \<and> length ws = 20 \<and> distinct ws \<and> int (card {h \<in> set ws. h div 8 = 5}) \<in> {2, 3}"
  using spread_workers_balanced[of 20] by auto

section \<open>Flow files\<close>

lemma fixed_chars:
  assumes "0 < d" "c \<in> set (fmt_fixed d x)"
  shows "is_digit c \<or> c = CHR ''-'' \<or> c = CHR ''.''"
proof -
  obtain ip fp where *: "list_all is_digit ip" "list_all is_digit fp"
    "fmt_fixed d x = (if x < 0 then ''-'' else []) @ decimal ip fp"
    using fmt_fixed_decimal[OF assms(1)] by metis
  then show ?thesis using assms(2) by (auto simp: decimal_def list_all_iff split: if_splits)
qed

lemma fixed_nonempty: "0 < d \<Longrightarrow> fmt_fixed d x \<noteq> []"
  by (rule fmt_fixed_decimal[of d x]) (auto simp: decimal_def)

definition flow_fields :: "flow \<Rightarrow> string list" where
  "flow_fields f = [py_str_int (f_src f), py_str_int (f_dst f), ''3'', py_str_int (f_dport f),
     py_str_int (f_size f), fmt_fixed 9 (f_time f)]"

lemma numeral_char_no_space: "is_digit c \<or> c = CHR ''-'' \<or> c = CHR ''.'' \<Longrightarrow> \<not> is_space c \<and> c \<noteq> nl"
  using is_space_digit[of c] by (auto simp: is_space_def is_digit_def)

lemma flow_fields_chars:
  assumes "p \<in> set (flow_fields f)"
  shows "p \<noteq> [] \<and> (\<forall>c \<in> set p. is_digit c \<or> c = CHR ''-'' \<or> c = CHR ''.'')"
proof -
  have "is_digit (CHR ''3'')" by (simp add: is_digit_def)
  then show ?thesis using assms py_str_int_chars fixed_chars[of 9] fixed_nonempty[of 9]
    unfolding flow_fields_def by auto
qed

lemma split_flow_line: "split_ws (flow_line f) = flow_fields f"
  unfolding flow_line_def flow_fields_def[symmetric]
  by (rule split_ws_join) (use flow_fields_chars numeral_char_no_space in \<open>fastforce simp: list_all_iff\<close>)

lemma set_str_join: "set (str_join sep ps) \<subseteq> set sep \<union> (\<Union>p \<in> set ps. set p)"
  by (induction sep ps rule: str_join.induct) auto

lemma flow_line_no_nl: "nl \<notin> set (flow_line f)"
proof
  assume "nl \<in> set (flow_line f)"
  then have "nl \<in> set '' '' \<union> (\<Union>p \<in> set (flow_fields f). set p)"
    using set_str_join[of "'' ''" "flow_fields f"] unfolding flow_line_def flow_fields_def[symmetric] by blast
  then obtain p where "p \<in> set (flow_fields f)" "nl \<in> set p" by auto
  then show False using flow_fields_chars[of p f] numeral_char_no_space[of nl] by blast
qed

lemma py_str_int_no_nl: "nl \<notin> set (py_str_int i)"
  using py_str_int_chars[of nl i] numeral_char_no_space[of nl] by blast

lemma file_lines_write: "file_lines (write_flow_file fs) = py_str_int (int (length fs)) # map flow_line fs"
  unfolding write_flow_file_def
  by (rule file_lines_terminated) (auto simp: py_str_int_no_nl flow_line_no_nl)

lemma strip_py_str_int: "str_strip (py_str_int i) = py_str_int i"
  by (rule str_strip_id) (use py_str_int_chars numeral_char_no_space in \<open>fastforce simp: list_all_iff\<close>)

lemma inspect_written:
  "inspect_flow_file path (write_flow_file fs) = Inr \<lparr>fm_name = path_name path, fm_path = path, flow_count = int (length fs)\<rparr>"
  by (simp add: inspect_flow_file_def file_lines_write read_line_def strip_py_str_int py_int_str Let_def)

definition read_flow :: "string \<Rightarrow> flow option" where
  "read_flow line =
    (case split_ws line of
       [s, d, pg, p, sz, t] \<Rightarrow>
         (case (py_int s, py_int d, py_int p, py_int sz, py_float t) of
            (Inr s', Inr d', Inr p', Inr sz', Inr (Fin t')) \<Rightarrow>
              Some \<lparr>f_src = s', f_dst = d', f_size = sz', f_time = t', f_dport = p'\<rparr>
          | _ \<Rightarrow> None)
     | _ \<Rightarrow> None)"

lemma read_flow_line: "read_flow (flow_line f) = Some (f\<lparr>f_time := fixed_val 9 (f_time f)\<rparr>)"
  unfolding read_flow_def split_flow_line flow_fields_def
  by (simp add: py_int_str py_float_fixed)

text \<open>A flow file reads back. \<^verbatim>\<open>run.py\<close> accepts every file \<^verbatim>\<open>write_flow_file\<close> writes and finds the number of
  flows in it, and reading the other lines field by field gives the flows in order, their times to nine decimals.\<close>

theorem flow_file_reads_back:
  "inspect_flow_file path (write_flow_file fs)
     = Inr \<lparr>fm_name = path_name path, fm_path = path, flow_count = int (length fs)\<rparr>
   \<and> map read_flow (tl (file_lines (write_flow_file fs)))
       = map (\<lambda>f. Some (f\<lparr>f_time := fixed_val 9 (f_time f)\<rparr>)) fs"
  by (simp add: inspect_written file_lines_write read_flow_line)

text \<open>The file of \<^verbatim>\<open>llm_traffic_gen.py\<close> starts with a flow, which \<^verbatim>\<open>run.py\<close> refuses.\<close>

lemma read_line_llm: "fs \<noteq> [] \<Longrightarrow> fst (read_line (file_lines (write_flows_to_file fs))) = flow_line (hd fs)"
proof -
  assume "fs \<noteq> []"
  moreover have "file_lines (write_flows_to_file fs) = map flow_line fs"
    using file_lines_terminated[of "map flow_line fs"]
    by (auto simp: write_flows_to_file_def flow_line_no_nl comp_def)
  ultimately show ?thesis by (cases fs) (simp_all add: read_line_def)
qed

lemma split_by_keeps: "c \<in> set s \<Longrightarrow> \<not> P c \<Longrightarrow> \<exists>p \<in> set (split_by P s). c \<in> set p"
proof (induction P s rule: split_by.induct)
  case (2 P d s)
  then show ?case by (cases "split_by P s") (auto split: if_splits)
qed simp

lemma digit_blank: "\<not> is_digit (CHR '' '')"
  by (simp add: is_digit_def Let_def)

lemma py_int_blank_inside:
  assumes "str_strip s = s" "CHR '' '' \<in> set s"
  shows "py_int s = Inl ValueError"
proof -
  obtain sg u where u: "split_sign s = (sg, u)" by fastforce
  then have "CHR '' '' \<in> set u" using assms(2) by (cases s) (auto simp: split_sign_def split: if_splits)
  then obtain p where "p \<in> set (split_on (CHR ''_'') u)" "CHR '' '' \<in> set p"
    using split_by_keeps[of "CHR '' ''" u "\<lambda>x. x = CHR ''_''"] by (auto simp: split_on_def)
  then have "\<exists>p \<in> set (split_on (CHR ''_'') u). \<not> list_all is_digit p"
    using digit_blank by (intro bexI[of _ p]) (auto simp: list_all_iff)
  then have "digit_groups u = None" by (auto simp: digit_groups_def Let_def)
  then show ?thesis using u assms(1) by (simp add: py_int_def)
qed

lemma disjI_digit: "is_digit c \<or> c = CHR ''-'' \<Longrightarrow> is_digit c \<or> c = CHR ''-'' \<or> c = CHR ''.''"
  by blast

lemma llm_file_rejected:
  assumes "fs \<noteq> []"
  shows "inspect_flow_file path (write_flows_to_file fs) = Inl SystemExit"
proof -
  let ?l = "flow_line (hd fs)" and ?f = "hd fs"
  have t: "py_str_int (f_src ?f) \<noteq> []" "fmt_fixed 9 (f_time ?f) \<noteq> []" by (simp_all add: fixed_nonempty)
  have l: "?l = py_str_int (f_src ?f) @ '' '' @ str_join '' '' (tl (flow_fields ?f))"
    by (simp add: flow_line_def flow_fields_def)
  have "hd ?l = hd (py_str_int (f_src ?f))" "last ?l = last (fmt_fixed 9 (f_time ?f))"
    using t by (simp_all add: flow_line_def)
  then have "\<not> is_space (hd ?l)" "\<not> is_space (last ?l)"
    using numeral_char_no_space[OF disjI_digit[OF py_str_int_chars[OF hd_in_set[OF t(1)]]]]
      numeral_char_no_space[OF fixed_chars[OF _ last_in_set[OF t(2)]]] by simp_all
  moreover have "?l \<noteq> []" "CHR '' '' \<in> set ?l" using l by simp_all
  ultimately have "str_strip ?l = ?l" by (simp add: str_strip_def strip_by_id)
  then show ?thesis
    using py_int_blank_inside[of ?l] \<open>CHR '' '' \<in> set ?l\<close> \<open>?l \<noteq> []\<close> read_line_llm[OF assms]
    by (simp add: inspect_flow_file_def Let_def)
qed

text \<open>A bandwidth without a unit loses its last digit.\<close>

lemma bandwidth_G: "translate_bandwidth (str_nat n @ ''G'') = Inr (Fin (real n * 1000000000))"
proof -
  have "\<not> length (str_nat n @ ''G'') < 2" by (cases "str_nat n") (use str_nat_nonempty[of n] in simp_all)
  then show ?thesis by (simp add: translate_bandwidth_def units_def py_float_str_nat butlast_append)
qed

lemma units_digit: "units (digit_char (n mod 10)) = 1"
proof -
  have "is_digit (digit_char (n mod 10))" by simp
  then show ?thesis by (auto simp: units_def is_digit_def Let_def)
qed

lemma bandwidth_without_unit: "10 \<le> n \<Longrightarrow> translate_bandwidth (str_nat n) = Inr (Fin (real (n div 10)))"
  by (simp add: translate_bandwidth_def str_nat_large py_float_str_nat units_digit) 

section \<open>Sizes from the distribution\<close>

text \<open>Percentages strictly increasing, sizes weakly.\<close>

definition cdf_ok :: "(real \<times> real) list \<Rightarrow> bool" where
  "cdf_ok cdf \<longleftrightarrow> 2 \<le> length cdf \<and> sorted_wrt (<) (map snd cdf) \<and> sorted (map fst cdf)
     \<and> snd (hd cdf) = 0 \<and> snd (last cdf) = 100"

definition segment :: "real \<Rightarrow> real \<Rightarrow> real \<Rightarrow> real \<Rightarrow> real \<Rightarrow> real" where
  "segment x0 y0 x1 y1 p = x0 + (x1 - x0) / (y1 - y0) * (p - y0)"

lemma segment_mono:
  assumes "x0 \<le> x1" "y0 < y1" "p \<le> q"
  shows "segment x0 y0 x1 y1 p \<le> segment x0 y0 x1 y1 q"
  using assms unfolding segment_def by (intro add_left_mono mult_left_mono) simp_all

lemma segment_ends [simp]: "segment x0 y0 x1 y1 y0 = x0" "y0 \<noteq> y1 \<Longrightarrow> segment x0 y0 x1 y1 y1 = x1"
  by (simp_all add: segment_def)

lemma percentile_simp:
  "y0 < y1 \<Longrightarrow> get_value_from_percentile ((x0, y0) # (x1, y1) # ps) p =
     (if p \<le> y1 then Inr (Some (segment x0 y0 x1 y1 p)) else get_value_from_percentile ((x1, y1) # ps) p)"
  by (simp add: segment_def)

declare get_value_from_percentile.simps(1) [simp del]

lemma percentile_bounds:
  assumes "sorted_wrt (<) (map snd cdf)" "sorted (map fst cdf)" "2 \<le> length cdf"
    "snd (hd cdf) \<le> p" "p \<le> snd (last cdf)"
  shows "\<exists>v. get_value_from_percentile cdf p = Inr (Some v) \<and> fst (hd cdf) \<le> v \<and> v \<le> fst (last cdf)"
  using assms
proof (induction cdf p rule: get_value_from_percentile.induct)
  case (1 x0 y0 x1 y1 ps p)
  have y: "y0 < y1" and x: "x0 \<le> x1" "x1 \<le> fst (last ((x1, y1) # ps))" using 1(2,3) by auto
  show ?case
  proof (cases "p \<le> y1")
    case True
    have "x0 \<le> segment x0 y0 x1 y1 p" "segment x0 y0 x1 y1 p \<le> x1"
      using segment_mono[OF x(1) y, of y0 p] segment_mono[OF x(1) y True] 1(5) y by simp_all
    then show ?thesis using True percentile_simp[OF y] x by auto
  next
    case False
    then have "ps \<noteq> []" using 1(6) by auto
    then have "2 \<le> length ((x1, y1) # ps)" by (cases ps) simp_all
    then obtain v where "get_value_from_percentile ((x1, y1) # ps) p = Inr (Some v)" "x1 \<le> v"
      "v \<le> fst (last ((x1, y1) # ps))" using 1(1)[OF False] 1(2,3,5,6) False by auto
    then show ?thesis using False percentile_simp[OF y] x by auto
  qed
qed simp_all

lemma percentile_mono:
  assumes "sorted_wrt (<) (map snd cdf)" "sorted (map fst cdf)" "snd (hd cdf) \<le> p" "p \<le> q" "q \<le> snd (last cdf)"
    "get_value_from_percentile cdf p = Inr (Some v)" "get_value_from_percentile cdf q = Inr (Some w)"
  shows "v \<le> w"
  using assms
proof (induction cdf p rule: get_value_from_percentile.induct)
  case (1 x0 y0 x1 y1 ps p)
  have y: "y0 < y1" and x: "x0 \<le> x1" using 1(2,3) by auto
  note ps = percentile_simp[OF y, of x0 x1 ps]
  consider "q \<le> y1" | "p \<le> y1" "y1 < q" | "y1 < p" by linarith
  then show ?case
  proof cases
    case 1
    then show ?thesis using "1.prems" ps segment_mono[OF x y] by auto
  next
    case 2
    have "ps \<noteq> []" using 2 "1.prems"(5) by auto
    then have "2 \<le> length ((x1, y1) # ps)" by (cases ps) simp_all
    then have "x1 \<le> w"
      using percentile_bounds[of "(x1, y1) # ps" q] "1.prems" 2 ps by auto
    moreover have "v \<le> x1" using 2 "1.prems"(6) ps segment_mono[OF x y 2(1)] y by auto
    ultimately show ?thesis by simp
  next
    case 3
    then show ?thesis using "1.IH" "1.prems" ps by auto
  qed
qed simp_all

text \<open>The inverse of the size distribution. On a distribution whose percentages rise strictly from 0 to 100 and
  whose sizes do not fall, \<^verbatim>\<open>get_value_from_percentile\<close> returns a size for every percentage: it lies between
  the smallest and the largest size, it does not fall when the percentage grows, and the ends are reached.\<close>

theorem percentile_inverts_cdf:
  assumes "cdf_ok cdf" "0 \<le> p" "p \<le> q" "q \<le> 100"
  shows "\<exists>v w. get_value_from_percentile cdf p = Inr (Some v) \<and> get_value_from_percentile cdf q = Inr (Some w)
    \<and> fst (hd cdf) \<le> v \<and> v \<le> w \<and> w \<le> fst (last cdf)
    \<and> get_value_from_percentile cdf 0 = Inr (Some (fst (hd cdf)))"
proof -
  have c: "sorted_wrt (<) (map snd cdf)" "sorted (map fst cdf)" "2 \<le> length cdf" "snd (hd cdf) = 0" "snd (last cdf) = 100"
    using assms(1) by (simp_all add: cdf_ok_def)
  obtain v w where v: "get_value_from_percentile cdf p = Inr (Some v)" "fst (hd cdf) \<le> v"
      and w: "get_value_from_percentile cdf q = Inr (Some w)" "w \<le> fst (last cdf)"
    using percentile_bounds[OF c(1-3), of p] percentile_bounds[OF c(1-3), of q] c(4,5) assms(2-) by auto
  moreover have "v \<le> w" using percentile_mono[OF c(1,2) _ assms(3) _ v(1) w(1)] c(4,5) assms by simp
  moreover have "get_value_from_percentile cdf 0 = Inr (Some (fst (hd cdf)))"
  proof -
    obtain x0 y0 x1 y1 ps where cdf: "cdf = (x0, y0) # (x1, y1) # ps"
      using c(3) by (cases cdf; cases "tl cdf") auto
    then have "y0 < y1" "y0 = 0" using c(1,4) by auto
    then show ?thesis by (simp add: cdf percentile_simp segment_def)
  qed
  ultimately show ?thesis by blast
qed

theorem percentile_inverts_cdf_witness:
  "\<exists>v w. get_value_from_percentile [(100, 0), (200, 50), (1000, 100)] 25 = Inr (Some v)
    \<and> get_value_from_percentile [(100, 0), (200, 50), (1000, 100)] 75 = Inr (Some w) \<and> 100 \<le> v \<and> v \<le> w \<and> w \<le> 1000"
  using percentile_inverts_cdf[of "[(100, 0), (200, 50), (1000, 100)]" 25 75] by (auto simp: cdf_ok_def)

end
