(* ===== verification/TrafficLoad.thy ===== *)
theory TrafficLoad
  imports Traffic
begin

text \<open>
  The arrival loops of \<^verbatim>\<open>gen_traffic.py\<close> end and stay inside their window, \<^verbatim>\<open>generate_flows\<close> delivers a
  well-formed workload, and the all-to-all workload of \<^verbatim>\<open>gen_llm_onoff_topo_s.py\<close> is complete. The loop is treated
  once, with its recursive call abstracted (\<open>host_body\<close>): soundness is an induction on the computation that returns,
  termination an induction on the nanoseconds left in the window.
\<close>

section \<open>Poisson arrivals\<close>

definition draws_ok :: "traffic_state \<Rightarrow> bool" where
  "draws_ok g \<longleftrightarrow> (\<forall>n. 0 \<le> unif g n \<and> unif g n < 1)"

text \<open>From every position on, some later gap draw (every second draw is one) is at least a nanosecond.\<close>

definition progressing :: "real \<Rightarrow> traffic_state \<Rightarrow> bool" where
  "progressing lam g \<longleftrightarrow> (\<forall>n. \<exists>k. 1 \<le> poisson lam (unif g (n + 2 * k)))"

lemma poisson_nonneg:
  assumes "0 \<le> lam" "0 \<le> u" "u < 1"
  shows "0 \<le> poisson lam u"
proof -
  have "ln (1 - u) \<le> 0" using assms by simp
  then have "0 \<le> - ln (1 - u) * lam" using assms(1) by (simp add: mult_nonpos_nonneg)
  then show ?thesis by (simp add: poisson_def py_trunc_def)
qed

lemma choice_in: "xs \<noteq> [] \<Longrightarrow> fst (choice xs g) \<in> set xs"
  by (simp add: choice_def)

lemma draw_keeps [simp]:
  "unif (snd (choice xs g)) = unif g" "upos (snd (choice xs g)) = upos g" "ports (snd (choice xs g)) = ports g"
  "fst (next_uniform g) = unif g (upos g)" "unif (snd (next_uniform g)) = unif g"
  "upos (snd (next_uniform g)) = Suc (upos g)" "ports (snd (next_uniform g)) = ports g"
  by (simp_all add: choice_def next_uniform_def)

text \<open>One pass of the loop, as far as its result can be stated without the later ones.\<close>

definition sent_ok :: "int \<Rightarrow> int list \<Rightarrow> real \<Rightarrow> real \<Rightarrow> real \<Rightarrow> flow \<Rightarrow> bool" where
  "sent_ok s dsts unit_s lo stop f \<longleftrightarrow>
     f_src f = s \<and> f_dst f \<in> set dsts \<and> f_dst f \<noteq> s \<and> 100 \<le> f_size f
     \<and> (\<exists>c. f_time f = c * unit_s \<and> lo \<le> c \<and> c < stop)"

definition sends ::
  "(real \<times> real) list \<Rightarrow> int list \<Rightarrow> real \<Rightarrow> real \<Rightarrow> int \<Rightarrow> real \<Rightarrow> traffic_state \<Rightarrow> flow \<Rightarrow> traffic_state \<Rightarrow> real \<Rightarrow> bool" where
  "sends cdf dsts unit_s stop s cur g f g' u \<longleftrightarrow>
     f_src f = s \<and> f_dst f \<in> set dsts \<and> f_dst f \<noteq> s \<and> 100 \<le> f_size f \<and> f_time f = cur * unit_s
     \<and> unif g' = unif g \<and> upos g' = upos g + 2 \<and> u = unif g (upos g + 1)
     \<and> (\<forall>fs. below_ports 1 (ports g) fs \<longrightarrow> below_ports 1 (ports g') (fs @ [f]))"

lemma sent_okI: "sends cdf dsts unit_s stop s cur g f g' u \<Longrightarrow> lo \<le> cur \<Longrightarrow> cur < stop \<Longrightarrow> sent_ok s dsts unit_s lo stop f"
  by (auto simp: sends_def sent_ok_def)

lemma pass_sends:
  assumes "filter (\<lambda>h. h \<noteq> s) dsts \<noteq> []" "choice (filter (\<lambda>h. h \<noteq> s) dsts) g = (d, g1)" "next_uniform g1 = (u, g2)"
    "new_flow 1 s d sz (cur * unit_s) (ports g2) = (f, m)" "next_uniform (g2\<lparr>ports := m\<rparr>) = (u', g3)"
  shows "sends cdf dsts unit_s stop s cur g f g3 u'"
proof -
  have d: "d \<in> set (filter (\<lambda>h. h \<noteq> s) dsts)" using choice_in[OF assms(1), of g] assms(2) by simp
  have p: "ports g2 = ports g" "unif g2 = unif g" "upos g2 = upos g + 1"
    using assms(2,3) by (auto simp: choice_def next_uniform_def)
  have q: "ports g3 = m" "unif g3 = unif g" "upos g3 = upos g + 2" "u' = unif g (upos g + 1)"
    using assms(5) p by (auto simp: next_uniform_def)
  show ?thesis
    using d q new_flow_fields[OF assms(4)] below_ports_new[OF _ assms(4)] p by (simp add: sends_def)
qed

text \<open>The body of the loop with its recursive call abstracted: it stops, raises, or sends a flow and goes on.\<close>

definition host_body ::
  "(real \<Rightarrow> flow list \<Rightarrow> traffic_state \<Rightarrow> 'r res option) \<Rightarrow> (flow list \<Rightarrow> traffic_state \<Rightarrow> 'r) \<Rightarrow> (real \<times> real) list \<Rightarrow> int list \<Rightarrow> real \<Rightarrow> real \<Rightarrow> real
     \<Rightarrow> real \<Rightarrow> int \<Rightarrow> real \<Rightarrow> flow list \<Rightarrow> traffic_state \<Rightarrow> 'r res option" where
  "host_body go fin cdf dsts lam step unit_s stop s cur fs g =
    (if cur < stop then
       (let cand = filter (\<lambda>h. h \<noteq> s) dsts in
        if cand = [] then Some (Inl IndexError)
        else
          (let (d, g1) = choice cand g; (u, g2) = next_uniform g1 in
           (case get_value_from_percentile cdf (100 * u) of
              Inl e \<Rightarrow> Some (Inl e)
            | Inr None \<Rightarrow> Some (Inl TypeError)
            | Inr (Some v) \<Rightarrow>
                (let (f, m) = new_flow 1 s d (py_trunc v) (cur * unit_s) (ports g2);
                     (u', g3) = next_uniform (g2\<lparr>ports := m\<rparr>)
                 in go (cur + of_int (poisson lam u') * step) (fs @ [f]) g3))))
     else Some (Inr (fin fs g)))"

lemma host_body_sends:
  assumes "host_body go fin cdf dsts lam step unit_s stop s cur fs g = Some (Inr r)" "cur < stop"
  obtains f g' u where "sends cdf dsts unit_s stop s cur g f g' u"
    "go (cur + of_int (poisson lam u) * step) (fs @ [f]) g' = Some (Inr r)"
proof -
  let ?cand = "filter (\<lambda>h. h \<noteq> s) dsts"
  obtain d g1 where c: "choice ?cand g = (d, g1)" by fastforce
  obtain u g2 where n: "next_uniform g1 = (u, g2)" by fastforce
  have ne: "?cand \<noteq> []" using assms by (auto simp: host_body_def)
  obtain v where v: "get_value_from_percentile cdf (100 * u) = Inr (Some v)"
    using assms ne c n by (auto simp: host_body_def split: sum.splits option.splits)
  obtain f m where f: "new_flow 1 s d (py_trunc v) (cur * unit_s) (ports g2) = (f, m)" by fastforce
  obtain u' g3 where u': "next_uniform (g2\<lparr>ports := m\<rparr>) = (u', g3)" by fastforce
  show thesis
  proof (rule that)
    show "sends cdf dsts unit_s stop s cur g f g3 u'" by (rule pass_sends[OF ne c n f u'])
    show "go (cur + of_int (poisson lam u') * step) (fs @ [f]) g3 = Some (Inr r)"
      using assms ne c n v f u' by (simp add: host_body_def)
  qed
qed

lemma host_flows_body:
  "host_flows cdf dsts lam step unit_s stop s cur fs g =
     host_body (host_flows cdf dsts lam step unit_s stop s) Pair cdf dsts lam step unit_s stop s cur fs g"
  by (subst host_flows.simps) (simp add: host_body_def)

text \<open>The new flows share no identifier with each other or with earlier ones, whatever those were.\<close>

definition fresh_flows :: "traffic_state \<Rightarrow> flow list \<Rightarrow> traffic_state \<Rightarrow> bool" where
  "fresh_flows g new g' \<longleftrightarrow> (\<forall>old. below_ports 1 (ports g) old \<longrightarrow> below_ports 1 (ports g') (old @ new))"

lemma fresh_flows_Nil [simp]: "ports g' = ports g \<Longrightarrow> fresh_flows g [] g'"
  by (simp add: fresh_flows_def)

lemma fresh_flows_append: "fresh_flows g xs g1 \<Longrightarrow> fresh_flows g1 ys g2 \<Longrightarrow> fresh_flows g (xs @ ys) g2"
  by (simp add: fresh_flows_def flip: append_assoc)

definition sound_run :: "real \<Rightarrow> int \<Rightarrow> int list \<Rightarrow> real \<Rightarrow> real \<Rightarrow> flow list \<Rightarrow> traffic_state \<Rightarrow> flow list \<Rightarrow> traffic_state \<Rightarrow> bool" where
  "sound_run lo s dsts unit_s stop fs g fs' g' \<longleftrightarrow>
     unif g' = unif g \<and> (\<exists>new. fs' = fs @ new \<and> list_all (sent_ok s dsts unit_s lo stop) new \<and> fresh_flows g new g')"

lemma sound_run_step:
  assumes "sends cdf dsts unit_s stop s cur g f g1 u" "lo \<le> cur" "cur < stop" "sound_run lo s dsts unit_s stop (fs @ [f]) g1 fs' g'"
  shows "sound_run lo s dsts unit_s stop fs g fs' g'"
proof -
  obtain new where new: "fs' = (fs @ [f]) @ new" "list_all (sent_ok s dsts unit_s lo stop) new" "fresh_flows g1 new g'" "unif g' = unif g1"
    using assms(4) by (auto simp: sound_run_def)
  have "fresh_flows g [f] g1" "unif g1 = unif g" using assms(1) by (simp_all add: sends_def fresh_flows_def)
  then show ?thesis
    using new sent_okI[OF assms(1-3)] fresh_flows_append[OF _ new(3), of g "[f]"]
    by (auto simp: sound_run_def intro: exI[of _ "f # new"])
qed

definition sound_from ::
  "real \<Rightarrow> int list \<Rightarrow> real \<Rightarrow> real \<Rightarrow> real \<Rightarrow> real \<Rightarrow> int \<Rightarrow> real \<Rightarrow> flow list \<Rightarrow> traffic_state \<Rightarrow> (flow list \<times> traffic_state) res \<Rightarrow> bool" where
  "sound_from lo dsts lam step unit_s stop s cur fs g r \<longleftrightarrow>
     (0 \<le> lam \<and> 0 \<le> step \<and> draws_ok g \<and> lo \<le> cur \<longrightarrow>
       (case r of Inl e \<Rightarrow> True | Inr (fs', g') \<Rightarrow> sound_run lo s dsts unit_s stop fs g fs' g'))"

lemma host_body_sound:
  assumes "\<And>cur fs g r. go cur fs g = Some r \<Longrightarrow> sound_from lo dsts lam step unit_s stop s cur fs g r"
    and body: "host_body go Pair cdf dsts lam step unit_s stop s cur fs g = Some r"
  shows "sound_from lo dsts lam step unit_s stop s cur fs g r"
proof (cases r)
  case (Inr q)
  show ?thesis
  proof (cases "cur < stop")
    case False
    then have "q = (fs, g)" using body Inr by (simp add: host_body_def)
    then show ?thesis by (simp add: sound_from_def Inr sound_run_def)
  next
    case True
    obtain f g' u where s: "sends cdf dsts unit_s stop s cur g f g' u"
      and go: "go (cur + of_int (poisson lam u) * step) (fs @ [f]) g' = Some (Inr q)"
      using host_body_sends[OF body[unfolded Inr] True] by blast
    obtain fs' h where q: "q = (fs', h)" by fastforce
    have "sound_run lo s dsts unit_s stop fs g fs' h" if a: "0 \<le> lam" "0 \<le> step" "draws_ok g" "lo \<le> cur"
    proof (rule sound_run_step[OF s a(4) True])
      have "draws_ok g'" "0 \<le> of_int (poisson lam u) * step"
        using s a poisson_nonneg[of lam u] by (simp_all add: sends_def draws_ok_def)
      then show "sound_run lo s dsts unit_s stop (fs @ [f]) g' fs' h"
        using assms(1)[OF go] a by (simp add: sound_from_def q)
    qed
    then show ?thesis by (simp add: sound_from_def Inr q)
  qed
qed (simp add: sound_from_def)

lemma host_flows_sound:
  assumes "host_flows cdf dsts lam step unit_s stop s cur fs g = Some r"
  shows "sound_from lo dsts lam step unit_s stop s cur fs g r"
proof (rule host_flows.raw_induct[OF _ assms, where P = "\<lambda>cdf. sound_from lo"])
  fix hf cdf dsts lam step unit_s stop s cur fs g r
  assume IH: "\<And>cdf dsts lam step unit_s stop s cur fs g r. hf cdf dsts lam step unit_s stop s cur fs g = Some r \<Longrightarrow>
      sound_from lo dsts lam step unit_s stop s cur fs g r"
    and "(if cur < stop then
       (let cand = filter (\<lambda>h. h \<noteq> s) dsts in
        if cand = [] then Some (Inl IndexError)
        else
          (let (d, g1) = choice cand g; (u, g2) = next_uniform g1 in
           (case get_value_from_percentile cdf (100 * u) of
              Inl e \<Rightarrow> Some (Inl e)
            | Inr None \<Rightarrow> Some (Inl TypeError)
            | Inr (Some v) \<Rightarrow>
                (let (f, m) = new_flow 1 s d (py_trunc v) (cur * unit_s) (ports g2);
                     (u', g3) = next_uniform (g2\<lparr>ports := m\<rparr>)
                 in hf cdf dsts lam step unit_s stop s (cur + of_int (poisson lam u') * step) (fs @ [f]) g3))))
     else Some (Inr (fs, g))) = Some r"
  then show "sound_from lo dsts lam step unit_s stop s cur fs g r"
    by (intro host_body_sound[of "hf cdf dsts lam step unit_s stop s" lo dsts lam step unit_s stop s cdf cur fs g r])
       (simp_all only: host_body_def)
qed

section \<open>The loop ends\<close>

lemma host_flows_stop: "\<not> cur < stop \<Longrightarrow> host_flows cdf dsts lam step unit_s stop s cur fs g = Some (Inr (fs, g))"
  by (subst host_flows.simps) simp

lemma host_body_next:
  assumes "cur < stop" "cdf_ok cdf" "draws_ok g" "\<exists>d \<in> set dsts. d \<noteq> s"
  obtains f g' v where "sends cdf dsts unit_s stop s cur g f g' (unif g (upos g + 1))"
    "get_value_from_percentile cdf (100 * unif g (upos g)) = Inr (Some v)" "f_size f = max (py_trunc v) 100"
    "host_body go fin cdf dsts lam step unit_s stop s cur fs g =
       go (cur + of_int (poisson lam (unif g (upos g + 1))) * step) (fs @ [f]) g'"
proof -
  let ?cand = "filter (\<lambda>h. h \<noteq> s) dsts"
  have ne: "?cand \<noteq> []" using assms(4) by (auto simp: filter_empty_conv)
  obtain d g1 where c: "choice ?cand g = (d, g1)" by fastforce
  obtain u g2 where n: "next_uniform g1 = (u, g2)" by fastforce
  have u: "u = unif g (upos g)" using c n by (auto simp: choice_def next_uniform_def)
  then have "0 \<le> 100 * u" "100 * u \<le> 100" using assms(3) by (simp_all add: draws_ok_def less_imp_le)
  then obtain v where v: "get_value_from_percentile cdf (100 * u) = Inr (Some v)"
    using percentile_bounds[of cdf "100 * u"] assms(2) by (auto simp: cdf_ok_def)
  obtain f m where f: "new_flow 1 s d (py_trunc v) (cur * unit_s) (ports g2) = (f, m)" by fastforce
  obtain u' g3 where u': "next_uniform (g2\<lparr>ports := m\<rparr>) = (u', g3)" by fastforce
  have s: "sends cdf dsts unit_s stop s cur g f g3 u'" by (rule pass_sends[OF ne c n f u'])
  show thesis
    by (rule that[of f g3 v])
       (use s assms(1) ne c n u v f u' new_flow_fields[OF f] in \<open>simp_all add: sends_def host_body_def\<close>)
qed

lemma host_flows_next:
  assumes "cur < stop" "cdf_ok cdf" "draws_ok g" "\<exists>d \<in> set dsts. d \<noteq> s"
  obtains f g' where "unif g' = unif g" "upos g' = upos g + 2"
    "host_flows cdf dsts lam step unit_s stop s cur fs g =
       host_flows cdf dsts lam step unit_s stop s (cur + of_int (poisson lam (unif g (upos g + 1))) * step) (fs @ [f]) g'"
proof (rule host_body_next[OF assms, where unit_s = unit_s and go = "host_flows cdf dsts lam step unit_s stop s" and fin = Pair and lam = lam and step = step and fs = fs])
  fix f g' v
  assume "sends cdf dsts unit_s stop s cur g f g' (unif g (upos g + 1))"
    "host_body (host_flows cdf dsts lam step unit_s stop s) Pair cdf dsts lam step unit_s stop s cur fs g =
       host_flows cdf dsts lam step unit_s stop s (cur + of_int (poisson lam (unif g (upos g + 1))) * step) (fs @ [f]) g'"
  then show thesis using that[of g' f] by (simp add: sends_def host_flows_body[of cdf dsts lam step unit_s stop s cur])
qed

lemma progressing_cong: "unif g' = unif g \<Longrightarrow> progressing lam g' = progressing lam g"
  by (simp add: progressing_def)

lemma draws_ok_cong: "unif g' = unif g \<Longrightarrow> draws_ok g' = draws_ok g"
  by (simp add: draws_ok_def)

text \<open>Induction on the nanoseconds that are left, and on the draws until the next gap that is not 0.\<close>

lemma host_flows_returns:
  assumes "cdf_ok cdf" "0 \<le> lam" "0 < step" "\<exists>d \<in> set dsts. d \<noteq> s"
  shows "draws_ok g \<Longrightarrow> progressing lam g \<Longrightarrow> stop - cur \<le> real N * step \<Longrightarrow>
    \<exists>r. host_flows cdf dsts lam step unit_s stop s cur fs g = Some (Inr r)"
proof (induction N arbitrary: cur fs g)
  case 0
  then have "\<not> cur < stop" by simp
  then show ?case using host_flows_stop by blast
next
  case (Suc N)
  have "\<exists>r. host_flows cdf dsts lam step unit_s stop s cur fs g = Some (Inr r)"
    if "draws_ok g" "progressing lam g" "stop - cur \<le> real (Suc N) * step" "1 \<le> poisson lam (unif g (upos g + 1 + 2 * k))" for k cur fs g
    using that
  proof (induction k arbitrary: cur fs g)
    case (0 cur fs g)
    show ?case
    proof (cases "cur < stop")
      case True
      obtain f g' where g': "unif g' = unif g"
        "host_flows cdf dsts lam step unit_s stop s cur fs g =
           host_flows cdf dsts lam step unit_s stop s (cur + of_int (poisson lam (unif g (upos g + 1))) * step) (fs @ [f]) g'"
        by (rule host_flows_next[OF True assms(1) 0(1) assms(4)])
      have "1 * step \<le> of_int (poisson lam (unif g (upos g + 1))) * step"
        using 0(4) assms(3) by (intro mult_right_mono) simp_all
      then have "stop - (cur + of_int (poisson lam (unif g (upos g + 1))) * step) \<le> real N * step"
        using 0(3) by (simp add: algebra_simps)
      then show ?thesis
        using Suc.IH[of g' _ "fs @ [f]"] g' 0(1,2) by (simp add: progressing_cong[OF g'(1)] draws_ok_cong[OF g'(1)])
    qed (use host_flows_stop in blast)
  next
    case (Suc k cur fs g)
    show ?case
    proof (cases "cur < stop")
      case True
      obtain f g' where g': "unif g' = unif g" "upos g' = upos g + 2"
        "host_flows cdf dsts lam step unit_s stop s cur fs g =
           host_flows cdf dsts lam step unit_s stop s (cur + of_int (poisson lam (unif g (upos g + 1))) * step) (fs @ [f]) g'"
        by (rule host_flows_next[OF True assms(1) Suc(2) assms(4)])
      have "0 \<le> of_int (poisson lam (unif g (upos g + 1))) * step"
        using poisson_nonneg[OF assms(2)] Suc(2) assms(3) by (simp add: draws_ok_def)
      then have "stop - (cur + of_int (poisson lam (unif g (upos g + 1))) * step) \<le> real (Suc N) * step"
        using Suc(4) by simp
      moreover have "1 \<le> poisson lam (unif g' (upos g' + 1 + 2 * k))" using Suc(5) g'(1,2) by simp
      ultimately show ?thesis
        using Suc.IH[of g' _ "fs @ [f]"] g' Suc(2,3) by (simp add: progressing_cong[OF g'(1)] draws_ok_cong[OF g'(1)])
    qed (use host_flows_stop in blast)
  qed
  moreover obtain k where "1 \<le> poisson lam (unif g (upos g + 1 + 2 * k))"
    using Suc.prems(2) unfolding progressing_def by blast
  ultimately show ?case using Suc.prems by blast
qed

section \<open>All sources\<close>

definition sent_by :: "int list \<Rightarrow> int list \<Rightarrow> real \<Rightarrow> real \<Rightarrow> real \<Rightarrow> flow \<Rightarrow> bool" where
  "sent_by srcs dsts unit_s lo stop f \<longleftrightarrow> (\<exists>s \<in> set srcs. sent_ok s dsts unit_s lo stop f)"

lemma all_hosts_Cons:
  "all_hosts cdf dsts lam step unit_s base stop (s # ss) fs g =
    (case host_flows cdf dsts lam step unit_s stop s (base + of_int (poisson lam (unif g (upos g))) * step) fs
            (snd (next_uniform g)) of
        None \<Rightarrow> None
      | Some (Inl e) \<Rightarrow> Some (Inl e)
      | Some (Inr (fs', g')) \<Rightarrow> all_hosts cdf dsts lam step unit_s base stop ss fs' g')"
  by (simp add: next_uniform_def)

declare all_hosts.simps(2) [simp del]

lemma all_hosts_sound:
  assumes "0 \<le> lam" "0 \<le> step"
  shows "all_hosts cdf dsts lam step unit_s base stop srcs fs g = Some (Inr (fs', g')) \<Longrightarrow> draws_ok g \<Longrightarrow>
    unif g' = unif g \<and> (\<exists>new. fs' = fs @ new \<and> list_all (sent_by srcs dsts unit_s base stop) new \<and> fresh_flows g new g')"
proof (induction srcs arbitrary: fs g)
  case (Cons s ss)
  let ?u = "unif g (upos g)" and ?g1 = "snd (next_uniform g)"
  let ?cur = "base + of_int (poisson lam ?u) * step"
  obtain fs1 g2 where h: "host_flows cdf dsts lam step unit_s stop s ?cur fs ?g1 = Some (Inr (fs1, g2))"
    and rest: "all_hosts cdf dsts lam step unit_s base stop ss fs1 g2 = Some (Inr (fs', g'))"
    using Cons.prems(1) by (auto simp: all_hosts_Cons split: option.splits sum.splits)
  have "base \<le> ?cur" using poisson_nonneg[OF assms(1)] Cons.prems(2) assms(2) by (simp add: draws_ok_def)
  then have run: "sound_run base s dsts unit_s stop fs ?g1 fs1 g2"
    using host_flows_sound[OF h, of base] assms Cons.prems(2) by (simp add: sound_from_def draws_ok_def)
  then obtain new where new: "fs1 = fs @ new" "list_all (sent_ok s dsts unit_s base stop) new" "unif g2 = unif g" "fresh_flows g new g2"
    by (auto simp: sound_run_def fresh_flows_def)
  then obtain new2 where "fs' = fs1 @ new2" "list_all (sent_by ss dsts unit_s base stop) new2" "unif g' = unif g2" "fresh_flows g2 new2 g'"
    using Cons.IH[OF rest] Cons.prems(2) draws_ok_cong[OF new(3)] by blast
  then show ?case
    using new fresh_flows_append[OF new(4)] by (intro conjI exI[of _ "new @ new2"]) (auto simp: sent_by_def list_all_iff)
qed simp

lemma all_hosts_returns:
  assumes "cdf_ok cdf" "0 \<le> lam" "0 < step"
  shows "\<forall>s \<in> set srcs. \<exists>d \<in> set dsts. d \<noteq> s \<Longrightarrow> draws_ok g \<Longrightarrow> progressing lam g \<Longrightarrow>
    \<exists>r. all_hosts cdf dsts lam step unit_s base stop srcs fs g = Some (Inr r)"
proof (induction srcs arbitrary: fs g)
  case (Cons s ss)
  let ?u = "unif g (upos g)" and ?g1 = "snd (next_uniform g)"
  let ?cur = "base + of_int (poisson lam ?u) * step"
  have g1: "unif ?g1 = unif g" by simp
  obtain N :: nat where "(stop - ?cur) / step \<le> real N" using real_arch_simple by blast
  then have N: "stop - ?cur \<le> real N * step" using assms(3) by (simp add: divide_le_eq)
  have "\<exists>d \<in> set dsts. d \<noteq> s" "draws_ok ?g1" "progressing lam ?g1"
    using Cons.prems draws_ok_cong[OF g1] progressing_cong[OF g1] by simp_all
  then have "\<exists>r. host_flows cdf dsts lam step unit_s stop s ?cur fs ?g1 = Some (Inr r)"
    by (rule host_flows_returns[OF assms _ _ _ N])
  then obtain fs1 g2 where h: "host_flows cdf dsts lam step unit_s stop s ?cur fs ?g1 = Some (Inr (fs1, g2))"
    unfolding split_paired_Ex by blast
  have "0 \<le> of_int (poisson lam ?u) * step" using poisson_nonneg[OF assms(2)] Cons.prems(2) assms(3) by (simp add: draws_ok_def)
  then have g2: "unif g2 = unif g"
    using host_flows_sound[OF h, of base] assms(2,3) Cons.prems(2) draws_ok_cong[OF g1] by (simp add: sound_from_def sound_run_def)
  have "\<exists>r. all_hosts cdf dsts lam step unit_s base stop ss fs1 g2 = Some (Inr r)"
    using Cons.prems draws_ok_cong[OF g2] progressing_cong[OF g2] by (intro Cons.IH) simp_all
  then show ?case using h by (simp add: all_hosts_Cons)
qed simp

section \<open>Generated workloads\<close>

definition mean_gap :: "real \<Rightarrow> real \<Rightarrow> real" where
  "mean_gap rate avg_size = 1 / (rate / 8 / avg_size) * 1000000000"

text \<open>Distribution, rate and random streams that \<^verbatim>\<open>generate_flows\<close> can work with.\<close>

definition workload_ok :: "string \<Rightarrow> string \<Rightarrow> (real \<times> real) list \<Rightarrow> real \<Rightarrow> traffic_state \<Rightarrow> bool" where
  "workload_ok content host_rate cdf rate g \<longleftrightarrow>
     (\<exists>pts. CustomRand content = Inr pts \<and> points pts = Some cdf) \<and> translate_bandwidth host_rate = Inr (Fin rate)
     \<and> cdf_ok cdf \<and> 0 < get_avg cdf \<and> 0 < rate \<and> draws_ok g"

lemma workload_gap:
  "workload_ok content host_rate cdf rate g \<Longrightarrow>
     avg_gap rate (get_avg cdf) = Inr (1 / (rate / 8 / get_avg cdf)) \<and> 0 \<le> mean_gap rate (get_avg cdf)"
  by (auto simp: workload_ok_def avg_gap_def mean_gap_def)

lemma generate_flows_step:
  assumes "workload_ok content host_rate cdf rate g"
  shows "generate_flows (Suc depth) srcs dsts content host_rate duration base_time restrict g =
    (case all_hosts cdf dsts (mean_gap rate (get_avg cdf)) (1 / 1000000000) 1 base_time (base_time + duration) srcs [] g of
         None \<Rightarrow> None
       | Some (Inl e) \<Rightarrow> Some (Inl e)
       | Some (Inr (fs, g')) \<Rightarrow>
           (if duration = 0 then Some (Inl ZeroDivisionError)
            else
              (let flows = sort_key f_time fs;
                   actual_rate = of_int (total_size flows) / duration * 8;
                   target_rate = rate * real (length srcs)
               in if 9 / 10 * target_rate \<le> actual_rate \<and> actual_rate \<le> 11 / 10 * target_rate \<or> \<not> restrict
                  then Some (Inr (flows, g'))
                  else generate_flows depth srcs dsts content host_rate duration base_time True g')))"
  using assms workload_gap[OF assms] unfolding workload_ok_def
  by (elim exE conjE) (simp add: mean_gap_def cong: option.case_cong sum.case_cong prod.case_cong)

declare generate_flows.simps(2) [simp del]

text \<open>A finished workload: sorted by time, inside the window, every flow from a source to another host of the
  destinations, at least 100 bytes, no two flows with the same end points and port.\<close>

definition window_ok :: "int list \<Rightarrow> int list \<Rightarrow> real \<Rightarrow> real \<Rightarrow> flow list \<Rightarrow> bool" where
  "window_ok srcs dsts base_time duration fs \<longleftrightarrow>
     sorted (map f_time fs) \<and> distinct (map flow_id3 fs)
     \<and> list_all (\<lambda>f. f_src f \<in> set srcs \<and> f_dst f \<in> set dsts \<and> f_src f \<noteq> f_dst f \<and> 100 \<le> f_size f
                  \<and> base_time \<le> f_time f \<and> f_time f < base_time + duration) fs"

definition load_ok :: "real \<Rightarrow> nat \<Rightarrow> real \<Rightarrow> flow list \<Rightarrow> bool" where
  "load_ok rate n duration fs \<longleftrightarrow>
     9 / 10 * (rate * real n) \<le> of_int (total_size fs) / duration * 8
     \<and> of_int (total_size fs) / duration * 8 \<le> 11 / 10 * (rate * real n)"

lemma fresh_flows_distinct: "fresh_flows g fs g' \<Longrightarrow> distinct (map flow_id3 fs)"
  using spec[of "\<lambda>old. below_ports 1 (ports g) old \<longrightarrow> below_ports 1 (ports g') (old @ fs)" "[]"]
  by (simp add: fresh_flows_def below_ports_def)

lemma fresh_flows_sort: "fresh_flows g fs g' \<Longrightarrow> fresh_flows g (sort_key k fs) g'"
  by (simp add: fresh_flows_def below_ports_def distinct_sort_key)

lemma fresh_flows_forget: "fresh_flows g fs g' \<Longrightarrow> fresh_flows g [] g'"
  by (auto simp: fresh_flows_def below_ports_def)

lemma all_hosts_window:
  assumes "all_hosts cdf dsts lam step 1 base (base + duration) srcs [] g = Some (Inr (fs, g'))" "0 \<le> lam" "0 \<le> step" "draws_ok g"
  shows "window_ok srcs dsts base duration (sort_key f_time fs)" "unif g' = unif g" "fresh_flows g (sort_key f_time fs) g'"
proof -
  have a: "unif g' = unif g" "list_all (sent_by srcs dsts 1 base (base + duration)) fs" "fresh_flows g fs g'"
    using all_hosts_sound[OF assms(2,3,1,4)] by auto
  then show "window_ok srcs dsts base duration (sort_key f_time fs)"
    using fresh_flows_distinct[OF a(3)] by (auto simp: window_ok_def distinct_sort_key list_all_iff sent_by_def sent_ok_def)
  show "unif g' = unif g" "fresh_flows g (sort_key f_time fs) g'" using a fresh_flows_sort by auto
qed

lemma workload_ok_cong: "unif g' = unif g \<Longrightarrow> workload_ok content host_rate cdf rate g' = workload_ok content host_rate cdf rate g"
  by (simp add: workload_ok_def draws_ok_cong[of g' g])

lemma generate_flows_run:
  assumes "workload_ok content host_rate cdf rate g"
    "generate_flows depth srcs dsts content host_rate duration base_time restrict g = Some (Inr (fs, g'))"
  shows "window_ok srcs dsts base_time duration fs \<and> (restrict \<longrightarrow> load_ok rate (length srcs) duration fs)
    \<and> unif g' = unif g \<and> fresh_flows g fs g'"
  using assms
proof (induction depth arbitrary: restrict g)
  case (Suc depth)
  note w = Suc.prems(1)
  let ?lam = "mean_gap rate (get_avg cdf)"
  obtain fs1 g1 where r: "all_hosts cdf dsts ?lam (1 / 1000000000) 1 base_time (base_time + duration) srcs [] g = Some (Inr (fs1, g1))"
    using Suc.prems(2) unfolding generate_flows_step[OF w] by (auto split: option.splits sum.splits)
  have a: "window_ok srcs dsts base_time duration (sort_key f_time fs1)" "unif g1 = unif g" "fresh_flows g (sort_key f_time fs1) g1"
    using all_hosts_window[OF r] workload_gap[OF w] w by (simp_all add: workload_ok_def)
  then have "workload_ok content host_rate cdf rate g1" using w by (simp add: workload_ok_cong[of g1 g])
  then show ?case
    using Suc.IH[of g1 True] Suc.prems(2) a fresh_flows_append[OF fresh_flows_forget[OF a(3)], of fs g']
    unfolding generate_flows_step[OF w] r
    by (auto simp: Let_def load_ok_def split: if_splits)
qed simp

text \<open>C13: What \<^verbatim>\<open>generate_flows\<close> returns. The flows are sorted by start time and start inside the window, each goes
  from a source to a different destination with at least 100 bytes, no two share end points and port, and with
  \<^verbatim>\<open>restrict\<close> the offered load is within ten per cent of the target, however often it was drawn again.\<close>

theorem generated_workload_ok:
  assumes "workload_ok content host_rate cdf rate g"
    "generate_flows depth srcs dsts content host_rate duration base_time restrict g = Some (Inr (fs, g'))"
  shows "window_ok srcs dsts base_time duration fs \<and> (restrict \<longrightarrow> load_ok rate (length srcs) duration fs)"
  using generate_flows_run[OF assms] by simp

lemma generate_flows_total:
  assumes "workload_ok content host_rate cdf rate g" "progressing (mean_gap rate (get_avg cdf)) g"
    "\<forall>s \<in> set srcs. \<exists>d \<in> set dsts. d \<noteq> s" "0 < duration"
  shows "\<exists>r. generate_flows (Suc depth) srcs dsts content host_rate duration base_time False g = Some (Inr r)"
proof -
  have "cdf_ok cdf" "draws_ok g" using assms(1) by (simp_all add: workload_ok_def)
  then obtain fs g' where "all_hosts cdf dsts (mean_gap rate (get_avg cdf)) (1 / 1000000000) 1 base_time (base_time + duration) srcs [] g
      = Some (Inr (fs, g'))"
    using all_hosts_returns[OF _ conjunct2[OF workload_gap[OF assms(1)]] _ assms(3) _ assms(2)] by fastforce
  then show ?thesis
    using assms(4) by (simp add: generate_flows_step[OF assms(1)] Let_def)
qed

text \<open>C15: \<^verbatim>\<open>generate_flows\<close> without \<^verbatim>\<open>restrict\<close> returns whenever gaps of a nanosecond or more keep coming and every
  source has another host to send to; the loop of no host runs for ever.\<close>

theorem generate_flows_returns:
  assumes "workload_ok content host_rate cdf rate g" "progressing (mean_gap rate (get_avg cdf)) g"
    "\<forall>s \<in> set srcs. \<exists>d \<in> set dsts. d \<noteq> s" "0 < duration"
  shows "\<exists>fs g'. generate_flows (Suc depth) srcs dsts content host_rate duration base_time False g = Some (Inr (fs, g'))"
  using generate_flows_total[OF assms] by (simp only: split_paired_Ex)

definition demo_cdf :: string where
  "demo_cdf = ''100 0'' @ [nl] @ ''1000 100'' @ [nl]"

definition demo_draws :: traffic_state where
  "demo_draws = \<lparr>ports = \<lambda>_. None, unif = \<lambda>_. 1 - exp (-1), upos = 0, idxs = \<lambda>_. 0, ipos = 0\<rparr>"

lemma printed_floats: "py_float ''0'' = Inr (Fin 0)" "py_float ''100'' = Inr (Fin 100)" "py_float ''1000'' = Inr (Fin 1000)"
proof -
  have "str_nat 0 = ''0''" "str_nat 100 = ''100''" "str_nat 1000 = ''1000''" by (simp_all add: text_simps)
  then show "py_float ''0'' = Inr (Fin 0)" "py_float ''100'' = Inr (Fin 100)" "py_float ''1000'' = Inr (Fin 1000)"
    using py_float_str_nat[of 0] py_float_str_nat[of 100] py_float_str_nat[of 1000] by simp_all
qed

lemma demo_lines:
  "file_lines demo_cdf = [''100 0'', ''1000 100'']" "split_ws (str_strip ''100 0'') = [''100'', ''0'']"
  "split_ws (str_strip ''1000 100'') = [''1000'', ''100'']" "split_ws (str_strip ''1000 0'') = [''1000'', ''0'']"
  by code_simp+

lemma demo_workload: "workload_ok demo_cdf ''8G'' [(100, 0), (1000, 100)] 8000000000 demo_draws"
proof -
  have "CustomRand demo_cdf = Inr [(Fin 100, Fin 0), (Fin 1000, Fin 100)]"
    by (simp add: CustomRand_def parse_cdf_line_def demo_lines printed_floats)
  moreover have "translate_bandwidth ''8G'' = Inr (Fin 8000000000)"
    using bandwidth_G[of 8] by (simp add: text_simps)
  ultimately show ?thesis
    by (simp add: workload_ok_def points_def cdf_ok_def get_avg_def draws_ok_def demo_draws_def)
qed

lemma demo_progress: "progressing (mean_gap 8000000000 (get_avg [(100, 0), (1000, 100)])) demo_draws"
  by (simp add: progressing_def demo_draws_def mean_gap_def get_avg_def poisson_def py_trunc_def)

theorem generated_workload_ok_witness:
  "\<exists>fs g'. generate_flows 1 [0, 1] [0, 1] demo_cdf ''8G'' (1 / 1000) 2 False demo_draws = Some (Inr (fs, g'))
     \<and> window_ok [0, 1] [0, 1] 2 (1 / 1000) fs"
proof -
  obtain r where r: "generate_flows 1 [0, 1] [0, 1] demo_cdf ''8G'' (1 / 1000) 2 False demo_draws = Some (Inr r)"
    using generate_flows_total[OF demo_workload demo_progress, of "[0, 1]" "[0, 1]" "1 / 1000" 0 2] by auto
  then show ?thesis
    using generated_workload_ok[OF demo_workload, of 1 "[0, 1]" "[0, 1]" "1 / 1000" 2 False "fst r" "snd r"] 
    by (intro exI[of _ "fst r"] exI[of _ "snd r"]) simp
qed

theorem generate_flows_returns_witness:
  "\<exists>fs g'. generate_flows (Suc 0) [0, 1] [0, 1] demo_cdf ''8G'' (1 / 1000) 2 False demo_draws = Some (Inr (fs, g'))"
  using generate_flows_returns[OF demo_workload demo_progress, of "[0, 1]" "[0, 1]" "1 / 1000" 0 2] by simp

section \<open>The all-to-all workload\<close>

text \<open>The time from one round to the next: the one asked for, or the time a worker needs to send to all others at the
  bandwidth, and the pause.\<close>

definition llm_period :: "llm_args \<Rightarrow> real" where
  "llm_period a = (case la_period_ms a of
      Some p \<Rightarrow> p / 1000
    | None \<Rightarrow> of_int ((la_workers a - 1) * py_trunc (la_flow_size_mb a * 1024 * 1024)) * 8 / (la_bw_gbps a * 1000000000)
        + la_off_ms a / 1000)"

lemma llm_main_form:
  assumes "0 < la_workers a" "la_workers a \<le> 64" "0 < la_rounds a" "0 < la_flow_size_mb a" "0 \<le> la_off_ms a" "0 < la_bw_gbps a"
  obtains ws fs0 m ts where "spread_workers_for_topo_s (la_workers a) = Inr ws" "distinct ws" "int (length ws) = la_workers a"
    "length ts = nat (la_rounds a)"
    "add_rounds 10000 ws (py_trunc (la_flow_size_mb a * 1024 * 1024)) ts (\<lambda>_. None) = (fs0, m)"
    "let fs = sort_key (\<lambda>f. (f_time f, f_src f, f_dst f, f_dport f)) fs0 in llm_main a = Inr (write_flow_file fs, fs)"
    "ts = map (\<lambda>k. la_base_time a + real k * llm_period a) [0..<nat (la_rounds a)]"
proof -
  let ?ws = "tor_hosts (la_workers a) [0..7]" and ?sz = "py_trunc (la_flow_size_mb a * 1024 * 1024)"
  let ?on = "of_int ((la_workers a - 1) * ?sz) * 8 / (la_bw_gbps a * 1000000000)"
  let ?per = "case la_period_ms a of Some p \<Rightarrow> p / 1000 | None \<Rightarrow> ?on + la_off_ms a / 1000"
  let ?ts = "round_times (la_base_time a) ?per (nat (la_rounds a))"
  have d: "distinct ?ws" "int (length ?ws) = la_workers a"
    using tor_hosts_distinct[OF assms(1,2), of "[0..7]"] tor_hosts_length[OF assms(1,2), of "[0..7]"] tor_take_sum by simp_all
  obtain fs0 m where r: "add_rounds 10000 ?ws ?sz ?ts (\<lambda>_. None) = (fs0, m)" by fastforce
  have on: "estimate_alltoall_on_time (int (length ?ws)) ?sz (la_bw_gbps a) = Inr ?on"
    using assms(6) d(2) by (simp add: estimate_alltoall_on_time_def)
  have per: "(case map_option (\<lambda>p. p / 1000) (la_period_ms a) of Some p \<Rightarrow> p | None \<Rightarrow> ?on + la_off_ms a / 1000) = ?per"
    by (simp split: option.splits)
  have "let fs = sort_key (\<lambda>f. (f_time f, f_src f, f_dst f, f_dport f)) fs0 in llm_main a = Inr (write_flow_file fs, fs)"
    using assms(3-6) unfolding llm_main_def llm_plan_def spread_workers[OF assms(1,2)] generate_onoff_alltoall_flows_def
    by (simp only: on per res_bind.simps r Let_def) simp
  then show thesis
    using that[OF spread_workers[OF assms(1,2)] d _ r] by (simp add: round_times_def llm_period_def)
qed

text \<open>C34: The all-to-all workload of \<^verbatim>\<open>gen_llm_onoff_topo_s.py\<close>. With legal arguments \<^verbatim>\<open>main\<close> writes a file that
  \<^verbatim>\<open>run.py\<close> accepts and that announces rounds times workers times (workers - 1) flows; the flows in it are sorted by
  time, no two share end points and port, all have the size asked for (100 bytes at least), and every ordered pair of
  distinct workers exchanges exactly one flow per round: its flows start at the base time plus 0, 1, 2 and so on times the
  period, one flow for each round. The period is the one asked for, or the time one worker needs at the given bandwidth to
  send to all others plus the pause.\<close>

theorem llm_workload_complete:
  assumes "0 < la_workers a" "la_workers a \<le> 64" "0 < la_rounds a" "0 < la_flow_size_mb a" "0 \<le> la_off_ms a" "0 < la_bw_gbps a"
  shows "\<exists>ws out fs. spread_workers_for_topo_s (la_workers a) = Inr ws \<and> llm_main a = Inr (out, fs)
    \<and> inspect_flow_file path out = Inr \<lparr>fm_name = path_name path, fm_path = path,
         flow_count = la_rounds a * (la_workers a * (la_workers a - 1))\<rparr>
    \<and> sorted (map f_time fs) \<and> distinct (map flow_id3 fs)
    \<and> list_all (\<lambda>f. f_size f = max (py_trunc (la_flow_size_mb a * 1024 * 1024)) 100) fs
    \<and> (\<forall>s d. s \<in> set ws \<and> d \<in> set ws \<and> s \<noteq> d \<longrightarrow>
         mset (link_times s d fs) = mset (map (\<lambda>k. la_base_time a + real k * llm_period a) [0..<nat (la_rounds a)]))"
proof -
  obtain ws fs0 m ts where w: "spread_workers_for_topo_s (la_workers a) = Inr ws" "distinct ws" "int (length ws) = la_workers a"
    and t: "length ts = nat (la_rounds a)"
    and rounds: "ts = map (\<lambda>k. la_base_time a + real k * llm_period a) [0..<nat (la_rounds a)]"
    and r: "add_rounds 10000 ws (py_trunc (la_flow_size_mb a * 1024 * 1024)) ts (\<lambda>_. None) = (fs0, m)"
    and out: "let fs = sort_key (\<lambda>f. (f_time f, f_src f, f_dst f, f_dport f)) fs0 in llm_main a = Inr (write_flow_file fs, fs)"
    by (rule llm_main_form[OF assms])
  define fs where "fs = sort_key (\<lambda>f. (f_time f, f_src f, f_dst f, f_dport f)) fs0"
  have len: "int (length fs) = la_rounds a * (la_workers a * (la_workers a - 1))"
  proof -
    have "1 \<le> length ws" using w(3) assms(1) by simp
    then show ?thesis
      using add_rounds_length[OF w(2) r] w(3) t assms(3) by (simp add: fs_def of_nat_diff)
  qed
  have "mset (link_times s d fs) = mset (map (\<lambda>k. la_base_time a + real k * llm_period a) [0..<nat (la_rounds a)])"
    if "s \<in> set ws" "d \<in> set ws" "s \<noteq> d" for s d
    unfolding fs_def link_times_sort add_rounds_link_times[OF w(2) that r] rounds ..
  moreover have "distinct (map flow_id3 fs)"
    using below_ports_add_rounds[OF below_ports_empty r] by (simp add: fs_def distinct_sort_key below_ports_def)
  moreover have "list_all (\<lambda>f. f_size f = max (py_trunc (la_flow_size_mb a * 1024 * 1024)) 100) fs"
    using conjunct2[OF add_rounds_links[OF r]] by (simp add: fs_def list_all_iff)
  moreover have "sorted (map f_time fs)" unfolding fs_def by (rule sorted_key_time)
  moreover have "inspect_flow_file path (write_flow_file fs) = Inr \<lparr>fm_name = path_name path, fm_path = path,
         flow_count = la_rounds a * (la_workers a * (la_workers a - 1))\<rparr>"
    by (simp add: inspect_written len)
  ultimately show ?thesis using w(1) out unfolding Let_def fs_def[symmetric] by blast
qed

definition default_llm_args :: llm_args where
  "default_llm_args = \<lparr>la_workers = 20, la_rounds = 5, la_base_time = 2, la_flow_size_mb = 12, la_off_ms = 20,
     la_bw_gbps = 100, la_period_ms = None\<rparr>"

theorem llm_workload_complete_witness:
  "\<exists>out fs. llm_main default_llm_args = Inr (out, fs)
     \<and> inspect_flow_file ''f.txt'' out = Inr \<lparr>fm_name = path_name ''f.txt'', fm_path = ''f.txt'', flow_count = 1900\<rparr>
     \<and> sorted (map f_time fs)"
  using llm_workload_complete[of default_llm_args "''f.txt''"] by (auto simp: default_llm_args_def)

end
