(* ===== verification/TrafficMains.thy ===== *)
theory TrafficMains
  imports TrafficLoad Workspace
begin

text \<open>
  \<^verbatim>\<open>generate_dynamic_flows\<close> of \<^verbatim>\<open>gen_traffic.py\<close> and the main functions of the scripts under
  \<^verbatim>\<open>traffic_gen/\<close>: the two load drivers, \<^verbatim>\<open>gen_traffic.py\<close>, \<^verbatim>\<open>llm_traffic_gen.py\<close>,
  \<^verbatim>\<open>gen_llm_onoff_topo_s.py\<close> and \<^verbatim>\<open>plot_flow_size_cdf.py\<close>. The mains are actions over the files by the path they are
  opened with and the lines they print themselves (\<^verbatim>\<open>generate_flows\<close> prints three more per call). \<^verbatim>\<open>argparse\<close>, home
  directories and the resolution of paths are parameters, as is \<^verbatim>\<open>rep\<close>, \<^verbatim>\<open>repr\<close> of a float.
\<close>

section \<open>Traffic between autonomous systems\<close>

text \<open>The mean gap between the slices of one system, in seconds.\<close>

definition slice_gap :: "real \<Rightarrow> real \<Rightarrow> real \<Rightarrow> real \<Rightarrow> real res" where
  "slice_gap total_rate_f slice_rate_f duration slice_duration =
    (if slice_rate_f * slice_duration = 0 then Inl ZeroDivisionError
     else (let slice_count = py_trunc ((total_rate_f * duration) / (slice_rate_f * slice_duration))
           in if slice_count = 0 then Inl ZeroDivisionError else Inr (duration / of_int slice_count)))"

definition host_rate_text :: "(pyfloat \<Rightarrow> string) \<Rightarrow> real \<Rightarrow> int list \<Rightarrow> string" where
  "host_rate_text rep slice_rate_f src_as = rep (Fin (slice_rate_f / real (length src_as) / 1000000000)) @ ''G''"

text \<open>The \<^verbatim>\<open>while\<close> loop of one source system. It need not end, like the loop of one host.\<close>

partial_function (option) as_slices ::
  "(pyfloat \<Rightarrow> string) \<Rightarrow> nat \<Rightarrow> string \<Rightarrow> int list list \<Rightarrow> real \<Rightarrow> real \<Rightarrow> real \<Rightarrow> real \<Rightarrow> int list \<Rightarrow> real \<Rightarrow> flow list \<Rightarrow> traffic_state
     \<Rightarrow> (flow list \<times> traffic_state) res option" where
  "as_slices rep depth content as_list lam slice_duration slice_rate_f stop src_as cur fs g =
    (if cur < stop then
       (let cand = filter (\<lambda>as_item. as_item \<noteq> src_as) as_list in
        if cand = [] then Some (Inl IndexError)
        else
          (let (dst_as, g1) = choice cand g in
           if src_as = [] then Some (Inl ZeroDivisionError)
           else
             (case generate_flows depth src_as dst_as content (host_rate_text rep slice_rate_f src_as) slice_duration cur False g1 of
                None \<Rightarrow> None
              | Some (Inl e) \<Rightarrow> Some (Inl e)
              | Some (Inr (new, g2)) \<Rightarrow>
                  (let (u, g3) = next_uniform g2
                   in as_slices rep depth content as_list lam slice_duration slice_rate_f stop src_as
                        (cur + of_int (poisson lam u) / 1000000000) (fs @ new) g3))))
     else Some (Inr (fs, g)))"

fun all_slices ::
  "(pyfloat \<Rightarrow> string) \<Rightarrow> nat \<Rightarrow> string \<Rightarrow> int list list \<Rightarrow> real \<Rightarrow> real \<Rightarrow> real \<Rightarrow> real \<Rightarrow> real \<Rightarrow> int list list \<Rightarrow> flow list \<Rightarrow> traffic_state
     \<Rightarrow> (flow list \<times> traffic_state) res option" where
  "all_slices rep depth content as_list lam slice_duration slice_rate_f base stop [] fs g = Some (Inr (fs, g))"
| "all_slices rep depth content as_list lam slice_duration slice_rate_f base stop (src_as # rest) fs g =
    (let (u, g1) = next_uniform g in
     (case as_slices rep depth content as_list lam slice_duration slice_rate_f stop src_as
             (base + of_int (poisson lam u) / 1000000000) fs g1 of
        None \<Rightarrow> None
      | Some (Inl e) \<Rightarrow> Some (Inl e)
      | Some (Inr (fs', g')) \<Rightarrow> all_slices rep depth content as_list lam slice_duration slice_rate_f base stop rest fs' g'))"

text \<open>A rate that is infinite or not a number is outside the model, as in \<^verbatim>\<open>generate_flows\<close>.\<close>

definition generate_dynamic_flows ::
  "(pyfloat \<Rightarrow> string) \<Rightarrow> nat \<Rightarrow> int list list \<Rightarrow> string \<Rightarrow> string \<Rightarrow> real \<Rightarrow> real \<Rightarrow> string \<Rightarrow> real \<Rightarrow> traffic_state
     \<Rightarrow> (flow list \<times> traffic_state) res option" where
  "generate_dynamic_flows rep depth as_list content total_rate duration slice_duration slice_rate base_time g =
    (case translate_bandwidth total_rate of
       Inl e \<Rightarrow> Some (Inl e)
     | Inr total_rate_v \<Rightarrow>
    (case translate_bandwidth slice_rate of
       Inl e \<Rightarrow> Some (Inl e)
     | Inr slice_rate_v \<Rightarrow>
    (case (total_rate_v, slice_rate_v) of
       (Fin total_rate_f, Fin slice_rate_f) \<Rightarrow>
      (case slice_gap total_rate_f slice_rate_f duration slice_duration of
         Inl e \<Rightarrow> Some (Inl e)
       | Inr avg_interval \<Rightarrow>
           all_slices rep depth content as_list (avg_interval * 1000000000) slice_duration slice_rate_f base_time
             (base_time + duration) as_list [] g)
     | _ \<Rightarrow> None)))"

section \<open>The main functions\<close>

text \<open>The flows of a generator that may run for ever or raise.\<close>

definition flows_of :: "(flow list \<times> traffic_state) res option \<Rightarrow> (workspace, flow list) action" where
  "flows_of r w = map_option (\<lambda>q. (map_sum id fst q, w)) r"

text \<open>The two drivers differ in the distribution they read, the name of their files and the defaults of two options.\<close>

record load_driver =
  ld_cdf :: string
  ld_name :: string

record load_args =
  ga_loads :: string
  ga_duration_ms :: real
  ga_base_time_s :: real
  ga_seed_base :: int

definition fadoop_driver :: load_driver where
  "fadoop_driver = \<lparr>ld_cdf = ''FbHdp.txt'', ld_name = ''fadoop''\<rparr>"

definition fadoop_defaults :: load_args where
  "fadoop_defaults = \<lparr>ga_loads = ''70,80'', ga_duration_ms = 100, ga_base_time_s = 2, ga_seed_base = 36000\<rparr>"

definition websearch_driver :: load_driver where
  "websearch_driver = \<lparr>ld_cdf = ''WebSearch.txt'', ld_name = ''websearch''\<rparr>"

definition websearch_defaults :: load_args where
  "websearch_defaults = \<lparr>ga_loads = ''50,60,70'', ga_duration_ms = 100, ga_base_time_s = 2, ga_seed_base = 35000\<rparr>"

definition load_file :: "load_driver \<Rightarrow> int \<Rightarrow> string" where
  "load_file drv load_gbps = ''flow_'' @ ld_name drv @ ''_s2_100ms_'' @ py_str_int load_gbps @ ''G.txt''"

definition load_path :: "string \<Rightarrow> load_driver \<Rightarrow> int \<Rightarrow> string" where
  "load_path script_dir drv load_gbps = path_join script_dir (load_file drv load_gbps)"

definition load_summary :: "int \<Rightarrow> real \<Rightarrow> string \<Rightarrow> flow list \<Rightarrow> string res" where
  "load_summary load_gbps duration_s output_path fs =
    (let total_bytes = total_size fs;
         aggregate_rate_gbps = (if 0 < duration_s then of_int total_bytes * 8 / duration_s / 1000000000 else 0)
     in if fs = [] then Inl ZeroDivisionError
        else Inr (''generated load='' @ py_str_int load_gbps @ ''G flows='' @ py_str_int (int (length fs))
          @ '' avg_size='' @ fmt_fixed 2 (of_int total_bytes / real (length fs)) @ ''B agg_rate='' @ fmt_fixed 3 aggregate_rate_gbps
          @ ''Gbps output='' @ output_path))"

text \<open>\<open>seeded\<close> gives the random draws of a seed. The port table is cleared for every load.\<close>

definition generate_one ::
  "string \<Rightarrow> nat \<Rightarrow> (int \<Rightarrow> traffic_state) \<Rightarrow> load_driver \<Rightarrow> int \<Rightarrow> real \<Rightarrow> real \<Rightarrow> int \<Rightarrow> (workspace, unit) action" where
  "generate_one script_dir depth seeded drv load_gbps duration_s base_time_s seed_base =
    act_bind (read_text (path_join script_dir (ld_cdf drv))) (\<lambda>content.
    act_bind (flows_of (generate_flows depth [0..63] [0..63] content (py_str_int load_gbps @ ''G'') duration_s base_time_s True
        ((seeded (seed_base + load_gbps))\<lparr>ports := \<lambda>_. None\<rparr>))) (\<lambda>flows.
    act_bind (write_text (load_path script_dir drv load_gbps) (write_flow_file flows)) (\<lambda>_.
    act_bind (act_lift (load_summary load_gbps duration_s (load_path script_dir drv load_gbps) flows)) print_line)))"

definition loads_main :: "string \<Rightarrow> nat \<Rightarrow> (int \<Rightarrow> traffic_state) \<Rightarrow> load_driver \<Rightarrow> load_args \<Rightarrow> (workspace, unit) action" where
  "loads_main script_dir depth seeded drv args =
    act_bind (act_lift (parse_loads (ga_loads args))) (\<lambda>loads.
    act_fold (\<lambda>load_gbps _. generate_one script_dir depth seeded drv load_gbps (ga_duration_ms args / 1000)
        (ga_base_time_s args) (ga_seed_base args)) loads ())"

text \<open>\<^verbatim>\<open>gen_traffic.py\<close> as a script; \<open>script_dir\<close> is the directory part of the name it was started with.\<close>

definition gen_traffic_main :: "string \<Rightarrow> nat \<Rightarrow> traffic_state \<Rightarrow> (workspace, unit) action" where
  "gen_traffic_main script_dir depth g =
    (let saved_path = path_join script_dir ''flow_normal_s2.txt'' in
     act_bind (read_text (path_join (path_join script_dir ''./'') ''FbHdp'' @ ''.txt'')) (\<lambda>content.
     act_bind (flows_of (generate_flows depth [0..63] [0..63] content ''30G'' (1 / 5) 2 True (g\<lparr>ports := \<lambda>_. None\<rparr>))) (\<lambda>flows.
     act_bind (print_line (''Flow count: '' @ py_str_int (int (length flows)) @ '', Saved to: '' @ saved_path)) (\<lambda>_.
     write_text saved_path (write_flow_file flows)))))"

text \<open>\<^verbatim>\<open>llm_traffic_gen.py\<close> has no main function: importing it runs this.\<close>

definition llm_traffic_path :: string where
  "llm_traffic_path = ''/home/zhangj25/dcqcn-tuning/Paraleon-ns3/traffic_gen/llm_traffic.txt''"

definition llm_traffic_script :: "(workspace, unit) action" where
  "llm_traffic_script =
    act_bind (act_lift (llm_generate_flows [0..19] 0 10 (12 * 1024 * 1024) (1 / 50) 100 None (\<lambda>_. None)))
      (\<lambda>(flows, round_starts, period, m).
    act_bind (write_text llm_traffic_path (write_flows_to_file flows)) (\<lambda>_.
    print_lines ([''Total flows: '' @ py_str_int (int (length flows)), ''Flows per round: '' @ py_str_int (20 * 19),
       ''Round period: '' @ fmt_fixed 9 period @ '' s'', ''Round starts:'']
       @ map (\<lambda>(i, t). py_str_int (int i) @ '' '' @ fmt_fixed 9 t) (enumerate 0 round_starts))))"

text \<open>\<open>main\<close> of \<^verbatim>\<open>gen_llm_onoff_topo_s.py\<close>: a relative output is under the root; its directory is made when missing.\<close>

definition llm_report :: "string \<Rightarrow> llm_args \<Rightarrow> int list \<Rightarrow> int \<Rightarrow> flow list \<Rightarrow> real list \<Rightarrow> real \<Rightarrow> real \<Rightarrow> string list" where
  "llm_report output_path args workers flow_size_bytes flows round_starts on_time_s period_s =
    [''output = '' @ output_path, ''workers = '' @ str_join '' '' (map py_str_int workers),
     ''rounds = '' @ py_str_int (la_rounds args), ''flows_per_round = '' @ py_str_int (int (length workers) * (int (length workers) - 1)),
     ''total_flows = '' @ py_str_int (int (length flows)), ''flow_size_bytes = '' @ py_str_int flow_size_bytes,
     ''estimated_on_time_s = '' @ fmt_fixed 9 on_time_s, ''off_time_s = '' @ fmt_fixed 9 (la_off_ms args / 1000),
     ''period_s = '' @ fmt_fixed 9 period_s]
    @ map (\<lambda>(i, t). ''round_'' @ (let s = str_nat i in if length s < 2 then ''0'' @ s else s) @ ''_start = '' @ fmt_fixed 9 t)
        (enumerate 1 round_starts)"

definition llm_script ::
  "(string \<Rightarrow> string) \<Rightarrow> (string \<Rightarrow> string) \<Rightarrow> string \<Rightarrow> string \<Rightarrow> llm_args \<Rightarrow> (workspace, unit) action" where
  "llm_script expanduser resolve root_dir output args =
    act_bind (act_lift (llm_plan args)) (\<lambda>(workers, flow_size_bytes, flows, round_starts, on_time_s, period_s).
    (let output_path = (if isabs (expanduser output) then expanduser output else resolve (path_join root_dir (expanduser output))) in
     act_bind (make_parent output_path) (\<lambda>_.
     act_bind (write_text output_path (write_flow_file flows)) (\<lambda>_.
     print_lines (llm_report output_path args workers flow_size_bytes flows round_starts on_time_s period_s)))))"

text \<open>\<^verbatim>\<open>plot_flow_size_cdf.py\<close>: \<open>render\<close> is the figure of the two curves with the given tick labels in a format.\<close>

definition size_ticks :: "string list" where
  "size_ticks = map format_size_ticks [100, 1000, 10000, 100000, 1000000, 10000000]"

definition read_series :: "string \<Rightarrow> string \<Rightarrow> (workspace, string \<times> (pyfloat \<times> pyfloat) list \<times> string) action" where
  "read_series script_dir label =
    act_bind (read_text (path_join script_dir (label @ ''.txt''))) (\<lambda>content.
    act_bind (act_lift (load_cdf_points content)) (\<lambda>ps.
    act_ret (label, ps, if label = ''FbHdp'' then ''#D87123'' else ''#0072B2'')))"

definition size_cdf_main ::
  "((string \<times> (pyfloat \<times> pyfloat) list \<times> string) list \<Rightarrow> string list \<Rightarrow> string \<Rightarrow> string) \<Rightarrow> (string \<Rightarrow> string) \<Rightarrow> (string \<Rightarrow> string)
     \<Rightarrow> string \<Rightarrow> string \<Rightarrow> string \<Rightarrow> string list \<Rightarrow> (workspace, unit) action" where
  "size_cdf_main render expanduser resolve script_dir output_dir output_name formats =
    (let dir = (if isabs (expanduser output_dir) then expanduser output_dir else resolve (path_join script_dir (expanduser output_dir)));
         out = (\<lambda>ext. path_join dir (output_name @ ''.'' @ ext)) in
     act_bind (read_series script_dir ''FbHdp'') (\<lambda>hadoop.
     act_bind (read_series script_dir ''WebSearch'') (\<lambda>web.
     act_bind (act_fold (\<lambda>ext _. act_bind (make_parent (out ext)) (\<lambda>_.
         write_text (out ext) (render [hadoop, web] size_ticks ext))) formats ()) (\<lambda>_.
     print_lines (map (\<lambda>ext. ''plot_path = '' @ out ext) formats)))))"


section \<open>Every slice is between two systems\<close>

definition between_systems :: "int list list \<Rightarrow> real \<Rightarrow> real \<Rightarrow> flow \<Rightarrow> bool" where
  "between_systems as_list lo hi f \<longleftrightarrow>
     (\<exists>a \<in> set as_list. \<exists>b \<in> set as_list. a \<noteq> b \<and> f_src f \<in> set a \<and> f_dst f \<in> set b) \<and> f_src f \<noteq> f_dst f
     \<and> 100 \<le> f_size f \<and> lo \<le> f_time f \<and> f_time f < hi"

text \<open>A distribution, a slice rate and random draws that the generator can work with. Floats read back from their
  \<^verbatim>\<open>repr\<close>, at least the rates that are printed.\<close>

definition dynamic_ok ::
  "(pyfloat \<Rightarrow> string) \<Rightarrow> string \<Rightarrow> (real \<times> real) list \<Rightarrow> int list list \<Rightarrow> real \<Rightarrow> traffic_state \<Rightarrow> bool" where
  "dynamic_ok rep content cdf as_list slice_rate_f g \<longleftrightarrow>
     (\<exists>pts. CustomRand content = Inr pts \<and> points pts = Some cdf) \<and> cdf_ok cdf \<and> 0 < get_avg cdf \<and> 0 < slice_rate_f \<and> draws_ok g
     \<and> (\<forall>a \<in> set as_list. a \<noteq> [] \<longrightarrow>
          (let r = slice_rate_f / real (length a) / 1000000000 in py_float (rep (Fin r)) = Inr (Fin r)))"

lemma dynamic_ok_cong: "unif g' = unif g \<Longrightarrow> dynamic_ok rep content cdf as_list sr g' = dynamic_ok rep content cdf as_list sr g"
  by (simp add: dynamic_ok_def draws_ok_cong[of g' g])

lemma py_float_empty: "py_float [] = Inl ValueError"
  by code_simp

lemma slice_workload:
  assumes "dynamic_ok rep content cdf as_list sr g" "a \<in> set as_list" "a \<noteq> []"
  shows "workload_ok content (host_rate_text rep sr a) cdf (sr / real (length a)) g"
proof -
  let ?r = "sr / real (length a) / 1000000000"
  have r: "py_float (rep (Fin ?r)) = Inr (Fin ?r)" using assms by (auto simp: dynamic_ok_def Let_def)
  then have "rep (Fin ?r) \<noteq> []" by (auto simp: py_float_empty)
  then have "\<not> length (rep (Fin ?r) @ ''G'') < 2" by (cases "rep (Fin ?r)") simp_all
  then have "translate_bandwidth (host_rate_text rep sr a) = Inr (Fin (sr / real (length a)))"
    using r by (simp add: translate_bandwidth_def host_rate_text_def units_def butlast_append)
  then show ?thesis using assms by (simp add: workload_ok_def dynamic_ok_def)
qed

definition slices_sound ::
  "(real \<times> real) list \<Rightarrow> real \<Rightarrow> (pyfloat \<Rightarrow> string) \<Rightarrow> nat \<Rightarrow> string \<Rightarrow> int list list \<Rightarrow> real \<Rightarrow> real \<Rightarrow> real \<Rightarrow> real \<Rightarrow> int list \<Rightarrow> real
     \<Rightarrow> flow list \<Rightarrow> traffic_state \<Rightarrow> (flow list \<times> traffic_state) res \<Rightarrow> bool" where
  "slices_sound cdf lo rep depth content as_list lam sd sr stop src_as cur fs g r \<longleftrightarrow>
     (dynamic_ok rep content cdf as_list sr g \<and> 0 \<le> lam \<and> lo \<le> cur \<and> src_as \<in> set as_list \<longrightarrow>
       (case r of Inl e \<Rightarrow> True
        | Inr (fs', g') \<Rightarrow> unif g' = unif g
            \<and> (\<exists>new. fs' = fs @ new \<and> list_all (between_systems as_list lo (stop + sd)) new \<and> fresh_flows g new g')))"

lemma slice_between:
  assumes "window_ok a b cur sd new" "a \<in> set as_list" "b \<in> set (filter (\<lambda>x. x \<noteq> a) as_list)" "lo \<le> cur" "cur < stop"
  shows "list_all (between_systems as_list lo (stop + sd)) new"
proof -
  have b: "b \<in> set as_list" "a \<noteq> b" using assms(3) by auto
  have "between_systems as_list lo (stop + sd) f" if "f \<in> set new" for f
  proof -
    have "f_src f \<in> set a" "f_dst f \<in> set b" "f_src f \<noteq> f_dst f" "100 \<le> f_size f" "cur \<le> f_time f" "f_time f < cur + sd"
      using assms(1) that by (simp_all add: window_ok_def list_all_iff)
    then show ?thesis using assms(2,4,5) b unfolding between_systems_def by force
  qed
  then show ?thesis by (simp add: list_all_iff)
qed

text \<open>The body of the loop with its recursive call abstracted.\<close>

definition slice_body ::
  "(real \<Rightarrow> flow list \<Rightarrow> traffic_state \<Rightarrow> (flow list \<times> traffic_state) res option) \<Rightarrow> (pyfloat \<Rightarrow> string) \<Rightarrow> nat \<Rightarrow> string \<Rightarrow> int list list
     \<Rightarrow> real \<Rightarrow> real \<Rightarrow> real \<Rightarrow> real \<Rightarrow> int list \<Rightarrow> real \<Rightarrow> flow list \<Rightarrow> traffic_state \<Rightarrow> (flow list \<times> traffic_state) res option" where
  "slice_body go rep depth content as_list lam slice_duration slice_rate_f stop src_as cur fs g =
    (if cur < stop then
       (let cand = filter (\<lambda>as_item. as_item \<noteq> src_as) as_list in
        if cand = [] then Some (Inl IndexError)
        else
          (let (dst_as, g1) = choice cand g in
           if src_as = [] then Some (Inl ZeroDivisionError)
           else
             (case generate_flows depth src_as dst_as content (host_rate_text rep slice_rate_f src_as) slice_duration cur False g1 of
                None \<Rightarrow> None
              | Some (Inl e) \<Rightarrow> Some (Inl e)
              | Some (Inr (new, g2)) \<Rightarrow>
                  (let (u, g3) = next_uniform g2 in go (cur + of_int (poisson lam u) / 1000000000) (fs @ new) g3))))
     else Some (Inr (fs, g)))"

lemma as_slices_body:
  "as_slices rep depth content as_list lam sd sr stop src_as cur fs g =
     slice_body (as_slices rep depth content as_list lam sd sr stop src_as) rep depth content as_list lam sd sr stop src_as cur fs g"
  by (subst as_slices.simps) (simp only: slice_body_def)

text \<open>One pass: a slice to another system, and the loop goes on.\<close>

definition slice_pass ::
  "int list list \<Rightarrow> real \<Rightarrow> real \<Rightarrow> int list \<Rightarrow> real \<Rightarrow> traffic_state \<Rightarrow> flow list \<Rightarrow> traffic_state \<Rightarrow> real \<Rightarrow> bool" where
  "slice_pass as_list stop sd src_as cur g new g' u \<longleftrightarrow>
     unif g' = unif g \<and> u = unif g (upos g' - 1) \<and> 0 < upos g' \<and> fresh_flows g new g'
     \<and> (\<forall>lo \<le> cur. list_all (between_systems as_list lo (stop + sd)) new)"

lemma slice_generated:
  assumes "dynamic_ok rep content cdf as_list sr g" "src_as \<in> set as_list" "src_as \<noteq> []"
    "filter (\<lambda>x. x \<noteq> src_as) as_list \<noteq> []" "choice (filter (\<lambda>x. x \<noteq> src_as) as_list) g = (b, g1)"
    "generate_flows depth src_as b content (host_rate_text rep sr src_as) sd cur False g1 = Some (Inr (new, g2))"
    "next_uniform g2 = (u, g3)" "cur < stop"
  shows "slice_pass as_list stop sd src_as cur g new g3 u"
proof -
  have g1: "unif g1 = unif g" "ports g1 = ports g" "b \<in> set (filter (\<lambda>x. x \<noteq> src_as) as_list)"
    and g3: "unif g3 = unif g2" "ports g3 = ports g2" "u = unif g2 (upos g2)" "upos g3 = Suc (upos g2)"
    using choice_in[OF assms(4), of g] assms(5,7) by (auto simp: choice_def next_uniform_def)
  have "dynamic_ok rep content cdf as_list sr g1" using assms(1) dynamic_ok_cong[OF g1(1)] by simp
  then have w: "window_ok src_as b cur sd new" "unif g2 = unif g1" "fresh_flows g1 new g2"
    using generate_flows_run[OF slice_workload[OF _ assms(2,3)] assms(6)] by simp_all
  then show ?thesis
    using g1 g3 slice_between[OF w(1) assms(2) g1(3) _ assms(8)] by (simp add: slice_pass_def fresh_flows_def)
qed

lemma slice_body_pass:
  assumes "slice_body go rep depth content as_list lam sd sr stop src_as cur fs g = Some (Inr r)" "cur < stop"
    "dynamic_ok rep content cdf as_list sr g" "src_as \<in> set as_list"
  obtains new g' u where "slice_pass as_list stop sd src_as cur g new g' u"
    "go (cur + of_int (poisson lam u) / 1000000000) (fs @ new) g' = Some (Inr r)"
proof -
  let ?cand = "filter (\<lambda>x. x \<noteq> src_as) as_list"
  obtain b g1 where c: "choice ?cand g = (b, g1)" by fastforce
  have ne: "?cand \<noteq> []" "src_as \<noteq> []" using assms(1,2) c by (auto simp: slice_body_def Let_def split: if_splits)
  then obtain new g2 where gen: "generate_flows depth src_as b content (host_rate_text rep sr src_as) sd cur False g1 = Some (Inr (new, g2))"
    using assms(1,2) c by (auto simp: slice_body_def Let_def split: option.splits sum.splits)
  obtain u g3 where n: "next_uniform g2 = (u, g3)" by fastforce
  show thesis
    by (rule that[OF slice_generated[OF assms(3,4) ne(2,1) c gen n assms(2)]])
       (use assms(1,2) c ne gen n in \<open>simp add: slice_body_def Let_def\<close>)
qed

lemma slice_body_sound:
  assumes "\<And>cur fs g r. go cur fs g = Some r \<Longrightarrow> slices_sound cdf lo rep depth content as_list lam sd sr stop src_as cur fs g r"
    and body: "slice_body go rep depth content as_list lam sd sr stop src_as cur fs g = Some r"
  shows "slices_sound cdf lo rep depth content as_list lam sd sr stop src_as cur fs g r"
  unfolding slices_sound_def
proof (intro impI, elim conjE)
  assume d: "dynamic_ok rep content cdf as_list sr g" and p: "0 \<le> lam" "lo \<le> cur" "src_as \<in> set as_list"
  show "case r of Inl e \<Rightarrow> True
    | Inr (fs', g') \<Rightarrow> unif g' = unif g
        \<and> (\<exists>new. fs' = fs @ new \<and> list_all (between_systems as_list lo (stop + sd)) new \<and> fresh_flows g new g')"
  proof (cases r)
    case (Inr q)
    obtain fs' g' where q: "q = (fs', g')" by fastforce
    show ?thesis
    proof (cases "cur < stop")
      case False
      then show ?thesis using body by (auto simp: slice_body_def)
    next
      case True
      obtain new g1 u where s: "slice_pass as_list stop sd src_as cur g new g1 u"
        and go: "go (cur + of_int (poisson lam u) / 1000000000) (fs @ new) g1 = Some (Inr q)"
        using slice_body_pass[OF body[unfolded Inr] True d p(3)] by blast
      have "0 \<le> poisson lam u" using s d p(1) by (intro poisson_nonneg) (simp_all add: slice_pass_def dynamic_ok_def draws_ok_def)
      then have "lo \<le> cur + of_int (poisson lam u) / 1000000000" using p(2) by (simp add: add_increasing2)
      moreover have "dynamic_ok rep content cdf as_list sr g1" using s d dynamic_ok_cong[of g1 g] by (simp add: slice_pass_def)
      ultimately obtain more where m: "unif g' = unif g1" "fs' = (fs @ new) @ more"
        "list_all (between_systems as_list lo (stop + sd)) more" "fresh_flows g1 more g'"
        using assms(1)[OF go] p by (auto simp: slices_sound_def q)
      then show ?thesis
        using s p(2) fresh_flows_append[OF _ m(4), of g new]
        by (auto simp: Inr q slice_pass_def intro!: exI[of _ "new @ more"])
    qed
  qed simp
qed

lemma as_slices_sound:
  assumes "as_slices rep depth content as_list lam sd sr stop src_as cur fs g = Some r"
  shows "slices_sound cdf lo rep depth content as_list lam sd sr stop src_as cur fs g r"
proof (rule as_slices.raw_induct[OF _ assms, where P = "slices_sound cdf lo"], goal_cases)
  case (1 go rep depth content as_list lam sd sr stop src_as cur fs g r)
  show ?case
  proof (rule slice_body_sound)
    show "slice_body (go rep depth content as_list lam sd sr stop src_as) rep depth content as_list lam sd sr stop src_as cur fs g = Some r"
      unfolding slice_body_def by (rule 1(2))
  qed (rule 1(1))
qed

lemma all_slices_Cons:
  "all_slices rep depth content as_list lam sd sr base stop (a # rest) fs g =
    (case as_slices rep depth content as_list lam sd sr stop a (base + of_int (poisson lam (unif g (upos g))) / 1000000000) fs
            (snd (next_uniform g)) of
        None \<Rightarrow> None
      | Some (Inl e) \<Rightarrow> Some (Inl e)
      | Some (Inr (fs', g')) \<Rightarrow> all_slices rep depth content as_list lam sd sr base stop rest fs' g')"
  by (simp add: next_uniform_def)

declare all_slices.simps(2) [simp del]

lemma all_slices_sound:
  assumes "0 \<le> lam"
  shows "all_slices rep depth content as_list lam sd sr base stop srcs fs g = Some (Inr (fs', g')) \<Longrightarrow>
    set srcs \<subseteq> set as_list \<Longrightarrow> dynamic_ok rep content cdf as_list sr g \<Longrightarrow>
    unif g' = unif g \<and> (\<exists>new. fs' = fs @ new \<and> list_all (between_systems as_list base (stop + sd)) new \<and> fresh_flows g new g')"
proof (induction srcs arbitrary: fs g)
  case (Cons a srcs)
  let ?u = "unif g (upos g)" and ?g1 = "snd (next_uniform g)"
  let ?cur = "base + of_int (poisson lam ?u) / 1000000000"
  obtain fs1 g2 where h: "as_slices rep depth content as_list lam sd sr stop a ?cur fs ?g1 = Some (Inr (fs1, g2))"
    and rest: "all_slices rep depth content as_list lam sd sr base stop srcs fs1 g2 = Some (Inr (fs', g'))"
    using Cons.prems(1) by (auto simp: all_slices_Cons split: option.splits sum.splits)
  have d: "dynamic_ok rep content cdf as_list sr ?g1" using Cons.prems(3) dynamic_ok_cong[of ?g1 g] by simp
  have "base \<le> ?cur" using poisson_nonneg[OF assms] Cons.prems(3) by (simp add: dynamic_ok_def draws_ok_def)
  then obtain new where new: "unif g2 = unif g" "fs1 = fs @ new" "list_all (between_systems as_list base (stop + sd)) new" "fresh_flows ?g1 new g2"
    using as_slices_sound[OF h, of cdf base] d assms Cons.prems(2) by (auto simp: slices_sound_def)
  have d2: "dynamic_ok rep content cdf as_list sr g2" using Cons.prems(3) dynamic_ok_cong[OF new(1)] by simp
  have f: "fresh_flows g new g2" using new(4) by (simp add: fresh_flows_def)
  obtain more where "unif g' = unif g2" "fs' = fs1 @ more" "list_all (between_systems as_list base (stop + sd)) more" "fresh_flows g2 more g'"
    using Cons.IH[OF rest _ d2] Cons.prems(2) by auto
  then show ?case
    using new fresh_flows_append[OF f, of more g'] by (intro conjI exI[of _ "new @ more"]) auto
qed simp

text \<open>C33: What \<^verbatim>\<open>generate_dynamic_flows\<close> returns: every flow goes from a host of one system to another host in a
  different one, has at least 100 bytes and starts between the base time and one slice after the end of the window,
  and no two flows of all the slices share end points and port.\<close>

theorem dynamic_flows_ok:
  assumes "generate_dynamic_flows rep depth as_list content total_rate duration slice_duration slice_rate base_time g = Some (Inr (fs, g'))"
    "translate_bandwidth total_rate = Inr (Fin tr)" "translate_bandwidth slice_rate = Inr (Fin sr)"
    "dynamic_ok rep content cdf as_list sr g" "0 \<le> tr" "0 \<le> duration" "0 \<le> slice_duration"
  shows "distinct (map flow_id3 fs) \<and> list_all (between_systems as_list base_time (base_time + duration + slice_duration)) fs"
proof -
  obtain gap where gap: "slice_gap tr sr duration slice_duration = Inr gap"
    and r: "all_slices rep depth content as_list (gap * 1000000000) slice_duration sr base_time (base_time + duration) as_list [] g = Some (Inr (fs, g'))"
    using assms(1-3) by (auto simp: generate_dynamic_flows_def split: sum.splits)
  have "0 \<le> tr * duration / (sr * slice_duration)" using assms(4-7) by (simp add: dynamic_ok_def)
  then have "0 \<le> gap" using gap assms(6) by (auto simp: slice_gap_def Let_def py_trunc_def split: if_splits)
  then have a: "list_all (between_systems as_list base_time (base_time + duration + slice_duration)) fs \<and> fresh_flows g fs g'"
    using all_slices_sound[OF _ r _ assms(4)] by simp
  then show ?thesis
    using fresh_flows_distinct by auto
qed

section \<open>The slices end\<close>

text \<open>Every system has hosts, another system to send to, and in it for each host another one; the gaps between slices
  are nanoseconds at least, and those between the flows of a system keep coming.\<close>

definition slices_progress :: "(real \<times> real) list \<Rightarrow> int list list \<Rightarrow> real \<Rightarrow> real \<Rightarrow> traffic_state \<Rightarrow> bool" where
  "slices_progress cdf as_list sr lam g \<longleftrightarrow>
     (\<forall>n. 1 \<le> poisson lam (unif g n))
     \<and> (\<forall>a \<in> set as_list. a \<noteq> [] \<and> (\<exists>b \<in> set as_list. b \<noteq> a)
          \<and> (\<forall>b \<in> set as_list. b \<noteq> a \<longrightarrow> (\<forall>s \<in> set a. \<exists>d \<in> set b. d \<noteq> s))
          \<and> progressing (mean_gap (sr / real (length a)) (get_avg cdf)) g)"

lemma slices_progress_cong: "unif g' = unif g \<Longrightarrow> slices_progress cdf as_list sr lam g' = slices_progress cdf as_list sr lam g"
  by (simp add: slices_progress_def progressing_def)

lemma as_slices_next:
  assumes "dynamic_ok rep content cdf as_list sr g" "slices_progress cdf as_list sr lam g" "a \<in> set as_list" "0 < sd" "cur < stop"
  obtains new g' u where "slice_pass as_list stop sd a cur g new g' u"
    "as_slices rep (Suc depth) content as_list lam sd sr stop a cur fs g =
       as_slices rep (Suc depth) content as_list lam sd sr stop a (cur + of_int (poisson lam u) / 1000000000) (fs @ new) g'"
proof -
  let ?cand = "filter (\<lambda>x. x \<noteq> a) as_list"
  obtain b g1 where c: "choice ?cand g = (b, g1)" by fastforce
  have ne: "?cand \<noteq> []" "a \<noteq> []" using assms(2,3) by (auto simp: slices_progress_def filter_empty_conv)
  have g1: "unif g1 = unif g" "b \<in> set ?cand" using c choice_in[OF ne(1), of g] by (auto simp: choice_def)
  have "\<forall>s \<in> set a. \<exists>d \<in> set b. d \<noteq> s" "progressing (mean_gap (sr / real (length a)) (get_avg cdf)) g1"
    using assms(2,3) g1 by (auto simp: slices_progress_def progressing_cong[OF g1(1)])
  moreover have "workload_ok content (host_rate_text rep sr a) cdf (sr / real (length a)) g1"
    using slice_workload[OF _ assms(3) ne(2)] assms(1) dynamic_ok_cong[OF g1(1)] by blast
  ultimately obtain new g2 where gen: "generate_flows (Suc depth) a b content (host_rate_text rep sr a) sd cur False g1 = Some (Inr (new, g2))"
    using generate_flows_total[OF _ _ _ assms(4)] by fastforce
  obtain u g3 where n: "next_uniform g2 = (u, g3)" by fastforce
  show thesis
  proof (rule that)
    show "slice_pass as_list stop sd a cur g new g3 u"
      by (rule slice_generated[OF assms(1,3) ne(2,1) c gen n assms(5)])
    show "as_slices rep (Suc depth) content as_list lam sd sr stop a cur fs g =
       as_slices rep (Suc depth) content as_list lam sd sr stop a (cur + of_int (poisson lam u) / 1000000000) (fs @ new) g3"
      unfolding as_slices_body[of rep _ content as_list lam sd sr stop a cur]
      using assms(5) ne c gen n by (simp add: slice_body_def Let_def)
  qed
qed

lemma as_slices_returns:
  assumes "a \<in> set as_list" "0 < sd"
  shows "dynamic_ok rep content cdf as_list sr g \<Longrightarrow> slices_progress cdf as_list sr lam g \<Longrightarrow> stop - cur \<le> real N / 1000000000 \<Longrightarrow>
    \<exists>fs' g'. as_slices rep (Suc depth) content as_list lam sd sr stop a cur fs g = Some (Inr (fs', g')) \<and> unif g' = unif g"
proof (induction N arbitrary: cur fs g)
  case 0
  then have "\<not> cur < stop" by simp
  then show ?case by (subst as_slices_body) (simp add: slice_body_def)
next
  case (Suc N)
  show ?case
  proof (cases "cur < stop")
    case True
    obtain new g' u where s: "slice_pass as_list stop sd a cur g new g' u"
      and go: "as_slices rep (Suc depth) content as_list lam sd sr stop a cur fs g =
         as_slices rep (Suc depth) content as_list lam sd sr stop a (cur + of_int (poisson lam u) / 1000000000) (fs @ new) g'"
      by (rule as_slices_next[OF Suc.prems(1,2) assms True])
    have u: "unif g' = unif g" "1 \<le> poisson lam u" using s Suc.prems(2) by (simp_all add: slice_pass_def slices_progress_def)
    then have "stop - (cur + of_int (poisson lam u) / 1000000000) \<le> real N / 1000000000"
      using Suc.prems(3) by (simp add: field_simps)
    then show ?thesis
      using Suc.IH[of g'] Suc.prems(1,2) dynamic_ok_cong[OF u(1)] slices_progress_cong[OF u(1)] u(1) unfolding go by metis
  qed (subst as_slices_body, simp add: slice_body_def)
qed

lemma all_slices_returns:
  assumes "0 < sd"
  shows "set srcs \<subseteq> set as_list \<Longrightarrow> dynamic_ok rep content cdf as_list sr g \<Longrightarrow> slices_progress cdf as_list sr lam g \<Longrightarrow>
    \<exists>r. all_slices rep (Suc depth) content as_list lam sd sr base stop srcs fs g = Some (Inr r)"
proof (induction srcs arbitrary: fs g)
  case (Cons a srcs)
  let ?cur = "base + of_int (poisson lam (unif g (upos g))) / 1000000000" and ?g1 = "snd (next_uniform g)"
  have g1: "unif ?g1 = unif g" by simp
  obtain N :: nat where "(stop - ?cur) * 1000000000 \<le> real N" using real_arch_simple by blast
  then have N: "stop - ?cur \<le> real N / 1000000000" by (simp add: field_simps)
  have a: "a \<in> set as_list" using Cons.prems(1) by simp
  obtain fs1 g2 where h: "as_slices rep (Suc depth) content as_list lam sd sr stop a ?cur fs ?g1 = Some (Inr (fs1, g2))" "unif g2 = unif ?g1"
    using as_slices_returns[OF a assms _ _ N, of rep content cdf sr ?g1 lam] Cons.prems(2,3) dynamic_ok_cong[OF g1] slices_progress_cong[OF g1]
    by blast
  have g2: "unif g2 = unif g" using h(2) g1 by simp
  show ?case
    unfolding all_slices_Cons h(1)
    using Cons.IH[of g2] Cons.prems dynamic_ok_cong[OF g2] slices_progress_cong[OF g2] by simp
qed simp

lemma dynamic_flows_returns:
  assumes "translate_bandwidth total_rate = Inr (Fin tr)" "translate_bandwidth slice_rate = Inr (Fin sr)"
    "slice_gap tr sr duration slice_duration = Inr gap" "0 < slice_duration"
    "dynamic_ok rep content cdf as_list sr g" "slices_progress cdf as_list sr (gap * 1000000000) g"
  shows "\<exists>r. generate_dynamic_flows rep (Suc depth) as_list content total_rate duration slice_duration slice_rate base_time g = Some (Inr r)"
  using all_slices_returns[OF assms(4) subset_refl assms(5,6)] by (simp add: generate_dynamic_flows_def assms(1-3))

text \<open>With less to send than one slice carries there is no slice to space out.\<close>

lemma short_workload_raises:
  assumes "translate_bandwidth total_rate = Inr (Fin tr)" "translate_bandwidth slice_rate = Inr (Fin sr)"
    "0 \<le> tr * duration" "tr * duration < sr * slice_duration"
  shows "generate_dynamic_flows rep depth as_list content total_rate duration slice_duration slice_rate base_time g = Some (Inl ZeroDivisionError)"
proof -
  have "0 \<le> tr * duration / (sr * slice_duration)" "tr * duration / (sr * slice_duration) < 1" using assms(3,4) by simp_all
  then have "py_trunc (tr * duration / (sr * slice_duration)) = 0" by (simp add: py_trunc_def floor_eq_iff)
  then show ?thesis by (simp add: generate_dynamic_flows_def slice_gap_def assms(1,2) Let_def)
qed

text \<open>Two systems of two hosts, with a slice every millisecond: every draw gives the mean gap.\<close>

definition demo_systems :: "int list list" where
  "demo_systems = [[0, 1], [2, 3]]"

lemma demo_dynamic: "dynamic_ok (\<lambda>_. ''4'') demo_cdf [(100, 0), (1000, 100)] demo_systems 8000000000 demo_draws"
proof -
  have "py_float ''4'' = Inr (Fin 4)" using py_float_str_nat[of 4] by (simp add: text_simps)
  then show ?thesis using demo_workload by (simp add: dynamic_ok_def workload_ok_def demo_systems_def)
qed

theorem dynamic_flows_ok_witness:
  "\<exists>fs g'. generate_dynamic_flows (\<lambda>_. ''4'') 1 demo_systems demo_cdf ''8G'' (1 / 100) (1 / 1000) ''8G'' 2 demo_draws = Some (Inr (fs, g'))
     \<and> distinct (map flow_id3 fs) \<and> list_all (between_systems demo_systems 2 (2 + 1 / 100 + 1 / 1000)) fs"
proof -
  have b: "translate_bandwidth ''8G'' = Inr (Fin 8000000000)" using demo_workload by (simp add: workload_ok_def)
  have gap: "slice_gap 8000000000 8000000000 (1 / 100) (1 / 1000) = Inr (1 / 1000)" by (simp add: slice_gap_def py_trunc_def)
  have "slices_progress [(100, 0), (1000, 100)] demo_systems 8000000000 (1 / 1000 * 1000000000) demo_draws"
    by (simp add: slices_progress_def demo_systems_def demo_draws_def progressing_def mean_gap_def get_avg_def poisson_def py_trunc_def)
  from dynamic_flows_returns[OF b b gap _ demo_dynamic this, of 0 2]
  obtain r where "generate_dynamic_flows (\<lambda>_. ''4'') 1 demo_systems demo_cdf ''8G'' (1 / 100) (1 / 1000) ''8G'' 2 demo_draws = Some (Inr r)"
    by auto
  then show ?thesis using dynamic_flows_ok[OF _ b b demo_dynamic, of 1 "1 / 100" "1 / 1000" 2 "fst r" "snd r"]
    by (intro exI[of _ "fst r"] exI[of _ "snd r"]) simp
qed

section \<open>The load drivers\<close>

text \<open>What one finished load leaves: a file with the flows drawn from the load's own seed, and a line about it.\<close>

definition load_done ::
  "string \<Rightarrow> nat \<Rightarrow> (int \<Rightarrow> traffic_state) \<Rightarrow> load_driver \<Rightarrow> string \<Rightarrow> real \<Rightarrow> real \<Rightarrow> int \<Rightarrow> int \<Rightarrow> flow list \<Rightarrow> bool" where
  "load_done script_dir depth seeded drv content duration_s base_time_s seed_base load_gbps fs \<longleftrightarrow>
     fs \<noteq> [] \<and> (\<exists>g'. generate_flows depth [0..63] [0..63] content (py_str_int load_gbps @ ''G'') duration_s base_time_s True
        ((seeded (seed_base + load_gbps))\<lparr>ports := \<lambda>_. None\<rparr>) = Some (Inr (fs, g')))"

lemma load_summary_flows: "load_summary load_gbps duration_s path fs = Inr line \<Longrightarrow> fs \<noteq> []"
  by (auto simp: load_summary_def Let_def)

lemma flows_of_Some: "flows_of r w = Some (Inr fs, w') \<longleftrightarrow> w' = w \<and> (\<exists>g'. r = Some (Inr (fs, g')))"
proof (cases r)
  case (Some q)
  then show ?thesis by (cases q) (auto simp: flows_of_def)
qed (simp add: flows_of_def)

lemmas script_steps = file_steps flows_of_Some

lemma generate_one_done:
  assumes "generate_one script_dir depth seeded drv load_gbps duration_s base_time_s seed_base w = Some (Inr (), w')"
  obtains content fs where "disk w (path_join script_dir (ld_cdf drv)) = Some content"
    "load_done script_dir depth seeded drv content duration_s base_time_s seed_base load_gbps fs"
    "disk w' = (disk w)(load_path script_dir drv load_gbps \<mapsto> write_flow_file fs)"
  using assms by (auto simp: generate_one_def script_steps load_done_def dest: load_summary_flows)

lemma py_str_int_inj: "py_str_int i = py_str_int j \<Longrightarrow> i = j"
  by (metis py_int_str sum.inject(2))

lemma load_file_start: "load_file drv i = CHR ''f'' # tl (load_file drv i)"
  by (simp only: load_file_def append_Cons list.sel)

lemma isabs_load_file: "\<not> isabs (load_file drv i)"
  by (subst load_file_start) (simp add: isabs_def starts_with_def)

lemma load_path_inj:
  assumes "load_path dir drv i = load_path dir drv j"
  shows "i = j"
proof -
  have "load_file drv i = load_file drv j"
    using assms unfolding load_path_def by (rule path_join_inj) (rule isabs_load_file)+
  then have "py_str_int i = py_str_int j" by (simp add: load_file_def)
  then show ?thesis by (rule py_str_int_inj)
qed

lemma cdf_start: "drv \<in> {fadoop_driver, websearch_driver} \<Longrightarrow> \<exists>c s. ld_cdf drv = c # s \<and> c \<noteq> CHR ''f'' \<and> c \<noteq> CHR ''/''"
  by (auto simp: fadoop_driver_def websearch_driver_def)

lemma load_path_cdf:
  assumes "drv \<in> {fadoop_driver, websearch_driver}"
  shows "load_path dir drv i \<noteq> path_join dir (ld_cdf drv)"
proof
  assume eq: "load_path dir drv i = path_join dir (ld_cdf drv)"
  obtain c s where c: "ld_cdf drv = c # s" "c \<noteq> CHR ''f''" "c \<noteq> CHR ''/''" using cdf_start[OF assms] by blast
  then have "\<not> isabs (ld_cdf drv)" by (simp add: isabs_def starts_with_def)
  then have "load_file drv i = ld_cdf drv" using path_join_inj[OF eq[unfolded load_path_def] isabs_load_file] by simp
  then show False using c load_file_start[of drv i] by simp
qed

lemma load_tokens_distinct: "res_fold load_token parts acc = Inr loads \<Longrightarrow> distinct acc \<Longrightarrow> distinct loads"
proof (induction parts arbitrary: acc)
  case (Cons p ps)
  obtain acc' where a: "load_token p acc = Inr acc'" "res_fold load_token ps acc' = Inr loads"
    using Cons.prems(1) by (cases "load_token p acc") simp_all
  have "distinct acc'"
    using a(1) Cons.prems(2) by (cases "py_int (str_strip p)") (auto simp: load_token_def Let_def split: if_splits)
  then show ?case by (rule Cons.IH[OF a(2)])
qed simp

lemma parse_loads_distinct: "parse_loads s = Inr loads \<Longrightarrow> distinct loads \<and> loads \<noteq> []"
  unfolding parse_loads_def
  by (cases "res_fold load_token (split_on (CHR '','') s) []") (auto dest: load_tokens_distinct split: if_splits)

lemma loads_run:
  assumes "drv \<in> {fadoop_driver, websearch_driver}"
  shows "act_fold (\<lambda>l _. generate_one dir depth seeded drv l dur base seed) loads () w = Some (Inr (), w') \<Longrightarrow>
    distinct loads \<Longrightarrow> disk w (path_join dir (ld_cdf drv)) = Some content \<Longrightarrow>
    (\<forall>l \<in> set loads. \<exists>fs. load_done dir depth seeded drv content dur base seed l fs
        \<and> disk w' (load_path dir drv l) = Some (write_flow_file fs))
    \<and> (\<forall>p. p \<notin> load_path dir drv ` set loads \<longrightarrow> disk w' p = disk w p)"
proof (induction loads arbitrary: w)
  case Nil
  then show ?case by (simp add: act_ret_def)
next
  case (Cons l ls)
  obtain w1 where one: "generate_one dir depth seeded drv l dur base seed w = Some (Inr (), w1)"
    and more: "act_fold (\<lambda>l _. generate_one dir depth seeded drv l dur base seed) ls () w1 = Some (Inr (), w')"
    using Cons.prems(1) unfolding act_fold_unit_Cons by blast
  obtain fs where fs: "load_done dir depth seeded drv content dur base seed l fs" "disk w1 = (disk w)(load_path dir drv l \<mapsto> write_flow_file fs)"
    using Cons.prems(3) generate_one_done[OF one] by (metis option.inject)
  have c: "disk w1 (path_join dir (ld_cdf drv)) = Some content" using load_path_cdf[OF assms, of dir l] Cons.prems(3) fs(2) by simp
  have d: "distinct ls" using Cons.prems(2) by simp
  have "load_path dir drv l \<notin> load_path dir drv ` set ls" using Cons.prems(2) load_path_inj by auto
  then show ?case using Cons.IH[OF more d c] fs by auto
qed

definition load_of :: "string \<Rightarrow> string \<Rightarrow> real \<Rightarrow> real \<Rightarrow> int \<Rightarrow> flow list \<Rightarrow> bool" where
  "load_of path out base_time_s duration_s load_gbps fs \<longleftrightarrow>
     out = write_flow_file fs \<and> window_ok [0..63] [0..63] base_time_s duration_s fs \<and> load_ok (of_int load_gbps * 1000000000) 64 duration_s fs
     \<and> inspect_flow_file path out = Inr \<lparr>fm_name = path_name path, fm_path = path, flow_count = int (length fs)\<rparr>"

lemma load_workload:
  assumes "0 < l" "draws_ok g" "CustomRand content = Inr pts" "points pts = Some cdf" "cdf_ok cdf" "0 < get_avg cdf"
  shows "workload_ok content (py_str_int l @ ''G'') cdf (of_int l * 1000000000) g"
proof -
  have "py_str_int l = str_nat (nat l)" using assms(1) by (simp add: py_str_int_def)
  then show ?thesis using bandwidth_G[of "nat l"] assms by (simp add: workload_ok_def)
qed

lemma load_done_of:
  assumes "load_done dir depth seeded drv content dur base seed l fs" "0 < l \<and> draws_ok (seeded (seed + l))"
    "CustomRand content = Inr pts" "points pts = Some cdf" "cdf_ok cdf" "0 < get_avg cdf"
  shows "load_of path (write_flow_file fs) base dur l fs"
proof -
  let ?g = "(seeded (seed + l))\<lparr>ports := \<lambda>_. None\<rparr>"
  have "workload_ok content (py_str_int l @ ''G'') cdf (of_int l * 1000000000) ?g"
    using assms(2) by (intro load_workload[OF _ _ assms(3-6)]) (simp_all add: draws_ok_def)
  then show ?thesis
    using assms(1) generate_flows_run[of content "py_str_int l @ ''G''" cdf "of_int l * 1000000000" ?g depth "[0..63]" "[0..63]" dur base True fs]
    by (auto simp: load_done_def load_of_def inspect_written)
qed

text \<open>C14: A load driver that finishes has written, for every load it was asked for and in a file of its own, a
  workload that \<^verbatim>\<open>run.py\<close> accepts: sorted flows inside the window between different hosts, with the load within ten
  per cent of the target. The file depends on the seed of its load alone, and no other file is touched.\<close>

theorem driver_files_ok:
  assumes "loads_main dir depth seeded drv args w = Some (Inr (), w')" "drv \<in> {fadoop_driver, websearch_driver}"
    "parse_loads (ga_loads args) = Inr loads" "disk w (path_join dir (ld_cdf drv)) = Some content"
    "CustomRand content = Inr pts" "points pts = Some cdf" "cdf_ok cdf" "0 < get_avg cdf"
    "\<forall>l \<in> set loads. 0 < l \<and> draws_ok (seeded (ga_seed_base args + l))"
  shows "(\<forall>l \<in> set loads. \<exists>fs out. disk w' (load_path dir drv l) = Some out
        \<and> load_done dir depth seeded drv content (ga_duration_ms args / 1000) (ga_base_time_s args) (ga_seed_base args) l fs
        \<and> load_of (load_path dir drv l) out (ga_base_time_s args) (ga_duration_ms args / 1000) l fs)
    \<and> (\<forall>p. p \<notin> load_path dir drv ` set loads \<longrightarrow> disk w' p = disk w p)"
proof -
  have "act_fold (\<lambda>l _. generate_one dir depth seeded drv l (ga_duration_ms args / 1000) (ga_base_time_s args) (ga_seed_base args))
      loads () w = Some (Inr (), w')"
    using assms(1,3) by (simp add: loads_main_def script_steps)
  from loads_run[OF assms(2) this _ assms(4)] parse_loads_distinct[OF assms(3)] show ?thesis
    using load_done_of[OF _ _ assms(5-8)] assms(9) by blast
qed

section \<open>A finished driver\<close>

text \<open>With equal draws every host sends at a fixed pace flows of one size.\<close>

definition equal_draws :: "(real \<times> real) list \<Rightarrow> real \<Rightarrow> int \<Rightarrow> int \<Rightarrow> traffic_state \<Rightarrow> bool" where
  "equal_draws cdf lam gap sz g \<longleftrightarrow>
     cdf_ok cdf \<and> draws_ok g \<and> 0 < gap \<and> (\<forall>n. poisson lam (unif g n) = gap)
     \<and> (\<forall>n v. get_value_from_percentile cdf (100 * unif g n) = Inr (Some v) \<longrightarrow> max (py_trunc v) 100 = sz)"

lemma equal_draws_cong: "unif g' = unif g \<Longrightarrow> equal_draws cdf lam gap sz g' = equal_draws cdf lam gap sz g"
  by (simp add: equal_draws_def draws_ok_cong[of g' g])

lemma host_flows_equal:
  assumes "\<exists>d \<in> set dsts. d \<noteq> s"
  shows "equal_draws cdf lam gap sz g \<Longrightarrow> stop \<le> cur + real n * (of_int gap * step) \<Longrightarrow>
      n = 0 \<or> cur + real (n - 1) * (of_int gap * step) < stop \<Longrightarrow> 0 < step \<Longrightarrow>
    \<exists>new g'. host_flows cdf dsts lam step unit_s stop s cur fs g = Some (Inr (fs @ new, g')) \<and> length new = n
      \<and> (\<forall>f \<in> set new. f_size f = sz) \<and> unif g' = unif g"
proof (induction n arbitrary: cur fs g)
  case 0
  then show ?case by (simp add: host_flows_stop)
next
  case (Suc n)
  have e: "cdf_ok cdf" "draws_ok g" "0 < gap" "\<And>n. poisson lam (unif g n) = gap"
    using Suc.prems(1) by (simp_all add: equal_draws_def)
  have "0 \<le> real n * (of_int gap * step)" using e(3) Suc.prems(4) by simp
  then have "cur < stop" using Suc.prems(3) by simp
  then obtain f g' v where s: "sends cdf dsts unit_s stop s cur g f g' (unif g (upos g + 1))"
    and v: "get_value_from_percentile cdf (100 * unif g (upos g)) = Inr (Some v)" "f_size f = max (py_trunc v) 100"
    and go: "host_body (host_flows cdf dsts lam step unit_s stop s) Pair cdf dsts lam step unit_s stop s cur fs g =
       host_flows cdf dsts lam step unit_s stop s (cur + of_int (poisson lam (unif g (upos g + 1))) * step) (fs @ [f]) g'"
    by (rule host_body_next[OF _ e(1,2) assms, where unit_s = unit_s and go = "host_flows cdf dsts lam step unit_s stop s" and fin = Pair
          and lam = lam and step = step and fs = fs])
  have u: "unif g' = unif g" using s by (simp add: sends_def)
  have n: "n = 0 \<or> cur + of_int gap * step + real (n - 1) * (of_int gap * step) < stop"
    using Suc.prems(3) by (cases n) (simp_all add: algebra_simps)
  have st: "stop \<le> cur + of_int gap * step + real n * (of_int gap * step)" using Suc.prems(2) by (simp add: algebra_simps)
  obtain new h where "host_flows cdf dsts lam step unit_s stop s (cur + of_int gap * step) (fs @ [f]) g' = Some (Inr ((fs @ [f]) @ new, h))"
    "length new = n" "\<forall>f \<in> set new. f_size f = sz" "unif h = unif g'"
    using Suc.IH[OF _ st n Suc.prems(4), of g' "fs @ [f]"] Suc.prems(1) equal_draws_cong[OF u] by blast
  moreover have "f_size f = sz" using v Suc.prems(1) by (simp add: equal_draws_def)
  ultimately show ?case
    using go e(4) u by (intro exI[of _ "f # new"] exI[of _ h]) (simp add: host_flows_body[of cdf dsts lam step unit_s stop s cur])
qed

lemma all_hosts_equal:
  assumes "stop \<le> base + real (Suc n) * (of_int gap * step)" "base + real n * (of_int gap * step) < stop" "0 < step"
  shows "\<forall>s \<in> set srcs. \<exists>d \<in> set dsts. d \<noteq> s \<Longrightarrow> equal_draws cdf lam gap sz g \<Longrightarrow>
    \<exists>new g'. all_hosts cdf dsts lam step unit_s base stop srcs fs g = Some (Inr (fs @ new, g')) \<and> length new = length srcs * n
      \<and> (\<forall>f \<in> set new. f_size f = sz) \<and> unif g' = unif g"
proof (induction srcs arbitrary: fs g)
  case (Cons s srcs)
  let ?g1 = "snd (next_uniform g)"
  have u: "unif ?g1 = unif g" by simp
  have d: "\<exists>d \<in> set dsts. d \<noteq> s" using Cons.prems(1) by simp
  have p: "poisson lam (unif g (upos g)) = gap" using Cons.prems(2) by (simp add: equal_draws_def)
  have st: "stop \<le> base + of_int gap * step + real n * (of_int gap * step)" using assms(1) by (simp add: algebra_simps)
  have n: "n = 0 \<or> base + of_int gap * step + real (n - 1) * (of_int gap * step) < stop"
    using assms(2) by (cases n) (simp_all add: algebra_simps)
  obtain new g2 where h: "host_flows cdf dsts lam step unit_s stop s (base + of_int gap * step) fs ?g1 = Some (Inr (fs @ new, g2))"
    "length new = n" "\<forall>f \<in> set new. f_size f = sz" "unif g2 = unif ?g1"
    using host_flows_equal[OF d _ st n assms(3), of cdf lam sz ?g1] Cons.prems(2) equal_draws_cong[OF u] by blast
  have u2: "unif g2 = unif g" using h(4) u by simp
  obtain more g3 where "all_hosts cdf dsts lam step unit_s base stop srcs (fs @ new) g2 = Some (Inr ((fs @ new) @ more, g3))"
    "length more = length srcs * n" "\<forall>f \<in> set more. f_size f = sz" "unif g3 = unif g2"
    using Cons.IH[of g2 "fs @ new"] Cons.prems equal_draws_cong[OF u2] by auto
  then show ?case
    using h p u2 by (intro exI[of _ "new @ more"] exI[of _ g3]) (auto simp: all_hosts_Cons)
qed simp

lemma total_size_equal: "\<forall>f \<in> set fs. f_size f = sz \<Longrightarrow> total_size fs = sz * int (length fs)"
  by (induction fs) (simp_all add: total_size_def algebra_simps)

lemma generate_flows_equal:
  assumes w: "workload_ok content host_rate cdf rate g" and e: "equal_draws cdf (mean_gap rate (get_avg cdf)) gap sz g"
    and d: "\<forall>s \<in> set srcs. \<exists>d \<in> set dsts. d \<noteq> s"
    and n: "duration \<le> real (Suc n) * (of_int gap / 1000000000)" "real n * (of_int gap / 1000000000) < duration" "0 < duration"
    and load: "9 / 10 * (rate * real (length srcs)) \<le> of_int (sz * int (length srcs * n)) / duration * 8"
      "of_int (sz * int (length srcs * n)) / duration * 8 \<le> 11 / 10 * (rate * real (length srcs))"
  shows "\<exists>fs g'. generate_flows (Suc depth) srcs dsts content host_rate duration base restrict g = Some (Inr (fs, g')) \<and> length fs = length srcs * n"
proof -
  obtain new g' where r: "all_hosts cdf dsts (mean_gap rate (get_avg cdf)) (1 / 1000000000) 1 base (base + duration) srcs [] g = Some (Inr (new, g'))"
    and l: "length new = length srcs * n" "\<forall>f \<in> set new. f_size f = sz"
    using all_hosts_equal[OF _ _ _ d e, of "base + duration" base n "1 / 1000000000" 1 "[]"] n by auto
  have "total_size (sort_key f_time new) = sz * int (length srcs * n)"
    using total_size_equal[of "sort_key f_time new" sz] l by simp
  then show ?thesis
    using n(3) load l by (simp add: generate_flows_step[OF w] r Let_def)
qed

lemma generate_one_returns:
  assumes "disk w (path_join dir (ld_cdf drv)) = Some content" "creatable w (load_path dir drv l)"
    "generate_flows depth [0..63] [0..63] content (py_str_int l @ ''G'') dur base True ((seeded (seed + l))\<lparr>ports := \<lambda>_. None\<rparr>) = Some (Inr (fs, g'))"
    "fs \<noteq> []"
  shows "\<exists>w'. generate_one dir depth seeded drv l dur base seed w = Some (Inr (), w')"
  using assms by (simp add: generate_one_def script_steps load_summary_def Let_def)

definition flat_cdf :: string where
  "flat_cdf = ''1000 0'' @ [nl] @ ''1000 100'' @ [nl]"

definition demo_space :: workspace where
  "demo_space = \<lparr>disk = [path_join ''d'' (ld_cdf fadoop_driver) \<mapsto> flat_cdf], creatable = \<lambda>_. True, printed = []\<rparr>"

definition demo_loads :: load_args where
  "demo_loads = \<lparr>ga_loads = ''8'', ga_duration_ms = 1 / 50, ga_base_time_s = 2, ga_seed_base = 36000\<rparr>"

lemma flat_points: "CustomRand flat_cdf = Inr [(Fin 1000, Fin 0), (Fin 1000, Fin 100)]"
  "points [(Fin 1000, Fin 0), (Fin 1000, Fin 100)] = Some [(1000, 0), (1000, 100)]"
  "cdf_ok [(1000, 0), (1000, 100)]" "get_avg [(1000, 0), (1000, 100)] = 1000"
proof -
  have "file_lines flat_cdf = [''1000 0'', ''1000 100'']" by code_simp
  then show "CustomRand flat_cdf = Inr [(Fin 1000, Fin 0), (Fin 1000, Fin 100)]"
    by (simp add: CustomRand_def parse_cdf_line_def demo_lines printed_floats)
qed (simp_all add: points_def cdf_ok_def get_avg_def)

lemma demo_equal: "equal_draws [(1000, 0), (1000, 100)] (mean_gap 8000000000 1000) 1000 1000 (demo_draws\<lparr>ports := m\<rparr>)"
proof -
  have "get_value_from_percentile [(1000, 0), (1000, 100)] (100 * (1 - exp (- 1))) = Inr (Some 1000)"
    by (simp add: get_value_from_percentile.simps)
  then show ?thesis
    by (simp add: equal_draws_def flat_points draws_ok_def demo_draws_def poisson_def mean_gap_def py_trunc_def)
qed

lemma demo_parse: "parse_loads ''8'' = Inr [8]"
  by code_simp

lemma demo_driver_runs: "\<exists>w'. loads_main ''d'' 1 (\<lambda>_. demo_draws) fadoop_driver demo_loads demo_space = Some (Inr (), w')"
proof -
  let ?g = "demo_draws\<lparr>ports := \<lambda>_. None\<rparr>"
  have w: "workload_ok flat_cdf (py_str_int 8 @ ''G'') [(1000, 0), (1000, 100)] (of_int 8 * 1000000000) ?g"
    by (rule load_workload[OF _ _ flat_points(1-3)]) (simp_all add: flat_points demo_draws_def draws_ok_def)
  have d: "\<forall>s \<in> set [0..63::int]. \<exists>d \<in> set [0..63]. d \<noteq> s"
  proof
    fix s :: int assume "s \<in> set [0..63]"
    then show "\<exists>d \<in> set [0..63]. d \<noteq> s" by (intro bexI[of _ "if s = 0 then 1 else 0"]) (simp_all del: upto_rec_numeral)
  qed
  obtain fs g' where g: "generate_flows 1 [0..63] [0..63] flat_cdf (py_str_int 8 @ ''G'') (1 / 50000) 2 True ?g = Some (Inr (fs, g'))"
    "length fs = 64 * 19"
    using generate_flows_equal[OF w _ d, of 1000 1000 "1 / 50000" 19 0 2 True] demo_equal
    by (auto simp: flat_points simp del: upto_rec_numeral)
  have s: "disk demo_space (path_join ''d'' (ld_cdf fadoop_driver)) = Some flat_cdf" "creatable demo_space (load_path ''d'' fadoop_driver 8)"
    by (simp_all add: demo_space_def)
  have ne: "fs \<noteq> []" using g(2) by auto
  obtain w' where "generate_one ''d'' 1 (\<lambda>_. demo_draws) fadoop_driver 8 (1 / 50000) 2 36000 demo_space = Some (Inr (), w')"
    using generate_one_returns[OF s g(1) ne, of 36000] by blast
  then show ?thesis
    by (simp add: loads_main_def script_steps demo_loads_def demo_parse act_ret_def)
qed

theorem driver_files_ok_witness:
  "\<exists>w' fs out. loads_main ''d'' 1 (\<lambda>_. demo_draws) fadoop_driver demo_loads demo_space = Some (Inr (), w')
     \<and> disk w' (load_path ''d'' fadoop_driver 8) = Some out \<and> load_of (load_path ''d'' fadoop_driver 8) out 2 (1 / 50000) 8 fs
     \<and> disk w' (path_join ''d'' (ld_cdf fadoop_driver)) = Some flat_cdf"
proof -
  obtain w' where run: "loads_main ''d'' 1 (\<lambda>_. demo_draws) fadoop_driver demo_loads demo_space = Some (Inr (), w')"
    using demo_driver_runs by blast
  have p: "parse_loads (ga_loads demo_loads) = Inr [8]" by (simp add: demo_loads_def demo_parse)
  have s: "disk demo_space (path_join ''d'' (ld_cdf fadoop_driver)) = Some flat_cdf" by (simp add: demo_space_def)
  have a: "0 < get_avg [(1000, 0), (1000, 100)]" "\<forall>l \<in> set [8::int]. 0 < l \<and> draws_ok demo_draws"
    by (simp_all add: flat_points draws_ok_def demo_draws_def)
  show ?thesis
    using driver_files_ok[OF run _ p s flat_points(1-3) a] run s load_path_cdf[of fadoop_driver "''d''" 8]
    by (simp add: demo_loads_def) metis
qed

section \<open>Loads that never come\<close>

text \<open>A window of no length holds no flow, so the load is never on target: every call draws again until the interpreter
  gives up, and the guard of \<^verbatim>\<open>generate_one\<close> against a duration that is not positive is never reached.\<close>

lemma all_hosts_empty_window:
  assumes "stop \<le> base" "0 \<le> lam" "0 \<le> step"
  shows "draws_ok g \<Longrightarrow> \<exists>g'. all_hosts cdf dsts lam step unit_s base stop srcs fs g = Some (Inr (fs, g')) \<and> unif g' = unif g"
proof (induction srcs arbitrary: g)
  case (Cons s srcs)
  have "0 \<le> of_int (poisson lam (unif g (upos g))) * step"
    using poisson_nonneg[OF assms(2)] Cons.prems assms(3) by (simp add: draws_ok_def)
  then have "\<not> base + of_int (poisson lam (unif g (upos g))) * step < stop" using assms(1) by simp
  then show ?case
    using Cons.IH[of "snd (next_uniform g)"] Cons.prems by (simp add: all_hosts_Cons host_flows_stop draws_ok_def)
qed simp

lemma empty_window_fails:
  assumes "workload_ok content host_rate cdf rate g" "duration < 0" "srcs \<noteq> []"
  shows "generate_flows depth srcs dsts content host_rate duration base True g = Some (Inl RecursionError)"
  using assms(1)
proof (induction depth arbitrary: g)
  case (Suc depth)
  have "draws_ok g" using Suc.prems by (simp add: workload_ok_def)
  then obtain g' where r: "all_hosts cdf dsts (mean_gap rate (get_avg cdf)) (1 / 1000000000) 1 base (base + duration) srcs [] g = Some (Inr ([], g'))"
    "unif g' = unif g"
    using all_hosts_empty_window[of "base + duration" base "mean_gap rate (get_avg cdf)" "1 / 1000000000" g cdf dsts 1 srcs "[]"]
      workload_gap[OF Suc.prems] assms(2) by auto
  have "0 < rate * real (length srcs)" using Suc.prems assms(3) by (simp add: workload_ok_def)
  then show ?case
    using Suc.IH[of g'] Suc.prems assms(2) workload_ok_cong[OF r(2)] by (simp add: generate_flows_step[OF Suc.prems] r(1) total_size_def)
qed simp

text \<open>A load below zero makes the gaps negative: the clock of a host runs backwards and never reaches the end.\<close>

definition never_returns ::
  "(real \<times> real) list \<Rightarrow> int list \<Rightarrow> real \<Rightarrow> real \<Rightarrow> real \<Rightarrow> real \<Rightarrow> int \<Rightarrow> real \<Rightarrow> flow list \<Rightarrow> traffic_state \<Rightarrow> (flow list \<times> traffic_state) res \<Rightarrow> bool" where
  "never_returns cdf dsts lam step unit_s stop s cur fs g r \<longleftrightarrow>
     \<not> (cdf_ok cdf \<and> draws_ok g \<and> lam \<le> 0 \<and> 0 \<le> step \<and> cur < stop \<and> (\<exists>d \<in> set dsts. d \<noteq> s))"

lemma poisson_nonpos: "lam \<le> 0 \<Longrightarrow> 0 \<le> u \<Longrightarrow> u < 1 \<Longrightarrow> poisson lam u \<le> 0"
proof -
  assume a: "lam \<le> 0" "0 \<le> u" "u < 1"
  then have "ln (1 - u) \<le> 0" by simp
  then have "- ln (1 - u) * lam \<le> 0" using a(1) by (simp add: mult_nonpos_nonpos)
  then show ?thesis by (auto simp: poisson_def py_trunc_def)
qed

lemma host_body_never:
  assumes "\<And>cur fs g r. go cur fs g = Some r \<Longrightarrow> never_returns cdf dsts lam step unit_s stop s cur fs g r"
    and body: "host_body go Pair cdf dsts lam step unit_s stop s cur fs g = Some r"
  shows "never_returns cdf dsts lam step unit_s stop s cur fs g r"
  unfolding never_returns_def
proof
  assume a: "cdf_ok cdf \<and> draws_ok g \<and> lam \<le> 0 \<and> 0 \<le> step \<and> cur < stop \<and> (\<exists>d \<in> set dsts. d \<noteq> s)"
  then obtain f g' v where s: "sends cdf dsts unit_s stop s cur g f g' (unif g (upos g + 1))"
    and go: "host_body go Pair cdf dsts lam step unit_s stop s cur fs g = go (cur + of_int (poisson lam (unif g (upos g + 1))) * step) (fs @ [f]) g'"
    using host_body_next[where go = go and fin = Pair and unit_s = unit_s and lam = lam and step = step and fs = fs] by blast
  have u: "unif g' = unif g" using s by (simp add: sends_def)
  have "of_int (poisson lam (unif g (upos g + 1))) * step \<le> 0"
    using a poisson_nonpos[of lam "unif g (upos g + 1)"] by (intro mult_nonpos_nonneg) (simp_all add: draws_ok_def)
  then have "cur + of_int (poisson lam (unif g (upos g + 1))) * step < stop" using a by simp
  then show False using assms(1)[OF body[unfolded go]] a draws_ok_cong[OF u] by (simp add: never_returns_def)
qed

lemma host_flows_never:
  assumes "host_flows cdf dsts lam step unit_s stop s cur fs g = Some r"
  shows "never_returns cdf dsts lam step unit_s stop s cur fs g r"
proof (rule host_flows.raw_induct[OF _ assms, where P = never_returns], goal_cases)
  case (1 hf cdf dsts lam step unit_s stop s cur fs g r)
  show ?case
  proof (rule host_body_never)
    show "host_body (hf cdf dsts lam step unit_s stop s) Pair cdf dsts lam step unit_s stop s cur fs g = Some r"
      unfolding host_body_def by (rule 1(2))
  qed (rule 1(1))
qed

lemma negative_rate_hangs:
  assumes "CustomRand content = Inr pts" "points pts = Some cdf" "cdf_ok cdf" "0 < get_avg cdf"
    "translate_bandwidth host_rate = Inr (Fin rate)" "rate < 0" "draws_ok g" "0 < duration" "\<exists>d \<in> set dsts. d \<noteq> s"
  shows "generate_flows (Suc depth) (s # srcs) dsts content host_rate duration base restrict g = None"
proof -
  let ?lam = "1 / (rate / 8 / get_avg cdf) * 1000000000" and ?g1 = "snd (next_uniform g)"
  have gap: "avg_gap rate (get_avg cdf) = Inr (1 / (rate / 8 / get_avg cdf))" using assms(4,6) by (simp add: avg_gap_def)
  have lam: "?lam \<le> 0" using assms(4,6) by (simp add: divide_nonneg_neg)
  let ?cur = "base + of_int (poisson ?lam (unif g (upos g))) * (1 / 1000000000)"
  have "poisson ?lam (unif g (upos g)) \<le> 0" using poisson_nonpos[OF lam] assms(7) by (simp add: draws_ok_def)
  then have "of_int (poisson ?lam (unif g (upos g))) * (1 / 1000000000) \<le> (0::real)" by (intro mult_nonpos_nonneg) simp_all
  then have cur: "?cur < base + duration" using assms(8) by linarith
  have "draws_ok ?g1" using assms(7) draws_ok_cong[of ?g1 g] by simp
  then have "host_flows cdf dsts ?lam (1 / 1000000000) 1 (base + duration) s ?cur [] ?g1 \<noteq> Some r" for r
    using host_flows_never[of cdf dsts ?lam "1 / 1000000000" 1 "base + duration" s ?cur "[]" ?g1 r] assms(3,9) lam cur
    by (auto simp: never_returns_def)
  then have h: "host_flows cdf dsts ?lam (1 / 1000000000) 1 (base + duration) s ?cur [] ?g1 = None"
    by (metis not_None_eq)
  show ?thesis
    by (simp only: generate_flows.simps(2) assms(1,2,5) gap all_hosts_Cons h sum.case option.case prod.case pyfloat.case)
qed

lemma bandwidth_negative: "l < 0 \<Longrightarrow> translate_bandwidth (py_str_int l @ ''G'') = Inr (Fin (of_int l * 1000000000))"
proof -
  assume l: "l < 0"
  have "py_float (''-'' @ str_nat (nat (- l))) = Inr (Fin (of_int l))"
    using py_float_decimal[of "str_nat (nat (- l))" "[]" True] l by (simp add: decimal_def str_nat_digits str_nat_nonempty dec_val_def)
  moreover have "\<not> length (py_str_int l @ ''G'') < 2" using l by (simp add: py_str_int_def)
  ultimately show ?thesis using l by (simp add: translate_bandwidth_def units_def butlast_append py_str_int_def)
qed

text \<open>So a driver that is asked for a negative load hangs, and the loads after it are not generated.\<close>

lemma negative_load_hangs:
  assumes "parse_loads (ga_loads args) = Inr (l # ls)" "l < 0" "0 < ga_duration_ms args"
    "disk w (path_join dir (ld_cdf drv)) = Some content" "CustomRand content = Inr pts" "points pts = Some cdf" "cdf_ok cdf" "0 < get_avg cdf"
    "draws_ok (seeded (ga_seed_base args + l))"
  shows "loads_main dir (Suc depth) seeded drv args w = None"
proof -
  have u: "[0..63::int] = 0 # [1..63]" by (simp add: upto.simps)
  have "draws_ok ((seeded (ga_seed_base args + l))\<lparr>ports := \<lambda>_. None\<rparr>)" using assms(9) by (simp add: draws_ok_def)
  then have "generate_flows (Suc depth) [0..63] [0..63] content (py_str_int l @ ''G'') (ga_duration_ms args / 1000) (ga_base_time_s args) True
      ((seeded (ga_seed_base args + l))\<lparr>ports := \<lambda>_. None\<rparr>) = None"
    unfolding u using assms(2,3)
    by (intro negative_rate_hangs[OF assms(5-8) bandwidth_negative[OF assms(2)]]) (auto intro: bexI[of _ 1])
  then show ?thesis
    using assms(1,4)
    by (simp add: loads_main_def generate_one_def act_bind_def act_lift_def read_text_def act_get_def flows_of_def)
qed

section \<open>The all-to-all scripts\<close>

lemma print_lines_run: "\<exists>w'. print_lines ls w = Some (Inr (), w') \<and> disk w' = disk w"
  unfolding print_lines_def
proof (induction ls arbitrary: w)
  case (Cons l ls)
  obtain w' where "act_fold (\<lambda>l _. print_line l) ls () (w\<lparr>printed := printed w @ [l]\<rparr>) = Some (Inr (), w')" "disk w' = disk w"
    using Cons.IH[of "w\<lparr>printed := printed w @ [l]\<rparr>"] by auto
  moreover have "print_line l w = Some (Inr (), w\<lparr>printed := printed w @ [l]\<rparr>)" by (simp add: print_line_Some)
  ultimately show ?case by (simp add: act_bind_def)
qed (simp add: act_ret_def)

lemma write_then_print:
  assumes "creatable w path"
  shows "\<exists>w'. act_bind (write_text path t) (\<lambda>_. print_lines ls) w = Some (Inr (), w') \<and> disk w' = (disk w)(path \<mapsto> t)"
proof -
  have "write_text path t w = Some (Inr (), w\<lparr>disk := (disk w)(path \<mapsto> t)\<rparr>)" using assms by (simp add: write_text_Some)
  then show ?thesis using print_lines_run[of ls "w\<lparr>disk := (disk w)(path \<mapsto> t)\<rparr>"] by (auto simp: act_bind_def)
qed

text \<open>The script of \<^verbatim>\<open>gen_llm_onoff_topo_s.py\<close> puts the file of \<open>llm_main\<close> where it was asked to, creating the directory.\<close>

lemma llm_script_writes:
  assumes "llm_main args = Inr (out, fs)"
  shows "\<exists>w'. llm_script expanduser resolve root_dir output args w = Some (Inr (), w')
    \<and> disk w' = (disk w)((if isabs (expanduser output) then expanduser output else resolve (path_join root_dir (expanduser output))) \<mapsto> out)"
proof -
  obtain ws sz starts on per where p: "llm_plan args = Inr (ws, sz, fs, starts, on, per)" "out = write_flow_file fs"
    using assms by (cases "llm_plan args") (auto simp: llm_main_def)
  let ?path = "if isabs (expanduser output) then expanduser output else resolve (path_join root_dir (expanduser output))"
  let ?w = "w\<lparr>creatable := (creatable w)(?path := True)\<rparr>"
  have "creatable ?w ?path" by simp
  from write_then_print[OF this, of "write_flow_file fs" "llm_report ?path args ws sz fs starts on per"] show ?thesis
    unfolding llm_script_def p by (simp add: make_parent_def act_bind_def act_lift_def act_put_def Let_def)
qed

text \<open>\<^verbatim>\<open>llm_traffic_gen.py\<close> writes under the home directory of its author and fails anywhere else, without a line of output.\<close>

lemma llm_generate_flows_total:
  "length workers = 20 \<Longrightarrow> gbps \<noteq> 0 \<Longrightarrow> \<exists>q. llm_generate_flows workers base_t n sz off gbps None m = Inr q"
  by (simp add: llm_generate_flows_def estimate_alltoall_on_time_def Let_def split: prod.splits)

lemma llm_traffic_elsewhere:
  assumes "\<not> creatable w llm_traffic_path"
  shows "llm_traffic_script w = Some (Inl FileNotFoundError, w)"
proof -
  have l: "length [0..19::int] = 20" by (simp del: upto_rec_numeral)
  have "(100::real) \<noteq> 0" by simp
  from llm_generate_flows_total[OF l this] obtain q where q: "llm_generate_flows [0..19] 0 10 (12 * 1024 * 1024) (1 / 50) 100 None (\<lambda>_. None) = Inr q" by blast
  obtain fs starts per m where "q = (fs, starts, per, m)" by (cases q)
  then show ?thesis
    unfolding llm_traffic_script_def q using assms by (simp add: act_bind_def act_lift_def write_text_def act_get_def)
qed

end
