(* ===== verification/FctStats.thy ===== *)
theory FctStats
  imports LogAnalysis "HOL-Library.Product_Lexorder" "HOL-Library.Multiset"
begin

text \<open>
  The statistics of a finished run: normalized flow completion times by flow size (\<^verbatim>\<open>analysis/normalized_fct.py\<close>), the
  Pareto frontier of several runs (\<^verbatim>\<open>pareto_frontier_plot.py\<close>), the curves of \<^verbatim>\<open>plot_fct_cdf.py\<close> and
  \<^verbatim>\<open>plot_throughput_norm.py\<close>. A directory is its listing, a manifest its parsed JSON value, a data frame the list of
  its rows. The figures and the main functions are in \<open>StatMains\<close>.
\<close>

section \<open>Experiments and their files\<close>

definition id_token :: "string \<Rightarrow> int list \<Rightarrow> int list res" where
  "id_token part ids =
    (let token = str_strip part in
     if token = [] then Inr ids
     else res_bind (py_int token) (\<lambda>n. Inr (if n \<in> set ids then ids else ids @ [n])))"

definition parse_experiment_ids :: "string list \<Rightarrow> int list res" where
  "parse_experiment_ids raw_tokens =
    res_bind (res_fold id_token (concat (map (split_on (CHR '','')) raw_tokens)) []) (\<lambda>ids.
      if ids = [] then Inl SystemExit else Inr ids)"

text \<open>The dictionary of all numbered directories: a later entry with the same number replaces an earlier one.\<close>

definition index_entry :: "string \<times> bool \<Rightarrow> (int, string) dict \<Rightarrow> (int, string) dict res" where
  "index_entry e indexed =
    (if \<not> snd e \<or> \<not> py_isdigit (dir_prefix (fst e)) then Inr indexed
     else res_bind (py_int (dir_prefix (fst e))) (\<lambda>n. Inr (dict_set n (fst e) indexed)))"

definition resolve_run_dirs :: "string \<Rightarrow> (string \<times> bool) list \<Rightarrow> int list \<Rightarrow> string list res" where
  "resolve_run_dirs mix_dir entries experiment_ids =
    res_bind (res_fold index_entry entries []) (\<lambda>indexed.
      if list_ex (\<lambda>i. dict_get indexed i = None) experiment_ids then Inl SystemExit
      else Inr (map (\<lambda>i. path_join mix_dir (the (dict_get indexed i))) experiment_ids))"

text \<open>A truthy string of a section of the manifest.\<close>

definition section_file :: "jval \<Rightarrow> string \<Rightarrow> string option" where
  "section_file man sec =
    (case jget man sec of None \<Rightarrow> None
     | Some fs \<Rightarrow> (case jget fs ''fct_output'' of Some (JStr s) \<Rightarrow> if s = [] then None else Some s | _ \<Rightarrow> None))"

definition manifest_candidates :: "jval \<Rightarrow> string list" where
  "manifest_candidates man =
    (case section_file man ''files'' of None \<Rightarrow> [] | Some s \<Rightarrow> [s]) @
    (case section_file man ''config'' of None \<Rightarrow> [] | Some s \<Rightarrow> [s])"

text \<open>\<^verbatim>\<open>sorted(run_dir.glob("fct*.txt"))\<close> over the names in the directory.\<close>

definition glob_fct :: "string \<Rightarrow> string \<Rightarrow> string list \<Rightarrow> string list" where
  "glob_fct prefix dir names =
    map (path_join dir) (sort (filter (\<lambda>n. starts_with prefix n \<and> length prefix + 4 \<le> length n
       \<and> drop (length n - 4) n = ''.txt'') names))"

definition find_fct_file :: "(string \<Rightarrow> bool) \<Rightarrow> string \<Rightarrow> string list \<Rightarrow> jval \<Rightarrow> string res" where
  "find_fct_file exists dir names man =
    (case find exists (manifest_candidates man) of
       Some p \<Rightarrow> Inr p
     | None \<Rightarrow> if manifest_candidates man \<noteq> [] then Inl SystemExit
               else (case glob_fct ''fct'' dir names of [] \<Rightarrow> Inl SystemExit | p # _ \<Rightarrow> Inr p))"

text \<open>\<^verbatim>\<open>pareto_frontier_plot.py\<close> falls back to the directory even where the manifest names a file.\<close>

definition resolve_fct_path :: "(string \<Rightarrow> bool) \<Rightarrow> string \<Rightarrow> string list \<Rightarrow> jval \<Rightarrow> string res" where
  "resolve_fct_path exists dir names man =
    (case find exists (manifest_candidates man) of
       Some p \<Rightarrow> Inr p
     | None \<Rightarrow> (case glob_fct ''fct'' dir names of [] \<Rightarrow> Inl SystemExit | p # _ \<Rightarrow> Inr p))"

text \<open>\<^verbatim>\<open>plot_fct_cdf.py\<close> looks into one section only and wants an underscore in the name.\<close>

definition cdf_find_fct_file :: "(string \<Rightarrow> bool) \<Rightarrow> string \<Rightarrow> string list \<Rightarrow> jval \<Rightarrow> string res" where
  "cdf_find_fct_file exists dir names man =
    (case section_file man ''files'' of
       Some p \<Rightarrow> if exists p then Inr p
                 else (case glob_fct ''fct_'' dir names of [] \<Rightarrow> Inl SystemExit | q # _ \<Rightarrow> Inr q)
     | None \<Rightarrow> (case glob_fct ''fct_'' dir names of [] \<Rightarrow> Inl SystemExit | q # _ \<Rightarrow> Inr q))"

section \<open>Rows of an FCT file\<close>

definition fct_row :: "string \<Rightarrow> (int \<times> real) list \<Rightarrow> (int \<times> real) list res" where
  "fct_row line rows =
    (let parts = split_ws (str_strip line) in
     if length parts \<noteq> 8 then Inr rows
     else (case (py_int (parts ! 4), py_int (parts ! 6), py_int (parts ! 7)) of
             (Inr size_bytes, Inr fct_ns, Inr standalone) \<Rightarrow>
               if standalone \<le> 0 then Inr rows else Inr (rows @ [(size_bytes, of_int fct_ns / of_int standalone)])
           | _ \<Rightarrow> Inl SystemExit))"

definition load_normalized_fct_rows :: "string \<Rightarrow> (int \<times> real) list res" where
  "load_normalized_fct_rows content =
    res_bind (res_fold fct_row (file_lines content) []) (\<lambda>rows. if rows = [] then Inl SystemExit else Inr rows)"

definition fct_ms_row :: "string \<Rightarrow> real list \<Rightarrow> real list res" where
  "fct_ms_row line acc =
    (let parts = split_ws (str_strip line) in
     if length parts \<noteq> 8 then Inr acc
     else res_bind (py_int (parts ! 6)) (\<lambda>n. Inr (acc @ [of_int n / 1000000])))"

definition load_fct_ms :: "string \<Rightarrow> real list res" where
  "load_fct_ms content =
    res_bind (res_fold fct_ms_row (file_lines content) []) (\<lambda>vs. if vs = [] then Inl SystemExit else Inr (sort vs))"

section \<open>Averages and percentiles\<close>

text \<open>\<^verbatim>\<open>xs[i]\<close>: an index may count from the end, and raises outside the list.\<close>

definition py_nth :: "'a list \<Rightarrow> int \<Rightarrow> 'a res" where
  "py_nth xs i =
    (let n = int (length xs) in
     if 0 \<le> i \<and> i < n then Inr (xs ! nat i) else if - n \<le> i \<and> i < 0 then Inr (xs ! nat (n + i)) else Inl IndexError)"

definition percentile :: "real list \<Rightarrow> real \<Rightarrow> real option res" where
  "percentile sorted_values ratio =
    (if sorted_values = [] then Inr None
     else if length sorted_values = 1 then Inr (Some (hd sorted_values))
     else
       (let position = (real (length sorted_values) - 1) * ratio; lower_index = \<lfloor>position\<rfloor>; upper_index = \<lceil>position\<rceil> in
        if lower_index = upper_index then res_bind (py_nth sorted_values lower_index) (\<lambda>v. Inr (Some v))
        else res_bind (py_nth sorted_values lower_index) (\<lambda>lower_value.
             res_bind (py_nth sorted_values upper_index) (\<lambda>upper_value.
               (let weight = position - of_int lower_index
                in Inr (Some (lower_value * (1 - weight) + upper_value * weight)))))))"

definition average :: "real list \<Rightarrow> real option" where
  "average vs = (if vs = [] then None else Some (sum_list vs / real (length vs)))"

fun scale_units :: "real \<Rightarrow> string list \<Rightarrow> real \<times> string \<times> bool" where
  "scale_units v [] = (v, [], False)"
| "scale_units v [u] = (v, u, False)"
| "scale_units v (u # w # rest) = (if v \<ge> 1024 then (let (v', u', b) = scale_units (v / 1024) (w # rest) in (v', u', True)) else (v, u, False))"

definition human_bytes :: "int \<Rightarrow> string" where
  "human_bytes size_bytes =
    (let (v, u, scaled) = scale_units (of_int size_bytes) [''B'', ''KB'', ''MB'', ''GB''] in
     if \<not> scaled then py_str_int (py_trunc v) @ u
     else if v \<ge> 100 then fmt_fixed 0 v @ u
     else if v \<ge> 10 then fmt_fixed 1 v @ u else fmt_fixed 2 v @ u)"

definition format_metric :: "real option \<Rightarrow> string" where
  "format_metric v = (case v of None \<Rightarrow> ''NA'' | Some x \<Rightarrow> fmt_fixed 6 x)"

section \<open>Buckets by flow size\<close>

text \<open>\<^verbatim>\<open>bisect.bisect_left\<close>: the binary search of the standard library.\<close>

function bisect_loop :: "real list \<Rightarrow> real \<Rightarrow> nat \<Rightarrow> nat \<Rightarrow> nat" where
  "bisect_loop a x lo hi =
    (if lo < hi then (let mid = (lo + hi) div 2 in if a ! mid < x then bisect_loop a x (mid + 1) hi else bisect_loop a x lo mid)
     else lo)"
  by pat_completeness auto
termination
  by (relation "measure (\<lambda>(a, x, lo, hi). hi - lo)") auto

declare bisect_loop.simps [simp del]

definition bisect_left :: "real list \<Rightarrow> real \<Rightarrow> nat" where
  "bisect_left a x = bisect_loop a x 0 (length a)"

definition bucket_index_for_size :: "int \<Rightarrow> real list \<Rightarrow> nat" where
  "bucket_index_for_size size_bytes upper_bounds = min (bisect_left upper_bounds (of_int size_bytes)) (length upper_bounds - 1)"

definition quantile_position :: "nat \<Rightarrow> nat \<Rightarrow> nat \<Rightarrow> int" where
  "quantile_position n bucket_count k = \<lceil>real (k + 1) * real n / real bucket_count\<rceil> - 1"

definition build_quantile_upper_bounds :: "int list \<Rightarrow> nat \<Rightarrow> real list" where
  "build_quantile_upper_bounds sorted_sizes bucket_count =
    map (\<lambda>k. of_int (sorted_sizes ! nat (min (quantile_position (length sorted_sizes) bucket_count k) (int (length sorted_sizes) - 1))))
      [0..<bucket_count]"

definition build_log_upper_bounds :: "int list \<Rightarrow> nat \<Rightarrow> real list res" where
  "build_log_upper_bounds sorted_sizes bucket_count =
    (let min_size = hd sorted_sizes; max_size = last sorted_sizes in
     if min_size = max_size then Inr (replicate bucket_count (of_int max_size))
     else if min_size \<le> 0 \<or> max_size \<le> 0 then Inl ValueError
     else (let log_min = ln (of_int min_size); log_max = ln (of_int max_size) in
       Inr (map (\<lambda>k. if k = bucket_count - 1 then of_int max_size
                     else exp (log_min + (log_max - log_min) * real (k + 1) / real bucket_count)) [0..<bucket_count])))"

record bucket =
  b_index :: nat
  b_level :: string
  size_range :: string
  min_size_bytes :: "int option"
  max_size_bytes :: "int option"

definition group_by_bucket :: "real list \<Rightarrow> (int \<times> 'a) list \<Rightarrow> 'a list list" where
  "group_by_bucket upper_bounds rows =
    map (\<lambda>k. map snd (filter (\<lambda>r. bucket_index_for_size (fst r) upper_bounds = k) rows)) [0..<length upper_bounds]"

definition make_bucket :: "nat \<Rightarrow> int list \<Rightarrow> bucket" where
  "make_bucket k sizes =
    \<lparr>b_index = k, b_level = ''L'' @ pad_zeros 2 (str_nat (k + 1)),
     size_range = (if sizes = [] then ''empty'' else if hd sizes = last sizes then human_bytes (hd sizes) else human_bytes (last sizes)),
     min_size_bytes = (if sizes = [] then None else Some (hd sizes)),
     max_size_bytes = (if sizes = [] then None else Some (last sizes))\<rparr>"

definition build_bucket_plan :: "int list \<Rightarrow> int \<Rightarrow> string \<Rightarrow> (bucket list \<times> real list) res" where
  "build_bucket_plan all_sizes bucket_count bucket_mode =
    (if bucket_count \<le> 0 then Inl SystemExit
     else (let sorted_sizes = sort all_sizes in
       if sorted_sizes = [] then Inl SystemExit
       else res_bind
         (if bucket_mode = ''quantile'' then Inr (build_quantile_upper_bounds sorted_sizes (nat bucket_count))
          else if bucket_mode = ''log'' then build_log_upper_bounds sorted_sizes (nat bucket_count)
          else Inl SystemExit) (\<lambda>upper_bounds.
         (let bucket_sizes = group_by_bucket upper_bounds (map (\<lambda>z. (z, z)) sorted_sizes)
          in Inr (map (\<lambda>k. make_bucket k (bucket_sizes ! k)) [0..<length bucket_sizes], upper_bounds)))))"

definition compute_bucket_metrics :: "(int \<times> real) list \<Rightarrow> real list \<Rightarrow> (real option list \<times> real option list) res" where
  "compute_bucket_metrics rows upper_bounds =
    (let grouped = map sort (group_by_bucket upper_bounds rows) in
     res_bind (res_map (\<lambda>vs. percentile vs (99 / 100)) grouped) (\<lambda>p99_values. Inr (map average grouped, p99_values)))"

text \<open>The tables: one row per bucket, one column per experiment.\<close>

definition build_table_rows :: "bucket list \<Rightarrow> (int \<times> real option list) list \<Rightarrow> (string, string) dict list" where
  "build_table_rows bucket_plan experiments =
    map (\<lambda>b. fold (\<lambda>(i, vs) row. dict_set (py_str_int i) (format_metric (vs ! b_index b)) row) experiments
               [(''level'', b_level b), (''size_range'', size_range b)]) bucket_plan"

definition render_markdown_table :: "string list \<Rightarrow> (string, string) dict list \<Rightarrow> string res" where
  "render_markdown_table header rows =
    (let line = (\<lambda>cells. ''| '' @ str_join '' | '' cells @ '' |'') in
     res_bind (res_map (\<lambda>row. res_map (\<lambda>c. case dict_get row c of None \<Rightarrow> Inl KeyError | Some s \<Rightarrow> Inr s) header) rows) (\<lambda>cells.
       Inr (str_join [nl] ([line header, line (replicate (length header) ''---'')] @ map line cells))))"

text \<open>\<^verbatim>\<open>main\<close> of \<^verbatim>\<open>normalized_fct.py\<close> up to the tables: \<open>content_of\<close> reads a file.\<close>

definition summarize_experiment ::
  "(string \<Rightarrow> bool) \<Rightarrow> (string \<Rightarrow> jval option) \<Rightarrow> (string \<Rightarrow> string list) \<Rightarrow> (string \<Rightarrow> string) \<Rightarrow> string \<Rightarrow> (int \<times> real) list res" where
  "summarize_experiment exists manifest_of names_of content_of dir =
    res_bind (find_fct_file exists dir (names_of dir) (load_manifest manifest_of dir)) (\<lambda>p.
      load_normalized_fct_rows (content_of p))"

definition nfct_tables ::
  "(string \<Rightarrow> bool) \<Rightarrow> (string \<Rightarrow> jval option) \<Rightarrow> (string \<Rightarrow> string list) \<Rightarrow> (string \<Rightarrow> string) \<Rightarrow> string \<Rightarrow> (string \<times> bool) list
     \<Rightarrow> string list \<Rightarrow> int \<Rightarrow> string \<Rightarrow> (bucket list \<times> (real option list \<times> real option list) list) res" where
  "nfct_tables exists manifest_of names_of content_of mix_dir entries ids bucket_count bucket_mode =
    res_bind (parse_experiment_ids ids) (\<lambda>experiment_ids.
    res_bind (resolve_run_dirs mix_dir entries experiment_ids) (\<lambda>run_dirs.
    res_bind (res_map (summarize_experiment exists manifest_of names_of content_of) run_dirs) (\<lambda>experiments.
    res_bind (build_bucket_plan (map fst (concat experiments)) bucket_count bucket_mode) (\<lambda>(bucket_plan, upper_bounds).
    res_bind (res_map (\<lambda>rows. compute_bucket_metrics rows upper_bounds) experiments) (\<lambda>tables. Inr (bucket_plan, tables))))))"

section \<open>The Pareto frontier\<close>

text \<open>A row of the FCT file as pandas reads it (\<open>None\<close> a missing cell); division by zero gives an infinity or \<^verbatim>\<open>nan\<close>.\<close>

record fct_cells =
  fc_size :: "real option"
  fc_fct :: "real option"
  fc_standalone :: "real option"

definition nfct :: "fct_cells \<Rightarrow> pyfloat" where
  "nfct r =
    (case (fc_fct r, fc_standalone r) of
       (Some a, Some b) \<Rightarrow> if b \<noteq> 0 then Fin (a / b) else if a > 0 then PosInf else if a < 0 then NegInf else NaN
     | _ \<Rightarrow> NaN)"

text \<open>\<^verbatim>\<open>Series.mean\<close> skips \<^verbatim>\<open>nan\<close>; the mean of nothing is \<^verbatim>\<open>nan\<close>.\<close>

definition flt_div :: "pyfloat \<Rightarrow> real \<Rightarrow> pyfloat" where
  "flt_div v n = (case v of Fin x \<Rightarrow> Fin (x / n) | _ \<Rightarrow> v)"

definition series_mean :: "pyfloat list \<Rightarrow> pyfloat" where
  "series_mean vs =
    (let ws = filter (\<lambda>v. v \<noteq> NaN) vs in if ws = [] then NaN else flt_div (fold flt_add ws (Fin 0)) (real (length ws)))"

record point =
  pt_id :: int
  pt_label :: string
  small_avg :: pyfloat
  large_avg :: pyfloat

definition compute_point :: "int \<Rightarrow> string \<Rightarrow> int \<Rightarrow> fct_cells list \<Rightarrow> point" where
  "compute_point experiment_id label threshold_bytes df =
    (let below = filter (\<lambda>r. case fc_size r of None \<Rightarrow> False | Some z \<Rightarrow> z < of_int threshold_bytes) df;
         above = filter (\<lambda>r. case fc_size r of None \<Rightarrow> False | Some z \<Rightarrow> z \<ge> of_int threshold_bytes) df
     in \<lparr>pt_id = experiment_id, pt_label = label, small_avg = series_mean (map nfct below), large_avg = series_mean (map nfct above)\<rparr>)"

definition dominates :: "point \<Rightarrow> point \<Rightarrow> bool" where
  "dominates q p \<longleftrightarrow>
     (flt_le (small_avg q) (small_avg p) \<and> flt_le (large_avg q) (large_avg p))
     \<and> (flt_lt (small_avg q) (small_avg p) \<or> flt_lt (large_avg q) (large_avg p))"

text \<open>The inner loop breaks at the first other row that dominates.\<close>

definition is_dominated :: "point list \<Rightarrow> nat \<Rightarrow> bool" where
  "is_dominated df i \<longleftrightarrow> list_ex (\<lambda>j. i \<noteq> j \<and> dominates (df ! j) (df ! i)) [0..<length df]"

text \<open>The order of \<^verbatim>\<open>sort_values\<close>: numbers ascending, \<^verbatim>\<open>nan\<close> last.\<close>

definition flt_rank :: "pyfloat \<Rightarrow> nat \<times> real" where
  "flt_rank v = (case v of NegInf \<Rightarrow> (0, 0) | Fin x \<Rightarrow> (1, x) | PosInf \<Rightarrow> (2, 0) | NaN \<Rightarrow> (3, 0))"

definition pareto_frontier :: "point list \<Rightarrow> point list" where
  "pareto_frontier df =
    sort_key (\<lambda>p. (flt_rank (small_avg p), flt_rank (large_avg p)))
      (map (\<lambda>i. df ! i) (filter (\<lambda>i. \<not> is_dominated df i) [0..<length df]))"

definition threshold_of_kb :: "real \<Rightarrow> int" where
  "threshold_of_kb threshold_kb = py_round (threshold_kb * 1024)"

section \<open>Curves and their names\<close>

definition message_of :: "jval \<Rightarrow> string" where
  "message_of man = (case jget man ''message'' of Some (JStr s) \<Rightarrow> s | _ \<Rightarrow> [])"

definition cdf_build_label :: "int \<Rightarrow> jval \<Rightarrow> string" where
  "cdf_build_label experiment_id man =
    (if message_of man = [] then ''exp '' @ py_str_int experiment_id
     else ''exp '' @ py_str_int experiment_id @ '' ('' @ message_of man @ '')'')"

definition build_scheme_label :: "jval \<Rightarrow> string" where
  "build_scheme_label man =
    (let message = str_lower (message_of man) in
     if jget man ''scheme'' = Some (JStr ''expert'') then ''Expert''
     else if str_contains ''dcqcnplus'' message then ''DCQCN+''
     else if str_contains ''paraleonplus'' message \<or> str_contains ''paraleon'' message then ''Paraleon''
     else if str_contains ''acc'' message then ''ACC'' else ''DCQCN'')"

definition cdf_collapse_experiment_ids :: "int list \<Rightarrow> string" where
  "cdf_collapse_experiment_ids ids = (if ids = [] then ''exp_none'' else ''exp_'' @ str_join ''_'' (map py_str_int ids))"

text \<open>The height of the curve over the sorted completion times.\<close>

definition cdf_heights :: "real list \<Rightarrow> real list" where
  "cdf_heights values_ms = map (\<lambda>k. real (k + 1) / real (length values_ms)) [0..<length values_ms]"

definition range_name :: "int \<Rightarrow> int \<Rightarrow> string" where
  "range_name a b = (if a = b then py_str_int a else py_str_int a @ ''_'' @ py_str_int b)"

fun collapse_ranges :: "int \<Rightarrow> int \<Rightarrow> int list \<Rightarrow> (int \<times> int) list" where
  "collapse_ranges a b [] = [(a, b)]"
| "collapse_ranges a b (i # is) = (if i = b + 1 then collapse_ranges a i is else (a, b) # collapse_ranges i i is)"

definition collapse_experiment_ids :: "int list \<Rightarrow> string" where
  "collapse_experiment_ids ids =
    (case ids of [] \<Rightarrow> ''exp_none''
     | i # is \<Rightarrow> ''exp_'' @ str_join ''_'' (map (\<lambda>(a, b). range_name a b) (collapse_ranges i i is)))"

text \<open>The rows of \<^verbatim>\<open>throughput_norm.csv\<close> after the numeric coercion; \<open>None\<close> where the file or a column is missing, and
  \<open>NaN\<close> a cell that is not a number. Times that are infinite are outside the model.\<close>

fun mark_gaps :: "real option \<Rightarrow> (real \<times> pyfloat) list \<Rightarrow> (real \<times> pyfloat) list" where
  "mark_gaps prev [] = []"
| "mark_gaps prev ((t, v) # rows) =
    (t, if (case prev of None \<Rightarrow> False | Some p \<Rightarrow> t - p > 1 / 100) then NaN else v) # mark_gaps (Some t) rows"

definition load_throughput_norm_series ::
  "bool \<Rightarrow> real option \<Rightarrow> real option \<Rightarrow> (real option \<times> pyfloat) list option \<Rightarrow> (real \<times> pyfloat) list res" where
  "load_throughput_norm_series drop_first_sample from_time to_time csv =
    (case csv of
       None \<Rightarrow> Inl SystemExit
     | Some rows \<Rightarrow>
        (let df = sort_key fst (concat (map (\<lambda>(t, v). case t of None \<Rightarrow> [] | Some x \<Rightarrow> if v = NaN then [] else [(x, v)]) rows)) in
         if df = [] then Inl SystemExit
         else
           (let df1 = (if drop_first_sample \<and> 1 < length df then tl df else df);
                df2 = (case from_time of None \<Rightarrow> df1 | Some a \<Rightarrow> filter (\<lambda>r. fst r \<ge> a) df1);
                df3 = (case to_time of None \<Rightarrow> df2 | Some b \<Rightarrow> filter (\<lambda>r. fst r \<le> b) df2)
            in if df3 = [] then Inl SystemExit else Inr (mark_gaps None df3))))"

definition norm_build_label :: "int \<Rightarrow> jval \<Rightarrow> bool \<Rightarrow> string" where
  "norm_build_label experiment_id man include_message =
    (if \<not> include_message then ''exp '' @ py_str_int experiment_id else cdf_build_label experiment_id man)"

definition time_part :: "string \<Rightarrow> real option \<Rightarrow> string" where
  "time_part word v =
    (case v of None \<Rightarrow> [] | Some x \<Rightarrow> word @ map (\<lambda>c. if c = CHR ''.'' then CHR ''p'' else c) (trim_fixed (fmt_fixed 2 x)))"

definition norm_build_output_stem :: "int list \<Rightarrow> real option \<Rightarrow> real option \<Rightarrow> bool \<Rightarrow> string" where
  "norm_build_output_stem ids from_time to_time drop_first_sample =
    ''throughput_norm_'' @ collapse_experiment_ids ids @ (if drop_first_sample then ''_drop_first'' else [])
      @ time_part ''_from_'' from_time @ time_part ''_to_'' to_time"

record summary_row =
  exp_id :: int
  end_time :: real
  avg_throughput_norm :: pyfloat

definition summary_of :: "real \<Rightarrow> int \<times> (real \<times> pyfloat) list \<Rightarrow> summary_row res" where
  "summary_of average_cutoff rec =
    (let vs = filter (\<lambda>v. v \<noteq> NaN) (map snd (filter (\<lambda>r. fst r \<le> average_cutoff) (snd rec))) in
     if vs = [] then Inl SystemExit
     else Inr \<lparr>exp_id = fst rec, end_time = foldr max (map fst (snd rec)) (fst (hd (snd rec))), avg_throughput_norm = series_mean vs\<rparr>)"

definition build_summary_rows :: "(int \<times> (real \<times> pyfloat) list) list \<Rightarrow> real \<Rightarrow> summary_row list res" where
  "build_summary_rows series_records average_cutoff = res_map (summary_of average_cutoff) series_records"

section \<open>Searching the bounds\<close>

definition cut_at :: "real list \<Rightarrow> real \<Rightarrow> nat \<Rightarrow> bool" where
  "cut_at a x r \<longleftrightarrow> r \<le> length a \<and> (\<forall>i < r. a ! i < x) \<and> (\<forall>i. r \<le> i \<and> i < length a \<longrightarrow> x \<le> a ! i)"

lemma bisect_loop_cut:
  "sorted a \<Longrightarrow> lo \<le> hi \<Longrightarrow> hi \<le> length a \<Longrightarrow> \<forall>i < lo. a ! i < x \<Longrightarrow> \<forall>i. hi \<le> i \<and> i < length a \<longrightarrow> x \<le> a ! i \<Longrightarrow>
     cut_at a x (bisect_loop a x lo hi)"
proof (induction a x lo hi rule: bisect_loop.induct)
  case (1 a x lo hi)
  show ?case
  proof (cases "lo < hi")
    case False
    then have "bisect_loop a x lo hi = lo" by (subst bisect_loop.simps) simp
    then show ?thesis using False 1(4-) by (simp add: cut_at_def)
  next
    case True
    let ?m = "(lo + hi) div 2"
    have m: "lo \<le> ?m" "?m < hi" "?m < length a" using True 1(5) by auto
    note mono = sorted_nth_mono[OF 1(3)]
    show ?thesis
    proof (cases "a ! ?m < x")
      case lt: True
      have "a ! i < x" if "i < ?m + 1" for i using mono[of i ?m] m(3) lt that by simp
      then show ?thesis using 1(1)[OF True refl lt 1(3)] m 1(5,7) True lt by (simp add: bisect_loop.simps[of a x lo hi] Let_def)
    next
      case ge: False
      have "x \<le> a ! i" if "?m \<le> i" "i < length a" for i using mono[of ?m i] ge that by simp
      then show ?thesis using 1(2)[OF True refl ge 1(3)] m 1(5,6) True ge by (simp add: bisect_loop.simps[of a x lo hi] Let_def)
    qed
  qed
qed

lemma bisect_left_cut: "sorted a \<Longrightarrow> cut_at a x (bisect_left a x)"
  unfolding bisect_left_def by (rule bisect_loop_cut) simp_all

lemma bucket_index_spec:
  assumes "sorted ubs" "ubs \<noteq> []" "of_int z \<le> last ubs"
  shows "bucket_index_for_size z ubs < length ubs \<and> of_int z \<le> ubs ! bucket_index_for_size z ubs
    \<and> (\<forall>j < bucket_index_for_size z ubs. ubs ! j < of_int z)"
proof -
  let ?r = "bisect_left ubs (of_int z)"
  have c: "cut_at ubs (of_int z) ?r" by (rule bisect_left_cut[OF assms(1)])
  have "?r < length ubs"
  proof (rule ccontr)
    assume "\<not> ?r < length ubs"
    then have "ubs ! (length ubs - 1) < of_int z" using c assms(2) by (simp add: cut_at_def)
    then show False using assms(2,3) by (simp add: last_conv_nth)
  qed
  then show ?thesis using c assms(2) by (auto simp: bucket_index_for_size_def cut_at_def)
qed

lemma bucket_index_less: "ubs \<noteq> [] \<Longrightarrow> bucket_index_for_size z ubs < length ubs"
  by (cases ubs) (auto simp: bucket_index_for_size_def)

section \<open>The bounds of the buckets\<close>

lemma sorted_map_upt: "(\<And>j k. j \<le> k \<Longrightarrow> k < n \<Longrightarrow> f j \<le> f k) \<Longrightarrow> sorted (map f [0..<n])"
  by (auto simp: sorted_iff_nth_mono)

lemma quantile_position_mono: "0 < n \<Longrightarrow> j \<le> k \<Longrightarrow> quantile_position m n j \<le> quantile_position m n k"
  unfolding quantile_position_def by (intro diff_right_mono ceiling_mono divide_right_mono mult_right_mono) simp_all

lemma quantile_position_nonneg: "0 < m \<Longrightarrow> 0 < n \<Longrightarrow> 0 \<le> quantile_position m n k"
  unfolding quantile_position_def by simp

lemma quantile_position_last: "0 < n \<Longrightarrow> quantile_position m n (n - 1) = int m - 1"
  by (simp add: quantile_position_def)

lemma quantile_bounds_wf:
  assumes "sorted zs" "zs \<noteq> []" "0 < n"
  shows "length (build_quantile_upper_bounds zs n) = n \<and> sorted (build_quantile_upper_bounds zs n)
    \<and> last (build_quantile_upper_bounds zs n) = of_int (last zs)"
proof -
  let ?m = "length zs"
  let ?i = "\<lambda>k. nat (min (quantile_position ?m n k) (int ?m - 1))"
  have m: "0 < ?m" using assms(2) by simp
  have "?i j \<le> ?i k" if "j \<le> k" for j k using quantile_position_mono[OF assms(3) that, of ?m] by auto
  moreover have "?i k < ?m" for k
    using nat_mono[OF min.cobounded2[of "quantile_position ?m n k" "int ?m - 1"]] m by linarith
  ultimately have "zs ! ?i j \<le> zs ! ?i k" if "j \<le> k" for j k
    using sorted_nth_mono[OF assms(1)] that by blast
  then have "sorted (build_quantile_upper_bounds zs n)"
    by (simp add: build_quantile_upper_bounds_def sorted_iff_nth_mono)
  moreover have "?i (n - 1) = ?m - 1" using quantile_position_last[OF assms(3), of ?m] m by simp
  ultimately show ?thesis
    using assms(2,3) by (simp add: build_quantile_upper_bounds_def last_conv_nth)
qed

lemma log_bounds_wf:
  assumes "sorted zs" "zs \<noteq> []" "0 < n" "0 < hd zs"
  shows "\<exists>ubs. build_log_upper_bounds zs n = Inr ubs \<and> length ubs = n \<and> sorted ubs \<and> last ubs = of_int (last zs)"
proof (cases "hd zs = last zs")
  case True
  then show ?thesis using assms(3) by (auto simp: build_log_upper_bounds_def sorted_replicate)
next
  case False
  have le: "hd zs \<le> last zs" using assms(1,2) by (cases zs) auto
  let ?a = "ln (of_int (hd zs)) :: real" and ?b = "ln (of_int (last zs)) :: real"
  let ?u = "\<lambda>k. if k = n - 1 then of_int (last zs) else exp (?a + (?b - ?a) * real (k + 1) / real n)"
  have ab: "?a \<le> ?b" using le assms(4) by simp
  have last: "exp ?b = of_int (last zs)" using le assms(4) by simp
  have "?u j \<le> ?u k" if "j \<le> k" "k < n" for j k
  proof -
    have mono: "(?b - ?a) * real (i + 1) / real n \<le> ?b - ?a" if "i < n" for i
      using ab that assms(3) by (simp add: divide_le_eq mult_left_mono)
    have "(?b - ?a) * real (j + 1) / real n \<le> (?b - ?a) * real (k + 1) / real n"
      using ab \<open>j \<le> k\<close> by (intro divide_right_mono mult_left_mono) simp_all
    moreover have "exp (?a + (?b - ?a) * real (j + 1) / real n) \<le> of_int (last zs)"
    proof -
      have "?a + (?b - ?a) * real (j + 1) / real n \<le> ?b" using mono[of j] that by simp
      then have "exp (?a + (?b - ?a) * real (j + 1) / real n) \<le> exp ?b" by (subst exp_le_cancel_iff)
      then show ?thesis by (simp only: last)
    qed
    ultimately show ?thesis using that by (cases "k = n - 1"; cases "j = n - 1") auto
  qed
  then have "sorted (map ?u [0..<n])" by (rule sorted_map_upt)
  moreover have "last (map ?u [0..<n]) = of_int (last zs)" using assms(3) by (simp add: last_conv_nth)
  moreover have "build_log_upper_bounds zs n = Inr (map ?u [0..<n])"
    using False le assms(4) by (simp add: build_log_upper_bounds_def Let_def)
  ultimately show ?thesis by auto
qed

section \<open>Grouping\<close>

lemma group_length [simp]: "length (group_by_bucket ubs rows) = length ubs"
  by (simp add: group_by_bucket_def)

lemma group_nth:
  "k < length ubs \<Longrightarrow> group_by_bucket ubs rows ! k = map snd (filter (\<lambda>r. bucket_index_for_size (fst r) ubs = k) rows)"
  by (simp add: group_by_bucket_def)

text \<open>Filing by an index that is in range loses nothing.\<close>

lemma mset_by_index:
  assumes "\<forall>r \<in> set rows. f r < n"
  shows "mset (concat (map (\<lambda>k. filter (\<lambda>r. f r = k) rows) [0..<n])) = mset rows"
  using assms
proof (induction n arbitrary: rows)
  case (Suc n)
  let ?lo = "filter (\<lambda>r. f r < n) rows"
  have "filter (\<lambda>r. f r = k) ?lo = filter (\<lambda>r. f r = k) rows" if "k < n" for k
    using that by (auto intro!: filter_cong)
  then have e: "map (\<lambda>k. filter (\<lambda>r. f r = k) ?lo) [0..<n] = map (\<lambda>k. filter (\<lambda>r. f r = k) rows) [0..<n]"
    by (intro map_cong) simp_all
  have "mset (concat (map (\<lambda>k. filter (\<lambda>r. f r = k) ?lo) [0..<n])) = mset ?lo"
    by (rule Suc.IH) simp
  then have "mset (concat (map (\<lambda>k. filter (\<lambda>r. f r = k) rows) [0..<n])) = mset ?lo"
    by (simp only: e)
  moreover have "mset rows = mset ?lo + mset (filter (\<lambda>r. f r = n) rows)"
  proof -
    have "filter (\<lambda>r. f r = n) rows = filter (\<lambda>r. \<not> f r < n) rows"
      using Suc.prems by (intro filter_cong) (auto simp: less_Suc_eq)
    then show ?thesis using multiset_partition[of "mset rows" "\<lambda>r. f r < n"] by (simp only: mset_filter)
  qed
  moreover have "[0..<Suc n] = [0..<n] @ [n]" by simp
  ultimately show ?case by (simp only: map_append concat_append mset_append list.map concat.simps append_Nil2)
qed simp

lemma group_keeps_rows: "ubs \<noteq> [] \<Longrightarrow> mset (concat (group_by_bucket ubs rows)) = mset (map snd rows)"
proof -
  assume "ubs \<noteq> []"
  then have "mset (concat (map (\<lambda>k. filter (\<lambda>r. bucket_index_for_size (fst r) ubs = k) rows) [0..<length ubs])) = mset rows"
    by (intro mset_by_index) (simp add: bucket_index_less)
  moreover have "concat (group_by_bucket ubs rows)
      = map snd (concat (map (\<lambda>k. filter (\<lambda>r. bucket_index_for_size (fst r) ubs = k) rows) [0..<length ubs]))"
    by (simp add: group_by_bucket_def map_concat comp_def)
  ultimately show ?thesis by simp
qed

text \<open>The plan of either mode.\<close>

lemma bucket_plan_bounds:
  assumes "zs \<noteq> []" "0 < n" "mode = ''quantile'' \<or> mode = ''log'' \<and> (\<forall>z \<in> set zs. 0 < z)"
  obtains plan ubs where "build_bucket_plan zs n mode = Inr (plan, ubs)" "length ubs = nat n" "length plan = nat n"
    "sorted ubs" "last ubs = of_int (last (sort zs))"
    "\<forall>k < nat n. plan ! k = make_bucket k (group_by_bucket ubs (map (\<lambda>z. (z, z)) (sort zs)) ! k)"
proof -
  have s: "sorted (sort zs)" "sort zs \<noteq> []" "0 < nat n" using assms(1,2) by (simp_all flip: length_greater_0_conv)
  obtain ubs where u: "(if mode = ''quantile'' then Inr (build_quantile_upper_bounds (sort zs) (nat n))
          else if mode = ''log'' then build_log_upper_bounds (sort zs) (nat n) else Inl SystemExit) = Inr ubs"
    "length ubs = nat n" "sorted ubs" "last ubs = of_int (last (sort zs))"
  proof (cases "mode = ''quantile''")
    case True
    then show ?thesis using that[of "build_quantile_upper_bounds (sort zs) (nat n)"] quantile_bounds_wf[OF s] by simp
  next
    case False
    then have "0 < hd (sort zs)" using assms(3) s(2) hd_in_set[OF s(2)] by auto
    then show ?thesis using that log_bounds_wf[OF s] False assms(3) by auto
  qed
  then show thesis
    using that[of _ ubs] s assms(2) by (simp add: build_bucket_plan_def Let_def)
qed

section \<open>Percentiles\<close>

definition interp :: "real list \<Rightarrow> real \<Rightarrow> real" where
  "interp xs p = (let i = nat \<lfloor>p\<rfloor>; w = p - of_int \<lfloor>p\<rfloor> in
     if w = 0 then xs ! i else xs ! i * (1 - w) + xs ! Suc i * w)"

lemma interp_between:
  assumes "sorted xs" "0 \<le> p" "p \<le> real (length xs) - 1"
  shows "xs ! nat \<lfloor>p\<rfloor> \<le> interp xs p \<and> (p \<noteq> of_int \<lfloor>p\<rfloor> \<longrightarrow> interp xs p \<le> xs ! Suc (nat \<lfloor>p\<rfloor>))"
proof (cases "p = of_int \<lfloor>p\<rfloor>")
  case True
  then show ?thesis by (simp add: interp_def Let_def)
next
  case False
  define w where "w = p - of_int \<lfloor>p\<rfloor>"
  have w: "0 < w" "w < 1" unfolding w_def using False by linarith+
  have "Suc (nat \<lfloor>p\<rfloor>) < length xs" using False assms(2,3) by linarith
  then have le: "xs ! nat \<lfloor>p\<rfloor> \<le> xs ! Suc (nat \<lfloor>p\<rfloor>)" by (intro sorted_nth_mono[OF assms(1)]) simp_all
  have i: "interp xs p = xs ! nat \<lfloor>p\<rfloor> + (xs ! Suc (nat \<lfloor>p\<rfloor>) - xs ! nat \<lfloor>p\<rfloor>) * w"
    using w by (simp add: interp_def Let_def w_def[symmetric] algebra_simps)
  have "0 \<le> (xs ! Suc (nat \<lfloor>p\<rfloor>) - xs ! nat \<lfloor>p\<rfloor>) * w" using le w by simp
  moreover have "(xs ! Suc (nat \<lfloor>p\<rfloor>) - xs ! nat \<lfloor>p\<rfloor>) * w \<le> xs ! Suc (nat \<lfloor>p\<rfloor>) - xs ! nat \<lfloor>p\<rfloor>"
    using le w by (simp add: mult_left_le)
  ultimately show ?thesis using i by simp
qed

lemma interp_mono:
  assumes "sorted xs" "0 \<le> p" "p \<le> q" "q \<le> real (length xs) - 1"
  shows "interp xs p \<le> interp xs q"
proof (cases "\<lfloor>p\<rfloor> = \<lfloor>q\<rfloor>")
  case True
  show ?thesis
  proof (cases "p = of_int \<lfloor>p\<rfloor>")
    case p: True
    then show ?thesis using interp_between[OF assms(1) order_trans[OF assms(2,3)] assms(4)] True by (simp add: interp_def Let_def)
  next
    case False
    have q: "q \<noteq> of_int \<lfloor>q\<rfloor>" using False True assms(3) by linarith
    let ?i = "nat \<lfloor>p\<rfloor>"
    have "Suc ?i < length xs" using False assms(2-4) by linarith
    then have "0 \<le> xs ! Suc ?i - xs ! ?i" using sorted_nth_mono[OF assms(1), of ?i "Suc ?i"] by simp
    then have "(xs ! Suc ?i - xs ! ?i) * (p - of_int \<lfloor>p\<rfloor>) \<le> (xs ! Suc ?i - xs ! ?i) * (q - of_int \<lfloor>p\<rfloor>)"
      using assms(3) by (intro mult_left_mono) simp_all
    then show ?thesis using False q True by (simp add: interp_def Let_def algebra_simps)
  qed
next
  case False
  then have f: "\<lfloor>p\<rfloor> + 1 \<le> \<lfloor>q\<rfloor>" using assms(3) floor_mono[OF assms(3)] by linarith
  have q: "nat \<lfloor>q\<rfloor> < length xs" using assms(2-4) by linarith
  have "interp xs p \<le> xs ! nat \<lfloor>q\<rfloor>"
  proof (cases "p = of_int \<lfloor>p\<rfloor>")
    case True
    then show ?thesis using sorted_nth_mono[OF assms(1), of "nat \<lfloor>p\<rfloor>" "nat \<lfloor>q\<rfloor>"] f q by (simp add: interp_def Let_def)
  next
    case ne: False
    have "Suc (nat \<lfloor>p\<rfloor>) \<le> nat \<lfloor>q\<rfloor>" using f assms(2) by linarith
    then have "xs ! Suc (nat \<lfloor>p\<rfloor>) \<le> xs ! nat \<lfloor>q\<rfloor>" using sorted_nth_mono[OF assms(1)] q by blast
    then show ?thesis using interp_between[OF assms(1,2)] assms(3,4) ne by fastforce
  qed
  then show ?thesis using interp_between[OF assms(1), of q] assms(2-4) by linarith
qed

lemma percentile_interp:
  assumes "xs \<noteq> []" "0 \<le> r" "r \<le> 1"
  shows "percentile xs r = Inr (Some (interp xs ((real (length xs) - 1) * r)))"
proof (cases "length xs = 1")
  case True
  then show ?thesis using assms(1) by (simp add: percentile_def interp_def hd_conv_nth)
next
  case False
  define p where "p = (real (length xs) - 1) * r"
  have n: "1 < length xs" using False assms(1) by (cases xs) auto
  then have n1: "length xs \<noteq> Suc 0" by linarith
  have p: "0 \<le> p" "p \<le> real (length xs) - 1"
    unfolding p_def using n assms by (simp_all add: mult_left_le)
  have lo: "0 \<le> \<lfloor>p\<rfloor>" "\<lfloor>p\<rfloor> < int (length xs)" using p by linarith+
  have eq: "\<lfloor>p\<rfloor> = \<lceil>p\<rceil> \<longleftrightarrow> p - of_int \<lfloor>p\<rfloor> = 0"
    by (simp add: ceiling_altdef)
  show ?thesis
  proof (cases "p - of_int \<lfloor>p\<rfloor> = 0")
    case True
    then show ?thesis using False assms(1) lo eq by (simp add: percentile_def p_def[symmetric] py_nth_def interp_def Let_def)
  next
    case ne: False
    have "\<lceil>p\<rceil> = \<lfloor>p\<rfloor> + 1" using ne by (simp add: ceiling_altdef)
    moreover have "\<lfloor>p\<rfloor> + 1 < int (length xs)" using p ne by linarith
    ultimately show ?thesis
      using assms(1) lo ne
      by (simp add: n1 percentile_def p_def[symmetric] py_nth_def interp_def Let_def nat_add_distrib)
  qed
qed

lemma percentile_range:
  assumes "sorted xs" "xs \<noteq> []" "0 \<le> r" "r \<le> s" "s \<le> 1"
  shows "\<exists>v w. percentile xs r = Inr (Some v) \<and> percentile xs s = Inr (Some w) \<and> hd xs \<le> v \<and> v \<le> w \<and> w \<le> last xs"
proof -
  let ?n = "real (length xs) - 1"
  have n: "0 \<le> ?n" using assms(2) by (cases xs) auto
  have "interp xs 0 = hd xs" using assms(2) by (simp add: interp_def hd_conv_nth)
  moreover have "interp xs ?n = last xs"
    using assms(2) n by (simp add: interp_def Let_def last_conv_nth nat_diff_distrib' flip: of_nat_diff) 
  moreover have "?n * r \<le> ?n * s" "?n * s \<le> ?n" "0 \<le> ?n * r" using n assms(3-5) by (simp_all add: mult_left_mono mult_left_le)
  ultimately have "hd xs \<le> interp xs (?n * r)" "interp xs (?n * r) \<le> interp xs (?n * s)" "interp xs (?n * s) \<le> last xs"
    using interp_mono[OF assms(1), of 0 "?n * r"] interp_mono[OF assms(1), of "?n * r" "?n * s"] interp_mono[OF assms(1), of "?n * s" ?n]
    by auto
  then show ?thesis using percentile_interp[OF assms(2)] assms(3-5) by auto
qed

section \<open>The tables\<close>

lemma average_range:
  assumes "vs \<noteq> []" "\<forall>v \<in> set vs. a \<le> v \<and> v \<le> b"
  shows "\<exists>m. average vs = Some m \<and> a \<le> m \<and> m \<le> b"
proof -
  have "real (length vs) * a \<le> sum_list vs \<and> sum_list vs \<le> real (length vs) * b"
    using assms(2) by (induction vs) (auto simp: algebra_simps)
  moreover have "0 < real (length vs)" using assms(1) by simp
  ultimately show ?thesis
    using assms(1) by (auto simp: average_def le_divide_eq divide_le_eq mult.commute)
qed

text \<open>A bucket holds the sizes up to its own bound that are above the bounds before it.\<close>

definition in_bucket :: "real list \<Rightarrow> nat \<Rightarrow> int \<Rightarrow> bool" where
  "in_bucket ubs k z \<longleftrightarrow> of_int z \<le> ubs ! k \<and> (\<forall>j < k. ubs ! j < of_int z)"

lemma filed_in_bucket:
  assumes "sorted ubs" "ubs \<noteq> []" "\<forall>(z, v) \<in> set rows. of_int z \<le> last ubs" "k < length ubs"
  shows "group_by_bucket ubs rows ! k = map snd (filter (\<lambda>(z, v). in_bucket ubs k z) rows)"
proof -
  have "bucket_index_for_size z ubs = k \<longleftrightarrow> in_bucket ubs k z" if "(z, v) \<in> set rows" for z v
  proof -
    let ?i = "bucket_index_for_size z ubs"
    have i: "of_int z \<le> ubs ! ?i" "\<forall>j < ?i. ubs ! j < of_int z"
      using bucket_index_spec[OF assms(1,2), of z] assms(3) that by auto
    have "?i = k" if b: "in_bucket ubs k z"
      using b i unfolding in_bucket_def by (metis linorder_neqE_nat not_le)
    then show ?thesis using i by (auto simp: in_bucket_def)
  qed
  then have "(bucket_index_for_size (fst r) ubs = k) = (case r of (z, v) \<Rightarrow> in_bucket ubs k z)" if "r \<in> set rows" for r
    using that by (cases r) simp
  then have "filter (\<lambda>r. bucket_index_for_size (fst r) ubs = k) rows = filter (\<lambda>(z, v). in_bucket ubs k z) rows"
    by (rule filter_cong[OF refl])
  then show ?thesis using assms(4) by (simp add: group_by_bucket_def)
qed

text \<open>What a bucket reports about its values: their average, and the value at the rank 0.99 times (number - 1) of the sorted
  values, interpolated between its neighbours.\<close>

definition reports :: "real list \<Rightarrow> real option \<Rightarrow> real option \<Rightarrow> bool" where
  "reports vs avg p99 \<longleftrightarrow>
     (if vs = [] then avg = None \<and> p99 = None
      else avg = Some (sum_list vs / real (length vs)) \<and> p99 = Some (interp (sort vs) ((real (length vs) - 1) * (99 / 100))))"

lemma sort_ends: "(vs :: 'a :: linorder list) \<noteq> [] \<Longrightarrow> hd (sort vs) = Min (set vs) \<and> last (sort vs) = Max (set vs)"
proof -
  assume "vs \<noteq> []"
  then have ne: "sort vs \<noteq> []" by (simp flip: length_greater_0_conv)
  have s: "sorted (sort vs)" by simp
  have "Min (set (sort vs)) = hd (sort vs)"
    using ne s by (cases "sort vs") (auto intro!: Min_eqI)
  moreover have "y \<le> last (sort vs)" if y: "y \<in> set (sort vs)" for y
  proof -
    obtain i where "i < length (sort vs)" "y = sort vs ! i" using y unfolding in_set_conv_nth by blast
    then show ?thesis using sorted_nth_mono[OF s, of i "length (sort vs) - 1"] ne by (simp add: last_conv_nth)
  qed
  then have "Max (set (sort vs)) = last (sort vs)"
    using last_in_set[OF ne] by (intro Max_eqI) simp_all
  ultimately show ?thesis by simp
qed

lemma bucket_report:
  "\<exists>q. percentile (sort vs) (99 / 100) = Inr q \<and> reports vs (average (sort vs)) q"
proof (cases "vs = []")
  case True
  then show ?thesis by (simp add: percentile_def average_def reports_def)
next
  case False
  then have ne: "sort vs \<noteq> []" by (simp flip: length_greater_0_conv)
  have "sum_list (sort vs) = sum_list vs" by (simp flip: sum_mset_sum_list)
  then have "average (sort vs) = Some (sum_list vs / real (length vs))" using ne by (simp add: average_def)
  then show ?thesis using percentile_interp[OF ne, of "99 / 100"] False by (simp add: reports_def)
qed

lemma bucket_metrics_total:
  "\<exists>avgs p99s. compute_bucket_metrics rows ubs = Inr (avgs, p99s) \<and> length avgs = length ubs \<and> length p99s = length ubs
    \<and> (\<forall>k < length ubs. reports (group_by_bucket ubs rows ! k) (avgs ! k) (p99s ! k))"
proof -
  define gs where "gs = group_by_bucket ubs rows"
  obtain f where f: "percentile (sort vs) (99 / 100) = Inr (f vs)" "reports vs (average (sort vs)) (f vs)" for vs
    using bucket_report by metis
  have "res_map (\<lambda>vs. percentile vs (99 / 100)) (map sort hs) = Inr (map f hs)" for hs
    by (induction hs) (simp_all add: f(1))
  then have "compute_bucket_metrics rows ubs = Inr (map (\<lambda>vs. average (sort vs)) gs, map f gs)"
    by (simp add: compute_bucket_metrics_def gs_def comp_def Let_def)
  moreover have "length gs = length ubs" by (simp add: gs_def)
  ultimately show ?thesis using f(2) by (auto simp: gs_def[symmetric])
qed

text \<open>C35: The buckets of \<^verbatim>\<open>normalized_fct.py\<close>. For a positive number of buckets and some flows (of positive size, in
  logarithmic mode), \<^verbatim>\<open>build_bucket_plan\<close> succeeds with that many buckets and rising upper bounds. Every row of an
  experiment, all of whose sizes are among the planned ones, then belongs to exactly one bucket, the first one whose bound is
  not below its flow size, and \<^verbatim>\<open>compute_bucket_metrics\<close> reports for each bucket over exactly the rows that belong to it:
  nothing if there are none, otherwise the average of their values and the value at the rank 0.99 times (number - 1) of the
  sorted values, interpolated linearly between the two neighbours.\<close>

theorem bucket_tables_sound:
  assumes "zs \<noteq> []" "0 < n" "mode = ''quantile'' \<or> mode = ''log'' \<and> (\<forall>z \<in> set zs. 0 < z)" "set (map fst rows) \<subseteq> set zs"
  shows "\<exists>plan ubs avgs p99s. build_bucket_plan zs n mode = Inr (plan, ubs) \<and> length plan = nat n \<and> length ubs = nat n \<and> sorted ubs
    \<and> compute_bucket_metrics rows ubs = Inr (avgs, p99s) \<and> length avgs = nat n \<and> length p99s = nat n
    \<and> (\<forall>(z, v) \<in> set rows. \<exists>!k. k < nat n \<and> in_bucket ubs k z)
    \<and> (\<forall>k < nat n. reports (map snd (filter (\<lambda>(z, v). in_bucket ubs k z) rows)) (avgs ! k) (p99s ! k))"
proof -
  obtain plan ubs where b: "build_bucket_plan zs n mode = Inr (plan, ubs)" "length ubs = nat n" "length plan = nat n"
    "sorted ubs" "last ubs = of_int (last (sort zs))"
    by (rule bucket_plan_bounds[OF assms(1-3)])
  have ne: "ubs \<noteq> []" using b(2) assms(2) by auto
  have "of_int z \<le> last ubs" if "z \<in> set zs" for z
    using that sort_ends[OF assms(1)] b(5) by simp
  then have below: "\<forall>(z, v) \<in> set rows. of_int z \<le> last ubs" using assms(4) by fastforce
  have "\<exists>!k. k < nat n \<and> in_bucket ubs k z" if "(z, v) \<in> set rows" for z v
  proof (rule ex1I[of _ "bucket_index_for_size z ubs"])
    show "bucket_index_for_size z ubs < nat n \<and> in_bucket ubs (bucket_index_for_size z ubs) z"
      using bucket_index_spec[OF b(4) ne, of z] below that bucket_index_less[OF ne, of z] b(2) by (auto simp: in_bucket_def)
    then show "k = bucket_index_for_size z ubs" if "k < nat n \<and> in_bucket ubs k z" for k
      using that unfolding in_bucket_def by (metis linorder_neqE_nat not_le)
  qed
  then have one: "\<forall>(z, v) \<in> set rows. \<exists>!k. k < nat n \<and> in_bucket ubs k z" by blast
  obtain avgs p99s where m: "compute_bucket_metrics rows ubs = Inr (avgs, p99s)" "length avgs = nat n" "length p99s = nat n"
    "\<forall>k < nat n. reports (group_by_bucket ubs rows ! k) (avgs ! k) (p99s ! k)"
    using bucket_metrics_total[of rows ubs] b(2) by auto
  have "\<forall>k < nat n. reports (map snd (filter (\<lambda>(z, v). in_bucket ubs k z) rows)) (avgs ! k) (p99s ! k)"
    using m(4) filed_in_bucket[OF b(4) ne below] b(2) by simp
  then show ?thesis using b(1-4) m(1-3) one by blast
qed

theorem bucket_tables_sound_witness:
  "\<exists>plan ubs avgs p99s. build_bucket_plan [100, 3000, 200] 2 ''log'' = Inr (plan, ubs) \<and> length plan = 2
    \<and> compute_bucket_metrics [(100, 1), (3000, 4), (200, 2)] ubs = Inr (avgs, p99s) \<and> length avgs = 2"
  using bucket_tables_sound[of "[100, 3000, 200]" 2 "''log''" "[(100, 1), (3000, 4), (200, 2)]"] by (auto simp: numeral_2_eq_2)

end
