(* ===== verification/Frontier.thy ===== *)
theory Frontier
  imports FctStats
begin

text \<open>
  The Pareto frontier of several experiments. The locale \<open>dominance\<close> states what the comparison of two experiments has to
  provide (a strict partial order); that every dropped element of a finite set is beaten by a kept one is proved there, and
  used on \<^verbatim>\<open>pareto_frontier_plot.py\<close> through its interpretation. Also the names built from experiment ids.
\<close>

section \<open>Dominance\<close>

lemma flt_lt_trans: "flt_lt a b \<Longrightarrow> flt_lt b c \<Longrightarrow> flt_lt a c"
  by (cases a; cases b; cases c) auto

lemma flt_le_trans: "flt_le a b \<Longrightarrow> flt_le b c \<Longrightarrow> flt_le a c"
  by (cases a; cases b; cases c) (auto simp: flt_le_def)

lemma flt_lt_le_trans: "flt_lt a b \<Longrightarrow> flt_le b c \<Longrightarrow> flt_lt a c" "flt_le a b \<Longrightarrow> flt_lt b c \<Longrightarrow> flt_lt a c"
  by (cases a; cases b; cases c; auto simp: flt_le_def)+

lemma flt_lt_irrefl: "\<not> flt_lt a a"
  by (cases a) auto

lemma dominates_irrefl: "\<not> dominates p p"
  by (simp add: dominates_def flt_lt_irrefl)

lemma dominates_trans: "dominates p q \<Longrightarrow> dominates q r \<Longrightarrow> dominates p r"
  unfolding dominates_def by (blast intro: flt_le_trans flt_lt_le_trans)

text \<open>A finite strict order has minimal elements below every element.\<close>

locale dominance =
  fixes better :: "'a \<Rightarrow> 'a \<Rightarrow> bool"
  assumes better_irrefl: "\<not> better p p"
    and better_trans: "better p q \<Longrightarrow> better q r \<Longrightarrow> better p r"
begin

definition frontier :: "'a set \<Rightarrow> 'a set" where
  "frontier S = {p \<in> S. \<forall>q \<in> S. \<not> better q p}"

lemma dominated_by_frontier:
  assumes "finite S" "p \<in> S"
  shows "p \<in> frontier S \<or> (\<exists>q \<in> frontier S. better q p)"
proof -
  have "q \<in> S \<Longrightarrow> q \<in> frontier S \<or> (\<exists>r \<in> frontier S. better r q)" for q
  proof (induction "card {r \<in> S. better r q}" arbitrary: q rule: less_induct)
    case less
    show ?case
    proof (cases "q \<in> frontier S")
      case False
      then obtain r where r: "r \<in> S" "better r q" using less.prems by (auto simp: frontier_def)
      have "{x \<in> S. better x r} \<subset> {x \<in> S. better x q}"
        using r better_trans better_irrefl by blast
      then have "card {x \<in> S. better x r} < card {x \<in> S. better x q}"
        using assms(1) by (intro psubset_card_mono) simp_all
      then show ?thesis using less.hyps[of r] r better_trans by blast
    qed simp
  qed
  then show ?thesis using assms(2) by blast
qed

lemma frontier_antichain: "p \<in> frontier S \<Longrightarrow> q \<in> frontier S \<Longrightarrow> \<not> better p q"
  by (auto simp: frontier_def)

end

interpretation nfct_points: dominance dominates
  by unfold_locales (rule dominates_irrefl, erule (1) dominates_trans)

lemma is_dominated_iff: "i < length df \<Longrightarrow> is_dominated df i \<longleftrightarrow> (\<exists>q \<in> set df. dominates q (df ! i))"
proof -
  have "is_dominated df i \<longleftrightarrow> (\<exists>j < length df. i \<noteq> j \<and> dominates (df ! j) (df ! i))"
    by (auto simp: is_dominated_def list_ex_iff)
  also have "\<dots> \<longleftrightarrow> (\<exists>j < length df. dominates (df ! j) (df ! i))"
    using dominates_irrefl by metis
  finally show ?thesis by (auto simp: Bex_def in_set_conv_nth)
qed

lemma pareto_frontier_set: "set (pareto_frontier df) = nfct_points.frontier (set df)"
proof -
  have "set (pareto_frontier df) = {df ! i | i. i < length df \<and> \<not> is_dominated df i}"
    by (auto simp: pareto_frontier_def)
  also have "\<dots> = nfct_points.frontier (set df)"
    unfolding nfct_points.frontier_def by (auto simp: is_dominated_iff in_set_conv_nth)
  finally show ?thesis .
qed

text \<open>Two points of the frontier with numbers in both columns, in the order of the table.\<close>

lemma frontier_order:
  assumes "\<not> dominates p q" "\<not> dominates q p" "small_avg p = Fin a" "small_avg q = Fin c" "large_avg p = Fin b" "large_avg q = Fin d"
    "(flt_rank (small_avg p), flt_rank (large_avg p)) \<le> (flt_rank (small_avg q), flt_rank (large_avg q))"
  shows "a \<le> c \<and> d \<le> b"
  using assms by (auto simp: dominates_def flt_rank_def less_eq_prod_def less_prod_def)

lemma pareto_frontier_sorted:
  assumes "i < j" "j < length (pareto_frontier df)"
  shows "(flt_rank (small_avg (pareto_frontier df ! i)), flt_rank (large_avg (pareto_frontier df ! i)))
    \<le> (flt_rank (small_avg (pareto_frontier df ! j)), flt_rank (large_avg (pareto_frontier df ! j)))"
proof -
  let ?k = "\<lambda>p. (flt_rank (small_avg p), flt_rank (large_avg p))"
  have "sorted (map ?k (pareto_frontier df))" unfolding pareto_frontier_def by (rule sorted_sort_key)
  then have "map ?k (pareto_frontier df) ! i \<le> map ?k (pareto_frontier df) ! j"
    using assms by (intro sorted_nth_mono) simp_all
  then show ?thesis using assms by simp
qed

text \<open>C36: \<^verbatim>\<open>pareto_frontier\<close> keeps exactly the experiments that no other one beats: a kept one is not dominated, a
  dropped one is dominated by a kept one, and along the table the average for small flows does not fall and the average
  for large flows does not rise.\<close>

theorem pareto_frontier_exact:
  "set (pareto_frontier df) = {p \<in> set df. \<forall>q \<in> set df. \<not> dominates q p}
   \<and> (\<forall>p \<in> set df. p \<in> set (pareto_frontier df) \<or> (\<exists>q \<in> set (pareto_frontier df). dominates q p))
   \<and> (\<forall>i j a b c d. i < j \<and> j < length (pareto_frontier df)
        \<and> small_avg (pareto_frontier df ! i) = Fin a \<and> large_avg (pareto_frontier df ! i) = Fin b
        \<and> small_avg (pareto_frontier df ! j) = Fin c \<and> large_avg (pareto_frontier df ! j) = Fin d \<longrightarrow> a \<le> c \<and> d \<le> b)"
proof (intro conjI)
  show "set (pareto_frontier df) = {p \<in> set df. \<forall>q \<in> set df. \<not> dominates q p}"
    by (simp add: pareto_frontier_set nfct_points.frontier_def)
  show "\<forall>p \<in> set df. p \<in> set (pareto_frontier df) \<or> (\<exists>q \<in> set (pareto_frontier df). dominates q p)"
    using nfct_points.dominated_by_frontier[OF finite_set] unfolding pareto_frontier_set by blast
  have "a \<le> c \<and> d \<le> b" if ij: "i < j" "j < length (pareto_frontier df)"
    and v: "small_avg (pareto_frontier df ! i) = Fin a" "small_avg (pareto_frontier df ! j) = Fin c"
           "large_avg (pareto_frontier df ! i) = Fin b" "large_avg (pareto_frontier df ! j) = Fin d" for i j a b c d
  proof (rule frontier_order[OF _ _ v pareto_frontier_sorted[OF ij]])
    have m: "pareto_frontier df ! i \<in> nfct_points.frontier (set df)" "pareto_frontier df ! j \<in> nfct_points.frontier (set df)"
      using ij unfolding pareto_frontier_set[symmetric] by (auto intro: nth_mem)
    show "\<not> dominates (pareto_frontier df ! i) (pareto_frontier df ! j)" "\<not> dominates (pareto_frontier df ! j) (pareto_frontier df ! i)"
      using nfct_points.frontier_antichain m by blast+
  qed
  then show "\<forall>i j a b c d. i < j \<and> j < length (pareto_frontier df)
        \<and> small_avg (pareto_frontier df ! i) = Fin a \<and> large_avg (pareto_frontier df ! i) = Fin b
        \<and> small_avg (pareto_frontier df ! j) = Fin c \<and> large_avg (pareto_frontier df ! j) = Fin d \<longrightarrow> a \<le> c \<and> d \<le> b"
    by blast
qed

definition demo_point :: "int \<Rightarrow> real \<Rightarrow> real \<Rightarrow> point" where
  "demo_point i a b = \<lparr>pt_id = i, pt_label = [], small_avg = Fin a, large_avg = Fin b\<rparr>"

theorem pareto_frontier_exact_witness:
  "demo_point 2 1 3 \<in> set (pareto_frontier [demo_point 1 2 4, demo_point 2 1 3, demo_point 3 2 1])
   \<and> demo_point 1 2 4 \<notin> set (pareto_frontier [demo_point 1 2 4, demo_point 2 1 3, demo_point 3 2 1])"
  unfolding conjunct1[OF pareto_frontier_exact] by (auto simp: demo_point_def dominates_def)

section \<open>Names of experiments\<close>

text \<open>The ranges in the name of a figure stand for the ids; the printed name does not determine them.\<close>

lemma collapse_ranges_expand:
  "a \<le> b \<Longrightarrow> concat (map (\<lambda>(x, y). [x..y]) (collapse_ranges a b is)) = [a..b] @ is"
proof (induction a b "is" rule: collapse_ranges.induct)
  case (2 a b i "is")
  show ?case
  proof (cases "i = b + 1")
    case True
    have "[a..b] @ [b + 1] = [a..b + 1]" using 2(3) by (simp add: upto_rec2[of a "b + 1"])
    then show ?thesis using 2(1)[OF True] 2(3) True by simp
  next
    case False
    then show ?thesis using 2(2)[OF False] 2(3) by simp
  qed
qed simp

lemma collapsed_names_collide: "collapse_experiment_ids [1, 2, 3] = collapse_experiment_ids [1, 3]"
  by code_simp

lemma id_tokens_distinct: "distinct ids \<Longrightarrow> res_fold id_token ps ids = Inr out \<Longrightarrow> distinct out \<and> set ids \<subseteq> set out"
proof (induction ps arbitrary: ids)
  case (Cons p ps)
  then obtain ids1 where i: "id_token p ids = Inr ids1" "res_fold id_token ps ids1 = Inr out"
    by (auto simp: res_simps)
  then have "distinct ids1" "set ids \<subseteq> set ids1"
    using Cons.prems(1) by (auto simp: id_token_def Let_def res_simps split: if_splits)
  then show ?case using Cons.IH[OF _ i(2)] by blast
qed simp

end
