(* ===== verification/StatMains.thy ===== *)
theory StatMains
  imports Frontier LogMains
begin

text \<open>
  The main functions of the scripts over finished runs: \<^verbatim>\<open>normalized_fct.py\<close>, \<^verbatim>\<open>pareto_frontier_plot.py\<close>,
  \<^verbatim>\<open>plot_fct_cdf.py\<close> and \<^verbatim>\<open>plot_throughput_norm.py\<close>, as actions over the files (theories \<open>Workspace\<close> and \<open>LogMains\<close>).
  \<open>stat_studio\<close> adds what they take from pandas: the parsed columns of a file and the texts of their tables.
  The names in a directory (\<open>names_in\<close>) are taken to be those of its files.
\<close>

record stat_studio = studio +
  grid_text :: "string list \<Rightarrow> (string \<times> real option list) list \<Rightarrow> string"
  read_fct :: "string \<Rightarrow> fct_cells list res"
  read_norm :: "string \<Rightarrow> (real option \<times> pyfloat) list option res"
  points_csv :: "point list \<Rightarrow> string"
  points_text :: "point list \<Rightarrow> string"
  summary_tsv :: "summary_row list \<Rightarrow> string"
  summary_text :: "summary_row list \<Rightarrow> string"

definition act_each :: "('x \<Rightarrow> ('s, 'a) action) \<Rightarrow> 'x list \<Rightarrow> ('s, 'a list) action" where
  "act_each f xs = act_fold (\<lambda>x acc. act_bind (f x) (\<lambda>y. act_ret (acc @ [y]))) xs []"

section \<open>Tables of normalized completion times\<close>

record table_args =
  ta_ids :: "string list"
  ta_bucket_count :: int
  ta_bucket_mode :: string

definition text_at :: "workspace \<Rightarrow> string \<Rightarrow> string" where
  "text_at w p = (case disk w p of Some t \<Rightarrow> t | None \<Rightarrow> [])"

text \<open>Experiments as rows, buckets as columns; the ids are those that \<open>nfct_tables\<close> parsed.\<close>

definition nfct_main :: "stat_studio \<Rightarrow> archive \<Rightarrow> table_args \<Rightarrow> (workspace, unit) action" where
  "nfct_main st ar args =
    act_bind (consult (\<lambda>w. nfct_tables (has_file w) (manifest_at ar) (names_in ar) (text_at w) (mix_dir ar) (mix_entries ar)
        (ta_ids args) (ta_bucket_count args) (ta_bucket_mode args))) (\<lambda>(plan, tables).
    act_bind (act_lift (parse_experiment_ids (ta_ids args))) (\<lambda>ids.
    (let sizes = map size_range plan; names = map py_str_int ids in
     print_lines [''AVG Normalized FCT (transposed):'', grid_text st sizes (zip names (map fst tables)), [],
       ''P99 Normalized FCT (transposed):'', grid_text st sizes (zip names (map snd tables))])))"

section \<open>The plot of the frontier\<close>

text \<open>\<^verbatim>\<open>'%.3g'\<close>, built like the six-digit format of \<open>RunArgs\<close>.\<close>

definition fmt_3g_pos :: "real \<Rightarrow> string" where
  "fmt_3g_pos y =
    (case find (\<lambda>d. 10 ^ 2 \<le> y * 10 ^ d \<and> y * 10 ^ d < 10 ^ 3) [0..<8] of
       Some d \<Rightarrow>
         (let m = nat (py_round (y * 10 ^ d)) in
          if m = 10 ^ 3 then (if d = 0 then fmt_g_scientific (10 ^ 2) 3 else fmt_g_fixed (10 ^ 2) (d - 1))
          else if d = 7 then fmt_g_scientific m (-5) else fmt_g_fixed m d)
     | None \<Rightarrow>
         (let e = \<lfloor>log 10 y\<rfloor>; m = nat (py_round (y * 10 powr (2 - of_int e))) in
          if m = 10 ^ 3 then fmt_g_scientific (10 ^ 2) (e + 1) else fmt_g_scientific m e))"

definition fmt_3g :: "real \<Rightarrow> string" where
  "fmt_3g x = (if x = 0 then ''0'' else if x < 0 then CHR ''-'' # fmt_3g_pos (- x) else fmt_3g_pos x)"

text \<open>A message of the manifest that is no text is outside the model.\<close>

definition pareto_label :: "jval \<Rightarrow> string \<Rightarrow> string" where
  "pareto_label man dir = (case jget man ''message'' of None \<Rightarrow> path_name dir | Some (JStr s) \<Rightarrow> s | Some _ \<Rightarrow> [])"

definition pareto_point :: "stat_studio \<Rightarrow> archive \<Rightarrow> int \<Rightarrow> int \<Rightarrow> (workspace, point) action" where
  "pareto_point st ar threshold_bytes experiment_id =
    act_bind (act_lift (cap_resolve_run_dir (mix_dir ar) (map fst (mix_entries ar)) experiment_id)) (\<lambda>dir.
    (let man = load_manifest (manifest_at ar) dir in
     act_bind (consult (\<lambda>w. resolve_fct_path (has_file w) dir (names_in ar dir) man)) (\<lambda>fct_path.
     act_bind (read_text fct_path) (\<lambda>content.
     act_bind (act_lift (read_fct st content)) (\<lambda>df.
     act_ret (compute_point experiment_id (pareto_label man dir) threshold_bytes df))))))"

text \<open>\<^verbatim>\<open>Path.with_name\<close> and \<^verbatim>\<open>Path.with_suffix\<close>: the last suffix of the name is replaced.\<close>

definition with_name :: "string \<Rightarrow> string \<Rightarrow> string res" where
  "with_name path name =
    (if path_parts path = [] then Inl ValueError
     else Inr ((if isabs path then ''/'' else []) @ str_join ''/'' (butlast (path_parts path) @ [name])))"

definition with_suffix :: "string \<Rightarrow> string \<Rightarrow> string res" where
  "with_suffix path suffix = with_name path (path_stem path @ suffix)"

definition pareto_outputs :: "archive \<Rightarrow> string \<Rightarrow> (string \<times> string) res" where
  "pareto_outputs ar output_prefix =
    (let base = path_join (script_dir ar) output_prefix in
     res_bind (with_suffix base ''.png'') (\<lambda>plot.
     res_bind (with_name base (path_name base @ ''_frontier.csv'')) (\<lambda>csv. Inr (plot, csv))))"

record pareto_args =
  pa_ids :: "string list"
  pa_threshold_kb :: real
  pa_title :: "string option"
  pa_prefix :: string

definition pareto_title :: "pareto_args \<Rightarrow> string" where
  "pareto_title args = or_default (pa_title args) (''Pareto Frontier (threshold = '' @ fmt_3g (pa_threshold_kb args) @ ''KB)'')"

definition pareto_figure :: "pareto_args \<Rightarrow> point list \<Rightarrow> figure" where
  "pareto_figure args df =
    (let pos = (\<lambda>p. (small_avg p, large_avg p)) in
     \<lparr>fg_title = pareto_title args, fg_xlabel = ''Avg NFCT (< threshold)'', fg_ylabel = ''Avg NFCT (>= threshold)'',
      fg_marks = [Dots (map pos df), Line [] (Some ''black'') (map pos (pareto_frontier df))]
        @ map (\<lambda>p. Note (py_str_int (pt_id p)) (flt_add (small_avg p) (Fin (1/100)), flt_add (large_avg p) (Fin (1/10)))) df,
      fg_second = None\<rparr>)"

definition pareto_main :: "stat_studio \<Rightarrow> archive \<Rightarrow> pareto_args \<Rightarrow> (workspace, unit) action" where
  "pareto_main st ar args =
    act_bind (act_lift (parse_experiment_ids (pa_ids args))) (\<lambda>ids.
    act_bind (act_each (pareto_point st ar (threshold_of_kb (pa_threshold_kb args))) ids) (\<lambda>points.
    (let df = sort_key pt_id points in
     act_bind (act_lift (pareto_outputs ar (pa_prefix args))) (\<lambda>(plot, csv).
     act_bind (write_text csv (points_csv st (pareto_frontier df))) (\<lambda>_.
     act_bind (write_text plot (render st (pareto_figure args df))) (\<lambda>_.
     print_lines [''plot = '' @ plot, ''frontier_csv = '' @ csv, [], points_text st (pareto_frontier df)]))))))"

section \<open>Curves of completion times\<close>

text \<open>A directory without a manifest is described by its name.\<close>

definition run_manifest :: "archive \<Rightarrow> string \<Rightarrow> jval res" where
  "run_manifest ar dir =
    (case manifest_at ar dir of
       Some man \<Rightarrow> Inr man
     | None \<Rightarrow> res_bind (py_int (dir_prefix (path_name dir))) (\<lambda>n.
         Inr (JObj [(''id'', JInt n), (''message'', JStr (path_name dir)), (''files'', JObj []), (''config'', JObj [])])))"

definition scheme_colors :: "(string, string) dict" where
  "scheme_colors = [(''DCQCN'', ''#D87123''), (''Expert'', ''#8C510A''), (''DCQCN+'', ''#0072B2''), (''Paraleon'', ''#A14697''),
     (''ACC'', ''#69CC00'')]"

definition cdf_curve :: "real list \<Rightarrow> (pyfloat \<times> pyfloat) list" where
  "cdf_curve values_ms = zip (map Fin values_ms) (map Fin (cdf_heights values_ms))"

definition cdf_series :: "archive \<Rightarrow> string \<Rightarrow> (workspace, mark) action" where
  "cdf_series ar dir =
    act_bind (act_lift (run_manifest ar dir)) (\<lambda>man.
    act_bind (consult (\<lambda>w. cdf_find_fct_file (has_file w) dir (names_in ar dir) man)) (\<lambda>fct_path.
    act_bind (read_text fct_path) (\<lambda>content.
    act_bind (act_lift (load_fct_ms content)) (\<lambda>values_ms.
    (let scheme = build_scheme_label man in act_ret (Line scheme (dict_get scheme_colors scheme) (cdf_curve values_ms)))))))"

record cdf_args =
  cd_ids :: "string list"
  cd_output_dir :: string
  cd_output_name :: "string option"
  cd_title :: "string option"
  cd_format :: string

definition output_dir_of :: "archive \<Rightarrow> string \<Rightarrow> string" where
  "output_dir_of ar output_dir =
    (let dir = expand_user ar output_dir in if isabs dir then dir else resolve_path ar (path_join (script_dir ar) dir))"

definition id_list :: "int list \<Rightarrow> string" where
  "id_list ids = str_join '', '' (map py_str_int ids)"

definition cdf_figure :: "string \<Rightarrow> mark list \<Rightarrow> figure" where
  "cdf_figure title marks = \<lparr>fg_title = title, fg_xlabel = ''FCT (ms)'', fg_ylabel = ''CDF'', fg_marks = marks, fg_second = None\<rparr>"

definition plot_cdf :: "stat_studio \<Rightarrow> mark list \<Rightarrow> string \<Rightarrow> string \<Rightarrow> (workspace, unit) action" where
  "plot_cdf st marks output_path title =
    act_bind (make_parent output_path) (\<lambda>_. write_text output_path (render st (cdf_figure title marks)))"

definition cdf_output :: "archive \<Rightarrow> cdf_args \<Rightarrow> int list \<Rightarrow> string" where
  "cdf_output ar args ids =
    path_join (output_dir_of ar (cd_output_dir args))
      (or_default (cd_output_name args) (''fct_cdf_'' @ cdf_collapse_experiment_ids ids @ ''.'' @ cd_format args))"

definition cdf_main :: "stat_studio \<Rightarrow> archive \<Rightarrow> cdf_args \<Rightarrow> (workspace, unit) action" where
  "cdf_main st ar args =
    act_bind (act_lift (parse_experiment_ids (cd_ids args))) (\<lambda>ids.
    act_bind (act_lift (resolve_run_dirs (mix_dir ar) (mix_entries ar) ids)) (\<lambda>run_dirs.
    act_bind (act_each (cdf_series ar) run_dirs) (\<lambda>marks.
    act_bind (make_dir (output_dir_of ar (cd_output_dir args))) (\<lambda>_.
    act_bind (plot_cdf st marks (cdf_output ar args ids)
        (or_default (cd_title args) (''FCT CDF ('' @ id_list ids @ '')''))) (\<lambda>_.
    print_line (''plot_path = '' @ cdf_output ar args ids))))))"

section \<open>Series of the throughput\<close>

record norm_args =
  na_ids :: "string list"
  na_output_dir :: string
  na_output_name :: "string option"
  na_summary_name :: "string option"
  na_title :: "string option"
  na_from :: "real option"
  na_to :: "real option"
  na_keep_first :: bool
  na_no_message :: bool

definition AVERAGE_THROUGHPUT_CUTOFF :: real where
  "AVERAGE_THROUGHPUT_CUTOFF = 22 / 10"

definition norm_series ::
  "stat_studio \<Rightarrow> archive \<Rightarrow> norm_args \<Rightarrow> int \<times> string \<Rightarrow> (workspace, int \<times> string \<times> (real \<times> pyfloat) list) action" where
  "norm_series st ar args entry =
    act_bind (act_lift (run_manifest ar (snd entry))) (\<lambda>man.
    act_bind (consult (\<lambda>w. case disk w (path_join (snd entry) ''throughput_norm.csv'') of
        None \<Rightarrow> Inr None | Some content \<Rightarrow> read_norm st content)) (\<lambda>csv.
    act_bind (act_lift (load_throughput_norm_series (\<not> na_keep_first args) (na_from args) (na_to args) csv)) (\<lambda>df.
    act_ret (fst entry, norm_build_label (fst entry) man (\<not> na_no_message args), df))))"

definition norm_figure :: "string \<Rightarrow> (int \<times> string \<times> (real \<times> pyfloat) list) list \<Rightarrow> figure" where
  "norm_figure title series_records =
    \<lparr>fg_title = title, fg_xlabel = ''Simulation Time (s)'', fg_ylabel = ''throughput_norm'',
     fg_marks = map (\<lambda>(i, label, df). Line label None (map (\<lambda>(t, v). (Fin t, v)) df)) series_records, fg_second = None\<rparr>"

definition plot_series ::
  "stat_studio \<Rightarrow> (int \<times> string \<times> (real \<times> pyfloat) list) list \<Rightarrow> string \<Rightarrow> string \<Rightarrow> (workspace, unit) action" where
  "plot_series st series_records output_path title =
    act_bind (make_parent output_path) (\<lambda>_. write_text output_path (render st (norm_figure title series_records)))"

definition norm_title :: "norm_args \<Rightarrow> int list \<Rightarrow> string" where
  "norm_title args ids =
    or_default (na_title args) (''Throughput Norm over Time ('' @ id_list ids @ '')'')
      @ (if \<not> na_keep_first args then '', first sample removed'' else [])"

definition norm_output :: "archive \<Rightarrow> norm_args \<Rightarrow> string option \<Rightarrow> string \<Rightarrow> int list \<Rightarrow> string" where
  "norm_output ar args name ext ids =
    path_join (output_dir_of ar (na_output_dir args))
      (or_default name (norm_build_output_stem ids (na_from args) (na_to args) (\<not> na_keep_first args) @ ext))"

definition norm_main :: "stat_studio \<Rightarrow> archive \<Rightarrow> norm_args \<Rightarrow> (workspace, unit) action" where
  "norm_main st ar args =
    act_bind (act_lift (parse_experiment_ids (na_ids args))) (\<lambda>ids.
    act_bind (act_lift (resolve_run_dirs (mix_dir ar) (mix_entries ar) ids)) (\<lambda>run_dirs.
    act_bind (act_each (norm_series st ar args) (zip ids run_dirs)) (\<lambda>series_records.
    act_bind (make_dir (output_dir_of ar (na_output_dir args))) (\<lambda>_.
    (let plot_path = norm_output ar args (na_output_name args) ''.png'' ids;
         summary_path = norm_output ar args (na_summary_name args) ''.tsv'' ids in
     act_bind (plot_series st series_records plot_path (norm_title args ids)) (\<lambda>_.
     act_bind (act_lift (build_summary_rows (map (\<lambda>(i, label, df). (i, df)) series_records) AVERAGE_THROUGHPUT_CUTOFF)) (\<lambda>rows.
     (let summary_frame = sort_key exp_id rows in
      act_bind (write_text summary_path (summary_tsv st summary_frame)) (\<lambda>_.
      print_lines [''plot_path = '' @ plot_path, ''summary_path = '' @ summary_path, [], summary_text st summary_frame])))))))))"

section \<open>Looking at every experiment\<close>

lemma act_ret_Some: "act_ret x w = Some (Inr y, w') \<longleftrightarrow> y = x \<and> w' = w"
  by (auto simp: act_ret_def)

lemma act_each_fold:
  assumes "\<And>x w y w'. f x w = Some (Inr y, w') \<Longrightarrow> w' = w"
  shows "act_fold (\<lambda>x acc. act_bind (f x) (\<lambda>y. act_ret (acc @ [y]))) xs acc w = Some (Inr ys, w') \<Longrightarrow>
    w' = w \<and> (\<exists>zs. ys = acc @ zs \<and> list_all2 (\<lambda>x y. f x w = Some (Inr y, w)) xs zs)"
proof (induction xs arbitrary: acc)
  case (Cons x xs)
  from Cons.prems obtain y v where y: "f x w = Some (Inr y, v)"
    "act_fold (\<lambda>x acc. act_bind (f x) (\<lambda>y. act_ret (acc @ [y]))) xs (acc @ [y]) v = Some (Inr ys, w')"
    by (auto simp: act_bind_Some act_ret_Some)
  then have v: "v = w" using assms by blast
  from Cons.IH[OF y(2)[unfolded v]] y(1) v show ?case by auto
qed (auto simp: act_ret_Some)

lemma act_each_Some:
  assumes "\<And>x w y w'. f x w = Some (Inr y, w') \<Longrightarrow> w' = w" "act_each f xs w = Some (Inr ys, w')"
  shows "w' = w \<and> list_all2 (\<lambda>x y. f x w = Some (Inr y, w)) xs ys"
  using act_each_fold[of f xs "[]" w ys w'] assms by (auto simp: act_each_def)

text \<open>No file is written by \<^verbatim>\<open>normalized_fct.py\<close>, whose \<^verbatim>\<open>--output-dir\<close> is said to hold its CSV files.\<close>

lemma nfct_main_writes_nothing: "guarantees (only_writes (\<lambda>p. False)) (nfct_main st ar args)"
  unfolding nfct_main_def Let_def
  by (intro writes.bind) (auto intro!: writes.bind writes.lift guarantee split: prod.splits)

text \<open>Two prefixes that differ after their last dot share the plot, though not the table.\<close>

lemma dotted_prefixes_collide:
  "pareto_outputs demo_archive ''v1.1'' = Inr (''/a/v1.png'', ''/a/v1.1_frontier.csv'')"
  "pareto_outputs demo_archive ''v1.2'' = Inr (''/a/v1.png'', ''/a/v1.2_frontier.csv'')"
  by code_simp+

section \<open>The curve is the distribution\<close>

text \<open>The share of values up to \<open>x\<close>; and the curve of some values: its points are the values in rising order, each as often
  as it occurs, at the heights 1/n, 2/n and so on, so that its highest point over each value is the share up to it.\<close>

definition share :: "real list \<Rightarrow> real \<Rightarrow> real" where
  "share vs x = real (length (filter (\<lambda>v. v \<le> x) vs)) / real (length vs)"

definition empirical :: "real list \<Rightarrow> (pyfloat \<times> pyfloat) list \<Rightarrow> bool" where
  "empirical vs ps \<longleftrightarrow>
     (\<exists>xs. sorted xs \<and> mset xs = mset vs
        \<and> ps = map (\<lambda>k. (Fin (xs ! k), Fin (real (k + 1) / real (length vs)))) [0..<length vs])
     \<and> (\<forall>x \<in> set vs. (Fin x, Fin (share vs x)) \<in> set ps \<and> (\<forall>y. (Fin x, Fin y) \<in> set ps \<longrightarrow> y \<le> share vs x))"

lemma sorted_upto: "sorted xs \<Longrightarrow> filter (\<lambda>v. v \<le> x) xs = takeWhile (\<lambda>v. v \<le> x) (xs :: real list)"
proof (induction xs)
  case (Cons a xs)
  have "filter (\<lambda>v. v \<le> x) xs = []" if "\<not> a \<le> x" using Cons.prems that by (fastforce simp: filter_empty_conv)
  then show ?case using Cons by (cases "a \<le> x") simp_all
qed simp

lemma sorted_rank:
  assumes "sorted xs" "k < length xs"
  shows "xs ! k \<le> x \<longleftrightarrow> k < length (filter (\<lambda>v. v \<le> x) (xs :: real list))"
proof -
  let ?t = "takeWhile (\<lambda>v. v \<le> x) xs"
  have "xs ! k \<le> x" if "k < length ?t" using that takeWhile_nth[OF that] nth_mem[OF that] by (auto dest: set_takeWhileD)
  moreover have "\<not> xs ! k \<le> x" if "length ?t \<le> k"
  proof -
    have "\<not> xs ! length ?t \<le> x" using that assms(2) nth_length_takeWhile[of "\<lambda>v. v \<le> x" xs] by auto
    moreover have "xs ! length ?t \<le> xs ! k" using sorted_nth_mono[OF assms(1) that assms(2)] .
    ultimately show ?thesis by linarith
  qed
  ultimately show ?thesis unfolding sorted_upto[OF assms(1)] by (meson not_le)
qed

lemma cdf_curve_empirical:
  assumes "sorted xs" "mset xs = mset vs"
  shows "empirical vs (cdf_curve xs)"
proof -
  have n: "length xs = length vs" using mset_eq_length[OF assms(2)] .
  have c: "cdf_curve xs = map (\<lambda>k. (Fin (xs ! k), Fin (real (k + 1) / real (length vs)))) [0..<length vs]"
    by (rule nth_equalityI) (simp_all add: cdf_curve_def cdf_heights_def n)
  have m: "length (filter (\<lambda>v. v \<le> x) vs) = length (filter (\<lambda>v. v \<le> x) xs)" for x
    using assms(2) by (metis mset_filter size_mset)
  have "(Fin x, Fin (share vs x)) \<in> set (cdf_curve xs) \<and> (\<forall>y. (Fin x, Fin y) \<in> set (cdf_curve xs) \<longrightarrow> y \<le> share vs x)"
    if x: "x \<in> set vs" for x
  proof
    let ?m = "length (filter (\<lambda>v. v \<le> x) xs)"
    note rank = sorted_rank[OF assms(1), of _ x]
    obtain j where j: "j < length xs" "xs ! j = x" using x mset_eq_setD[OF assms(2)] by (metis in_set_conv_nth)
    then have jm: "j < ?m" using rank[OF j(1)] by simp
    have le: "?m \<le> length xs" by simp
    have lt: "?m - 1 < length xs" "?m - 1 < ?m" "j \<le> ?m - 1" using jm le by linarith+
    have "xs ! (?m - 1) \<le> x" using rank[OF lt(1)] lt(2) by blast
    moreover have "x \<le> xs ! (?m - 1)" using sorted_nth_mono[OF assms(1) lt(3,1)] j(2) by simp
    ultimately have "xs ! (?m - 1) = x" by simp
    moreover have "real (?m - 1 + 1) / real (length vs) = share vs x" using jm by (simp add: share_def m)
    ultimately show "(Fin x, Fin (share vs x)) \<in> set (cdf_curve xs)"
      unfolding c using lt(1) n by (force simp: image_iff)
    show "\<forall>y. (Fin x, Fin y) \<in> set (cdf_curve xs) \<longrightarrow> y \<le> share vs x"
    proof (intro allI impI)
      fix y assume "(Fin x, Fin y) \<in> set (cdf_curve xs)"
      then obtain k where k: "k < length xs" "xs ! k = x" "y = real (k + 1) / real (length vs)" unfolding c n by auto
      then have "k + 1 \<le> ?m" using rank[of k] by simp
      then show "y \<le> share vs x" unfolding k(3) share_def m by (intro divide_right_mono) simp_all
    qed
  qed
  then show ?thesis unfolding empirical_def using assms c by blast
qed

lemma load_fct_ms_times:
  "load_fct_ms content = Inr xs \<longleftrightarrow> (\<exists>vs. res_fold fct_ms_row (file_lines content) [] = Inr vs \<and> vs \<noteq> [] \<and> xs = sort vs)"
  by (auto simp: load_fct_ms_def res_simps split: if_splits)

definition distribution_of :: "archive \<Rightarrow> workspace \<Rightarrow> string \<Rightarrow> mark \<Rightarrow> bool" where
  "distribution_of ar w dir m \<longleftrightarrow> (\<exists>man p content vs ps. run_manifest ar dir = Inr man
     \<and> cdf_find_fct_file (has_file w) dir (names_in ar dir) man = Inr p \<and> disk w p = Some content
     \<and> res_fold fct_ms_row (file_lines content) [] = Inr vs
     \<and> m = Line (build_scheme_label man) (dict_get scheme_colors (build_scheme_label man)) ps \<and> vs \<noteq> [] \<and> empirical vs ps)"

lemma cdf_series_Some:
  assumes "cdf_series ar dir w = Some (Inr m, w')"
  shows "w' = w \<and> distribution_of ar w dir m"
  using assms unfolding cdf_series_def distribution_of_def
  by (fastforce simp: file_steps act_ret_def Let_def load_fct_ms_times intro!: cdf_curve_empirical)

text \<open>C32: a figure of \<^verbatim>\<open>plot_fct_cdf.py\<close> shows distributions. When the script finishes, the file it names holds one curve per
  experiment asked for, in order, in the colour of its scheme; each is the empirical distribution of the completion times
  in that experiment's file: its points are the times in rising order, each as often as it occurs in the file, at the
  heights 1/n, 2/n up to 1, and the highest point over each time is the share of times up to it. No other file has
  changed.\<close>

theorem cdf_figure_is_distribution:
  assumes "cdf_main st ar args w = Some (Inr (), w')"
  shows "\<exists>ids run_dirs marks title. parse_experiment_ids (cd_ids args) = Inr ids
    \<and> resolve_run_dirs (mix_dir ar) (mix_entries ar) ids = Inr run_dirs
    \<and> list_all2 (distribution_of ar w) run_dirs marks
    \<and> disk w' = (disk w)(cdf_output ar args ids \<mapsto> render st (cdf_figure title marks))"
proof -
  obtain ids run_dirs marks v where r: "parse_experiment_ids (cd_ids args) = Inr ids"
    "resolve_run_dirs (mix_dir ar) (mix_entries ar) ids = Inr run_dirs" "act_each (cdf_series ar) run_dirs w = Some (Inr marks, v)"
    and rest: "disk w' = (disk v)(cdf_output ar args ids \<mapsto>
      render st (cdf_figure (or_default (cd_title args) (''FCT CDF ('' @ id_list ids @ '')'')) marks))"
    using assms by (auto simp: cdf_main_def plot_cdf_def file_steps make_dir_def make_parent_def act_put_def)
  have v: "v = w" "list_all2 (\<lambda>d m. cdf_series ar d w = Some (Inr m, w)) run_dirs marks"
    using act_each_Some[OF _ r(3)] cdf_series_Some by blast+
  then have "list_all2 (distribution_of ar w) run_dirs marks"
    using cdf_series_Some by (auto elim!: list_all2_mono)
  then show ?thesis using r(1,2) rest v(1) by blast
qed

definition bare_stat_studio :: stat_studio where
  "bare_stat_studio = \<lparr>to_numeric = (\<lambda>c. NaN), csv_text = (\<lambda>df. []), num_csv = (\<lambda>df. []), tsv_text = (\<lambda>df. []), shown = (\<lambda>df. []),
     render = fg_title, grid_text = (\<lambda>c r. []), read_fct = (\<lambda>c. Inr []), read_norm = (\<lambda>c. Inr (Some [])),
     points_csv = (\<lambda>ps. []), points_text = (\<lambda>ps. []), summary_tsv = (\<lambda>rs. []), summary_text = (\<lambda>rs. [])\<rparr>"

definition demo_runs :: archive where
  "demo_runs = demo_archive \<lparr>names_in := (\<lambda>d. [''fct_7.txt''])\<rparr>"

definition demo_cdf_args :: cdf_args where
  "demo_cdf_args = \<lparr>cd_ids = [''7''], cd_output_dir = ''/out'', cd_output_name = None, cd_title = None, cd_format = ''png''\<rparr>"

definition demo_runs_desk :: workspace where
  "demo_runs_desk = \<lparr>disk = [''/m/7-run/fct_7.txt'' \<mapsto> ''1 2 3 4 100 0 4 10'' @ [nl] @ ''1 2 3 4 100 0 2 10'' @ [nl]],
     creatable = (\<lambda>_. False), printed = []\<rparr>"

theorem cdf_figure_is_distribution_witness:
  "\<exists>w' marks. cdf_main bare_stat_studio demo_runs demo_cdf_args demo_runs_desk = Some (Inr (), w')
    \<and> list_all2 (distribution_of demo_runs demo_runs_desk) [''/m/7-run''] marks
    \<and> disk w' ''/out/fct_cdf_exp_7.png'' \<noteq> None"
proof -
  let ?c = "''1 2 3 4 100 0 4 10'' @ [nl] @ ''1 2 3 4 100 0 2 10'' @ [nl]"
  have lines: "file_lines ?c = [''1 2 3 4 100 0 4 10'', ''1 2 3 4 100 0 2 10'']"
    "length (split_ws (str_strip ''1 2 3 4 100 0 4 10'')) = 8" "length (split_ws (str_strip ''1 2 3 4 100 0 2 10'')) = 8"
    "py_int (split_ws (str_strip ''1 2 3 4 100 0 4 10'') ! 6) = Inr 4"
    "py_int (split_ws (str_strip ''1 2 3 4 100 0 2 10'') ! 6) = Inr 2" by code_simp+
  have "\<exists>vs. load_fct_ms ?c = Inr vs" unfolding load_fct_ms_def lines(1) by (simp add: fct_ms_row_def lines(2-5) Let_def)
  then obtain vs where vs: "load_fct_ms ?c = Inr vs" by blast
  obtain man where man: "run_manifest demo_runs ''/m/7-run'' = Inr man"
    "cdf_find_fct_file (has_file demo_runs_desk) ''/m/7-run'' (names_in demo_runs ''/m/7-run'') man = Inr ''/m/7-run/fct_7.txt''"
  proof
    let ?man = "JObj [(''id'', JInt 7), (''message'', JStr ''7-run''), (''files'', JObj []), (''config'', JObj [])]"
    show "run_manifest demo_runs ''/m/7-run'' = Inr ?man" by code_simp
    show "cdf_find_fct_file (has_file demo_runs_desk) ''/m/7-run'' (names_in demo_runs ''/m/7-run'') ?man = Inr ''/m/7-run/fct_7.txt''"
      by code_simp
  qed
  have p: "parse_experiment_ids (cd_ids demo_cdf_args) = Inr [7]" by code_simp
  have d: "resolve_run_dirs (mix_dir demo_runs) (mix_entries demo_runs) [7] = Inr [''/m/7-run'']" by code_simp
  have o: "cdf_output demo_runs demo_cdf_args [7] = ''/out/fct_cdf_exp_7.png''" by code_simp
  have "\<exists>m. cdf_series demo_runs ''/m/7-run'' demo_runs_desk = Some (Inr m, demo_runs_desk)"
    using vs man by (simp add: cdf_series_def file_steps act_ret_Some Let_def) (simp add: demo_runs_desk_def)
  then obtain m where "cdf_series demo_runs ''/m/7-run'' demo_runs_desk = Some (Inr m, demo_runs_desk)" by blast
  then have "act_each (cdf_series demo_runs) [''/m/7-run''] demo_runs_desk = Some (Inr [m], demo_runs_desk)"
    by (simp add: act_each_def act_bind_def act_ret_def)
  then have "\<exists>w'. cdf_main bare_stat_studio demo_runs demo_cdf_args demo_runs_desk = Some (Inr (), w')"
    by (simp add: cdf_main_def act_bind_def act_lift_def p d make_dir_def act_put_def plot_cdf_def make_parent_def write_text_def
      act_get_def print_line_def)
  then obtain w' where w': "cdf_main bare_stat_studio demo_runs demo_cdf_args demo_runs_desk = Some (Inr (), w')" by blast
  show ?thesis using cdf_figure_is_distribution[OF w'] w' unfolding p by (auto simp: d o)
qed

section \<open>Windows that start late\<close>

text \<open>The averages stop at a fixed time. With a start after it the figure is written and the script fails, whatever is measured.\<close>

lemma series_after_start:
  assumes "load_throughput_norm_series d (Some a) to_time csv = Inr df"
  shows "\<forall>(t, v) \<in> set df. a \<le> t"
proof -
  have "fst ` set (mark_gaps prev rows) = fst ` set rows" for prev and rows :: "(real \<times> pyfloat) list"
    by (induction prev rows rule: mark_gaps.induct) auto
  moreover obtain rows where "df = mark_gaps None rows" "\<forall>r \<in> set rows. a \<le> fst r"
    using assms by (auto simp: load_throughput_norm_series_def Let_def split: option.splits if_splits)
  ultimately show ?thesis by (metis (mono_tags, lifting) case_prodI2 fst_conv image_iff)
qed

lemma norm_series_Some:
  "norm_series st ar args e w = Some (Inr r, w') \<Longrightarrow> w' = w
    \<and> (\<exists>csv. load_throughput_norm_series (\<not> na_keep_first args) (na_from args) (na_to args) csv = Inr (snd (snd r)))"
  unfolding norm_series_def by (auto simp: file_steps act_ret_Some)

lemma late_window_fails:
  assumes "na_from args = Some a" "22 / 10 < a"
  shows "norm_main st ar args w \<noteq> Some (Inr (), w')"
proof
  assume "norm_main st ar args w = Some (Inr (), w')"
  then obtain ids run_dirs recs v rows where r: "parse_experiment_ids (na_ids args) = Inr ids"
    "resolve_run_dirs (mix_dir ar) (mix_entries ar) ids = Inr run_dirs"
    "act_each (norm_series st ar args) (zip ids run_dirs) w = Some (Inr recs, v)"
    "build_summary_rows (map (\<lambda>(i, label, df). (i, df)) recs) AVERAGE_THROUGHPUT_CUTOFF = Inr rows"
    by (auto simp: norm_main_def plot_series_def file_steps Let_def)
  have each: "list_all2 (\<lambda>e r. norm_series st ar args e w = Some (Inr r, w)) (zip ids run_dirs) recs"
    using act_each_Some[OF _ r(3)] norm_series_Some by blast
  have "ids \<noteq> []" "length run_dirs = length ids"
    using r(1,2) by (auto simp: parse_experiment_ids_def resolve_run_dirs_def res_simps split: if_splits)
  then have "recs \<noteq> []" using each by auto
  then obtain i label df rest where recs: "recs = (i, label, df) # rest" by (cases recs) auto
  then obtain e where "norm_series st ar args e w = Some (Inr (i, label, df), w)" using each by (auto simp: list_all2_Cons2)
  from norm_series_Some[OF this] obtain csv where
    "load_throughput_norm_series (\<not> na_keep_first args) (Some a) (na_to args) csv = Inr df" by (auto simp: assms(1))
  then have "\<forall>(t, q) \<in> set df. a \<le> t" by (rule series_after_start)
  then have none: "filter (\<lambda>r. fst r \<le> AVERAGE_THROUGHPUT_CUTOFF) df = []"
    using assms(2) by (fastforce simp: filter_empty_conv AVERAGE_THROUGHPUT_CUTOFF_def)
  have "summary_of AVERAGE_THROUGHPUT_CUTOFF (i, df) = Inl SystemExit" by (simp add: summary_of_def none)
  then show False using r(4) by (simp add: recs build_summary_rows_def)
qed

end
