(* ===== verification/RemotePaths.thy ===== *)
theory RemotePaths
  imports FctStats Traffic
begin

text \<open>
  The text work of \<^verbatim>\<open>tools/overleaf_push/overleaf_push.py\<close>: remote paths (\<^verbatim>\<open>posixpath\<close>), file patterns (\<^verbatim>\<open>fnmatch\<close>),
  cookies, the rules file \<^verbatim>\<open>.overleaf\<close>, the choice among several local files, and the framing of socket.io messages.

  Strings have 256 characters in this development; the replacement character that separates socket.io frames is outside
  them and is the parameter \<open>sep\<close>.
\<close>

section \<open>Remote paths\<close>

definition slashes :: "string \<Rightarrow> string" where
  "slashes s = map (\<lambda>c. if c = CHR 0x5C then CHR ''/'' else c) s"

text \<open>\<^verbatim>\<open>posixpath.normpath\<close>: \<open>rooted\<close> says whether the path starts with a slash, \<open>kept\<close> are the components kept so far,
  the last one first.\<close>

fun norm_comps :: "bool \<Rightarrow> string list \<Rightarrow> string list \<Rightarrow> string list" where
  "norm_comps rooted kept [] = rev kept"
| "norm_comps rooted kept (part # parts) =
    (if part = [] \<or> part = ''.'' then norm_comps rooted kept parts
     else if part \<noteq> ''..'' \<or> (\<not> rooted \<and> kept = []) \<or> (kept \<noteq> [] \<and> hd kept = ''..'')
     then norm_comps rooted (part # kept) parts
     else norm_comps rooted (tl kept) parts)"

definition posix_normpath :: "string \<Rightarrow> string" where
  "posix_normpath path =
    (if path = [] then ''.''
     else
       (let rooted = starts_with ''/'' path;
            lead = (if rooted then (if starts_with ''//'' path \<and> \<not> starts_with ''///'' path then ''//'' else ''/'') else []);
            out = lead @ str_join ''/'' (norm_comps rooted [] (split_on (CHR ''/'') path))
        in if out = [] then ''.'' else out))"

definition is_slash :: "char \<Rightarrow> bool" where
  "is_slash c \<longleftrightarrow> c = CHR ''/''"

definition normalize_remote_path :: "string \<Rightarrow> string" where
  "normalize_remote_path path =
    (let path = str_strip (slashes path) in
     if path = [] \<or> path = ''.'' then []
     else (let path = posix_normpath path in if path = ''.'' \<or> path = ''/'' then [] else strip_by is_slash path))"

definition join_remote :: "string list \<Rightarrow> string" where
  "join_remote parts = str_join ''/'' (filter (\<lambda>p. p \<noteq> []) (map normalize_remote_path parts))"

definition posix_basename :: "string \<Rightarrow> string" where
  "posix_basename p = last (split_on (CHR ''/'') p)"

definition posix_dirname :: "string \<Rightarrow> string" where
  "posix_dirname p =
    (let head = take (length p - length (posix_basename p)) p in
     if head \<noteq> [] \<and> \<not> list_all is_slash head then rstrip_by is_slash head else head)"

section \<open>Patterns\<close>

text \<open>The items of a bracket: \<open>a-b\<close> is a range, any other character stands for itself.\<close>

fun in_bracket :: "string \<Rightarrow> char \<Rightarrow> bool" where
  "in_bracket (a # m # b # rest) c =
    (if m = CHR ''-'' then ((of_char a :: nat) \<le> of_char c \<and> (of_char c :: nat) \<le> of_char b) \<or> in_bracket rest c
     else a = c \<or> in_bracket (m # b # rest) c)"
| "in_bracket [a, b] c \<longleftrightarrow> a = c \<or> b = c"
| "in_bracket [a] c \<longleftrightarrow> a = c"
| "in_bracket [] c \<longleftrightarrow> False"

datatype glob_token = GStar | GAny | GLit char | GSet bool string

text \<open>The text of a bracket up to its closing character, which may be the first one of the bracket; \<open>None\<close> if it
  is not closed.\<close>

definition bracket_body :: "string \<Rightarrow> (string \<times> string) option" where
  "bracket_body s =
    (let neg = (s \<noteq> [] \<and> hd s = CHR ''!'');
         pre = (if neg then ''!'' else []);
         s1 = (if neg then tl s else s);
         pre2 = (if s1 \<noteq> [] \<and> hd s1 = CHR '']'' then '']'' else []);
         s2 = drop (length pre2) s1
     in (case split_first (CHR '']'') s2 of None \<Rightarrow> None | Some (body, rest) \<Rightarrow> Some (pre @ pre2 @ body, rest)))"

lemma split_first_length: "split_first c s = Some (a, b) \<Longrightarrow> length b < length s"
proof -
  assume "split_first c s = Some (a, b)"
  then obtain d where "dropWhile (\<lambda>x. x \<noteq> c) s = d # b" by (auto simp: split_first_def split: list.splits)
  then show ?thesis using length_dropWhile_le[of "\<lambda>x. x \<noteq> c" s] by simp
qed

lemma bracket_body_shorter: "bracket_body s = Some (b, rest) \<Longrightarrow> length rest < length s"
  by (auto simp: bracket_body_def Let_def split: option.splits if_splits dest!: split_first_length)

function glob_tokens :: "string \<Rightarrow> glob_token list" where
  "glob_tokens [] = []"
| "glob_tokens (c # cs) =
    (if c = CHR ''*'' then GStar # glob_tokens cs
     else if c = CHR ''?'' then GAny # glob_tokens cs
     else if c = CHR ''['' then
       (case bracket_body cs of
          None \<Rightarrow> GLit c # glob_tokens cs
        | Some (body, rest) \<Rightarrow>
            (if body \<noteq> [] \<and> hd body = CHR ''!'' then GSet True (tl body) else GSet False body) # glob_tokens rest)
     else GLit c # glob_tokens cs)"
  by pat_completeness auto
termination
  by (relation "measure length") (auto dest: bracket_body_shorter)

fun glob_match :: "glob_token list \<Rightarrow> string \<Rightarrow> bool" where
  "glob_match [] s \<longleftrightarrow> s = []"
| "glob_match (GStar # ts) [] \<longleftrightarrow> glob_match ts []"
| "glob_match (GStar # ts) (c # cs) \<longleftrightarrow> glob_match ts (c # cs) \<or> glob_match (GStar # ts) cs"
| "glob_match (GAny # ts) s \<longleftrightarrow> s \<noteq> [] \<and> glob_match ts (tl s)"
| "glob_match (GLit c # ts) s \<longleftrightarrow> s \<noteq> [] \<and> hd s = c \<and> glob_match ts (tl s)"
| "glob_match (GSet neg b # ts) s \<longleftrightarrow> s \<noteq> [] \<and> in_bracket b (hd s) \<noteq> neg \<and> glob_match ts (tl s)"

definition fnmatchcase :: "string \<Rightarrow> string \<Rightarrow> bool" where
  "fnmatchcase name pat = glob_match (glob_tokens pat) name"

definition match_patterns :: "string \<Rightarrow> string list \<Rightarrow> string list \<Rightarrow> bool" where
  "match_patterns rel_path inc exc =
    (let rel_path = slashes rel_path in
     if inc \<noteq> [] \<and> \<not> list_ex (\<lambda>pat. fnmatchcase rel_path (slashes pat)) inc then False
     else if exc \<noteq> [] \<and> list_ex (\<lambda>pat. fnmatchcase rel_path (slashes pat)) exc then False
     else True)"

definition has_glob_magic :: "string \<Rightarrow> bool" where
  "has_glob_magic s \<longleftrightarrow> list_ex (\<lambda>c. c \<in> set ''*?['') s"

text \<open>A relative pathlib path is printed from its parts.\<close>

definition as_path :: "string \<Rightarrow> string" where
  "as_path p = (if path_parts p = [] then (if starts_with ''/'' p then ''/'' else ''.'')
     else (if starts_with ''/'' p then ''/'' else []) @ str_join ''/'' (path_parts p))"

definition glob_base :: "string \<Rightarrow> string" where
  "glob_base pattern =
    (let base_parts = takeWhile (\<lambda>part. \<not> has_glob_magic part) (split_on (CHR ''/'') (slashes pattern))
     in if base_parts \<noteq> [] then as_path (str_join ''/'' base_parts) else ''.'')"

section \<open>Cookies\<close>

definition COOKIE_ATTRIBUTE_NAMES :: "string list" where
  "COOKIE_ATTRIBUTE_NAMES = [''domain'', ''expires'', ''path'', ''samesite'', ''secure'', ''httponly'', ''max-age'']"

text \<open>The parts of a cookie header that carry a value and are no attribute. \<open>part.strip()\<close> may lose the text around the
  sign but never the sign itself.\<close>

definition cookie_parts :: "string \<Rightarrow> (string \<times> string) list" where
  "cookie_parts cookie =
    filter (\<lambda>(name, v). str_lower name \<notin> set COOKIE_ATTRIBUTE_NAMES)
      (concat (map (\<lambda>part. case split_first (CHR ''='') (str_strip part) of None \<Rightarrow> [] | Some kv \<Rightarrow> [kv])
        (split_on (CHR '';'') cookie)))"

definition normalize_cookie_header :: "string \<Rightarrow> string" where
  "normalize_cookie_header cookie = str_join ''; '' (map (\<lambda>(key, v). key @ ''='' @ v) (cookie_parts cookie))"

section \<open>The rules file\<close>

record sync_rule =
  sr_source :: string
  sr_target_dir :: string
  sr_exclude :: "string list"

definition MAPPING_FILENAME :: string where
  "MAPPING_FILENAME = ''.overleaf''"

fun split_arrow :: "string \<Rightarrow> (string \<times> string) option" where
  "split_arrow (a # b # s) =
    (if a = CHR ''-'' \<and> b = CHR ''>'' then Some ([], s)
     else (case split_arrow (b # s) of None \<Rightarrow> None | Some (x, y) \<Rightarrow> Some (a # x, y)))"
| "split_arrow _ = None"

definition rule_line :: "string \<Rightarrow> sync_rule list res" where
  "rule_line raw_line =
    (let line = str_strip raw_line in
     if line = [] \<or> hd line = CHR ''#'' then Inr []
     else (case split_arrow line of
             None \<Rightarrow> Inl RuntimeError
           | Some (source, target_dir) \<Rightarrow>
               if str_strip source = [] then Inl RuntimeError
               else Inr [\<lparr>sr_source = str_strip source, sr_target_dir = str_strip target_dir, sr_exclude = []\<rparr>]))"

text \<open>\<open>content\<close> is \<open>None\<close> where the file is missing.\<close>

definition load_mapping_file :: "string option \<Rightarrow> sync_rule list res" where
  "load_mapping_file content =
    (case content of
       None \<Rightarrow> Inl RuntimeError
     | Some s \<Rightarrow> res_bind (res_map rule_line (py_splitlines s)) (\<lambda>rs. Inr (concat rs)))"

definition write_mapping_file :: "sync_rule list \<Rightarrow> string" where
  "write_mapping_file rules =
    str_join [nl] (map (\<lambda>r. sr_source r @ '' -> '' @ sr_target_dir r) rules) @ (if rules \<noteq> [] then [nl] else [])"

definition init_repo :: "string option \<Rightarrow> string res" where
  "init_repo content = (if content \<noteq> None then Inl RuntimeError else Inr (''# source_path -> overleaf_dir'' @ [nl]))"

section \<open>Choosing a local file\<close>

text \<open>The order of the score tuple; \<open>rel_parts\<close> are the parts of the path below the repository root.\<close>

definition pdf_score :: "string \<Rightarrow> string \<Rightarrow> string list \<Rightarrow> nat \<times> int \<times> int \<times> nat \<times> string" where
  "pdf_score repo_root remote_path rel_parts =
    (let remote_parent_parts = filter (\<lambda>p. p \<noteq> []) (split_on (CHR ''/'') (normalize_remote_path (posix_dirname remote_path)));
         remote_name = str_lower (posix_basename remote_path);
         rel_dir_parts = map str_lower (butlast rel_parts);
         archive_penalty = (if list_ex (\<lambda>p. str_lower p = ''expr_pdf_archive'') rel_parts then 1 else 0);
         overlap = card (set remote_parent_parts \<inter> set rel_dir_parts);
         name_hint = (if str_lower (last rel_parts) = remote_name then 1 else 0)
     in (archive_penalty, - int overlap, - name_hint, length rel_parts, repo_root @ ''/'' @ str_join ''/'' rel_parts))"

definition select_pdf_match :: "string \<Rightarrow> string \<Rightarrow> string list list \<Rightarrow> string list res" where
  "select_pdf_match repo_root remote_path matches =
    (case sort_key (pdf_score repo_root remote_path) matches of [] \<Rightarrow> Inl IndexError | m # _ \<Rightarrow> Inr m)"

text \<open>The search for the directory of \<^verbatim>\<open>.overleaf\<close>, from the parts of the starting directory upwards.\<close>

fun find_repo_root :: "(string list \<Rightarrow> bool) \<Rightarrow> string list \<Rightarrow> string list option" where
  "find_repo_root has_mapping rev_parts =
    (if has_mapping (rev rev_parts) then Some (rev rev_parts)
     else (case rev_parts of [] \<Rightarrow> None | _ # up \<Rightarrow> find_repo_root has_mapping up))"

definition ensure_repo_root :: "(string list \<Rightarrow> bool) \<Rightarrow> string list \<Rightarrow> string list res" where
  "ensure_repo_root has_mapping parts =
    (case find_repo_root has_mapping (rev parts) of None \<Rightarrow> Inl RuntimeError | Some r \<Rightarrow> Inr r)"

section \<open>Frames\<close>

text \<open>Python's slices and \<^verbatim>\<open>find\<close>: a negative index counts from the end.\<close>

definition py_index :: "'a list \<Rightarrow> int \<Rightarrow> nat" where
  "py_index xs i = (let n = int (length xs) in nat (if i < 0 then max 0 (n + i) else min i n))"

definition py_slice :: "'a list \<Rightarrow> int \<Rightarrow> int \<Rightarrow> 'a list" where
  "py_slice xs a b = take (py_index xs b - py_index xs a) (drop (py_index xs a) xs)"

definition py_find :: "string \<Rightarrow> char \<Rightarrow> int \<Rightarrow> int" where
  "py_find s c i =
    (let k = py_index s i; rest = takeWhile (\<lambda>x. x \<noteq> c) (drop k s)
     in if k + length rest < length s then int (k + length rest) else -1)"

partial_function (option) decode_frames :: "char \<Rightarrow> string \<Rightarrow> int \<Rightarrow> string list \<Rightarrow> string list res option" where
  "decode_frames sep data idx packets =
    (if idx < int (length data) then
       (case py_nth data idx of
          Inl e \<Rightarrow> Some (Inl e)
        | Inr c \<Rightarrow>
            if c \<noteq> sep then Some (Inl RuntimeError)
            else
              (let next_sep = py_find data sep (idx + 1) in
               if next_sep < 0 then Some (Inl RuntimeError)
               else (case py_int (py_slice data (idx + 1) next_sep) of
                       Inl e \<Rightarrow> Some (Inl e)
                     | Inr len \<Rightarrow>
                         (let body = next_sep + 1
                          in decode_frames sep data (body + len) (packets @ [py_slice data body (body + len)])))))
     else Some (Inr packets))"

definition decode_socketio_payload :: "char \<Rightarrow> string \<Rightarrow> string list res option" where
  "decode_socketio_payload sep data =
    (if data = [] then Some (Inr [])
     else if hd data \<noteq> sep then Some (Inr [data])
     else decode_frames sep data 0 [])"

end
