(* ===== verification/RemotePathFacts.thy ===== *)
theory RemotePathFacts
  imports RemotePaths LogRoundTrip
begin

text \<open>
  Facts about \<open>RemotePaths\<close>: normalized paths are clean and stay as they are, the rules file and the framing of
  socket.io messages read back.
\<close>


section \<open>Normalized paths\<close>

text \<open>Components that are kept: none empty, none a dot, none with a slash or a backslash, and double dots only in front.\<close>

definition plain_comp :: "string \<Rightarrow> bool" where
  "plain_comp c \<longleftrightarrow> c \<noteq> [] \<and> c \<noteq> ''.'' \<and> CHR ''/'' \<notin> set c \<and> CHR 0x5C \<notin> set c"

definition clean_comps :: "string list \<Rightarrow> bool" where
  "clean_comps cs \<longleftrightarrow> list_all plain_comp cs \<and> list_all (\<lambda>c. c \<noteq> ''..'') (dropWhile (\<lambda>c. c = ''..'') cs)"

definition raw_comps :: "string list \<Rightarrow> bool" where
  "raw_comps cs \<longleftrightarrow> list_all (\<lambda>c. CHR ''/'' \<notin> set c \<and> CHR 0x5C \<notin> set c) cs"

definition kept_ok :: "bool \<Rightarrow> string list \<Rightarrow> bool" where
  "kept_ok rooted kept \<longleftrightarrow> list_all plain_comp kept \<and> (\<exists>n ns. kept = ns @ replicate n ''..'' \<and> ''..'' \<notin> set ns \<and> (rooted \<longrightarrow> n = 0))"

lemma kept_clean: "kept_ok rooted kept \<Longrightarrow> clean_comps (rev kept)"
proof -
  assume "kept_ok rooted kept"
  then obtain n ns where k: "list_all plain_comp kept" "kept = ns @ replicate n ''..''" "''..'' \<notin> set ns"
    unfolding kept_ok_def by blast
  have "dropWhile (\<lambda>c. c = ''..'') (replicate n ''..'' @ rev ns) = rev ns"
    using k(3) by (cases "rev ns") (auto simp: dropWhile_append3)
  then show ?thesis using k by (auto simp: clean_comps_def list_all_iff)
qed

lemma kept_ok_step:
  assumes "kept_ok rooted kept" "plain_comp part"
  shows "kept_ok rooted (if part \<noteq> ''..'' \<or> (\<not> rooted \<and> kept = []) \<or> (kept \<noteq> [] \<and> hd kept = ''..'') then part # kept else tl kept)"
proof -
  obtain n ns where k: "list_all plain_comp kept" "kept = ns @ replicate n ''..''" "''..'' \<notin> set ns" "rooted \<longrightarrow> n = 0"
    using assms(1) unfolding kept_ok_def by blast
  consider "part \<noteq> ''..''" | "part = ''..''" "ns = []" "\<not> rooted" | "part = ''..''" "ns = []" "rooted" | "part = ''..''" "ns \<noteq> []"
    by blast
  then show ?thesis
  proof cases
    case 1
    then show ?thesis using k assms(2) unfolding kept_ok_def by (intro conjI exI[of _ n] exI[of _ "part # ns"]) auto
  next
    case 2
    then have "part # kept = replicate (Suc n) ''..''" using k(2) by simp
    moreover have "(\<not> rooted \<and> kept = []) \<or> (kept \<noteq> [] \<and> hd kept = ''..'')" using 2 k(2) by (cases n) auto
    ultimately show ?thesis
      using 2 k(1) assms(2) unfolding kept_ok_def by (intro conjI exI[of _ "Suc n"] exI[of _ "[]"]) auto
  next
    case 3
    then show ?thesis using k assms by (simp add: kept_ok_def)
  next
    case 4
    then obtain m ms where ns: "ns = m # ms" by (cases ns) auto
    then have "\<not> ((\<not> rooted \<and> kept = []) \<or> (kept \<noteq> [] \<and> hd kept = ''..''))" using k by auto
    then show ?thesis
      using 4 k ns unfolding kept_ok_def by (simp, intro exI[of _ n] exI[of _ ms]) auto
  qed
qed

lemma norm_comps_clean: "kept_ok rooted kept \<Longrightarrow> raw_comps cs \<Longrightarrow> clean_comps (norm_comps rooted kept cs)"
proof (induction rooted kept cs rule: norm_comps.induct)
  case (2 rooted kept part parts)
  have raw: "raw_comps parts" using 2(5) by (simp add: raw_comps_def)
  show ?case
  proof (cases "part = [] \<or> part = ''.''")
    case True
    then show ?thesis using 2(1)[OF True 2(4) raw] by simp
  next
    case False
    then have "plain_comp part" using 2(5) by (simp add: raw_comps_def plain_comp_def)
    from kept_ok_step[OF 2(4) this] show ?thesis
      using 2(2)[OF False _ _ raw] 2(3)[OF False _ _ raw] False by (auto split: if_splits)
  qed
qed (simp add: kept_clean)

text \<open>Clean components are left alone.\<close>

lemma norm_comps_plain: "list_all plain_comp cs \<Longrightarrow> list_all (\<lambda>c. c \<noteq> ''..'') cs \<Longrightarrow> norm_comps rooted kept cs = rev kept @ cs"
  by (induction cs arbitrary: kept) (auto simp: plain_comp_def)

lemma norm_comps_dots: "norm_comps False (replicate n ''..'') (replicate m ''..'' @ cs) = norm_comps False (replicate (n + m) ''..'') cs"
proof (induction m arbitrary: n)
  case (Suc m)
  have "norm_comps False (replicate n ''..'') (''..'' # replicate m ''..'' @ cs) = norm_comps False (replicate (Suc n) ''..'') (replicate m ''..'' @ cs)"
    by (cases n) auto
  then show ?case using Suc[of "Suc n"] by simp
qed simp

lemma norm_comps_id: "clean_comps cs \<Longrightarrow> norm_comps False [] cs = cs"
proof -
  assume c: "clean_comps cs"
  let ?d = "takeWhile (\<lambda>c. c = ''..'') cs" and ?r = "dropWhile (\<lambda>c. c = ''..'') cs"
  have "replicate (length ?d) ''..'' = ?d" by (rule replicate_length_same) (auto dest: set_takeWhileD)
  then obtain m where m: "?d = replicate m ''..''" by (rule that[OF sym])
  have "norm_comps False [] cs = norm_comps False (replicate m ''..'') ?r"
    using norm_comps_dots[of 0 m ?r] takeWhile_dropWhile_id[of "\<lambda>c. c = ''..''" cs] m by simp
  also have "\<dots> = replicate m ''..'' @ ?r"
  proof -
    have "list_all plain_comp cs" using c by (simp only: clean_comps_def)
    then have "list_all plain_comp ?r" unfolding list_all_iff using set_dropWhileD by fast
    moreover have "list_all (\<lambda>c. c \<noteq> ''..'') ?r" using c by (simp only: clean_comps_def)
    ultimately have "norm_comps False (replicate m ''..'') ?r = rev (replicate m ''..'') @ ?r" by (rule norm_comps_plain)
    then show ?thesis by simp
  qed
  also have "\<dots> = cs" unfolding m[symmetric] by (rule takeWhile_dropWhile_id)
  finally show ?thesis .
qed

lemma split_slash_raw: "CHR 0x5C \<notin> set p \<Longrightarrow> raw_comps (split_on (CHR ''/'') p)"
proof -
  have *: "c \<in> set (split_by P p) \<Longrightarrow> x \<in> set c \<Longrightarrow> \<not> P x \<and> x \<in> set p" for P p c x
  proof (induction P p arbitrary: c rule: split_by.induct)
    case (2 P d p)
    obtain q qs where q: "split_by P p = q # qs" by (cases "split_by P p") auto
    have IH: "\<not> P x \<and> x \<in> set p" if "c' \<in> set (split_by P p)" "x \<in> set c'" for c' using "2.IH" that by blast
    show ?case using "2.prems" IH[of q] IH[of c] q by (auto split: if_splits)
  qed simp
  assume "CHR 0x5C \<notin> set p"
  then show ?thesis using *[of _ "\<lambda>x. x = CHR ''/''" p] by (fastforce simp: raw_comps_def list_all_iff split_on_def)
qed

lemma no_backslash: "CHR 0x5C \<notin> set (str_strip (slashes p))"
proof -
  have "set (str_strip s) \<subseteq> set s" for s
    unfolding str_strip_def strip_by_def rstrip_by_def by (auto dest!: set_dropWhileD)
  moreover have "CHR 0x5C \<notin> set (slashes p)" by (auto simp: slashes_def)
  ultimately show ?thesis by blast
qed

lemma strip_slashes_join:
  assumes "list_all plain_comp cs"
  shows "strip_by is_slash (replicate k (CHR ''/'') @ str_join ''/'' cs) = str_join ''/'' cs"
proof (cases cs)
  case Nil
  have "dropWhile is_slash (replicate k (CHR ''/'')) = []" by (induction k) (simp_all add: is_slash_def)
  then show ?thesis using Nil by (simp add: strip_by_def rstrip_by_def)
next
  case (Cons c ds)
  have ends: "str_join ''/'' xs \<noteq> [] \<and> \<not> is_slash (hd (str_join ''/'' xs)) \<and> \<not> is_slash (last (str_join ''/'' xs))"
    if "list_all plain_comp xs" "xs \<noteq> []" for xs
    using that
  proof (induction xs)
    case (Cons x ys)
    have x: "x \<noteq> []" "CHR ''/'' \<notin> set x" using Cons.prems(1) by (simp_all add: plain_comp_def)
    then have "\<not> is_slash (hd x)" "\<not> is_slash (last x)"
      using hd_in_set[OF x(1)] last_in_set[OF x(1)] by (metis is_slash_def)+
    then show ?case using Cons x by (cases ys) (auto simp: hd_append)
  qed simp
  have e: "str_join ''/'' cs \<noteq> []" "\<not> is_slash (hd (str_join ''/'' cs))" "\<not> is_slash (last (str_join ''/'' cs))"
    using ends[OF assms] Cons by auto
  have "dropWhile is_slash (replicate k (CHR ''/'') @ str_join ''/'' cs) = str_join ''/'' cs"
    using e by (induction k) (auto simp: is_slash_def neq_Nil_conv)
  then show ?thesis using e by (simp add: strip_by_def rstrip_by_last)
qed

lemma normalize_form:
  "\<exists>rooted. normalize_remote_path p = str_join ''/'' (norm_comps rooted [] (split_on (CHR ''/'') (str_strip (slashes p))))
     \<and> (rooted \<longleftrightarrow> starts_with ''/'' (str_strip (slashes p)))"
proof -
  let ?p = "str_strip (slashes p)"
  let ?rooted = "starts_with ''/'' ?p"
  let ?cs = "norm_comps ?rooted [] (split_on (CHR ''/'') ?p)"
  have clean: "list_all plain_comp ?cs"
    using norm_comps_clean[of ?rooted "[]"] split_slash_raw[OF no_backslash, of p] by (simp add: kept_ok_def clean_comps_def)
  have "normalize_remote_path p = str_join ''/'' ?cs"
  proof (cases "?p = [] \<or> ?p = ''.''")
    case True
    then show ?thesis by (auto simp: normalize_remote_path_def starts_with_def split_on_def)
  next
    case False
    obtain k where k: "posix_normpath ?p = (let out = replicate k (CHR ''/'') @ str_join ''/'' ?cs in if out = [] then ''.'' else out)"
      and k2: "k \<le> 2"
    proof (rule that)
      let ?k = "if ?rooted then (if starts_with ''//'' ?p \<and> \<not> starts_with ''///'' ?p then 2 else 1) else 0 :: nat"
      show "posix_normpath ?p = (let out = replicate ?k (CHR ''/'') @ str_join ''/'' ?cs in if out = [] then ''.'' else out)"
        using False by (simp add: posix_normpath_def Let_def numeral_2_eq_2)
      show "?k \<le> 2" by simp
    qed
    let ?out = "replicate k (CHR ''/'') @ str_join ''/'' ?cs"
    have strip: "strip_by is_slash ?out = str_join ''/'' ?cs" by (rule strip_slashes_join[OF clean])
    show ?thesis
    proof (cases "?out = [] \<or> ?out = ''.'' \<or> ?out = ''/''")
      case True
      have "str_join ''/'' ?cs = []"
      proof -
        have "?out \<noteq> ''.''"
        proof
          assume o: "?out = ''.''"
          then have "k = 0" by (cases k) auto
          then have "str_join ''/'' ?cs = ''.''" using o by simp
          then have "?cs = [''.'']" using clean
            by (cases ?cs rule: list.exhaust; cases "tl ?cs") (auto simp: plain_comp_def append_eq_Cons_conv)
          then show False using clean by (simp add: plain_comp_def)
        qed
        then show ?thesis using True strip by (auto simp: strip_by_def rstrip_by_def is_slash_def)
      qed
      then show ?thesis using True False k by (auto simp: normalize_remote_path_def Let_def strip_by_def rstrip_by_def is_slash_def)
    next
      case o: False
      then show ?thesis using False k strip by (auto simp: normalize_remote_path_def Let_def)
    qed
  qed
  then show ?thesis by blast
qed

lemma normalize_clean:
  obtains cs where "normalize_remote_path p = str_join ''/'' cs" "clean_comps cs"
proof -
  obtain rooted where r: "normalize_remote_path p = str_join ''/'' (norm_comps rooted [] (split_on (CHR ''/'') (str_strip (slashes p))))"
    using normalize_form by blast
  have "clean_comps (norm_comps rooted [] (split_on (CHR ''/'') (str_strip (slashes p))))"
    using norm_comps_clean[of rooted "[]"] split_slash_raw[OF no_backslash, of p] by (simp add: kept_ok_def)
  with r show thesis by (rule that)
qed

lemma slashes_id: "CHR 0x5C \<notin> set p \<Longrightarrow> slashes p = p"
  by (induction p) (auto simp: slashes_def)

lemma set_join_slash: "set (str_join ''/'' ps) \<subseteq> {CHR ''/''} \<union> (\<Union>p \<in> set ps. set p)"
  using set_str_join[of "''/''" ps] by simp

lemma clean_join_no_backslash: "list_all plain_comp cs \<Longrightarrow> CHR 0x5C \<notin> set (str_join ''/'' cs)"
  using set_join_slash[of cs] by (fastforce simp: list_all_iff plain_comp_def)

lemma split_clean_join: "list_all plain_comp cs \<Longrightarrow> cs \<noteq> [] \<Longrightarrow> split_on (CHR ''/'') (str_join ''/'' cs) = cs"
  by (rule split_on_join) (auto simp: list_all_iff plain_comp_def)

lemma clean_join_not_rooted: "list_all plain_comp cs \<Longrightarrow> \<not> starts_with ''/'' (str_join ''/'' cs)"
proof (cases cs)
  case (Cons c ds)
  assume "list_all plain_comp cs"
  then have "c \<noteq> []" "CHR ''/'' \<notin> set c" using Cons by (simp_all add: plain_comp_def)
  then obtain x xs where "c = x # xs" "x \<noteq> CHR ''/''" by (cases c) auto
  then show ?thesis using Cons by (cases ds) (auto simp: starts_with_def)
qed (simp add: starts_with_def)

lemma normalize_clean_id:
  assumes "clean_comps cs" "str_strip (str_join ''/'' cs) = str_join ''/'' cs"
  shows "normalize_remote_path (str_join ''/'' cs) = str_join ''/'' cs"
proof (cases "cs = []")
  case True
  have "normalize_remote_path [] = []" by code_simp
  then show ?thesis using True by simp
next
  case False
  have p: "list_all plain_comp cs" using assms(1) by (simp add: clean_comps_def)
  have s: "str_strip (slashes (str_join ''/'' cs)) = str_join ''/'' cs"
    using slashes_id[OF clean_join_no_backslash[OF p]] assms(2) by simp
  show ?thesis
    using normalize_form[of "str_join ''/'' cs"] split_clean_join[OF p False] clean_join_not_rooted[OF p] norm_comps_id[OF assms(1)]
    unfolding s by auto
qed

text \<open>Remote paths are normal. \<^verbatim>\<open>normalize_remote_path\<close> returns a path without backslashes, empty components and single
  dots, with double dots only in front; and it leaves such a path alone, unless white space at one of its ends is in the
  way.\<close>

theorem normalized_path_clean:
  "(\<exists>cs. normalize_remote_path p = str_join ''/'' cs \<and> clean_comps cs)
   \<and> (str_strip (normalize_remote_path p) = normalize_remote_path p
       \<longrightarrow> normalize_remote_path (normalize_remote_path p) = normalize_remote_path p)"
proof -
  obtain cs where "normalize_remote_path p = str_join ''/'' cs" "clean_comps cs" by (rule normalize_clean)
  then show ?thesis using normalize_clean_id by auto
qed

theorem normalized_path_clean_witness:
  "normalize_remote_path (normalize_remote_path ''/figs//./x/../a.pdf'') = normalize_remote_path ''/figs//./x/../a.pdf''"
proof -
  have "str_strip (normalize_remote_path ''/figs//./x/../a.pdf'') = normalize_remote_path ''/figs//./x/../a.pdf''" by code_simp
  then show ?thesis using normalized_path_clean[of "''/figs//./x/../a.pdf''"] by blast
qed

lemma normalize_twice_differs:
  "normalize_remote_path ''/ a'' = '' a'' \<and> normalize_remote_path '' a'' = ''a''"
  by code_simp

section \<open>The rules file reads back\<close>

lemma split_arrow_app:
  assumes "split_arrow (s @ ''-'') = None"
  shows "split_arrow (s @ CHR ''-'' # CHR ''>'' # t) = Some (s, t)"
  using assms
proof (induction s)
  case (Cons a s)
  show ?case
  proof (cases s)
    case Nil
    then show ?thesis by simp
  next
    case (Cons b r)
    then have "\<not> (a = CHR ''-'' \<and> b = CHR ''>'')" "split_arrow (s @ ''-'') = None"
      using Cons.prems by (auto split: if_splits option.splits)
    then show ?thesis using Cons.IH Cons by auto
  qed
qed simp

lemma split_arrow_snoc: "split_arrow s = None \<Longrightarrow> c \<noteq> CHR ''>'' \<Longrightarrow> split_arrow (s @ [c]) = None"
proof (induction s rule: split_arrow.induct)
  case (1 a b s)
  then show ?case by (cases s) (auto split: if_splits option.splits)
qed (auto)

text \<open>What a rule must look like to survive in the file: one line, nothing that reads as a comment or an earlier arrow, no
  white space at the ends; the exclusions are not written.\<close>

definition rule_ok :: "sync_rule \<Rightarrow> bool" where
  "rule_ok r \<longleftrightarrow> sr_exclude r = [] \<and> trimmed (sr_source r) \<and> hd (sr_source r) \<noteq> CHR ''#'' \<and> split_arrow (sr_source r) = None
     \<and> (sr_target_dir r = [] \<or> trimmed (sr_target_dir r))
     \<and> list_all (\<lambda>c. \<not> is_linebreak c) (sr_source r @ sr_target_dir r)"

abbreviation written_rule :: "sync_rule \<Rightarrow> string" where
  "written_rule r \<equiv> sr_source r @ '' -> '' @ sr_target_dir r"

lemma strip_written:
  assumes "rule_ok r"
  shows "str_strip (written_rule r) = sr_source r @ '' ->'' @ (if sr_target_dir r = [] then [] else CHR '' '' # sr_target_dir r)"
proof -
  have sp: "is_space (CHR '' '')" "\<not> is_space (CHR ''>'')" by code_simp+
  have src: "trimmed (sr_source r)" using assms by (simp add: rule_ok_def)
  show ?thesis
  proof (cases "sr_target_dir r = []")
    case True
    have "str_strip (written_rule r) = rstrip_by is_space ((sr_source r @ '' ->'') @ '' '')"
      using src True by (cases "sr_source r") (simp_all add: str_strip_def strip_by_def trimmed_def)
    also have "\<dots> = sr_source r @ '' ->''"
      using sp by (subst rstrip_by_drop) (simp_all add: rstrip_by_last)
    finally show ?thesis using True by simp
  next
    case False
    then have "trimmed (written_rule r)" using assms src by (auto simp: rule_ok_def trimmed_def)
    then show ?thesis using strip_trimmed(1) False by simp
  qed
qed

lemma rule_line_written:
  assumes "rule_ok r"
  shows "rule_line (written_rule r) = Inr [r]"
proof -
  let ?t = "if sr_target_dir r = [] then [] else CHR '' '' # sr_target_dir r"
  have src: "trimmed (sr_source r)" using assms by (simp add: rule_ok_def)
  have arrow: "split_arrow (sr_source r @ '' ->'' @ ?t) = Some (sr_source r @ '' '', ?t)"
    using split_arrow_app[of "sr_source r @ '' ''" ?t] split_arrow_snoc[of "sr_source r @ '' ''" "CHR ''-''"]
      split_arrow_snoc[of "sr_source r" "CHR '' ''"] assms by (simp add: rule_ok_def)
  have sp: "is_space (CHR '' '')" by code_simp
  have s: "str_strip (sr_source r @ '' '') = sr_source r"
  proof -
    have "dropWhile is_space (sr_source r @ '' '') = sr_source r @ '' ''" using src by (cases "sr_source r") (auto simp: trimmed_def)
    then show ?thesis using src sp by (simp add: str_strip_def strip_by_def trimmed_def rstrip_by_drop rstrip_by_last)
  qed
  have t: "str_strip ?t = sr_target_dir r"
  proof (cases "sr_target_dir r = []")
    case True
    then show ?thesis by (simp add: str_strip_def strip_by_def rstrip_by_def)
  next
    case False
    then show ?thesis using assms strip_trimmed(2) by (simp add: rule_ok_def)
  qed
  have line: "sr_source r @ '' ->'' @ ?t \<noteq> []" "hd (sr_source r @ '' ->'' @ ?t) \<noteq> CHR ''#''"
    using assms src by (auto simp: rule_ok_def trimmed_def)
  have "sr_source r \<noteq> []" using src by (simp add: trimmed_def)
  moreover have "\<lparr>sr_source = sr_source r, sr_target_dir = sr_target_dir r, sr_exclude = []\<rparr> = r"
    using assms by (simp add: rule_ok_def)
  ultimately show ?thesis
    unfolding rule_line_def Let_def strip_written[OF assms] using line arrow s t by simp
qed

lemma splitlines_terminated:
  assumes "ls \<noteq> []" "\<forall>l \<in> set ls. l \<noteq> [] \<and> list_all (\<lambda>c. \<not> is_linebreak c) l"
  shows "py_splitlines (str_join [nl] ls @ [nl]) = ls"
  using assms unfolding py_splitlines_def
proof (induction ls rule: induct_list012)
  case (2 l)
  then show ?case using splitlines_run[of l "[]" "[nl]"] nl_break by simp
next
  case (3 l m ls)
  then show ?case using splitlines_run[of l "[]" "nl # str_join [nl] (m # ls) @ [nl]"] nl_break by simp
qed simp

text \<open>The rules file reads back: \<^verbatim>\<open>load_mapping_file\<close> returns exactly the rules \<^verbatim>\<open>write_mapping_file\<close> wrote, in
  their order, for any list of rules whose paths fit on a line and have no arrow or comment sign in the way.\<close>

theorem rules_file_reads_back:
  assumes "list_all rule_ok rules"
  shows "load_mapping_file (Some (write_mapping_file rules)) = Inr rules"
proof (cases "rules = []")
  case True
  then show ?thesis by (simp add: load_mapping_file_def write_mapping_file_def py_splitlines_def)
next
  case False
  have sp: "\<not> is_linebreak (CHR '' '')" "\<not> is_linebreak (CHR ''-'')" "\<not> is_linebreak (CHR ''>'')" by code_simp+
  have "\<forall>l \<in> set (map written_rule rules). l \<noteq> [] \<and> list_all (\<lambda>c. \<not> is_linebreak c) l"
    using assms sp by (auto simp: list_all_iff rule_ok_def)
  then have lines: "py_splitlines (write_mapping_file rules) = map written_rule rules"
    unfolding write_mapping_file_def using splitlines_terminated[of "map written_rule rules"] False by simp
  have "res_map rule_line (map written_rule rules) = Inr (map (\<lambda>r. [r]) rules)"
    using assms
    by (induction rules) (simp_all add: rule_line_written[simplified])
  then show ?thesis by (simp add: load_mapping_file_def lines)
qed

theorem rules_file_reads_back_witness:
  "load_mapping_file (Some (write_mapping_file
      [\<lparr>sr_source = ''out/a b.pdf'', sr_target_dir = ''figs'', sr_exclude = []\<rparr>,
       \<lparr>sr_source = ''x-.pdf'', sr_target_dir = [], sr_exclude = []\<rparr>]))
   = Inr [\<lparr>sr_source = ''out/a b.pdf'', sr_target_dir = ''figs'', sr_exclude = []\<rparr>,
       \<lparr>sr_source = ''x-.pdf'', sr_target_dir = [], sr_exclude = []\<rparr>]"
  by (rule rules_file_reads_back) code_simp

text \<open>A file whose name starts with a number sign is written as a comment.\<close>

lemma comment_rule_lost:
  "load_mapping_file (Some (write_mapping_file [\<lparr>sr_source = ''#1.pdf'', sr_target_dir = ''figs'', sr_exclude = []\<rparr>])) = Inr []"
  by code_simp

section \<open>Frames read back\<close>

definition frame :: "char \<Rightarrow> string \<Rightarrow> string" where
  "frame sep packet = sep # str_nat (length packet) @ sep # packet"

lemma py_index_nonneg: "py_index xs (int k) = min k (length xs)"
  by (simp add: py_index_def)

lemma py_slice_mid: "py_slice (a @ b @ c) (int (length a)) (int (length a + length b)) = b"
  by (simp add: py_slice_def py_index_nonneg del: of_nat_add)

lemma py_find_app:
  assumes "c \<notin> set b"
  shows "py_find (a @ b @ c # d) c (int (length a)) = int (length a + length b)"
proof -
  have "\<forall>x \<in> set b. x \<noteq> c" using assms by auto
  then have "takeWhile (\<lambda>x. x \<noteq> c) (b @ c # d) = b" by (simp add: takeWhile_append2)
  then show ?thesis by (simp add: py_find_def py_index_nonneg Let_def)
qed

lemma decode_frames_step:
  assumes "\<not> is_digit sep"
  shows "decode_frames sep (pre @ frame sep p @ rest) (int (length pre)) acc
    = decode_frames sep (pre @ frame sep p @ rest) (int (length (pre @ frame sep p))) (acc @ [p])"
proof -
  let ?d = "pre @ frame sep p @ rest" and ?n = "str_nat (length p)"
  have no: "sep \<notin> set ?n" using str_nat_digits[of "length p"] assms by (auto simp: list_all_iff)
  have find: "py_find ?d sep (int (length pre) + 1) = int (length (pre @ sep # ?n))"
    using py_find_app[OF no, of "pre @ [sep]" "p @ rest"] by (simp add: frame_def algebra_simps)
  have size: "py_slice ?d (int (length pre) + 1) (int (length (pre @ sep # ?n))) = ?n"
    using py_slice_mid[of "pre @ [sep]" ?n "sep # p @ rest"] by (simp add: frame_def algebra_simps)
  have body: "py_slice ?d (int (length (pre @ sep # ?n)) + 1) (int (length (pre @ sep # ?n)) + 1 + int (length p)) = p"
    using py_slice_mid[of "pre @ sep # ?n @ [sep]" p rest] by (simp add: frame_def algebra_simps)
  have hd: "py_nth ?d (int (length pre)) = Inr sep"
    by (simp add: py_nth_def frame_def nth_append Let_def)
  have nxt: "int (length (pre @ sep # ?n)) + 1 + int (length p) = int (length (pre @ frame sep p))"
    by (simp add: frame_def)
  have lt: "int (length pre) < int (length ?d)" by (simp add: frame_def)
  show ?thesis
    by (subst decode_frames.simps)
      (simp only: lt hd find size py_int_str_nat body Let_def sum.case if_True, simp only: nxt, simp)
qed

lemma decode_frames_all:
  assumes "\<not> is_digit sep"
  shows "decode_frames sep (pre @ concat (map (frame sep) ps)) (int (length pre)) acc = Some (Inr (acc @ ps))"
proof (induction ps arbitrary: pre acc)
  case Nil
  show ?case by (subst decode_frames.simps) simp
next
  case (Cons p ps)
  have "decode_frames sep (pre @ frame sep p @ concat (map (frame sep) ps)) (int (length pre)) acc
      = decode_frames sep ((pre @ frame sep p) @ concat (map (frame sep) ps)) (int (length (pre @ frame sep p))) (acc @ [p])"
    unfolding decode_frames_step[OF assms] by simp
  then show ?case using Cons.IH[of "pre @ frame sep p" "acc @ [p]"] by simp
qed

text \<open>C26: The framing of socket.io messages reads back: whatever the packets contain, the separator included,
  \<^verbatim>\<open>_decode_socketio_payload\<close> splits their framed concatenation into exactly these packets.\<close>

theorem framed_packets_read_back:
  assumes "\<not> is_digit sep"
  shows "decode_socketio_payload sep (concat (map (frame sep) ps)) = Some (Inr ps)"
proof (cases ps)
  case (Cons p qs)
  then show ?thesis
    using decode_frames_all[OF assms, of "[]" ps "[]"] by (simp add: decode_socketio_payload_def frame_def)
qed (simp add: decode_socketio_payload_def)

theorem framed_packets_read_back_witness:
  "decode_socketio_payload (CHR 0xFF) (concat (map (frame (CHR 0xFF)) [''1::'', ''a'' @ [CHR 0xFF]])) = Some (Inr [''1::'', ''a'' @ [CHR 0xFF]])"
  by (rule framed_packets_read_back) (simp add: is_digit_def)

text \<open>A frame with a negative length makes the decoder step back to itself: it never ends.\<close>

lemma negative_frame_loops: "decode_frames (CHR 0xFF) [CHR 0xFF, CHR ''-'', CHR ''4'', CHR 0xFF] 0 acc = None"
proof -
  let ?d = "[CHR 0xFF, CHR ''-'', CHR ''4'', CHR 0xFF]"
  have facts: "py_nth ?d 0 = Inr (CHR 0xFF)" "py_find ?d (CHR 0xFF) (0 + 1) = 3" "py_int (py_slice ?d (0 + 1) 3) = Inr (-4)"
    by code_simp+
  have "data \<noteq> ?d \<or> idx \<noteq> 0 \<or> sep \<noteq> CHR 0xFF" if r: "decode_frames sep data idx acc = Some r" for sep data idx acc r
  proof (rule decode_frames.raw_induct[OF _ r, where P = "\<lambda>sep data idx acc r. data \<noteq> ?d \<or> idx \<noteq> 0 \<or> sep \<noteq> CHR 0xFF"], rule ccontr)
    fix go :: "char \<Rightarrow> string \<Rightarrow> int \<Rightarrow> string list \<Rightarrow> string list res option" and sep data idx packets r
    assume IH: "\<And>sep data idx packets r. go sep data idx packets = Some r \<Longrightarrow> data \<noteq> ?d \<or> idx \<noteq> 0 \<or> sep \<noteq> CHR 0xFF"
      and not: "\<not> (data \<noteq> ?d \<or> idx \<noteq> 0 \<or> sep \<noteq> CHR 0xFF)"
      and body: "(if idx < int (length data) then
       (case py_nth data idx of
          Inl e \<Rightarrow> Some (Inl e)
        | Inr c \<Rightarrow>
            if c \<noteq> sep then Some (Inl RuntimeError)
            else
              (let next_sep = py_find data sep (idx + 1) in
               if next_sep < 0 then Some (Inl RuntimeError)
               else (case py_int (py_slice data (idx + 1) next_sep) of
                       Inl e \<Rightarrow> Some (Inl e)
                     | Inr len \<Rightarrow>
                         (let body = next_sep + 1
                          in go sep data (body + len) (packets @ [py_slice data body (body + len)])))))
     else Some (Inr packets)) = Some r"
    have e: "data = ?d" "idx = 0" "sep = CHR 0xFF" using not by blast+
    have "go (CHR 0xFF) ?d 0 (packets @ [py_slice ?d 4 0]) = Some r"
      using body unfolding e by (simp only: facts Let_def sum.case) simp
    from IH[OF this] show False by simp
  qed
  then show ?thesis by (cases "decode_frames (CHR 0xFF) ?d 0 acc") blast+
qed

end
