(* ===== verification/OverleafClient.thy ===== *)
theory OverleafClient
  imports RemotePathFacts Actions
begin

text \<open>
  \<open>OverleafClient\<close> of \<^verbatim>\<open>tools/overleaf_push/overleaf_push.py\<close>: the requests it sends to the web API and the socket.io
  dialogue, as actions.

  The web server, the cookie jar of a session (package \<^verbatim>\<open>requests\<close>), the clock, the terminal, and the text and JSON
  codecs are parameters, the fields of \<open>surroundings\<close>: they act on an unknown outside state. Every request is also recorded
  in \<open>sent\<close>, and every line logged in \<open>logs\<close>; the program reads neither.
\<close>

section \<open>Surroundings and state\<close>

datatype rbody =
    NoBody
  | JsonBody jval
  | RawBody string
  | FormBody "(string, string) dict" "(string \<times> string \<times> string) list"

record request =
  rq_method :: string
  rq_url :: string
  rq_headers :: "(string, string) dict"
  rq_body :: rbody
  rq_timeout :: nat

record response =
  rs_status :: nat
  rs_text :: string
  rs_content :: string

record 'w surroundings =
  http :: "nat \<Rightarrow> request \<Rightarrow> 'w \<Rightarrow> response res \<times> 'w"
  new_session :: "'w \<Rightarrow> nat \<times> 'w"
  set_cookie :: "nat \<Rightarrow> string \<Rightarrow> string \<Rightarrow> string \<Rightarrow> 'w \<Rightarrow> 'w"
  clock :: "'w \<Rightarrow> real \<times> 'w"
  ask :: "bool \<Rightarrow> string \<Rightarrow> 'w \<Rightarrow> string res \<times> 'w"
  json_loads :: "string \<Rightarrow> jval res"
  json_dumps :: "jval \<Rightarrow> string"
  json_pretty :: "jval \<Rightarrow> string"
  py_str :: "jval \<Rightarrow> string"
  html_unescape :: "string \<Rightarrow> string"
  guess_type :: "string \<Rightarrow> string option"
  utf8 :: "string \<Rightarrow> string"
  expanduser :: "string \<Rightarrow> string"
  frame_sep :: char

text \<open>A directory lists its entries in the order in which the system returns them.\<close>

datatype fsnode = FFile string | FDir "(string \<times> fsnode) list"

datatype log_line = Warning string | Info string

record 'w helper =
  outside :: 'w
  sent :: "request list"
  logs :: "log_line list"
  disk :: fsnode

type_synonym ('w, 'a) hact = "('w helper, 'a) action"

definition log_line :: "log_line \<Rightarrow> ('w, unit) hact" where
  "log_line l = act_put (\<lambda>s. s\<lparr>logs := logs s @ [l]\<rparr>)"

definition time_time :: "'w surroundings \<Rightarrow> ('w, real) hact" where
  "time_time env s = (let (t, w) = clock env (outside s) in Some (Inr t, s\<lparr>outside := w\<rparr>))"

text \<open>A request of the session, with \<^verbatim>\<open>raise_for_status\<close>.\<close>

definition send :: "'w surroundings \<Rightarrow> nat \<Rightarrow> request \<Rightarrow> ('w, response) hact" where
  "send env sid q s =
    (let (r, w) = http env sid q (outside s)
     in Some (res_bind r (\<lambda>res. if 400 \<le> rs_status res \<and> rs_status res < 600 then Inl HTTPError else Inr res),
          s\<lparr>outside := w, sent := sent s @ [q]\<rparr>))"

section \<open>JSON values\<close>

definition truthy :: "jval \<Rightarrow> bool" where
  "truthy v = (case v of JNull \<Rightarrow> False | JBool b \<Rightarrow> b | JInt i \<Rightarrow> i \<noteq> 0 | JFloat x \<Rightarrow> x \<noteq> Fin 0
     | JStr s \<Rightarrow> s \<noteq> [] | JList xs \<Rightarrow> xs \<noteq> [] | JObj d \<Rightarrow> d \<noteq> [])"

text \<open>\<^verbatim>\<open>v.get(k, d)\<close>, \<^verbatim>\<open>v[k]\<close>, \<^verbatim>\<open>v[i]\<close>, and a loop over \<^verbatim>\<open>v\<close> whose body starts with \<^verbatim>\<open>item.get\<close>.\<close>

definition jget_or :: "jval \<Rightarrow> string \<Rightarrow> jval \<Rightarrow> jval res" where
  "jget_or v k d = (case v of JObj kvs \<Rightarrow> Inr (dict_get_or kvs k d) | _ \<Rightarrow> Inl AttributeError)"

definition jfield :: "jval \<Rightarrow> string \<Rightarrow> jval res" where
  "jfield v k = (case v of JObj kvs \<Rightarrow> (case dict_get kvs k of None \<Rightarrow> Inl KeyError | Some x \<Rightarrow> Inr x) | _ \<Rightarrow> Inl TypeError)"

definition jindex :: "jval \<Rightarrow> nat \<Rightarrow> jval res" where
  "jindex v i = (case v of JList xs \<Rightarrow> if i < length xs then Inr (xs ! i) else Inl IndexError
     | JStr s \<Rightarrow> if i < length s then Inr (JStr [s ! i]) else Inl IndexError
     | JObj _ \<Rightarrow> Inl KeyError | _ \<Rightarrow> Inl TypeError)"

definition jlen :: "jval \<Rightarrow> nat res" where
  "jlen v = (case v of JList xs \<Rightarrow> Inr (length xs) | JStr s \<Rightarrow> Inr (length s) | JObj d \<Rightarrow> Inr (length d) | _ \<Rightarrow> Inl TypeError)"

definition jitems :: "jval \<Rightarrow> jval list res" where
  "jitems v = (case v of JList xs \<Rightarrow> Inr xs
     | JStr s \<Rightarrow> if s = [] then Inr [] else Inl AttributeError
     | JObj d \<Rightarrow> if d = [] then Inr [] else Inl AttributeError
     | _ \<Rightarrow> Inl TypeError)"

text \<open>The text of a value in an f-string or under \<^verbatim>\<open>str\<close>.\<close>

definition fmt :: "'w surroundings \<Rightarrow> jval \<Rightarrow> string" where
  "fmt env v = (case v of JStr s \<Rightarrow> s | _ \<Rightarrow> py_str env v)"

section \<open>URLs\<close>

definition is_alpha :: "char \<Rightarrow> bool" where
  "is_alpha c = (let n = of_char c :: nat in (65 \<le> n \<and> n \<le> 90) \<or> (97 \<le> n \<and> n \<le> 122))"

definition scheme_char :: "char \<Rightarrow> bool" where
  "scheme_char c \<longleftrightarrow> is_alpha c \<or> is_digit c \<or> c \<in> set ''+-.''"

text \<open>\<^verbatim>\<open>urlsplit\<close>: scheme and network location. The check of the address inside brackets is left out.\<close>

definition urlsplit :: "string \<Rightarrow> (string \<times> string) res" where
  "urlsplit url =
    (let url = filter (\<lambda>c. c \<notin> {tab, nl, CHR 0x0D}) (dropWhile (\<lambda>c. (of_char c :: nat) \<le> 32) url);
         (scheme, after) = (case split_first (CHR '':'') url of
            Some (s, r) \<Rightarrow> if s \<noteq> [] \<and> is_alpha (hd s) \<and> list_all scheme_char s then (str_lower s, r) else ([], url)
          | None \<Rightarrow> ([], url));
         netloc = (if starts_with ''//'' after then takeWhile (\<lambda>c. c \<notin> set ''/?#'') (drop 2 after) else [])
     in if (CHR ''['' \<in> set netloc) \<noteq> (CHR '']'' \<in> set netloc) then Inl ValueError else Inr (scheme, netloc))"

definition url_hostname :: "string \<Rightarrow> string" where
  "url_hostname netloc =
    (let hostinfo = last (split_on (CHR ''@'') netloc);
         hostname = (case split_first (CHR ''['') hostinfo of
            Some (_, bracketed) \<Rightarrow> takeWhile (\<lambda>c. c \<noteq> CHR '']'') bracketed
          | None \<Rightarrow> takeWhile (\<lambda>c. c \<noteq> CHR '':'') hostinfo)
     in str_lower (takeWhile (\<lambda>c. c \<noteq> CHR ''%'') hostname) @ dropWhile (\<lambda>c. c \<noteq> CHR ''%'') hostname)"

definition removeprefix :: "string \<Rightarrow> string \<Rightarrow> string" where
  "removeprefix p s = (if starts_with p s then drop (length p) s else s)"

section \<open>The client\<close>

record client =
  base_url :: string
  origin :: string
  host :: string
  cookie :: string
  session :: nat
  csrf_token :: string
  user_id :: string
  user_email :: string
  current_project_id :: string

definition seed_session_cookies :: "'w surroundings \<Rightarrow> client \<Rightarrow> ('w, unit) hact" where
  "seed_session_cookies env c =
    act_bind (act_lift (urlsplit (base_url c))) (\<lambda>(_, netloc).
    (let domain = ''.'' @ removeprefix ''www.'' (url_hostname netloc) in
     act_put (\<lambda>s. s\<lparr>outside := fold (\<lambda>(name, v). set_cookie env (session c) name v domain) (cookie_parts (cookie c)) (outside s)\<rparr>)))"

definition requests_Session :: "'w surroundings \<Rightarrow> ('w, nat) hact" where
  "requests_Session env s = (let (sid, w) = new_session env (outside s) in Some (Inr sid, s\<lparr>outside := w\<rparr>))"

definition OverleafClient :: "'w surroundings \<Rightarrow> string \<Rightarrow> string \<Rightarrow> ('w, client) hact" where
  "OverleafClient env server_url ck =
    act_bind (act_lift (urlsplit server_url)) (\<lambda>(scheme, netloc).
    if scheme = [] \<or> netloc = [] then act_lift (Inl ValueError)
    else act_bind (requests_Session env) (\<lambda>sid.
      (let c = \<lparr>base_url = scheme @ ''://'' @ netloc @ ''/'', origin = scheme @ ''://'' @ netloc, host = netloc,
                cookie = str_strip ck, session = sid, csrf_token = [], user_id = [], user_email = [], current_project_id = []\<rparr>
       in act_bind (seed_session_cookies env c) (\<lambda>_. act_ret c))))"

definition headers :: "client \<Rightarrow> (string, string) dict \<Rightarrow> bool \<Rightarrow> (string, string) dict" where
  "headers c extra include_origin =
    dict_update (let h = [(''Connection'', ''keep-alive'')] in if include_origin then dict_set ''Origin'' (origin c) h else h) extra"

definition csrf_headers :: "client \<Rightarrow> (string, string) dict" where
  "csrf_headers c = headers c [(''X-Csrf-Token'', csrf_token c)] False"

definition get_request :: "string \<Rightarrow> (string, string) dict \<Rightarrow> nat \<Rightarrow> request" where
  "get_request url hs timeout = \<lparr>rq_method = ''GET'', rq_url = url, rq_headers = hs, rq_body = NoBody, rq_timeout = timeout\<rparr>"

text \<open>The first \<^verbatim>\<open><meta name="..." content="...">\<close> of a page.\<close>

definition spaces1 :: "string \<Rightarrow> string option" where
  "spaces1 s = (if s \<noteq> [] \<and> is_space (hd s) then Some (dropWhile is_space s) else None)"

definition expect :: "string \<Rightarrow> string \<Rightarrow> string option" where
  "expect p s = (if starts_with p s then Some (drop (length p) s) else None)"

definition quot :: char where "quot = CHR 0x22"

definition meta_here :: "string \<Rightarrow> string \<Rightarrow> string option" where
  "meta_here name s =
    Option.bind (expect ''<meta'' s) (\<lambda>s. Option.bind (spaces1 s) (\<lambda>s.
    Option.bind (expect (''name='' @ [quot] @ name @ [quot]) s) (\<lambda>s. Option.bind (spaces1 s) (\<lambda>s.
    Option.bind (expect (''content='' @ [quot]) s) (\<lambda>s.
    (let v = takeWhile (\<lambda>c. c \<noteq> quot) s in
     Option.bind (expect ([quot] @ ''>'') (drop (length v) s)) (\<lambda>_. Some v)))))))"

fun meta_search :: "string \<Rightarrow> string \<Rightarrow> string option" where
  "meta_search name [] = None"
| "meta_search name (c # s) = (case meta_here name (c # s) of Some v \<Rightarrow> Some v | None \<Rightarrow> meta_search name s)"

definition meta :: "'w surroundings \<Rightarrow> string \<Rightarrow> string \<Rightarrow> string res" where
  "meta env body name = (case meta_search name body of None \<Rightarrow> Inl RuntimeError | Some v \<Rightarrow> Inr (html_unescape env v))"

definition login :: "'w surroundings \<Rightarrow> client \<Rightarrow> ('w, client) hact" where
  "login env c =
    act_bind (send env (session c) (get_request (base_url c @ ''project'') (headers c [] False) 30)) (\<lambda>res.
    act_bind (act_lift (meta env (rs_text res) ''ol-user_id'')) (\<lambda>uid.
    act_bind (act_lift (meta env (rs_text res) ''ol-usersEmail'')) (\<lambda>email.
    act_bind (act_lift (meta env (rs_text res) ''ol-csrfToken'')) (\<lambda>token.
    act_bind (send env (session c) (get_request (base_url c @ ''socket.io/socket.io.js'') (headers c [] False) 30)) (\<lambda>_.
      act_ret (c\<lparr>user_id := uid, user_email := email, csrf_token := token\<rparr>))))))"

definition post_json :: "client \<Rightarrow> string \<Rightarrow> (string \<times> jval) list \<Rightarrow> request" where
  "post_json c path kvs =
    \<lparr>rq_method = ''POST'', rq_url = base_url c @ path, rq_headers = csrf_headers c,
     rq_body = JsonBody (JObj ((''_csrf'', JStr (csrf_token c)) # kvs)), rq_timeout = 30\<rparr>"

definition list_projects :: "'w surroundings \<Rightarrow> client \<Rightarrow> ('w, jval) hact" where
  "list_projects env c =
    act_bind (send env (session c) (post_json c ''api/project'' [])) (\<lambda>res.
    act_bind (act_lift (json_loads env (rs_text res))) (\<lambda>payload.
      act_lift (jget_or payload ''projects'' (JList []))))"

text \<open>Identifiers and names are compared as JSON values.\<close>

fun by_id :: "jval \<Rightarrow> jval list \<Rightarrow> jval res" where
  "by_id pid [] = Inl RuntimeError"
| "by_id pid (p # ps) =
    res_bind (jget_or p ''id'' JNull) (\<lambda>x. if x = pid then Inr p
      else res_bind (jget_or p ''_id'' JNull) (\<lambda>y. if y = pid then Inr p else by_id pid ps))"

definition by_name :: "jval \<Rightarrow> jval list \<Rightarrow> jval res" where
  "by_name name ps =
    res_bind (res_map (\<lambda>p. res_bind (jget_or p ''name'' JNull) (\<lambda>n. Inr (n, p))) ps) (\<lambda>nps.
    (case map snd (filter (\<lambda>(n, p). n = name) nps) of [] \<Rightarrow> Inl RuntimeError | [p] \<Rightarrow> Inr p | _ \<Rightarrow> Inl RuntimeError))"

definition find_project :: "'w surroundings \<Rightarrow> client \<Rightarrow> jval \<Rightarrow> jval \<Rightarrow> ('w, jval) hact" where
  "find_project env c project_id project_name =
    act_bind (list_projects env c) (\<lambda>projects.
    act_lift (res_bind (jitems projects) (\<lambda>ps. if truthy project_id then by_id project_id ps else by_name project_name ps)))"

section \<open>Packets\<close>

record packet =
  pk_raw :: string
  pk_type :: string
  pk_code :: int
  pk_id :: "string option"
  pk_ack :: bool
  pk_endpoint :: string
  pk_tail :: string
  pk_name :: jval
  pk_args :: "jval option"
  pk_ackId :: "string option"
  pk_reason :: string
  pk_advice :: string

definition unknown_packet :: "string \<Rightarrow> packet" where
  "unknown_packet raw = \<lparr>pk_raw = raw, pk_type = ''unknown'', pk_code = 0, pk_id = None, pk_ack = False, pk_endpoint = [],
     pk_tail = [], pk_name = JNull, pk_args = None, pk_ackId = None, pk_reason = [], pk_advice = []\<rparr>"

text \<open>The groups of the regular expression: code, id, plus sign, endpoint, tail.\<close>

definition packet_groups :: "string \<Rightarrow> (string \<times> string \<times> bool \<times> string \<times> string) option" where
  "packet_groups packet =
    (case split_first (CHR '':'') packet of None \<Rightarrow> None
     | Some (code, r) \<Rightarrow>
        if code = [] then None
        else (let pid = takeWhile is_digit r; r1 = dropWhile is_digit r;
                  ack_plus = (r1 \<noteq> [] \<and> hd r1 = CHR ''+''); r2 = (if ack_plus then tl r1 else r1)
              in if r2 = [] \<or> hd r2 \<noteq> CHR '':'' then None
                 else (let r3 = tl r2; endpoint = takeWhile (\<lambda>c. c \<noteq> CHR '':'') r3; r4 = dropWhile (\<lambda>c. c \<noteq> CHR '':'') r3
                       in Some (code, pid, ack_plus, endpoint, (if r4 = [] then [] else tl r4)))))"

definition partition_plus :: "string \<Rightarrow> string \<times> string" where
  "partition_plus s = (case split_first (CHR ''+'') s of None \<Rightarrow> (s, []) | Some ab \<Rightarrow> ab)"

definition pick :: "string list \<Rightarrow> string \<Rightarrow> string res" where
  "pick xs idx = (if idx = [] then Inr [] else res_bind (py_int idx) (py_nth xs))"

definition decode_socketio_packet :: "'w surroundings \<Rightarrow> string \<Rightarrow> packet res" where
  "decode_socketio_packet env packet =
    (case packet_groups packet of
       None \<Rightarrow> Inr (unknown_packet packet)
     | Some (code, pid, ack_plus, endpoint, tail) \<Rightarrow>
         res_bind (py_int code) (\<lambda>n.
         (let parsed = (unknown_packet packet)\<lparr>pk_type := ''other'', pk_code := n, pk_id := (if pid = [] then None else Some pid),
                         pk_ack := ack_plus, pk_endpoint := endpoint, pk_tail := tail\<rparr>
          in if n = 1 then Inr (parsed\<lparr>pk_type := ''connect''\<rparr>)
             else if n = 5 then
               res_bind (json_loads env tail) (\<lambda>event.
               res_bind (jget_or event ''name'' JNull) (\<lambda>name.
               res_bind (jget_or event ''args'' (JList [])) (\<lambda>args.
                 Inr (parsed\<lparr>pk_type := ''event'', pk_name := name, pk_args := Some args\<rparr>))))
             else if n = 6 then
               (let ack = takeWhile is_digit tail; r = dropWhile is_digit tail;
                    ack_tail = (if r \<noteq> [] \<and> hd r = CHR ''+'' then tl r else r)
                in if ack = [] then Inl RuntimeError
                   else res_bind (if ack_tail = [] then Inr (JList []) else json_loads env ack_tail) (\<lambda>args.
                     Inr (parsed\<lparr>pk_type := ''ack'', pk_ackId := Some ack, pk_args := Some args\<rparr>)))
             else if n = 7 then
               (let (reason_idx, advice_idx) = partition_plus tail in
                res_bind (pick [''transport not supported'', ''client not handshaken'', ''unauthorized''] reason_idx) (\<lambda>reason.
                res_bind (pick [''reconnect''] advice_idx) (\<lambda>advice.
                  Inr (parsed\<lparr>pk_type := ''error'', pk_reason := reason, pk_advice := advice\<rparr>))))
             else Inr parsed)))"

section \<open>The socket.io dialogue\<close>

definition millis :: "real \<Rightarrow> string" where
  "millis t = py_str_int (py_trunc (t * 1000))"

definition socketio_open :: "'w surroundings \<Rightarrow> client \<Rightarrow> string \<Rightarrow> ('w, string) hact" where
  "socketio_open env c project_id =
    act_bind (time_time env) (\<lambda>t.
    act_bind (send env (session c) (get_request (base_url c @ ''socket.io/1/?projectId='' @ project_id @ ''&t='' @ millis t)
        (headers c [] True) 30)) (\<lambda>res.
      act_ret (takeWhile (\<lambda>x. x \<noteq> CHR '':'') (rs_text res))))"

definition socketio_base :: "client \<Rightarrow> string \<Rightarrow> string \<Rightarrow> string" where
  "socketio_base c project_id session_id = base_url c @ ''socket.io/1/xhr-polling/'' @ session_id @ ''?projectId='' @ project_id"

definition decode_packets :: "'w surroundings \<Rightarrow> string \<Rightarrow> ('w, packet list) hact" where
  "decode_packets env text s =
    (case decode_socketio_payload (frame_sep env) text of None \<Rightarrow> None
     | Some r \<Rightarrow> Some (res_bind r (res_map (decode_socketio_packet env)), s))"

definition socketio_poll :: "'w surroundings \<Rightarrow> client \<Rightarrow> string \<Rightarrow> ('w, packet list) hact" where
  "socketio_poll env c url =
    act_bind (time_time env) (\<lambda>t.
    act_bind (send env (session c) (get_request (url @ ''&t='' @ millis t) (headers c [] True) 30)) (\<lambda>res.
    act_bind (decode_packets env (rs_text res)) (\<lambda>packets.
      if list_ex (\<lambda>p. pk_type p = ''error'') packets then act_lift (Inl RuntimeError) else act_ret packets)))"

definition socketio_post :: "'w surroundings \<Rightarrow> client \<Rightarrow> string \<Rightarrow> string \<Rightarrow> ('w, unit) hact" where
  "socketio_post env c url payload =
    act_bind (time_time env) (\<lambda>t.
    act_bind (send env (session c) \<lparr>rq_method = ''POST'', rq_url = url @ ''&t='' @ millis t,
        rq_headers = headers c [(''Content-Type'', ''text/plain;charset=UTF-8'')] True, rq_body = RawBody (utf8 env payload),
        rq_timeout = 30\<rparr>) (\<lambda>_. act_ret ()))"

text \<open>The waiting loop: poll until a packet that is wanted arrives or the deadline has passed.\<close>

partial_function (option) await_packet ::
  "'w surroundings \<Rightarrow> client \<Rightarrow> string \<Rightarrow> (packet \<Rightarrow> bool) \<Rightarrow> real \<Rightarrow> 'w helper \<Rightarrow> (jval res \<times> 'w helper) option" where
  "await_packet env c url wanted deadline s =
    act_bind (time_time env) (\<lambda>t s.
      if t < deadline then
        act_bind (socketio_poll env c url) (\<lambda>packets s.
          case find wanted packets of
            Some p \<Rightarrow> act_ret (case pk_args p of Some v \<Rightarrow> v | None \<Rightarrow> JList []) s
          | None \<Rightarrow> await_packet env c url wanted deadline s) s
      else act_lift (Inl RuntimeError) s) s"

definition socketio_request :: "'w surroundings \<Rightarrow> client \<Rightarrow> string \<Rightarrow> string \<Rightarrow> (packet \<Rightarrow> bool) \<Rightarrow> ('w, jval) hact" where
  "socketio_request env c project_id payload wanted =
    act_bind (socketio_open env c project_id) (\<lambda>session_id.
    (let url = socketio_base c project_id session_id in
    act_bind (socketio_poll env c url) (\<lambda>_.
    act_bind (socketio_post env c url payload) (\<lambda>_.
    act_bind (time_time env) (\<lambda>t. await_packet env c url wanted (t + 30))))))"

definition event_payload :: "'w surroundings \<Rightarrow> string \<Rightarrow> jval list \<Rightarrow> string" where
  "event_payload env event_name args = json_dumps env (JObj [(''name'', JStr event_name), (''args'', JList args)])"

definition socketio_request_event :: "'w surroundings \<Rightarrow> client \<Rightarrow> string \<Rightarrow> string \<Rightarrow> jval list \<Rightarrow> string \<Rightarrow> ('w, jval) hact" where
  "socketio_request_event env c project_id event_name args response_event =
    socketio_request env c project_id (''5:::'' @ event_payload env event_name args)
      (\<lambda>p. pk_type p = ''event'' \<and> pk_name p = JStr response_event)"

definition socketio_request_ack :: "'w surroundings \<Rightarrow> client \<Rightarrow> string \<Rightarrow> string \<Rightarrow> jval list \<Rightarrow> ('w, jval) hact" where
  "socketio_request_ack env c project_id event_name args =
    socketio_request env c project_id (''5:1+::'' @ event_payload env event_name args)
      (\<lambda>p. pk_type p = ''ack'' \<and> pk_ackId p = Some ''1'')"

definition join_project :: "'w surroundings \<Rightarrow> client \<Rightarrow> string \<Rightarrow> ('w, jval) hact" where
  "join_project env c project_id =
    act_bind (socketio_request_event env c project_id ''joinProject'' [JObj [(''project_id'', JStr project_id)]] ''joinProjectResponse'') (\<lambda>args.
    if \<not> truthy args then act_lift (Inl RuntimeError)
    else act_lift (res_bind (jindex args 0) (\<lambda>a. jfield a ''project'')))"

definition doc_text :: "jval \<Rightarrow> string res" where
  "doc_text v = (case v of JList xs \<Rightarrow>
      res_bind (res_map (\<lambda>x. case x of JStr s \<Rightarrow> Inr s | _ \<Rightarrow> Inl TypeError) xs) (\<lambda>ls. Inr (str_join [nl] ls))
    | _ \<Rightarrow> Inl RuntimeError)"

definition join_doc :: "'w surroundings \<Rightarrow> client \<Rightarrow> jval \<Rightarrow> ('w, string) hact" where
  "join_doc env c doc_id =
    act_bind (socketio_request_ack env c (current_project_id c) ''joinDoc'' [doc_id, JObj [(''encodeRanges'', JBool True)]]) (\<lambda>args.
    act_lift (res_bind (jlen args) (\<lambda>n. if n < 2 then Inl RuntimeError else res_bind (jindex args 0) doc_text)))"

section \<open>Changing a project\<close>

definition add_folder :: "'w surroundings \<Rightarrow> client \<Rightarrow> string \<Rightarrow> jval \<Rightarrow> string \<Rightarrow> ('w, jval) hact" where
  "add_folder env c project_id parent_folder_id folder_name =
    act_bind (send env (session c) (post_json c (''project/'' @ project_id @ ''/folder'')
        [(''name'', JStr folder_name), (''parent_folder_id'', parent_folder_id)])) (\<lambda>res.
      act_lift (json_loads env (rs_text res)))"

definition add_doc :: "'w surroundings \<Rightarrow> client \<Rightarrow> string \<Rightarrow> jval \<Rightarrow> string \<Rightarrow> ('w, jval) hact" where
  "add_doc env c project_id parent_folder_id filename =
    act_bind (send env (session c) (post_json c (''project/'' @ project_id @ ''/doc'')
        [(''parent_folder_id'', parent_folder_id), (''name'', JStr filename)])) (\<lambda>res.
      act_lift (json_loads env (rs_text res)))"

definition upload_request :: "'w surroundings \<Rightarrow> client \<Rightarrow> string \<Rightarrow> jval \<Rightarrow> string \<Rightarrow> string \<Rightarrow> request" where
  "upload_request env c project_id parent_folder_id filename content =
    (let mime_type = (case guess_type env filename of Some m \<Rightarrow> if m = [] then ''text/plain'' else m | None \<Rightarrow> ''text/plain'')
     in \<lparr>rq_method = ''POST'', rq_url = base_url c @ ''project/'' @ project_id @ ''/upload?folder_id='' @ fmt env parent_folder_id,
         rq_headers = csrf_headers c,
         rq_body = FormBody [(''targetFolderId'', fmt env parent_folder_id), (''name'', filename), (''type'', mime_type)]
           [(''qqfile'', filename, content)],
         rq_timeout = 120\<rparr>)"

definition upload_file :: "'w surroundings \<Rightarrow> client \<Rightarrow> string \<Rightarrow> jval \<Rightarrow> string \<Rightarrow> string \<Rightarrow> ('w, jval) hact" where
  "upload_file env c project_id parent_folder_id filename content =
    act_bind (send env (session c) (upload_request env c project_id parent_folder_id filename content)) (\<lambda>res.
      act_lift (json_loads env (rs_text res)))"

definition delete_entity :: "'w surroundings \<Rightarrow> client \<Rightarrow> string \<Rightarrow> string \<Rightarrow> string \<Rightarrow> ('w, unit) hact" where
  "delete_entity env c project_id entity_type entity_id =
    act_bind (send env (session c) \<lparr>rq_method = ''DELETE'',
        rq_url = base_url c @ ''project/'' @ project_id @ ''/'' @ entity_type @ ''/'' @ entity_id,
        rq_headers = csrf_headers c, rq_body = NoBody, rq_timeout = 30\<rparr>) (\<lambda>_. act_ret ())"

definition download_request :: "'w surroundings \<Rightarrow> client \<Rightarrow> string \<Rightarrow> jval \<Rightarrow> request" where
  "download_request env c project_id file_id =
    get_request (base_url c @ ''project/'' @ project_id @ ''/file/'' @ fmt env file_id) (headers c [] False) 120"

definition download_file :: "'w surroundings \<Rightarrow> client \<Rightarrow> string \<Rightarrow> jval \<Rightarrow> ('w, string) hact" where
  "download_file env c project_id file_id =
    act_bind (send env (session c) (download_request env c project_id file_id)) (\<lambda>res. act_ret (rs_content res))"

end
