(* ===== verification/LocalTree.thy ===== *)
theory LocalTree
  imports OverleafClient
begin

text \<open>
  The local side of \<^verbatim>\<open>tools/overleaf_push/overleaf_push.py\<close>: the file tree (\<^verbatim>\<open>pathlib\<close>, \<^verbatim>\<open>os.walk\<close>,
  \<^verbatim>\<open>glob\<close>), the expansion of a rule, and the plan of a run. An absolute path is the list of its components. The tree has
  no symbolic links.
\<close>

section \<open>The file tree\<close>

fun fs_lookup :: "fsnode \<Rightarrow> string list \<Rightarrow> fsnode option" where
  "fs_lookup n [] = Some n"
| "fs_lookup (FDir es) (p # ps) = (case map_of es p of None \<Rightarrow> None | Some n \<Rightarrow> fs_lookup n ps)"
| "fs_lookup (FFile _) (p # ps) = None"

definition resolve_parts :: "string list \<Rightarrow> string list" where
  "resolve_parts ps = norm_comps True [] ps"

definition fs_at :: "fsnode \<Rightarrow> string list \<Rightarrow> fsnode option" where
  "fs_at d ps = fs_lookup d (resolve_parts ps)"

definition fs_file :: "fsnode \<Rightarrow> string list \<Rightarrow> string option" where
  "fs_file d ps = (case fs_at d ps of Some (FFile c) \<Rightarrow> Some c | _ \<Rightarrow> None)"

definition fs_dir :: "fsnode \<Rightarrow> string list \<Rightarrow> (string \<times> fsnode) list option" where
  "fs_dir d ps = (case fs_at d ps of Some (FDir es) \<Rightarrow> Some es | _ \<Rightarrow> None)"

definition is_fdir :: "fsnode \<Rightarrow> bool" where
  "is_fdir n = (case n of FDir _ \<Rightarrow> True | FFile _ \<Rightarrow> False)"

text \<open>\<^verbatim>\<open>write_text\<close>; with \<open>mk\<close> after \<^verbatim>\<open>parent.mkdir(parents=True, exist_ok=True)\<close>.\<close>

fun fs_write :: "bool \<Rightarrow> string list \<Rightarrow> string \<Rightarrow> fsnode option \<Rightarrow> fsnode res" where
  "fs_write mk [] c n = (case n of Some (FDir _) \<Rightarrow> Inl OSError | _ \<Rightarrow> Inr (FFile c))"
| "fs_write mk (p # ps) c n =
    (case n of
       Some (FDir es) \<Rightarrow> res_bind (fs_write mk ps c (map_of es p)) (\<lambda>m. Inr (FDir (dict_set p m es)))
     | Some (FFile _) \<Rightarrow> Inl OSError
     | None \<Rightarrow> if mk then res_bind (fs_write mk ps c None) (\<lambda>m. Inr (FDir [(p, m)])) else Inl FileNotFoundError)"

definition write_text :: "bool \<Rightarrow> string list \<Rightarrow> string \<Rightarrow> ('w, unit) hact" where
  "write_text mk path c s =
    (case fs_write mk (resolve_parts path) c (Some (disk s)) of Inl e \<Rightarrow> Some (Inl e, s) | Inr d \<Rightarrow> Some (Inr (), s\<lparr>disk := d\<rparr>))"

definition posix :: "string list \<Rightarrow> string" where
  "posix ps = ''/'' @ str_join ''/'' ps"

definition relative_to :: "string list \<Rightarrow> string list \<Rightarrow> string list option" where
  "relative_to base ps = (if take (length base) ps = base then Some (drop (length base) ps) else None)"

definition rel_posix :: "string list \<Rightarrow> string" where
  "rel_posix ps = (if ps = [] then ''.'' else str_join ''/'' ps)"

definition path_over :: "string list \<Rightarrow> string \<Rightarrow> string list" where
  "path_over repo_root text = (if starts_with ''/'' text then path_parts text else repo_root @ path_parts text)"

definition resolve_local_path :: "'w surroundings \<Rightarrow> string list \<Rightarrow> string \<Rightarrow> string list" where
  "resolve_local_path env repo_root text =
    (let path = expanduser env text in
     if starts_with ''/'' path then path_parts path else resolve_parts (path_over repo_root path))"

section \<open>Walking\<close>

lemma entry_smaller: "(n, x) \<in> set es \<Longrightarrow> size x < size (FDir es)"
proof -
  assume "(n, x) \<in> set es"
  then have "size_prod (\<lambda>_. 0) size (n, x) \<le> size_list (size_prod (\<lambda>_. 0) size) es"
    by (rule size_list_estimation') simp
  then show ?thesis by simp
qed

function walk_files :: "string list \<Rightarrow> fsnode \<Rightarrow> string list list" where
  "walk_files current_root (FFile _) = []"
| "walk_files current_root (FDir es) =
    map (\<lambda>(name, _). current_root @ [name]) (filter (\<lambda>(_, x). \<not> is_fdir x) es)
    @ concat (map (\<lambda>(d, x). walk_files (current_root @ [d]) x) (filter (\<lambda>(d, x). is_fdir x \<and> d \<noteq> ''.git'') es))"
  by pat_completeness auto
termination
  by (relation "measure (\<lambda>(_, n). size n)") (auto intro: entry_smaller simp del: fsnode.size)

definition iter_local_files :: "fsnode \<Rightarrow> string list \<Rightarrow> string list list" where
  "iter_local_files d from_dir = (case fs_at d from_dir of None \<Rightarrow> [] | Some n \<Rightarrow> walk_files from_dir n)"

definition path_suffix :: "string \<Rightarrow> string" where
  "path_suffix name =
    (let ext = takeWhile (\<lambda>c. c \<noteq> CHR ''.'') (rev name)
     in if ext = [] \<or> length name \<le> Suc (length ext) then [] else CHR ''.'' # rev ext)"

definition iter_local_files_by_suffix :: "fsnode \<Rightarrow> string list \<Rightarrow> string \<Rightarrow> string list list" where
  "iter_local_files_by_suffix d from_dir suffix =
    filter (\<lambda>p. str_lower (path_suffix (last p)) = str_lower suffix) (iter_local_files d from_dir)"

section \<open>Globbing\<close>

definition hidden :: "string \<Rightarrow> bool" where
  "hidden name \<longleftrightarrow> name \<noteq> [] \<and> hd name = CHR ''.''"

function rlist :: "bool \<Rightarrow> fsnode \<Rightarrow> string list list" where
  "rlist dironly (FFile _) = []"
| "rlist dironly (FDir es) =
    concat (map (\<lambda>(x, n). [x] # map (\<lambda>y. x # y) (rlist dironly n)) (filter (\<lambda>(x, n). \<not> hidden x \<and> (dironly \<longrightarrow> is_fdir n)) es))"
  by pat_completeness auto
termination
  by (relation "measure (\<lambda>(_, n). size n)") (auto intro: entry_smaller simp del: fsnode.size)

definition glob_dir :: "fsnode \<Rightarrow> bool \<Rightarrow> string \<Rightarrow> string list \<Rightarrow> string list list" where
  "glob_dir d dironly base dirname =
    (if \<not> has_glob_magic base then (if fs_at d (dirname @ [base]) = None then [] else [[base]])
     else (case fs_dir d dirname of
             None \<Rightarrow> []
           | Some es \<Rightarrow>
               if base = ''**'' then [] # rlist dironly (FDir es)
               else map (\<lambda>(x, _). [x])
                 (filter (\<lambda>(x, n). (dironly \<longrightarrow> is_fdir n) \<and> (hidden base \<or> \<not> hidden x) \<and> fnmatchcase x base) es)))"

text \<open>The components of the pattern come last one first.\<close>

fun glob_rev :: "fsnode \<Rightarrow> bool \<Rightarrow> string list \<Rightarrow> string list list" where
  "glob_rev d dironly [] = [[]]"
| "glob_rev d dironly (base # up) =
    (if \<not> list_ex has_glob_magic (base # up) then (if fs_at d (rev (base # up)) = None then [] else [rev (base # up)])
     else concat (map (\<lambda>dirname. map (\<lambda>n. dirname @ n) (glob_dir d dironly base dirname))
            (if list_ex has_glob_magic up then glob_rev d True up else [rev up])))"

definition glob_glob :: "fsnode \<Rightarrow> string list \<Rightarrow> string list list" where
  "glob_glob d pattern = glob_rev d False (rev pattern)"

section \<open>Expanding rules\<close>

record resolved_rule =
  rr_rule :: sync_rule
  rr_entries :: "(string list \<times> string) list"
  scope_prefix :: string

definition entry_if :: "sync_rule \<Rightarrow> string \<Rightarrow> string list \<Rightarrow> string \<Rightarrow> (string list \<times> string) list" where
  "entry_if rule target_dir local_path rel =
    (if match_patterns rel [] (sr_exclude rule) then [(local_path, join_remote [target_dir, rel])] else [])"

definition expand_rule :: "'w surroundings \<Rightarrow> fsnode \<Rightarrow> sync_rule \<Rightarrow> string list \<Rightarrow> resolved_rule" where
  "expand_rule env d rule repo_root =
    (let source_text = sr_source rule;
         target_dir = normalize_remote_path (sr_target_dir rule);
         source_path = resolve_local_path env repo_root source_text;
         entries =
           (if has_glob_magic source_text then
              (let base_dir = resolve_local_path env repo_root (glob_base source_text);
                   matches = sort (glob_glob d (resolve_parts (path_over repo_root source_text)))
               in concat (map (\<lambda>local_path.
                    if fs_file d local_path = None then []
                    else entry_if rule target_dir local_path
                      (case relative_to base_dir local_path of Some rel \<Rightarrow> rel_posix rel | None \<Rightarrow> last local_path)) matches))
            else if fs_dir d source_path \<noteq> None then
              concat (map (\<lambda>local_path. entry_if rule target_dir local_path (rel_posix (drop (length source_path) local_path)))
                (iter_local_files d source_path))
            else if fs_file d source_path \<noteq> None then entry_if rule target_dir source_path (last source_path)
            else [])
     in \<lparr>rr_rule = rule, rr_entries = entries, scope_prefix = target_dir\<rparr>)"

section \<open>The plan of a run\<close>

record plan =
  planned :: "(string, string list) dict"
  managed_scopes :: "string list"
  missing_local :: "string list"

definition plan_entry :: "string list \<times> string \<Rightarrow> (string, string list) dict \<Rightarrow> (string, string list) dict res" where
  "plan_entry entry pl =
    (let (local_path, remote_path) = entry in
     case dict_get pl remote_path of
       Some previous \<Rightarrow> if previous \<noteq> local_path then Inl RuntimeError else Inr (dict_set remote_path local_path pl)
     | None \<Rightarrow> Inr (dict_set remote_path local_path pl))"

definition plan_rule :: "resolved_rule \<Rightarrow> plan \<Rightarrow> plan res" where
  "plan_rule resolved p =
    (let p = p\<lparr>managed_scopes := managed_scopes p @ [scope_prefix resolved]\<rparr> in
     if rr_entries resolved = [] then Inr (p\<lparr>missing_local := missing_local p @ [sr_source (rr_rule resolved)]\<rparr>)
     else res_bind (res_fold plan_entry (rr_entries resolved) (planned p)) (\<lambda>pl. Inr (p\<lparr>planned := pl\<rparr>)))"

definition empty_plan :: plan where
  "empty_plan = \<lparr>planned = [], managed_scopes = [], missing_local = []\<rparr>"

definition plan_rules :: "resolved_rule list \<Rightarrow> plan res" where
  "plan_rules resolved_rules = res_fold plan_rule resolved_rules empty_plan"

text \<open>The files of the project that lie in the scope of a rule and that no rule writes.\<close>

definition in_scope :: "string \<Rightarrow> string \<Rightarrow> bool" where
  "in_scope scope remote_path =
    (let scope = normalize_remote_path scope in scope = [] \<or> remote_path = scope \<or> starts_with (scope @ ''/'') remote_path)"

definition warn_unmanaged_remote_files :: "string list \<Rightarrow> string list \<Rightarrow> string list \<Rightarrow> string list" where
  "warn_unmanaged_remote_files remote_paths scopes expected_paths =
    fold (\<lambda>remote_path. fold (\<lambda>scope warned.
        if in_scope scope remote_path \<and> remote_path \<notin> set expected_paths \<and> remote_path \<notin> set warned
        then warned @ [remote_path] else warned) scopes)
      (sort remote_paths) []"

end
