(* ===== verification/OverleafSync.thy ===== *)
theory OverleafSync
  imports LocalTree
begin

text \<open>
  The remote side of \<^verbatim>\<open>tools/overleaf_push/overleaf_push.py\<close>: the project tree as dictionaries of folders and files,
  the transfer of one file, and \<^verbatim>\<open>run_sync\<close>.
\<close>

section \<open>The project tree\<close>

record remote_entry =
  re_kind :: string
  re_entity :: jval

type_synonym folder_map = "(string, jval) dict"
type_synonym file_map = "(string, remote_entry) dict"

text \<open>\<^verbatim>\<open>for x in v or []\<close>, where the body starts with \<^verbatim>\<open>x.get\<close>; and \<^verbatim>\<open>join_remote(rel_dir, x.get("name", ""))\<close>.\<close>

definition items_or_empty :: "jval \<Rightarrow> jval list res" where
  "items_or_empty v = (if truthy v then jitems v else Inr [])"

definition child_path :: "string \<Rightarrow> jval \<Rightarrow> string res" where
  "child_path rel_dir x =
    res_bind (jget_or x ''name'' (JStr [])) (\<lambda>name.
      case name of JStr s \<Rightarrow> Inr (join_remote [rel_dir, s]) | _ \<Rightarrow> Inl AttributeError)"

definition add_entities :: "string \<Rightarrow> string \<Rightarrow> string \<Rightarrow> jval \<Rightarrow> file_map \<Rightarrow> file_map res" where
  "add_entities field kind rel_dir folder fs =
    res_bind (jget_or folder field (JList [])) (\<lambda>v. res_bind (items_or_empty v) (\<lambda>xs.
      res_fold (\<lambda>x fs. res_bind (child_path rel_dir x) (\<lambda>p. Inr (dict_set p \<lparr>re_kind = kind, re_entity = x\<rparr> fs))) xs fs))"

definition subfolders :: "jval \<Rightarrow> jval list res" where
  "subfolders folder = res_bind (jget_or folder ''folders'' (JList [])) items_or_empty"

lemma res_bind_cong [fundef_cong]: "r = r' \<Longrightarrow> (\<And>x. r' = Inr x \<Longrightarrow> f x = g x) \<Longrightarrow> res_bind r f = res_bind r' g"
  by (cases r') auto

lemma res_fold_cong [fundef_cong]:
  "xs = ys \<Longrightarrow> s = t \<Longrightarrow> (\<And>x u. x \<in> set ys \<Longrightarrow> f x u = g x u) \<Longrightarrow> res_fold f xs s = res_fold g ys t"
proof (induction ys arbitrary: xs s t)
  case (Cons y ys)
  have "f y t = g y t" using Cons.prems(3) by simp
  moreover have "res_fold f ys u = res_fold g ys u" for u by (rule Cons.IH[OF refl refl]) (simp add: Cons.prems(3))
  then have "res_fold f ys = res_fold g ys" by (rule ext)
  ultimately show ?case using Cons.prems(1,2) by simp
qed simp

lemma value_smaller: "dict_get d k = Some v \<Longrightarrow> size v < size (JObj d)"
proof -
  assume "dict_get d k = Some v"
  then have "(k, v) \<in> set d" by (rule dict_get_Some_in)
  then have "size_prod (\<lambda>_. 0) size (k, v) \<le> size_list (size_prod (\<lambda>_. 0) size) d"
    by (rule size_list_estimation') simp
  then show ?thesis by simp
qed

lemma subfolder_smaller: "subfolders folder = Inr kids \<Longrightarrow> x \<in> set kids \<Longrightarrow> size x < size folder"
proof -
  assume kids: "subfolders folder = Inr kids" and x: "x \<in> set kids"
  then obtain d where d: "folder = JObj d"
    by (cases folder) (auto simp: subfolders_def jget_or_def)
  have "dict_get d ''folders'' = Some (JList kids)"
    using kids x unfolding subfolders_def d
    by (auto simp: jget_or_def dict_get_or_def items_or_empty_def jitems_def truthy_def split: option.splits jval.splits if_splits)
  then have "size (JList kids) < size folder" unfolding d by (rule value_smaller)
  moreover have "size x \<le> size_list size kids" using x by (rule size_list_estimation') simp
  ultimately show ?thesis by simp
qed

function walk_folder :: "jval \<Rightarrow> string \<Rightarrow> folder_map \<times> file_map \<Rightarrow> (folder_map \<times> file_map) res" where
  "walk_folder folder rel_dir st =
    res_bind (subfolders folder) (\<lambda>kids.
    res_bind (res_fold (\<lambda>child st. case child_path rel_dir child of Inl e \<Rightarrow> Inl e | Inr p \<Rightarrow> walk_folder child p st) kids
      (dict_set rel_dir folder (fst st), snd st)) (\<lambda>(folders, fs).
    res_bind (add_entities ''docs'' ''doc'' rel_dir folder fs) (\<lambda>fs.
    res_bind (add_entities ''fileRefs'' ''file'' rel_dir folder fs) (\<lambda>fs. Inr (folders, fs)))))"
  by pat_completeness auto
termination
  by (relation "measure (\<lambda>(folder, _). size folder)") (auto dest: subfolder_smaller)

declare walk_folder.simps [simp del]

definition build_remote_tree :: "jval \<Rightarrow> (folder_map \<times> file_map) res" where
  "build_remote_tree project =
    res_bind (jget_or project ''rootFolder'' JNull) (\<lambda>root_folders.
    if \<not> truthy root_folders then Inl RuntimeError
    else res_bind (jindex root_folders 0) (\<lambda>f. walk_folder f [] ([], [])))"

section \<open>Folders\<close>

definition total_length :: "string list \<Rightarrow> nat" where
  "total_length cs = sum_list (map (\<lambda>c. Suc (length c)) cs)"

lemma length_join: "length (str_join [x] cs) = total_length cs - 1"
proof (induction "[x]" cs rule: str_join.induct)
  case (3 p q ps)
  then show ?case by (simp add: total_length_def)
qed (simp_all add: total_length_def)

lemma total_length_norm: "total_length (norm_comps r kept cs) \<le> total_length kept + total_length cs"
proof (induction r kept cs rule: norm_comps.induct)
  case (2 r kept part parts)
  have "total_length (tl kept) \<le> total_length kept" by (cases kept) (simp_all add: total_length_def)
  then show ?case using 2 by (auto simp: total_length_def split: if_splits)
qed (simp add: total_length_def rev_map[symmetric] sum_list_rev)

lemma total_length_split: "total_length (split_on c s) = Suc (length s)"
  unfolding split_on_def
proof (induction s)
  case (Cons a s)
  then show ?case by (cases "split_by (\<lambda>x. x = c) s") (auto simp: total_length_def)
qed (simp add: total_length_def)

lemma normalize_length: "length (normalize_remote_path p) \<le> length p"
proof -
  let ?q = "str_strip (slashes p)"
  have "length (rstrip_by P s) \<le> length s" for P s
    unfolding rstrip_by_def using length_dropWhile_le[of P "rev s"] by simp
  then have "length ?q \<le> length (dropWhile is_space (slashes p))" unfolding str_strip_def strip_by_def .
  also have "\<dots> \<le> length p" using length_dropWhile_le[of is_space "slashes p"] by (simp add: slashes_def)
  finally have q: "length ?q \<le> length p" .
  obtain r where r: "normalize_remote_path p = str_join ''/'' (norm_comps r [] (split_on (CHR ''/'') ?q))"
    using normalize_form by blast
  have "total_length (norm_comps r [] (split_on (CHR ''/'') ?q)) \<le> Suc (length ?q)"
    using total_length_norm[of r "[]" "split_on (CHR ''/'') ?q"] total_length_split[of "CHR ''/''" ?q]
    by (simp add: total_length_def)
  then show ?thesis using q unfolding r length_join by linarith
qed

lemma basename_nonempty:
  assumes "normalize_remote_path p \<noteq> []"
  shows "posix_basename (normalize_remote_path p) \<noteq> []"
proof -
  obtain cs where cs: "normalize_remote_path p = str_join ''/'' cs" "clean_comps cs" by (rule normalize_clean)
  have ne: "cs \<noteq> []" using assms cs by auto
  have plain: "list_all plain_comp cs" using cs(2) by (simp only: clean_comps_def)
  have "posix_basename (normalize_remote_path p) = last cs"
    unfolding posix_basename_def cs(1) split_clean_join[OF plain ne] ..
  moreover have "plain_comp (last cs)" using plain ne by (simp add: list_all_iff)
  ultimately show ?thesis by (simp add: plain_comp_def)
qed

lemma dirname_shorter: "posix_basename p \<noteq> [] \<Longrightarrow> p \<noteq> [] \<Longrightarrow> length (posix_dirname p) < length p"
proof -
  assume b: "posix_basename p \<noteq> []" and p: "p \<noteq> []"
  let ?head = "take (length p - length (posix_basename p)) p"
  have "length ?head < length p" using b p by simp
  moreover have "length (rstrip_by is_slash s) \<le> length s" for s
    unfolding rstrip_by_def using length_dropWhile_le[of is_slash "rev s"] by simp
  then have "length (if b then rstrip_by is_slash ?head else ?head) \<le> length ?head" for b
    by (cases b) (simp_all only: if_True if_False le_refl)
  then have "length (posix_dirname p) \<le> length ?head" unfolding posix_dirname_def Let_def .
  ultimately show ?thesis by linarith
qed

text \<open>Missing folders are created from the top down.\<close>

function resolve_remote_folder_id ::
  "'w surroundings \<Rightarrow> client \<Rightarrow> string \<Rightarrow> folder_map \<Rightarrow> string \<Rightarrow> ('w, jval \<times> folder_map) hact" where
  "resolve_remote_folder_id env c project_id folders remote_path =
    (let remote_dir = normalize_remote_path remote_path in
     case dict_get folders remote_dir of
       Some folder \<Rightarrow> act_lift (res_bind (jfield folder ''_id'') (\<lambda>i. Inr (i, folders)))
     | None \<Rightarrow>
         if remote_dir = [] then act_lift (Inl RuntimeError)
         else
           act_bind (resolve_remote_folder_id env c project_id folders (normalize_remote_path (posix_dirname remote_dir)))
             (\<lambda>(parent_id, folders).
           act_bind (add_folder env c project_id parent_id (posix_basename remote_dir)) (\<lambda>folder.
           act_lift (res_bind (jfield folder ''_id'') (\<lambda>i. Inr (i, dict_set remote_dir folder folders))))))"
  by pat_completeness auto
termination
proof (relation "measure (\<lambda>(_, _, _, _, d). length (normalize_remote_path d))")
  fix env :: "'w surroundings" and c :: client and project_id and folders :: folder_map and p d
  assume d: "d = normalize_remote_path p" "d \<noteq> []"
  have "length (normalize_remote_path (normalize_remote_path (posix_dirname d))) \<le> length (posix_dirname d)"
    using normalize_length le_trans by blast
  also have "\<dots> < length d" using d basename_nonempty dirname_shorter by blast
  finally show "((env, c, project_id, folders, normalize_remote_path (posix_dirname d)), env, c, project_id, folders, p)
      \<in> measure (\<lambda>(_, _, _, _, d). length (normalize_remote_path d))"
    using d by simp
qed simp

declare resolve_remote_folder_id.simps [simp del]

section \<open>One file\<close>

record sync_report =
  changed :: "string list"
  uploaded :: "string list"
  missing :: "string list"
  same :: "string list"

definition remote_entry_bytes :: "'w surroundings \<Rightarrow> client \<Rightarrow> string \<Rightarrow> remote_entry \<Rightarrow> ('w, string) hact" where
  "remote_entry_bytes env c project_id entry =
    (if re_kind entry = ''file'' then act_bind (act_lift (jfield (re_entity entry) ''_id'')) (download_file env c project_id)
     else if re_kind entry = ''doc'' then
       act_bind (act_lift (jfield (re_entity entry) ''_id'')) (\<lambda>i.
       act_bind (join_doc env c i) (\<lambda>content. act_ret (utf8 env content)))
     else act_lift (Inl RuntimeError))"

definition read_bytes :: "string list \<Rightarrow> ('w, string) hact" where
  "read_bytes path s = Some (case fs_at (disk s) path of
      Some (FFile c) \<Rightarrow> Inr c | Some (FDir _) \<Rightarrow> Inl OSError | None \<Rightarrow> Inl FileNotFoundError, s)"

definition arrow_line :: "string \<Rightarrow> string list \<Rightarrow> string \<Rightarrow> log_line" where
  "arrow_line tag local_path remote_path = Info (''['' @ tag @ ''] '' @ posix local_path @ '' -> '' @ remote_path)"

text \<open>\<^verbatim>\<open>sync_entry\<close> after the local file has been read; \<open>send_new\<close> and \<open>send_changed\<close> are its two transfers.\<close>

definition send_new ::
  "'w surroundings \<Rightarrow> client \<Rightarrow> string \<Rightarrow> folder_map \<Rightarrow> string list \<Rightarrow> string \<Rightarrow> string \<Rightarrow> ('w, folder_map) hact" where
  "send_new env c project_id folders local_path remote_path local_bytes =
    act_bind (resolve_remote_folder_id env c project_id folders (normalize_remote_path (posix_dirname remote_path)))
      (\<lambda>(parent_id, folders).
    act_bind (if local_bytes = [] then add_doc env c project_id parent_id (posix_basename remote_path)
              else upload_file env c project_id parent_id (posix_basename remote_path) local_bytes) (\<lambda>_.
    act_bind (log_line (arrow_line ''upload'' local_path remote_path)) (\<lambda>_. act_ret folders)))"

definition send_changed ::
  "'w surroundings \<Rightarrow> client \<Rightarrow> string \<Rightarrow> folder_map \<Rightarrow> string list \<Rightarrow> string \<Rightarrow> string \<Rightarrow> ('w, folder_map) hact" where
  "send_changed env c project_id folders local_path remote_path local_bytes =
    act_bind (resolve_remote_folder_id env c project_id folders (normalize_remote_path (posix_dirname remote_path)))
      (\<lambda>(parent_id, folders).
    act_bind (upload_file env c project_id parent_id (posix_basename remote_path) local_bytes) (\<lambda>_.
    act_bind (log_line (arrow_line ''replace'' local_path remote_path)) (\<lambda>_. act_ret folders)))"

definition transfer ::
  "'w surroundings \<Rightarrow> client \<Rightarrow> string \<Rightarrow> file_map \<Rightarrow> bool \<Rightarrow> string \<Rightarrow> string list \<Rightarrow> string \<Rightarrow> folder_map \<times> sync_report
    \<Rightarrow> ('w, folder_map \<times> sync_report) hact" where
  "transfer env c project_id remote_files dry_run remote_path local_path local_bytes st =
    (let (folders, report) = st in
     case dict_get remote_files remote_path of
       None \<Rightarrow>
         (let report = report\<lparr>uploaded := uploaded report @ [remote_path]\<rparr> in
          if dry_run then act_bind (log_line (arrow_line ''new'' local_path remote_path)) (\<lambda>_. act_ret (folders, report))
          else act_bind (send_new env c project_id folders local_path remote_path local_bytes) (\<lambda>folders. act_ret (folders, report)))
     | Some entry \<Rightarrow>
         act_bind (remote_entry_bytes env c project_id entry) (\<lambda>remote_bytes.
         if remote_bytes = local_bytes then
           act_bind (log_line (Info (''[same] '' @ remote_path))) (\<lambda>_. act_ret (folders, report\<lparr>same := same report @ [remote_path]\<rparr>))
         else if re_kind entry \<noteq> ''file'' then
           act_bind (log_line (Warning (''Skip replace for remote doc '' @ remote_path @ ''; only file replacement is implemented.'')))
             (\<lambda>_. act_ret (folders, report))
         else
           (let report = report\<lparr>changed := changed report @ [remote_path]\<rparr> in
            if dry_run then act_bind (log_line (arrow_line ''replace'' local_path remote_path)) (\<lambda>_. act_ret (folders, report))
            else act_bind (send_changed env c project_id folders local_path remote_path local_bytes)
              (\<lambda>folders. act_ret (folders, report)))))"

definition sync_entry ::
  "'w surroundings \<Rightarrow> client \<Rightarrow> string \<Rightarrow> file_map \<Rightarrow> bool \<Rightarrow> string \<times> string list \<Rightarrow> folder_map \<times> sync_report
    \<Rightarrow> ('w, folder_map \<times> sync_report) hact" where
  "sync_entry env c project_id remote_files dry_run item st =
    (let (remote_path, local_path) = item in
     act_bind (read_bytes local_path) (\<lambda>local_bytes.
       transfer env c project_id remote_files dry_run remote_path local_path local_bytes st))"

section \<open>A run\<close>

definition sync_planned ::
  "'w surroundings \<Rightarrow> client \<Rightarrow> string \<Rightarrow> file_map \<Rightarrow> bool \<Rightarrow> (string, string list) dict \<Rightarrow> folder_map \<times> sync_report
    \<Rightarrow> ('w, folder_map \<times> sync_report) hact" where
  "sync_planned env c project_id remote_files dry_run pl =
    act_fold (sync_entry env c project_id remote_files dry_run) (sort_key fst pl)"

definition log_all :: "log_line list \<Rightarrow> ('w, unit) hact" where
  "log_all ls = act_fold (\<lambda>l _. log_line l) ls ()"

definition print_sync_report :: "sync_report \<Rightarrow> ('w, unit) hact" where
  "print_sync_report report =
    log_all ([Warning (''Summary: changed='' @ str_nat (length (changed report)) @ '' uploaded='' @ str_nat (length (uploaded report))
        @ '' missing_local='' @ str_nat (length (missing report)) @ '' same='' @ str_nat (length (same report)))]
      @ map (\<lambda>p. Warning (''[summary-changed] '' @ p)) (changed report)
      @ map (\<lambda>p. Warning (''[summary-uploaded] '' @ p)) (uploaded report)
      @ map (\<lambda>p. Warning (''[summary-missing-local] '' @ p)) (missing report))"

record account_config =
  server_url :: string
  ac_cookie :: string
  project_id :: string
  project_name :: string

definition project_key :: "jval \<Rightarrow> jval res" where
  "project_key project = res_bind (jget_or project ''id'' JNull) (\<lambda>i. if truthy i then Inr i else jget_or project ''_id'' JNull)"

text \<open>The common start of \<^verbatim>\<open>run_sync\<close> and \<^verbatim>\<open>autogen_rules\<close>: log in, find the project, read its tree.\<close>

definition open_project :: "'w surroundings \<Rightarrow> account_config \<Rightarrow> string \<Rightarrow> ('w, client \<times> string \<times> folder_map \<times> file_map) hact" where
  "open_project env account note =
    act_bind (OverleafClient env (server_url account) (ac_cookie account)) (\<lambda>c.
    act_bind (login env c) (\<lambda>c.
    act_bind (find_project env c (JStr (project_id account)) (JStr (project_name account))) (\<lambda>project.
    act_bind (act_lift (project_key project)) (\<lambda>key.
    if \<not> truthy key then act_lift (Inl RuntimeError)
    else
      (let pid = fmt env key; c = c\<lparr>current_project_id := pid\<rparr> in
       act_bind (log_line (Info (note @ project_name account @ '' ('' @ pid @ '')''))) (\<lambda>_.
       act_bind (join_project env c pid) (\<lambda>remote_project.
       act_bind (act_lift (build_remote_tree remote_project)) (\<lambda>(folders, remote_files).
         act_ret (c, pid, folders, remote_files)))))))))"

text \<open>\<^verbatim>\<open>plan_rules\<close> with its warnings.\<close>

definition missing_line :: "resolved_rule \<Rightarrow> log_line" where
  "missing_line resolved = Warning (''[missing-local] no local matches for source: '' @ sr_source (rr_rule resolved))"

definition plan_all :: "resolved_rule list \<Rightarrow> ('w, plan) hact" where
  "plan_all resolved_rules =
    act_fold (\<lambda>resolved p.
        act_bind (if rr_entries resolved = [] then log_line (missing_line resolved)
                  else act_ret ()) (\<lambda>_. act_lift (plan_rule resolved p)))
      resolved_rules empty_plan"

definition run_sync :: "'w surroundings \<Rightarrow> account_config \<Rightarrow> string list \<Rightarrow> sync_rule list \<Rightarrow> bool \<Rightarrow> ('w, sync_report) hact" where
  "run_sync env account repo_root rules dry_run =
    act_bind (open_project env account ''Using project: '') (\<lambda>(c, pid, folders, remote_files).
    act_bind (act_get disk) (\<lambda>d.
    act_bind (plan_all (map (\<lambda>r. expand_rule env d r repo_root) rules)) (\<lambda>p.
    act_bind (sync_planned env c pid remote_files dry_run (planned p)
        (folders, \<lparr>changed = [], uploaded = [], missing = missing_local p, same = []\<rparr>)) (\<lambda>(_, report).
    act_bind (log_all (map (\<lambda>x. Warning (''Remote file exists but is unmanaged: '' @ x))
        (warn_unmanaged_remote_files (dict_keys remote_files) (managed_scopes p) (dict_keys (planned p))))) (\<lambda>_.
    act_bind (print_sync_report report) (\<lambda>_. act_ret report))))))"

end
