(* ===== verification/OverleafMain.thy ===== *)
theory OverleafMain
  imports OverleafSync
begin

text \<open>
  The commands of \<^verbatim>\<open>tools/overleaf_push/overleaf_push.py\<close>: the generation of rules, the account configuration with its
  questions at the terminal, and \<open>main\<close>. The login loop and the choice at the terminal may go on for ever.
\<close>

section \<open>Generating rules\<close>

record generated_rule =
  gr_source :: string
  gr_target_dir :: string
  gr_remote_path :: string
  gr_local_path :: string

definition local_by_name :: "string list list \<Rightarrow> (string, string list list) dict" where
  "local_by_name paths = fold (\<lambda>p d. dict_set (last p) (dict_get_or d (last p) [] @ [p]) d) paths []"

record generated =
  gen_rules :: "generated_rule list"
  skipped_missing :: "string list"
  resolved_ambiguous :: "(string \<times> string list \<times> string list list) list"

text \<open>One remote file; \<open>matches\<close> are the paths below the repository root.\<close>

definition generate_rule :: "string list \<Rightarrow> (string, string list list) dict \<Rightarrow> string \<Rightarrow> generated \<Rightarrow> generated res" where
  "generate_rule repo_root by_name_map remote_path g =
    (let basename = posix_basename remote_path;
         matches = map (drop (length repo_root)) (sort (dict_get_or by_name_map basename []))
     in if matches = [] then Inr (g\<lparr>skipped_missing := skipped_missing g @ [remote_path]\<rparr>)
        else res_bind (select_pdf_match (posix repo_root) remote_path matches) (\<lambda>rel.
          (let g = g\<lparr>gen_rules := gen_rules g @ [\<lparr>gr_source = rel_posix rel,
                      gr_target_dir = normalize_remote_path (posix_dirname remote_path),
                      gr_remote_path = remote_path, gr_local_path = posix (repo_root @ rel)\<rparr>]\<rparr>
           in Inr (if 1 < length matches
                   then g\<lparr>resolved_ambiguous := resolved_ambiguous g @ [(remote_path, rel, matches)]\<rparr> else g))))"

definition remote_pdfs :: "file_map \<Rightarrow> string list" where
  "remote_pdfs remote_files = sort (filter (\<lambda>p. ends_with ''.pdf'' (str_lower p)) (dict_keys remote_files))"

definition generate_rules :: "fsnode \<Rightarrow> string list \<Rightarrow> file_map \<Rightarrow> generated res" where
  "generate_rules d repo_root remote_files =
    (let pdfs = remote_pdfs remote_files in
     if pdfs = [] then Inl RuntimeError
     else res_fold (generate_rule repo_root (local_by_name (iter_local_files_by_suffix d repo_root ''.pdf''))) pdfs
       \<lparr>gen_rules = [], skipped_missing = [], resolved_ambiguous = []\<rparr>)"

definition to_sync_rule :: "generated_rule \<Rightarrow> sync_rule" where
  "to_sync_rule item = \<lparr>sr_source = gr_source item, sr_target_dir = gr_target_dir item, sr_exclude = []\<rparr>"

definition mapping_path :: "string list \<Rightarrow> string list" where
  "mapping_path repo_root = repo_root @ [MAPPING_FILENAME]"

definition autogen_lines :: "string list \<Rightarrow> generated \<Rightarrow> log_line list" where
  "autogen_lines repo_root g =
    [Warning (''Autogenerated '' @ str_nat (length (gen_rules g)) @ '' rules into '' @ posix (mapping_path repo_root))]
    @ map (\<lambda>item. Info (''[autogen] '' @ gr_source item @ '' -> '' @ gr_remote_path item)) (gen_rules g)
    @ map (\<lambda>p. Warning (''[autogen-skip-missing] no local pdf named '' @ posix_basename p @ '' for remote '' @ p)) (skipped_missing g)
    @ map (\<lambda>(p, chosen, matches). Warning (''[autogen-heuristic] chose '' @ rel_posix chosen @ '' for remote '' @ p @ '' among: ''
        @ str_join '', '' (map rel_posix matches))) (resolved_ambiguous g)"

definition autogen_rules :: "'w surroundings \<Rightarrow> account_config \<Rightarrow> string list \<Rightarrow> ('w, sync_rule list) hact" where
  "autogen_rules env account repo_root =
    act_bind (open_project env account ''Scanning project for pdf files: '') (\<lambda>(_, _, _, remote_files).
    act_bind (act_get disk) (\<lambda>d.
    act_bind (act_lift (generate_rules d repo_root remote_files)) (\<lambda>g.
    (let rules = map to_sync_rule (gen_rules g) in
    act_bind (write_text False (mapping_path repo_root) (write_mapping_file rules)) (\<lambda>_.
    act_bind (log_all (autogen_lines repo_root g)) (\<lambda>_. act_ret rules))))))"

section \<open>Questions at the terminal\<close>

definition ask_user :: "'w surroundings \<Rightarrow> bool \<Rightarrow> string \<Rightarrow> ('w, string) hact" where
  "ask_user env secret prompt s = (let (r, w) = ask env secret prompt (outside s) in Some (r, s\<lparr>outside := w\<rparr>))"

definition prompt_text :: "'w surroundings \<Rightarrow> string \<Rightarrow> string \<Rightarrow> bool \<Rightarrow> ('w, string) hact" where
  "prompt_text env label preset secret =
    act_bind (ask_user env secret (label @ (if preset \<noteq> [] then '' ['' @ preset @ '']'' else []) @ '': '')) (\<lambda>v.
      act_ret (if str_strip v \<noteq> [] then str_strip v else preset))"

partial_function (option) choose_number :: "'w surroundings \<Rightarrow> nat \<Rightarrow> 'w helper \<Rightarrow> (nat res \<times> 'w helper) option" where
  "choose_number env n s =
    act_bind (ask_user env False ''Select number: '') (\<lambda>raw s.
      case py_int (str_strip raw) of
        Inl _ \<Rightarrow> choose_number env n s
      | Inr idx \<Rightarrow> if 1 \<le> idx \<and> idx \<le> int n then act_ret (nat (idx - 1)) s else choose_number env n s) s"

text \<open>The menu itself is printed and has no other effect.\<close>

definition prompt_choice :: "'w surroundings \<Rightarrow> string list \<Rightarrow> ('w, nat) hact" where
  "prompt_choice env items = choose_number env (length items)"

section \<open>The account configuration\<close>

text \<open>\<^verbatim>\<open>load_json\<close>; \<open>None\<close> where the file is missing.\<close>

definition load_json :: "'w surroundings \<Rightarrow> string list \<Rightarrow> ('w, jval option) hact" where
  "load_json env path s =
    Some (case fs_at (disk s) path of
        None \<Rightarrow> Inr None
      | Some (FDir _) \<Rightarrow> Inl OSError
      | Some (FFile c) \<Rightarrow> res_bind (json_loads env c) (\<lambda>v. Inr (Some v)), s)"

definition save_json :: "'w surroundings \<Rightarrow> string list \<Rightarrow> jval \<Rightarrow> ('w, unit) hact" where
  "save_json env path payload = write_text True path (json_pretty env payload @ [nl])"

text \<open>A value used as the server URL, and one used as the cookie.\<close>

definition url_text :: "jval \<Rightarrow> string res" where
  "url_text v = (case v of JStr s \<Rightarrow> Inr s | JList _ \<Rightarrow> Inl TypeError | JObj _ \<Rightarrow> Inl TypeError | _ \<Rightarrow> Inl AttributeError)"

definition cookie_text :: "jval \<Rightarrow> string res" where
  "cookie_text v = (case v of JStr s \<Rightarrow> Inr s | _ \<Rightarrow> Inl AttributeError)"

definition saved_or_asked :: "jval \<Rightarrow> string \<Rightarrow> ('w, string) hact \<Rightarrow> ('w, jval) hact" where
  "saved_or_asked raw key asked =
    act_bind (act_lift (jget_or raw key JNull)) (\<lambda>v. if truthy v then act_ret v else act_bind asked (\<lambda>x. act_ret (JStr x)))"

text \<open>Log in until it works; every failure asks for a new cookie.\<close>

partial_function (option) login_loop ::
  "'w surroundings \<Rightarrow> string \<Rightarrow> string \<Rightarrow> bool \<Rightarrow> client \<Rightarrow> 'w helper \<Rightarrow> ((client \<times> string \<times> bool) res \<times> 'w helper) option" where
  "login_loop env url ck changed_flag c s =
    (case login env c s of
       None \<Rightarrow> None
     | Some (Inr c', s) \<Rightarrow> Some (Inr (c', ck, changed_flag), s)
     | Some (Inl e, s) \<Rightarrow>
         if e = SystemExit then Some (Inl e, s)
         else
           act_bind (log_line (Warning ''Login failed'')) (\<lambda>_ s.
           act_bind (prompt_text env ''Overleaf cookie'' [] True) (\<lambda>v s.
           act_bind (OverleafClient env url (normalize_cookie_header v)) (\<lambda>c s.
             login_loop env url (normalize_cookie_header v) True c s) s) s) s)"

definition project_label :: "'w surroundings \<Rightarrow> jval \<Rightarrow> string res" where
  "project_label env p =
    res_bind (jget_or p ''name'' JNull) (\<lambda>name. res_bind (project_key p) (\<lambda>key.
      Inr (fmt env name @ '' ('' @ fmt env key @ '')'')))"

definition key_and_name :: "jval \<Rightarrow> (jval \<times> jval) res" where
  "key_and_name project = res_bind (project_key project) (\<lambda>key. res_bind (jget_or project ''name'' JNull) (\<lambda>name. Inr (key, name)))"

definition pick_project :: "'w surroundings \<Rightarrow> jval \<Rightarrow> ('w, jval \<times> jval) hact" where
  "pick_project env projects =
    act_bind (act_lift (jitems projects)) (\<lambda>ps.
    act_bind (act_lift (res_map (project_label env) ps)) (\<lambda>labels.
    act_bind (prompt_choice env labels) (\<lambda>i. act_lift (key_and_name (ps ! i)))))"

definition choose_project :: "'w surroundings \<Rightarrow> client \<Rightarrow> bool \<Rightarrow> jval \<Rightarrow> jval \<Rightarrow> ('w, (jval \<times> jval) \<times> bool) hact" where
  "choose_project env c bootstrap saved_id saved_name =
    (if bootstrap \<or> \<not> truthy saved_id \<or> \<not> truthy saved_name then
       act_bind (list_projects env c) (\<lambda>projects.
       if \<not> truthy projects then act_lift (Inl RuntimeError)
       else act_bind (pick_project env projects) (\<lambda>kn. act_ret (kn, True)))
     else
       act_catch
         (act_bind (find_project env c saved_id saved_name) (\<lambda>project.
          act_bind (act_lift (key_and_name project)) (\<lambda>kn. act_ret (kn, False))))
         (act_bind (list_projects env c) (\<lambda>projects.
          act_bind (pick_project env projects) (\<lambda>kn. act_ret (kn, True)))))"

definition load_global_config :: "'w surroundings \<Rightarrow> string list \<Rightarrow> bool \<Rightarrow> ('w, account_config) hact" where
  "load_global_config env path bootstrap =
    act_bind (load_json env path) (\<lambda>found.
    (let raw = (case found of None \<Rightarrow> JObj [] | Some v \<Rightarrow> v) in
    act_bind (saved_or_asked raw ''server_url''
        (prompt_text env ''Overleaf server URL'' ''https://www.overleaf.com'' False)) (\<lambda>u.
    act_bind (saved_or_asked raw ''cookie'' (prompt_text env ''Overleaf cookie'' [] True)) (\<lambda>k.
    act_bind (act_lift (cookie_text k)) (\<lambda>v.
    act_bind (act_lift (jget_or raw ''project_id'' JNull)) (\<lambda>saved_id.
    act_bind (act_lift (jget_or raw ''project_name'' JNull)) (\<lambda>saved_name.
    act_bind (act_lift (url_text u)) (\<lambda>url.
    act_bind (OverleafClient env url (normalize_cookie_header v)) (\<lambda>c.
    act_bind (login_loop env url (normalize_cookie_header v) False c) (\<lambda>(c, ck, relogged).
    act_bind (choose_project env c bootstrap saved_id saved_name) (\<lambda>((key, name), picked).
    (let account = \<lparr>server_url = url, ac_cookie = ck, project_id = fmt env key, project_name = fmt env name\<rparr> in
    act_bind (if relogged \<or> picked \<or> found = None
              then act_bind (save_json env path (JObj [(''server_url'', JStr (server_url account)), (''cookie'', JStr (ac_cookie account)),
                     (''project_id'', JStr (project_id account)), (''project_name'', JStr (project_name account))]))
                   (\<lambda>_. log_line (Warning (''Saved account config to '' @ posix path)))
              else act_ret ()) (\<lambda>_. act_ret account)))))))))))))"

declare await_packet.simps [code] decode_frames.simps [code] choose_number.simps [code] login_loop.simps [code]

section \<open>The commands\<close>

datatype command = Sync | AutogenRules | Init

record helper_args =
  command :: command
  bootstrap_account :: bool
  dry_run_arg :: bool

definition read_mapping :: "fsnode \<Rightarrow> string list \<Rightarrow> sync_rule list res" where
  "read_mapping d repo_root = load_mapping_file (fs_file d (mapping_path repo_root))"

definition main :: "'w surroundings \<Rightarrow> string list \<Rightarrow> string list \<Rightarrow> helper_args \<Rightarrow> ('w, int) hact" where
  "main env home cwd args =
    (if command args = Init then
       act_bind (act_get (\<lambda>s. fs_at (disk s) (mapping_path cwd))) (\<lambda>n.
       act_bind (act_lift (init_repo (case n of None \<Rightarrow> None | Some _ \<Rightarrow> Some []))) (\<lambda>content.
       act_bind (write_text False (mapping_path cwd) content) (\<lambda>_.
       act_bind (log_line (Warning (''Created '' @ posix (mapping_path cwd)))) (\<lambda>_. act_ret 0))))
     else
       act_bind (load_global_config env (home @ [''.overleaf-helper'', ''config.json'']) (bootstrap_account args)) (\<lambda>account.
       act_bind (act_get disk) (\<lambda>d.
       act_bind (act_lift (ensure_repo_root (\<lambda>ps. fs_file d (mapping_path ps) \<noteq> None) cwd)) (\<lambda>repo_root.
       if command args = AutogenRules then act_bind (autogen_rules env account repo_root) (\<lambda>_. act_ret 0)
       else
         act_bind (act_lift (read_mapping d repo_root)) (\<lambda>rules.
         act_bind (run_sync env account repo_root rules (dry_run_arg args)) (\<lambda>_. act_ret 0))))))"

end
