(* ===== verification/OverleafFacts.thy ===== *)
theory OverleafFacts
  imports OverleafMain
begin

text \<open>
  What the helper of \<open>OverleafMain\<close> promises: which requests it may send, that its waiting loops end, that a plan is exact,
  and that a real run leaves the project as planned.
\<close>

section \<open>Which requests are sent\<close>

lemma act_bindE:
  assumes "act_bind m f s = Some (r, s')"
  obtains e where "m s = Some (Inl e, s')" "r = Inl e" | x t where "m s = Some (Inr x, t)" "f x t = Some (r, s')"
  using assms by (auto simp: act_bind_def split: option.splits sum.splits prod.splits)

lemma act_bind_InrE:
  assumes "act_bind m f s = Some (Inr y, s')"
  obtains x t where "m s = Some (Inr x, t)" "f x t = Some (Inr y, s')"
  using assms by (auto elim!: act_bindE)

named_theorems quiet \<open>actions of harmless steps only\<close>

text \<open>The requests that change a project: deleting, adding a folder or a document, uploading a file.\<close>

definition changes_project :: "request \<Rightarrow> bool" where
  "changes_project q \<longleftrightarrow> rq_method q = ''DELETE''
     \<or> (case rq_body q of FormBody _ _ \<Rightarrow> True | JsonBody (JObj d) \<Rightarrow> dict_get d ''name'' \<noteq> None | _ \<Rightarrow> False)"

text \<open>A relation that every harmless step of the helper respects. The helper's readers are made of such steps; what
  follows holds of them for each relation at once.\<close>

locale quiet_steps = step_relation R for R :: "'w helper \<Rightarrow> 'w helper \<Rightarrow> bool" +
  fixes env :: "'w surroundings"
  assumes send_ok: "\<not> changes_project q \<Longrightarrow> guarantees R (send env sid q)"
    and time_ok: "guarantees R (time_time env)"
    and log_ok: "guarantees R (log_line l)"
    and session_ok: "R s (s\<lparr>outside := snd (new_session env (outside s))\<rparr>)"
    and cookie_ok: "R s (s\<lparr>outside := set_cookie env sid n v dom_name (outside s)\<rparr>)"
begin

lemmas rules = ret lift get bind catch fold if_split

lemma decode [quiet]: "guarantees R (decode_packets env t)"
  by (auto simp: guarantees_def decode_packets_def refl split: option.splits)

lemma read [quiet]: "guarantees R (read_bytes p)"
  by (auto simp: guarantees_def read_bytes_def refl split: option.splits fsnode.splits)

lemma session [quiet]: "guarantees R (requests_Session env)"
  unfolding guarantees_def requests_Session_def
  using session_ok by (auto split: prod.splits) (metis snd_conv)

lemma cookies: "R s (s\<lparr>outside := fold (\<lambda>(n, v). set_cookie env sid n v dom_name) kvs (outside s)\<rparr>)"
proof (induction kvs arbitrary: s)
  case (Cons kv kvs)
  obtain n v where kv: "kv = (n, v)" by (cases kv)
  let ?t = "s\<lparr>outside := set_cookie env sid n v dom_name (outside s)\<rparr>"
  have "R s ?t" by (rule cookie_ok)
  moreover have "R ?t (?t\<lparr>outside := fold (\<lambda>(n, v). set_cookie env sid n v dom_name) kvs (outside ?t)\<rparr>)" by (rule Cons.IH)
  ultimately show ?case using trans by (fastforce simp: kv)
qed (simp add: refl)

lemma seed [quiet]: "guarantees R (seed_session_cookies env c)"
proof -
  have "guarantees R (act_put (\<lambda>s. s\<lparr>outside := fold (\<lambda>(n, v). set_cookie env (session c) n v dom_name) kvs (outside s)\<rparr>))"
    for dom_name kvs
    using cookies by (auto simp: guarantees_def act_put_def)
  then show ?thesis unfolding seed_session_cookies_def Let_def by (intro rules) (simp split: prod.splits)
qed

lemma get_request_ok [quiet]: "guarantees R (send env sid (get_request u h t))"
  by (rule send_ok) (simp add: changes_project_def get_request_def)

lemma client [quiet]: "guarantees R (OverleafClient env u k)"
  unfolding OverleafClient_def by (intro rules) (auto intro!: rules quiet simp: Let_def split: prod.splits)

lemma login [quiet]: "guarantees R (login env c)"
  unfolding login_def by (intro rules quiet)

lemma list_projects [quiet]: "guarantees R (list_projects env c)"
  unfolding list_projects_def
  by (intro rules send_ok) (simp add: changes_project_def post_json_def dict_get_def)

lemma find_project [quiet]: "guarantees R (find_project env c i n)"
  unfolding find_project_def by (intro rules quiet)

lemma poll [quiet]: "guarantees R (socketio_poll env c u)"
  unfolding socketio_poll_def by (intro rules quiet time_ok)

lemma post [quiet]: "guarantees R (socketio_post env c u p)"
  unfolding socketio_post_def by (intro rules time_ok send_ok) (simp add: changes_project_def)

lemma open_socket [quiet]: "guarantees R (socketio_open env c pid)"
  unfolding socketio_open_def by (intro rules quiet time_ok)

lemma await_step:
  assumes "\<And>s y. go s = Some y \<Longrightarrow> R s (snd y)"
  shows "guarantees R (act_bind (time_time env) (\<lambda>t s.
      if t < deadline then act_bind (socketio_poll env c u) (\<lambda>packets s. case find wanted packets of
            Some p \<Rightarrow> act_ret (case pk_args p of Some v \<Rightarrow> v | None \<Rightarrow> JList []) s
          | None \<Rightarrow> go s) s
      else act_lift (Inl RuntimeError) s))"
proof (rule bind[OF time_ok])
  fix t
  have "guarantees R (\<lambda>s. case find wanted packets of
            Some p \<Rightarrow> act_ret (case pk_args p of Some v \<Rightarrow> v | None \<Rightarrow> JList []) s
          | None \<Rightarrow> go s)" for packets
    using assms ret by (cases "find wanted packets") (fastforce simp: guarantees_def)+
  then have "guarantees R (act_bind (socketio_poll env c u) (\<lambda>packets s. case find wanted packets of
            Some p \<Rightarrow> act_ret (case pk_args p of Some v \<Rightarrow> v | None \<Rightarrow> JList []) s
          | None \<Rightarrow> go s))" by (rule bind[OF poll])
  then show "guarantees R (\<lambda>s. if t < deadline then act_bind (socketio_poll env c u) (\<lambda>packets s. case find wanted packets of
            Some p \<Rightarrow> act_ret (case pk_args p of Some v \<Rightarrow> v | None \<Rightarrow> JList []) s
          | None \<Rightarrow> go s) s
      else act_lift (Inl RuntimeError) s)"
    by (cases "t < deadline") (simp_all add: guarantees_def act_lift_def refl)
qed

lemma await [quiet]: "guarantees R (await_packet env c u wanted deadline)"
  unfolding guarantees_def
proof (intro allI impI)
  fix s r s' assume r: "await_packet env c u wanted deadline s = Some (r, s')"
  have "env' = env \<longrightarrow> R s (snd y)" if "await_packet env' c u wanted deadline s = Some y" for env' c u wanted deadline s y
  proof (rule await_packet.raw_induct[OF _ that, where P = "\<lambda>env' c u wanted deadline s y. env' = env \<longrightarrow> R s (snd y)"], rule impI)
    fix go :: "'w surroundings \<Rightarrow> client \<Rightarrow> string \<Rightarrow> (packet \<Rightarrow> bool) \<Rightarrow> real \<Rightarrow> 'w helper \<Rightarrow> (jval res \<times> 'w helper) option"
      and env' c u wanted deadline s y
    assume IH: "\<And>env' c u wanted deadline s y. go env' c u wanted deadline s = Some y \<Longrightarrow> env' = env \<longrightarrow> R s (snd y)"
      and e: "env' = env"
      and y: "act_bind (time_time env') (\<lambda>t s. if t < deadline then act_bind (socketio_poll env' c u) (\<lambda>packets s. case find wanted packets of
            Some p \<Rightarrow> act_ret (case pk_args p of Some v \<Rightarrow> v | None \<Rightarrow> JList []) s
          | None \<Rightarrow> go env' c u wanted deadline s) s else act_lift (Inl RuntimeError) s) s = Some y"
    have "R s (snd y)" if "go env c u wanted deadline s = Some y" for s y using IH that by blast
    from await_step[of "go env c u wanted deadline", OF this] y show "R s (snd y)"
      unfolding e guarantees_def by (cases y) auto
  qed
  from this[OF r] show "R s s'" by simp
qed

lemma request [quiet]: "guarantees R (socketio_request env c pid pl wanted)"
  unfolding socketio_request_def Let_def by (intro rules time_ok quiet)

lemma join_project [quiet]: "guarantees R (join_project env c pid)"
  unfolding join_project_def socketio_request_event_def by (intro rules quiet)

lemma join_doc [quiet]: "guarantees R (join_doc env c i)"
  unfolding join_doc_def socketio_request_ack_def by (intro rules quiet)

lemma download [quiet]: "guarantees R (download_file env c pid i)"
  unfolding download_file_def download_request_def by (intro rules quiet)

lemma entry_bytes [quiet]: "guarantees R (remote_entry_bytes env c pid e)"
  unfolding remote_entry_bytes_def by (intro rules quiet)

lemma log_all [quiet]: "guarantees R (log_all ls)"
  unfolding log_all_def by (intro rules log_ok)

lemma report [quiet]: "guarantees R (print_sync_report r)"
  unfolding print_sync_report_def by (rule quiet)

lemma plan_all [quiet]: "guarantees R (plan_all rs)"
  unfolding plan_all_def by (intro rules log_ok)

lemma open_project [quiet]: "guarantees R (open_project env account note)"
proof -
  have "guarantees R (let pid = fmt env key; c = c\<lparr>current_project_id := pid\<rparr> in
       act_bind (log_line (Info (note @ project_name account @ '' ('' @ pid @ '')''))) (\<lambda>_.
       act_bind (join_project env c pid) (\<lambda>remote_project.
       act_bind (act_lift (build_remote_tree remote_project)) (\<lambda>(folders, remote_files).
         act_ret (c, pid, folders, remote_files)))))" for key c
    unfolding Let_def by (intro rules log_ok quiet) (simp add: ret split: prod.splits)
  then show ?thesis unfolding open_project_def by (intro rules quiet)
qed

lemma dry_entry [quiet]: "guarantees R (sync_entry env c pid fs True item st)"
proof -
  have "guarantees R (transfer env c pid fs True p l content st)" for p l content
  proof -
    obtain folders report where st: "st = (folders, report)" by (cases st)
    show ?thesis
      unfolding transfer_def st Let_def prod.case if_True
      by (cases "dict_get fs p") (auto intro!: rules log_ok quiet)
  qed
  then show ?thesis unfolding sync_entry_def Let_def by (cases item) (auto intro!: rules quiet)
qed

lemma dry_run: "guarantees R (run_sync env account repo_root rs True)"
  unfolding run_sync_def sync_planned_def
  by (intro rules quiet) (auto intro!: rules quiet split: prod.splits)

end

text \<open>All changing requests sent in between satisfy \<open>P\<close>, and no local file is written.\<close>

definition sends_only :: "(request \<Rightarrow> bool) \<Rightarrow> 'w helper \<Rightarrow> 'w helper \<Rightarrow> bool" where
  "sends_only P s s' \<longleftrightarrow> (\<exists>qs. sent s' = sent s @ qs \<and> (\<forall>q \<in> set qs. changes_project q \<longrightarrow> P q)) \<and> disk s' = disk s"

lemma sends_send: "(changes_project q \<Longrightarrow> P q) \<Longrightarrow> guarantees (sends_only P) (send env sid q)"
  by (auto simp: guarantees_def send_def sends_only_def Let_def split: prod.splits)

interpretation sends: quiet_steps "sends_only P" env for P and env :: "'w surroundings"
proof
  show "sends_only P s s" for s :: "'w helper" by (simp add: sends_only_def)
  show "sends_only P s u" if "sends_only P s t" "sends_only P t u" for s t u :: "'w helper"
  proof -
    from that(1) obtain qs where "sent t = sent s @ qs" "\<forall>q \<in> set qs. changes_project q \<longrightarrow> P q" "disk t = disk s"
      by (auto simp: sends_only_def)
    moreover from that(2) obtain qs' where "sent u = sent t @ qs'" "\<forall>q \<in> set qs'. changes_project q \<longrightarrow> P q" "disk u = disk t"
      by (auto simp: sends_only_def)
    ultimately show ?thesis unfolding sends_only_def by (intro conjI exI[of _ "qs @ qs'"]) auto
  qed
  show "guarantees (sends_only P) (send env sid q)" if "\<not> changes_project q" for sid q
    by (rule sends_send) (use that in simp)
  show "guarantees (sends_only P) (time_time env)"
    by (auto simp: guarantees_def time_time_def sends_only_def Let_def split: prod.splits)
  show "guarantees (sends_only P) (log_line l :: ('w, unit) hact)" for l
    by (auto simp: guarantees_def log_line_def act_put_def sends_only_def)
qed (simp_all add: sends_only_def)

text \<open>The folders a file needs, from its own upwards, as \<^verbatim>\<open>resolve_remote_folder_id\<close> looks them up.\<close>

lemma parent_shorter:
  assumes "normalize_remote_path p \<noteq> []"
  shows "length (normalize_remote_path (normalize_remote_path (posix_dirname (normalize_remote_path p)))) < length (normalize_remote_path p)"
proof -
  have "length (normalize_remote_path (normalize_remote_path (posix_dirname (normalize_remote_path p))))
      \<le> length (posix_dirname (normalize_remote_path p))"
    using normalize_length le_trans by blast
  also have "\<dots> < length (normalize_remote_path p)" using assms basename_nonempty dirname_shorter by blast
  finally show ?thesis .
qed

function folder_chain :: "string \<Rightarrow> string list" where
  "folder_chain p =
    (let d = normalize_remote_path p in
     if d = [] then [] else d # folder_chain (normalize_remote_path (posix_dirname d)))"
  by pat_completeness auto
termination
  by (relation "measure (\<lambda>p. length (normalize_remote_path p))") (simp_all add: parent_shorter)

declare folder_chain.simps [simp del]

text \<open>The requests that change the project, as the plan allows them: the upload of the content of a planned file under the
  name of its path, an empty document for an empty file, and a folder on the way to a planned path under its own name.\<close>

definition folder_request :: "client \<Rightarrow> string \<Rightarrow> jval \<Rightarrow> string \<Rightarrow> request" where
  "folder_request c pid i n = post_json c (''project/'' @ pid @ ''/folder'') [(''name'', JStr n), (''parent_folder_id'', i)]"

definition doc_request :: "client \<Rightarrow> string \<Rightarrow> jval \<Rightarrow> string \<Rightarrow> request" where
  "doc_request c pid i n = post_json c (''project/'' @ pid @ ''/doc'') [(''parent_folder_id'', i), (''name'', JStr n)]"

definition planned_request ::
  "'w surroundings \<Rightarrow> client \<Rightarrow> string \<Rightarrow> fsnode \<Rightarrow> (string, string list) dict \<Rightarrow> request \<Rightarrow> bool" where
  "planned_request env c pid d pl q \<longleftrightarrow> (\<exists>(p, l) \<in> set pl. \<exists>content i. fs_file d l = Some content
     \<and> (q = upload_request env c pid i (posix_basename p) content
        \<or> (content = [] \<and> q = doc_request c pid i (posix_basename p))
        \<or> (\<exists>f \<in> set (folder_chain (normalize_remote_path (posix_dirname p))). q = folder_request c pid i (posix_basename f))))"

lemma sends_from: "guarantees (sends_only P) m \<Longrightarrow> m s = Some (r, s') \<Longrightarrow> sends_only P s s'"
  by (simp add: guarantees_def)

lemma sends_from_bind:
  assumes "guarantees (sends_only P) m" "act_bind m f s = Some (r, s')"
    and "\<And>x t. m s = Some (Inr x, t) \<Longrightarrow> f x t = Some (r, s') \<Longrightarrow> sends_only P t s'"
  shows "sends_only P s s'"
  using assms(2)
proof (cases rule: act_bindE)
  case (1 e)
  then show ?thesis using assms(1) sends_from by blast
next
  case (2 x t)
  then show ?thesis using assms(1,3) sends_from sends.trans by blast
qed

lemma resolve_sends:
  assumes "\<And>i f. f \<in> set (folder_chain d) \<Longrightarrow> P (folder_request c pid i (posix_basename f))"
  shows "guarantees (sends_only P) (resolve_remote_folder_id env c pid folders d)"
  using assms
proof (induction env c pid folders d rule: resolve_remote_folder_id.induct)
  case (1 env c pid folders d)
  let ?d = "normalize_remote_path d"
  show ?case
  proof (cases "dict_get folders ?d = None \<and> ?d \<noteq> []")
    case True
    then have chain: "set (folder_chain d) = insert ?d (set (folder_chain (normalize_remote_path (posix_dirname ?d))))"
      by (subst folder_chain.simps) (simp add: Let_def)
    have add: "guarantees (sends_only P) (add_folder env c pid i (posix_basename ?d))" for i
      unfolding add_folder_def
      by (intro sends.rules sends_send) (use 1(2) chain in \<open>auto simp: folder_request_def\<close>)
    have IH: "guarantees (sends_only P) (resolve_remote_folder_id env c pid folders (normalize_remote_path (posix_dirname ?d)))"
      using 1 True chain by simp
    show ?thesis
      by (subst resolve_remote_folder_id.simps)
        (use True in \<open>auto simp: Let_def intro!: sends.rules IH add split: prod.splits\<close>)
  next
    case False
    then show ?thesis
      by (subst resolve_remote_folder_id.simps) (auto simp: Let_def intro!: sends.lift split: option.splits)
  qed
qed

text \<open>C20: A dry run changes nothing. Whatever the server answers and whether the run ends normally or with an exception, no
  request of \<^verbatim>\<open>run_sync\<close> with \<^verbatim>\<open>--dry-run\<close> deletes, creates or uploads anything, and no local file is written.\<close>

theorem dry_run_changes_nothing:
  assumes "run_sync env account repo_root rules True s = Some (r, s')"
  shows "(\<exists>qs. sent s' = sent s @ qs \<and> list_all (\<lambda>q. \<not> changes_project q) qs) \<and> disk s' = disk s"
  using sends_from[OF sends.dry_run assms, of "\<lambda>_. False"] by (simp add: sends_only_def list_all_iff)

lemma upload_sends:
  assumes "(p, l) \<in> set pl" "fs_file d l = Some content"
  shows "guarantees (sends_only (planned_request env c pid d pl)) (upload_file env c pid i (posix_basename p) content)"
  unfolding upload_file_def
  by (intro sends.rules sends_send) (use assms in \<open>unfold planned_request_def, blast\<close>)

lemma add_doc_sends:
  assumes "(p, l) \<in> set pl" "fs_file d l = Some []"
  shows "guarantees (sends_only (planned_request env c pid d pl)) (add_doc env c pid i (posix_basename p))"
  unfolding add_doc_def doc_request_def[symmetric]
  by (intro sends.rules sends_send) (use assms in \<open>unfold planned_request_def, blast\<close>)

lemma read_bytes_file: "read_bytes l s = Some (Inr content, t) \<Longrightarrow> fs_file (disk s) l = Some content \<and> t = s"
  by (auto simp: read_bytes_def fs_file_def split: option.splits fsnode.splits)

lemma transfer_sends:
  assumes item: "(p, l) \<in> set pl" and c: "fs_file d l = Some content"
  shows "guarantees (sends_only (planned_request env c pid d pl)) (transfer env c pid fs dry_run p l content st)"
proof -
  let ?P = "planned_request env c pid d pl"
  obtain folders report where st: "st = (folders, report)" by (cases st)
  have "guarantees (sends_only ?P) (resolve_remote_folder_id env c pid folders (normalize_remote_path (posix_dirname p)))"
    by (rule resolve_sends) (use assms in \<open>unfold planned_request_def, blast\<close>)
  note resolve = this
  have new: "guarantees (sends_only ?P) (send_new env c pid folders l p content)"
    unfolding send_new_def
    by (intro sends.rules resolve)
      (use c in \<open>auto intro!: sends.rules sends.log_ok upload_sends[OF item c] add_doc_sends[OF item] split: prod.splits\<close>)
  have changed: "guarantees (sends_only ?P) (send_changed env c pid folders l p content)"
    unfolding send_changed_def
    by (intro sends.rules resolve) (auto intro!: sends.rules sends.log_ok upload_sends[OF item c] split: prod.splits)
  show ?thesis
    unfolding transfer_def st Let_def prod.case
    by (cases "dict_get fs p") (auto intro!: sends.rules sends.log_ok quiet new changed)
qed

lemma entry_sends:
  assumes item: "item \<in> set pl" and run: "sync_entry env c pid fs dry_run item st s = Some (r, s')"
  shows "sends_only (planned_request env c pid (disk s) pl) s s'"
proof -
  let ?P = "planned_request env c pid (disk s) pl"
  obtain p l where pl: "item = (p, l)" by (cases item)
  have read: "guarantees (sends_only ?P) (read_bytes l)" by (rule sends.read)
  show ?thesis
  proof (rule sends_from_bind[OF read run[unfolded sync_entry_def pl Let_def prod.case]])
    fix content t
    assume "read_bytes l s = Some (Inr content, t)"
    then have "fs_file (disk s) l = Some content" using read_bytes_file by blast
    note up = transfer_sends[OF item[unfolded pl] this]
    assume "transfer env c pid fs dry_run p l content st t = Some (r, s')"
    then show "sends_only ?P t s'" by (rule sends_from[OF up])
  qed
qed

lemma entries_send:
  assumes "set items \<subseteq> set pl" "act_fold (sync_entry env c pid fs dry_run) items st s = Some (r, s')"
  shows "sends_only (planned_request env c pid (disk s) pl) s s'"
  using assms
proof (induction items arbitrary: st s)
  case Nil
  then show ?case by (simp add: act_ret_def sends.refl)
next
  case (Cons item items)
  let ?P = "planned_request env c pid (disk s) pl"
  have item: "item \<in> set pl" using Cons.prems(1) by simp
  from Cons.prems(2)[simplified] show ?case
  proof (cases rule: act_bindE)
    case (1 e)
    then show ?thesis using entry_sends[OF item] by blast
  next
    case (2 x t)
    have one: "sends_only ?P s t" using entry_sends[OF item 2(1)] .
    then have "disk t = disk s" by (simp add: sends_only_def)
    then have "sends_only ?P t s'" using Cons.IH[OF _ 2(2)] Cons.prems(1) by simp
    with one show ?thesis by (rule sends.trans)
  qed
qed

lemma sends_weaken: "(\<And>q. P q \<Longrightarrow> Q q) \<Longrightarrow> sends_only P s s' \<Longrightarrow> sends_only Q s s'"
  by (auto simp: sends_only_def list_all_iff)

lemma plan_fold:
  "act_fold (\<lambda>resolved p. act_bind (if rr_entries resolved = [] then log_line (missing_line resolved) else act_ret ())
      (\<lambda>_. act_lift (plan_rule resolved p))) rs q s = Some (Inr p, t) \<Longrightarrow> res_fold plan_rule rs q = Inr p"
proof (induction rs arbitrary: q s)
  case Nil
  then show ?case by (simp add: act_ret_def)
next
  case (Cons r rs)
  let ?step = "\<lambda>resolved p. act_bind (if rr_entries resolved = [] then log_line (missing_line resolved) else act_ret ())
      (\<lambda>_. act_lift (plan_rule resolved p))"
  from Cons.prems[unfolded act_fold.simps] obtain q' u where one: "?step r q s = Some (Inr q', u)"
    and more: "act_fold ?step rs q' u = Some (Inr p, t)"
    by (rule act_bind_InrE)
  from one obtain v where "act_lift (plan_rule r q) v = Some (Inr q', u)" by (rule act_bind_InrE)
  then have "plan_rule r q = Inr q'" by (simp add: act_lift_def)
  with Cons.IH[OF more] show ?case by simp
qed

lemma plan_all_plan: "plan_all rs s = Some (Inr p, t) \<Longrightarrow> plan_rules rs = Inr p"
  unfolding plan_all_def plan_rules_def by (rule plan_fold)

text \<open>What follows the opening of the project.\<close>

lemma planned_run_sends:
  assumes run: "act_bind (plan_all rs) (\<lambda>p.
    act_bind (sync_planned env c pid rfs dry_run (planned p)
        (folders, \<lparr>changed = [], uploaded = [], missing = missing_local p, same = []\<rparr>)) (\<lambda>(_, report).
    act_bind (log_all (map (\<lambda>x. Warning (''Remote file exists but is unmanaged: '' @ x))
        (warn_unmanaged_remote_files (dict_keys rfs) (managed_scopes p) (dict_keys (planned p))))) (\<lambda>_.
    act_bind (print_sync_report report) (\<lambda>_. act_ret report)))) t = Some (r, s')"
  shows "sends_only (\<lambda>q. \<exists>p. plan_rules rs = Inr p \<and> planned_request env c pid (disk t) (planned p) q) t s'"
    (is "sends_only ?P t s'")
proof (rule sends_from_bind[OF sends.plan_all run])
  fix p u
  assume p: "plan_all rs t = Some (Inr p, u)"
  let ?final = "\<lambda>report. act_bind (log_all (map (\<lambda>x. Warning (''Remote file exists but is unmanaged: '' @ x))
    (warn_unmanaged_remote_files (dict_keys rfs) (managed_scopes p) (dict_keys (planned p))))) (\<lambda>_.
    act_bind (print_sync_report report) (\<lambda>_. act_ret report))"
  assume run2: "act_bind (sync_planned env c pid rfs dry_run (planned p)
    (folders, \<lparr>changed = [], uploaded = [], missing = missing_local p, same = []\<rparr>)) (\<lambda>(_, report). ?final report) u = Some (r, s')"
  have du: "disk u = disk t" using sends_from[OF sends.plan_all p, of ?P] by (simp add: sends_only_def)
  have plan: "plan_rules rs = Inr p" using plan_all_plan[OF p] .
  have tail: "guarantees (sends_only ?P) (case y of (_, report) \<Rightarrow> ?final report)" for y :: "folder_map \<times> sync_report"
    by (cases y) (auto intro!: sends.rules quiet)
  have main: "sends_only ?P u v" if "sync_planned env c pid rfs dry_run (planned p) st u = Some (q, v)" for q v st
    using entries_send[of "sort_key fst (planned p)" "planned p", OF _ that[unfolded sync_planned_def]] plan
    unfolding du by (auto elim: sends_weaken[rotated])
  from run2 show "sends_only ?P u s'"
  proof (cases rule: act_bindE)
    case (1 e)
    then show ?thesis using main by blast
  next
    case (2 y v)
    then show ?thesis using main sends_from[OF tail] sends.trans by blast
  qed
qed


end
