(* ===== verification/PlanFacts.thy ===== *)
theory PlanFacts
  imports OverleafFacts
begin

text \<open>
  Facts about the planning of a run: a plan holds exactly the entries of the rules, or two of them disagree; and the rules
  \<^verbatim>\<open>--autogen-rules\<close> writes expand to the remote files they were generated for.
\<close>

section \<open>Plans\<close>

lemma plan_entries:
  assumes "dict_ok pl"
  shows "case res_fold plan_entry es pl of
      Inr pl' \<Rightarrow> dict_ok pl' \<and> (\<forall>l r. dict_get pl' r = Some l \<longleftrightarrow> (l, r) \<in> set es \<or> dict_get pl r = Some l)
    | Inl e \<Rightarrow> e = RuntimeError \<and> (\<exists>l l' r. l \<noteq> l' \<and> (l, r) \<in> set es \<and> ((l', r) \<in> set es \<or> dict_get pl r = Some l'))"
  using assms
proof (induction es arbitrary: pl)
  case (Cons entry es)
  obtain l r where e: "entry = (l, r)" by (cases entry)
  show ?case
  proof (cases "\<exists>l'. dict_get pl r = Some l' \<and> l' \<noteq> l")
    case True
    then obtain l' where l': "dict_get pl r = Some l'" "l' \<noteq> l" by blast
    then have "res_fold plan_entry (entry # es) pl = Inl RuntimeError" by (simp add: e plan_entry_def)
    moreover have "l \<noteq> l' \<and> (l, r) \<in> set (entry # es) \<and> ((l', r) \<in> set (entry # es) \<or> dict_get pl r = Some l')"
      using l' e by simp
    ultimately show ?thesis by auto
  next
    case False
    then have step: "plan_entry entry pl = Inr (dict_set r l pl)" by (auto simp: e plan_entry_def split: option.splits)
    have get: "dict_get (dict_set r l pl) r' = Some l' \<longleftrightarrow> (l' = l \<and> r' = r) \<or> dict_get pl r' = Some l'" for l' r'
      using False by (auto simp: dict_get_set)
    have ok: "dict_ok (dict_set r l pl)" using Cons.prems by simp
    show ?thesis
    proof (cases "res_fold plan_entry es (dict_set r l pl)")
      case (Inr pl')
      then show ?thesis using Cons.IH[OF ok] by (auto simp: step[unfolded e] get e)
    next
      case (Inl x)
      then show ?thesis using Cons.IH[OF ok] unfolding get by (auto simp: step[unfolded e] e)
    qed
  qed
qed simp

lemma plan_fold_entries:
  "res_fold plan_rule rs p =
    res_bind (res_fold plan_entry (concat (map rr_entries rs)) (planned p)) (\<lambda>pl.
      Inr \<lparr>planned = pl, managed_scopes = managed_scopes p @ map scope_prefix rs,
           missing_local = missing_local p @ map (\<lambda>r. sr_source (rr_rule r)) (filter (\<lambda>r. rr_entries r = []) rs)\<rparr>)"
proof (induction rs arbitrary: p)
  case (Cons r rs)
  show ?case
  proof (cases "rr_entries r = []")
    case True
    then show ?thesis using Cons by (simp add: plan_rule_def Let_def)
  next
    case False
    then show ?thesis
      using Cons by (cases "res_fold plan_entry (rr_entries r) (planned p)") (simp_all add: plan_rule_def Let_def res_fold_append)
  qed
qed simp

text \<open>C23: A plan is exact. It maps each remote path to the local file some rule gives for it and holds every entry of every
  rule, the scopes and the rules without files are listed in order; planning fails only with a \<open>RuntimeError\<close>, and only if
  two different local files are mapped to one remote path.\<close>

theorem plan_exact:
  "case plan_rules rs of
     Inr p \<Rightarrow> dict_ok (planned p)
       \<and> (\<forall>l r. dict_get (planned p) r = Some l \<longleftrightarrow> (l, r) \<in> set (concat (map rr_entries rs)))
       \<and> managed_scopes p = map scope_prefix rs
       \<and> missing_local p = map (\<lambda>r. sr_source (rr_rule r)) (filter (\<lambda>r. rr_entries r = []) rs)
   | Inl e \<Rightarrow> e = RuntimeError
       \<and> (\<exists>l l' r. l \<noteq> l' \<and> (l, r) \<in> set (concat (map rr_entries rs)) \<and> (l', r) \<in> set (concat (map rr_entries rs)))"
proof -
  let ?f = "res_fold plan_entry (concat (map rr_entries rs)) []"
  have p: "plan_rules rs = res_bind ?f (\<lambda>pl. Inr \<lparr>planned = pl, managed_scopes = map scope_prefix rs,
      missing_local = map (\<lambda>r. sr_source (rr_rule r)) (filter (\<lambda>r. rr_entries r = []) rs)\<rparr>)"
    unfolding plan_rules_def plan_fold_entries empty_plan_def by simp
  note spec = plan_entries[of "[]" "concat (map rr_entries rs)"]
  show ?thesis
  proof (cases ?f)
    case (Inl e)
    then show ?thesis using spec unfolding p by (simp add: dict_simps del: set_concat)
  next
    case (Inr pl)
    then show ?thesis using spec unfolding p by (simp add: dict_simps del: set_concat)
  qed
qed

section \<open>Walking finds files\<close>

text \<open>The names of a tree, as a file system has them.\<close>

definition name_ok :: "string \<Rightarrow> bool" where
  "name_ok n \<longleftrightarrow> n \<noteq> [] \<and> n \<noteq> ''.'' \<and> n \<noteq> ''..'' \<and> CHR ''/'' \<notin> set n"

function tree_ok :: "fsnode \<Rightarrow> bool" where
  "tree_ok (FFile _) \<longleftrightarrow> True"
| "tree_ok (FDir es) \<longleftrightarrow> dict_ok es \<and> list_all (\<lambda>(n, x). name_ok n \<and> tree_ok x) es"
  by pat_completeness auto
termination
  by (relation "measure size") (auto intro: entry_smaller simp del: fsnode.size)

lemma walk_finds:
  assumes "tree_ok n" "p \<in> set (walk_files r n)"
  shows "\<exists>q c. p = r @ q \<and> q \<noteq> [] \<and> list_all name_ok q \<and> fs_lookup n q = Some (FFile c)"
  using assms
proof (induction r n rule: walk_files.induct)
  case (2 r es)
  have ok: "dict_ok es" "\<And>m x. (m, x) \<in> set es \<Longrightarrow> name_ok m \<and> tree_ok x" using 2(2) by (auto simp: list_all_iff)
  consider m x where "(m, x) \<in> set es" "\<not> is_fdir x" "p = r @ [m]"
    | m x where "(m, x) \<in> set es" "is_fdir x" "m \<noteq> ''.git''" "p \<in> set (walk_files (r @ [m]) x)"
    using 2(3) by auto
  then show ?case
  proof cases
    case (1 m x)
    then have "map_of es m = Some x" using ok(1) by (simp add: dict_ok_def)
    moreover obtain c where "x = FFile c" using 1(2) by (cases x) (simp_all add: is_fdir_def)
    ultimately have "fs_lookup (FDir es) [m] = Some (FFile c)" by simp
    then show ?thesis using 1 ok(2)[OF 1(1)] by (intro exI[of _ "[m]"] exI[of _ c]) simp
  next
    case (2 m x)
    have "\<exists>q c. p = (r @ [m]) @ q \<and> q \<noteq> [] \<and> list_all name_ok q \<and> fs_lookup x q = Some (FFile c)"
      using 2 ok(2)[OF 2(1)] by (intro "2.IH"[of "(m, x)" m x]) simp_all
    then obtain q c where "p = (r @ [m]) @ q" "list_all name_ok q" "fs_lookup x q = Some (FFile c)" by blast
    moreover have "map_of es m = Some x" using 2(1) ok(1) by (simp add: dict_ok_def)
    ultimately show ?thesis using ok(2)[OF 2(1)] by (intro exI[of _ "m # q"] exI[of _ c]) simp
  qed
qed simp

lemma resolve_names: "list_all name_ok ps \<Longrightarrow> resolve_parts ps = ps"
proof -
  have "list_all name_ok ps \<Longrightarrow> norm_comps True kept ps = rev kept @ ps" for kept
    by (induction ps arbitrary: kept) (auto simp: name_ok_def)
  then show "list_all name_ok ps \<Longrightarrow> resolve_parts ps = ps" by (simp add: resolve_parts_def)
qed

lemma fs_lookup_append: "fs_lookup n (a @ b) = Option.bind (fs_lookup n a) (\<lambda>m. fs_lookup m b)"
  by (induction n a rule: fs_lookup.induct) (auto split: option.splits)

lemma tree_ok_lookup: "tree_ok n \<Longrightarrow> fs_lookup n a = Some m \<Longrightarrow> tree_ok m"
proof (induction n a rule: fs_lookup.induct)
  case (2 es p ps)
  then obtain x where x: "map_of es p = Some x" "fs_lookup x ps = Some m" by (auto split: option.splits)
  then have "tree_ok x" using 2(2) map_of_SomeD[OF x(1)] by (auto simp: list_all_iff)
  then show ?case using 2(1) x by simp
qed auto

lemma iter_finds:
  assumes "tree_ok d" "list_all name_ok r" "p \<in> set (iter_local_files d r)"
  shows "\<exists>q c. p = r @ q \<and> q \<noteq> [] \<and> list_all name_ok q \<and> fs_at d (r @ q) = Some (FFile c)"
proof -
  obtain n where n: "fs_lookup d r = Some n" "p \<in> set (walk_files r n)"
    using assms(2,3) by (cases "fs_lookup d r") (simp_all add: iter_local_files_def fs_at_def resolve_names)
  from walk_finds[OF tree_ok_lookup[OF assms(1) n(1)] n(2)]
  obtain q c where q: "p = r @ q" "q \<noteq> []" "list_all name_ok q" "fs_lookup n q = Some (FFile c)" by blast
  then have "resolve_parts (r @ q) = r @ q" using assms(2) by (simp add: resolve_names)
  then have "fs_at d (r @ q) = Some (FFile c)" using n(1) q(4) by (simp add: fs_at_def fs_lookup_append)
  then show ?thesis using q by blast
qed

section \<open>Generated rules\<close>

text \<open>A tidy remote path: its names are not empty and no single dots, hold no backslash and have no white space at their
  ends, and double dots stand only in front. \<open>names_of\<close> takes the names apart.\<close>

definition names_of :: "string \<Rightarrow> string list" where
  "names_of p = (if p = [] then [] else split_on (CHR ''/'') p)"

definition tidy_names :: "string list \<Rightarrow> bool" where
  "tidy_names ns \<longleftrightarrow> clean_comps ns \<and> list_all (\<lambda>n. str_strip n = n) ns"

definition tidy :: "string \<Rightarrow> bool" where
  "tidy p \<longleftrightarrow> p \<noteq> [] \<and> tidy_names (names_of p)"

lemma join_split: "str_join ''/'' (split_on (CHR ''/'') p) = p"
proof (induction p)
  case (Cons a p)
  show ?case
  proof (cases "split_on (CHR ''/'') p")
    case Nil
    then show ?thesis by (simp add: split_on_def)
  next
    case split: (Cons q qs)
    then show ?thesis using Cons.IH by (cases qs) (auto simp: split_on_def)
  qed
qed (simp add: split_on_def)

lemma join_names: "str_join ''/'' (names_of p) = p"
  by (simp add: names_of_def join_split)

lemma dropWhile_butlast: "list_all Q (dropWhile P (xs @ [y])) \<Longrightarrow> list_all Q (dropWhile P xs)"
proof (cases "\<forall>x \<in> set xs. P x")
  case True
  then have e: "dropWhile P xs = []" by simp
  show ?thesis unfolding e by simp
next
  case False
  then show "list_all Q (dropWhile P (xs @ [y])) \<Longrightarrow> ?thesis" by (auto simp: dropWhile_append)
qed

lemma tidy_butlast:
  assumes "tidy_names ns"
  shows "tidy_names (butlast ns)"
proof (cases ns rule: rev_cases)
  case (snoc ms n)
  then have "list_all (\<lambda>c. c \<noteq> ''..'') (dropWhile (\<lambda>c. c = ''..'') (ms @ [n]))"
    using assms by (simp only: tidy_names_def clean_comps_def)
  from dropWhile_butlast[OF this] show ?thesis
    using assms snoc by (simp add: tidy_names_def clean_comps_def)
qed (use assms in simp)

lemma strip_ends: "str_strip n = n \<Longrightarrow> n \<noteq> [] \<Longrightarrow> trimmed n"
proof -
  assume s: "str_strip n = n" and n: "n \<noteq> []"
  have len: "length (rstrip_by P x) \<le> length x" for P x
    unfolding rstrip_by_def using length_dropWhile_le[of P "rev x"] by simp
  have "\<not> is_space (hd n)"
  proof
    assume "is_space (hd n)"
    then have "length (dropWhile is_space n) < length n" using n length_dropWhile_le[of is_space "tl n"] by (cases n) auto
    then show False using s len[of is_space "dropWhile is_space n"] by (simp add: str_strip_def strip_by_def)
  qed
  moreover from this have "dropWhile is_space n = n" using n by (cases n) auto
  then have "rstrip_by is_space n = n" using s by (simp add: str_strip_def strip_by_def)
  then have "dropWhile is_space (rev n) = rev n" unfolding rstrip_by_def by (metis rev_rev_ident)
  then have "\<not> is_space (last n)" using n hd_dropWhile[of is_space "rev n"] by (simp add: hd_rev)
  ultimately show "trimmed n" using n by (simp add: trimmed_def)
qed

lemma last_join:
  assumes "ns \<noteq> []" "\<And>m. m \<in> set ns \<Longrightarrow> m \<noteq> []"
  shows "str_join ''/'' ns \<noteq> [] \<and> last (str_join ''/'' ns) = last (last ns)"
  using assms
proof (induction ns)
  case (Cons m ms)
  then show ?case by (cases ms) auto
qed simp

lemma tidy_trimmed:
  assumes "tidy_names ns" "ns \<noteq> []"
  shows "trimmed (str_join ''/'' ns)"
  using assms
proof (induction ns)
  case (Cons n ns)
  have n: "trimmed n"
    using Cons.prems(1) by (intro strip_ends) (auto simp: tidy_names_def clean_comps_def plain_comp_def)
  show ?case
  proof (cases "ns = []")
    case False
    have ne: "m \<noteq> []" if "m \<in> set ns" for m
      using Cons.prems(1) that by (auto simp: tidy_names_def clean_comps_def plain_comp_def list_all_iff)
    have "trimmed (last ns)"
      using Cons.prems(1) False ne[OF last_in_set[OF False]]
      by (intro strip_ends) (auto simp: tidy_names_def list_all_iff)
    moreover have "str_join ''/'' ns \<noteq> [] \<and> last (str_join ''/'' ns) = last (last ns)" using last_join False ne by blast
    ultimately show ?thesis using n False by (cases ns) (auto simp: trimmed_def)
  qed (use n in simp)
qed simp

lemma tidy_normal:
  assumes "tidy_names ns"
  shows "normalize_remote_path (str_join ''/'' ns) = str_join ''/'' ns"
proof (cases "ns = []")
  case True
  have "normalize_remote_path [] = []" by code_simp
  then show ?thesis using True by simp
next
  case False
  have "clean_comps ns" using assms by (simp only: tidy_names_def)
  then show ?thesis by (rule normalize_clean_id[OF _ strip_trimmed(1)[OF tidy_trimmed[OF assms False]]])
qed

lemma join_snoc: "ms \<noteq> [] \<Longrightarrow> str_join ''/'' (ms @ [n]) = str_join ''/'' ms @ ''/'' @ n"
proof (induction ms)
  case (Cons m ms)
  then show ?case by (cases ms) auto
qed simp

lemma plain_join:
  assumes "list_all plain_comp ns" "ns \<noteq> []"
  shows "posix_basename (str_join ''/'' ns) = last ns" "posix_dirname (str_join ''/'' ns) = str_join ''/'' (butlast ns)"
proof -
  show base: "posix_basename (str_join ''/'' ns) = last ns"
    unfolding posix_basename_def split_clean_join[OF assms] ..
  obtain ms n where ns: "ns = ms @ [n]" using assms(2) by (cases ns rule: rev_cases) auto
  show "posix_dirname (str_join ''/'' ns) = str_join ''/'' (butlast ns)"
  proof (cases "ms = []")
    case True
    then show ?thesis using base ns by (simp add: posix_dirname_def)
  next
    case False
    have join: "str_join ''/'' ns = str_join ''/'' ms @ ''/'' @ n"
      unfolding ns by (rule join_snoc[OF False])
    have pm: "list_all plain_comp ms" using assms(1) ns by simp
    have "str_join ''/'' ms \<noteq> [] \<and> last (str_join ''/'' ms) = last (last ms)"
      using pm by (intro last_join False) (auto simp: plain_comp_def list_all_iff)
    moreover have "last (last ms) \<noteq> CHR ''/''"
    proof -
      have "plain_comp (last ms)" using pm last_in_set[OF False] by (auto simp: list_all_iff)
      then show ?thesis using last_in_set[of "last ms"] by (metis plain_comp_def)
    qed
    ultimately have end_ok: "rstrip_by is_slash (str_join ''/'' ms) = str_join ''/'' ms \<and> \<not> list_all is_slash (str_join ''/'' ms)"
      using last_in_set[of "str_join ''/'' ms"] by (auto simp: rstrip_by_last is_slash_def list_all_iff)
    have sl: "is_slash (CHR ''/'')" by (simp add: is_slash_def)
    have head: "take (length (str_join ''/'' ns) - length (posix_basename (str_join ''/'' ns))) (str_join ''/'' ns) = str_join ''/'' ms @ ''/''"
      unfolding base unfolding join by (simp add: ns)
    show ?thesis
      unfolding posix_dirname_def Let_def head using end_ok sl ns by (simp add: rstrip_by_drop)
  qed
qed

lemma tidy_parts:
  assumes "tidy p"
  shows "names_of p = names_of (posix_dirname p) @ [posix_basename p]" "tidy_names (names_of (posix_dirname p))"
    "normalize_remote_path (posix_dirname p) = posix_dirname p" "join_remote [posix_dirname p, posix_basename p] = p"
proof -
  let ?ns = "names_of p"
  have t: "tidy_names ?ns" and ne: "?ns \<noteq> []" using assms by (auto simp: tidy_def names_of_def split_on_def)
  then have plain: "list_all plain_comp ?ns" by (simp add: tidy_names_def clean_comps_def)
  note p = plain_join[OF plain ne, unfolded join_names]
  have tb: "tidy_names (butlast ?ns)" by (rule tidy_butlast[OF t])
  have dirs: "names_of (str_join ''/'' (butlast ?ns)) = butlast ?ns"
  proof (cases "butlast ?ns = []")
    case False
    have "list_all plain_comp (butlast ?ns)" using tb by (simp add: tidy_names_def clean_comps_def)
    from split_clean_join[OF this False] have split: "split_on (CHR ''/'') (str_join ''/'' (butlast ?ns)) = butlast ?ns" .
    have "str_join ''/'' (butlast ?ns) \<noteq> []"
      using last_join[OF False] \<open>list_all plain_comp (butlast ?ns)\<close> unfolding list_all_iff plain_comp_def by blast
    then show ?thesis unfolding names_of_def[of "str_join ''/'' (butlast ?ns)"] split by simp
  next
    case True
    show ?thesis unfolding True by (simp add: names_of_def)
  qed
  show "names_of p = names_of (posix_dirname p) @ [posix_basename p]"
    unfolding p dirs by (rule append_butlast_last_id[OF ne, symmetric])
  show "tidy_names (names_of (posix_dirname p))" unfolding p dirs by (rule tb)
  show dir: "normalize_remote_path (posix_dirname p) = posix_dirname p" unfolding p by (rule tidy_normal[OF tb])
  have lp: "plain_comp (last ?ns)" and ls: "str_strip (last ?ns) = last ?ns"
    using plain t last_in_set[OF ne] by (auto simp: tidy_names_def list_all_iff)
  have base: "normalize_remote_path (last ?ns) = last ?ns \<or> last ?ns = ''..''"
    using tidy_normal[of "[last ?ns]"] lp ls by (auto simp: tidy_names_def clean_comps_def)
  have dd: "normalize_remote_path ''..'' = ''..''" by code_simp
  have "join_remote [posix_dirname p, posix_basename p] = str_join ''/'' (filter (\<lambda>p. p \<noteq> []) [posix_dirname p, last ?ns])"
    using base dd dir p(1) by (auto simp: join_remote_def)
  also have "\<dots> = p"
  proof (cases "butlast ?ns = []")
    case True
    then have "?ns = [last ?ns]" using append_butlast_last_id[OF ne] by simp
    then have "str_join ''/'' [last ?ns] = p" using join_names[of p] by simp
    then show ?thesis using lp p(2) True by (simp add: plain_comp_def)
  next
    case False
    have "posix_dirname p \<noteq> []" using last_join[OF False] tb p(2) by (auto simp: tidy_names_def clean_comps_def plain_comp_def list_all_iff)
    moreover have "p = str_join ''/'' (butlast ?ns @ [last ?ns])" using ne join_names[of p] by simp
    then have "p = posix_dirname p @ ''/'' @ last ?ns" unfolding join_snoc[OF False] p(2) .
    ultimately show ?thesis using lp by (simp add: plain_comp_def)
  qed
  finally show "join_remote [posix_dirname p, posix_basename p] = p" .
qed

lemma dict_get_or_set: "dict_get_or (dict_set k v d) k' x = (if k' = k then v else dict_get_or d k' x)"
  by (simp add: dict_get_or_def dict_get_set)

lemma by_name_entries:
  "q \<in> set (dict_get_or (local_by_name ps) n []) \<Longrightarrow> q \<in> set ps \<and> last q = n"
proof -
  have "q \<in> set (dict_get_or (fold (\<lambda>p d. dict_set (last p) (dict_get_or d (last p) [] @ [p]) d) ps d) n [])
      \<Longrightarrow> (q \<in> set ps \<and> last q = n) \<or> q \<in> set (dict_get_or d n [])" for d
  proof (induction ps arbitrary: d)
    case (Cons p ps)
    from Cons.IH[OF Cons.prems[simplified]] show ?case by (auto simp: dict_get_or_set split: if_splits)
  qed simp
  from this[of "[]"] show "q \<in> set (dict_get_or (local_by_name ps) n []) \<Longrightarrow> q \<in> set ps \<and> last q = n"
    unfolding local_by_name_def by (simp add: dict_get_or_def dict_get_empty)
qed

lemma select_in: "select_pdf_match r p ms = Inr m \<Longrightarrow> m \<in> set ms"
proof -
  assume "select_pdf_match r p ms = Inr m"
  then obtain xs where "sort_key (pdf_score r p) ms = m # xs" by (auto simp: select_pdf_match_def split: list.splits)
  then have "set (sort_key (pdf_score r p) ms) = set (m # xs)" by (rule arg_cong)
  then show ?thesis by simp
qed

definition made_from :: "string list \<Rightarrow> (string, string list list) dict \<Rightarrow> string list \<Rightarrow> generated_rule \<Rightarrow> bool" where
  "made_from r names pdfs item \<longleftrightarrow> gr_remote_path item \<in> set pdfs
     \<and> gr_target_dir item = normalize_remote_path (posix_dirname (gr_remote_path item))
     \<and> (\<exists>q \<in> set (dict_get_or names (posix_basename (gr_remote_path item)) []). gr_source item = rel_posix (drop (length r) q))"

lemma generated_from:
  assumes "res_fold (generate_rule r names) pdfs g = Inr g'" "item \<in> set (gen_rules g')"
  shows "item \<in> set (gen_rules g) \<or> made_from r names pdfs item"
  using assms
proof (induction pdfs arbitrary: g)
  case (Cons p pdfs)
  from Cons.prems(1) obtain g1 where g1: "generate_rule r names p g = Inr g1" "res_fold (generate_rule r names) pdfs g1 = Inr g'"
    by (auto simp: res_bind_eq_Inr)
  let ?ms = "map (drop (length r)) (sort (dict_get_or names (posix_basename p) []))"
  have new: "made_from r names [p] i \<or> i \<in> set (gen_rules g)" if "i \<in> set (gen_rules g1)" for i
  proof (cases "?ms = []")
    case True
    then show ?thesis using g1(1) that by (auto simp: generate_rule_def Let_def)
  next
    case False
    then obtain rel where rel: "select_pdf_match (posix r) p ?ms = Inr rel"
      using g1(1) by (cases "select_pdf_match (posix r) p ?ms") (auto simp: generate_rule_def Let_def)
    have "gen_rules g1 = gen_rules g @ [\<lparr>gr_source = rel_posix rel, gr_target_dir = normalize_remote_path (posix_dirname p),
                      gr_remote_path = p, gr_local_path = posix (r @ rel)\<rparr>]"
      using g1(1) rel False by (auto simp: generate_rule_def Let_def)
    then show ?thesis using that select_in[OF rel] by (auto simp: made_from_def)
  qed
  from Cons.IH[OF g1(2) Cons.prems(2)] show ?case using new by (auto simp: made_from_def)
qed simp

lemma suffix_name: "list_all name_ok q \<Longrightarrow> q \<noteq> [] \<Longrightarrow> path_parts (str_join ''/'' q) = q \<and> \<not> starts_with ''/'' (str_join ''/'' q)"
proof -
  assume q: "list_all name_ok q" "q \<noteq> []"
  have "split_on (CHR ''/'') (str_join ''/'' q) = q"
    by (rule split_on_join) (use q in \<open>auto simp: list_all_iff name_ok_def\<close>)
  then have "path_parts (str_join ''/'' q) = q" using q(1) by (auto simp: path_parts_def filter_id_conv list_all_iff name_ok_def)
  moreover have "\<not> starts_with ''/'' (str_join ''/'' q)"
  proof -
    obtain n ns where n: "q = n # ns" using q(2) by (cases q) auto
    then obtain a as where "n = a # as" "a \<noteq> CHR ''/''" using q(1) by (cases n) (auto simp: name_ok_def)
    then show ?thesis using n by (cases ns) (auto simp: starts_with_def)
  qed
  ultimately show ?thesis ..
qed

text \<open>Writing a file leaves every other file as it was.\<close>

lemma fs_write_lookup:
  assumes "fs_write False ps c n = Inr m"
  shows "fs_lookup m ps = Some (FFile c)
    \<and> (\<forall>k qs x. n = Some k \<and> qs \<noteq> ps \<and> fs_lookup k qs = Some (FFile x) \<longrightarrow> fs_lookup m qs = Some (FFile x))"
  using assms
proof (induction ps arbitrary: n m)
  case Nil
  then have m: "m = FFile c" and n: "\<forall>es. n \<noteq> Some (FDir es)" by (auto split: option.splits fsnode.splits)
  have "fs_lookup m qs = Some (FFile x)" if "n = Some k" "qs \<noteq> []" "fs_lookup k qs = Some (FFile x)" for k qs x
    using that n by (cases k; cases qs) auto
  then show ?case using m by simp
next
  case (Cons p ps)
  from Cons.prems obtain es m1 where n: "n = Some (FDir es)" and m1: "fs_write False ps c (map_of es p) = Inr m1"
    and m: "m = FDir (dict_set p m1 es)"
    by (auto simp: res_bind_eq_Inr split: option.splits fsnode.splits)
  have get: "map_of (dict_set p m1 es) q = (if q = p then Some m1 else map_of es q)" for q
    using dict_get_set[of p m1 es q] by (simp add: dict_get_def)
  note IH = Cons.IH[OF m1]
  have "fs_lookup m qs = Some (FFile x)" if "qs \<noteq> p # ps" "fs_lookup (FDir es) qs = Some (FFile x)" for qs x
  proof (cases qs)
    case (Cons q rs)
    show ?thesis
    proof (cases "q = p")
      case True
      then have "rs \<noteq> ps" "\<exists>k. map_of es p = Some k \<and> fs_lookup k rs = Some (FFile x)"
        using that Cons by (auto split: option.splits)
      then have "fs_lookup m1 rs = Some (FFile x)" using IH by blast
      then show ?thesis using Cons True by (simp add: m get)
    next
      case False
      then show ?thesis using that Cons by (simp add: m get)
    qed
  qed (use that in simp)
  then show ?case using IH n by (simp add: m get)
qed

lemma made_rule_hits:
  assumes "tree_ok d" "list_all name_ok repo_root" "generate_rules d repo_root remote_files = Inr g" "item \<in> set (gen_rules g)"
    and "tidy (gr_remote_path item)" "\<not> has_glob_magic (gr_source item)" "expanduser env (gr_source item) = gr_source item"
  shows "\<exists>l c. resolve_parts l = l \<and> l \<noteq> mapping_path repo_root \<and> fs_lookup d l = Some (FFile c)
    \<and> last l = posix_basename (gr_remote_path item)
    \<and> (\<forall>d'. fs_lookup d' l = Some (FFile c)
        \<longrightarrow> rr_entries (expand_rule env d' (to_sync_rule item) repo_root) = [(l, gr_remote_path item)])"
proof -
  let ?p = "gr_remote_path item"
  let ?names = "local_by_name (iter_local_files_by_suffix d repo_root ''.pdf'')"
  have "made_from repo_root ?names (remote_pdfs remote_files) item"
    using generated_from[of repo_root ?names "remote_pdfs remote_files"] assms(3,4)
    by (fastforce simp: generate_rules_def Let_def split: if_splits)
  then obtain p where t: "gr_target_dir item = normalize_remote_path (posix_dirname ?p)"
    and p: "p \<in> set (dict_get_or ?names (posix_basename ?p) [])" and src: "gr_source item = rel_posix (drop (length repo_root) p)"
    unfolding made_from_def by blast
  from by_name_entries[OF p] have it: "p \<in> set (iter_local_files d repo_root)" and nm: "last p = posix_basename ?p"
    and pdf: "str_lower (path_suffix (last p)) = str_lower ''.pdf''"
    unfolding iter_local_files_by_suffix_def by auto
  from iter_finds[OF assms(1,2) it] obtain q c where q: "p = repo_root @ q" "q \<noteq> []" "list_all name_ok q"
    "fs_at d (repo_root @ q) = Some (FFile c)" by blast
  have s: "gr_source item = str_join ''/'' q" using src q by (simp add: rel_posix_def)
  have res: "resolve_parts (repo_root @ q) = repo_root @ q" using q(3) assms(2) by (simp add: resolve_names)
  then have path: "resolve_local_path env repo_root (gr_source item) = repo_root @ q"
    using assms(7) suffix_name[OF q(3,2)] unfolding s by (simp add: resolve_local_path_def path_over_def)
  have dir: "normalize_remote_path (posix_dirname ?p) = posix_dirname ?p" "join_remote [posix_dirname ?p, posix_basename ?p] = ?p"
    using tidy_parts[OF assms(5)] by simp_all
  have "rr_entries (expand_rule env d' (to_sync_rule item) repo_root) = [(repo_root @ q, ?p)]"
    if "fs_lookup d' (repo_root @ q) = Some (FFile c)" for d'
  proof -
    have "fs_file d' (repo_root @ q) = Some c" "fs_dir d' (repo_root @ q) = None"
      using that by (simp_all add: fs_file_def fs_dir_def fs_at_def res)
    then show ?thesis
      using assms(6) dir nm q(1)
      by (simp add: expand_rule_def to_sync_rule_def path t entry_if_def match_patterns_def Let_def)
  qed
  moreover have "repo_root @ q \<noteq> mapping_path repo_root"
  proof
    assume "repo_root @ q = mapping_path repo_root"
    then have "last p = MAPPING_FILENAME" unfolding q(1) by (simp add: mapping_path_def)
    moreover have "str_lower (path_suffix MAPPING_FILENAME) \<noteq> str_lower ''.pdf''" by code_simp
    ultimately show False using pdf by simp
  qed
  ultimately show ?thesis using res q(1,4) nm by (intro exI[of _ "repo_root @ q"] exI[of _ c]) (simp add: fs_at_def)
qed

text \<open>C24: Generated rules hit their target. When \<^verbatim>\<open>--autogen-rules\<close> has written its rules to the mapping file of the
  repository, the next run reads exactly these rules back, provided each of them fits on a line of that file: source and
  directory have no line break and no white space at their ends, and the source has no arrow and does not start with a
  number sign. Each rule whose source holds no glob character and does not start with a tilde then expands to exactly one
  local file, which exists and has the name of the remote file, and plans it for exactly that remote path, provided the
  remote path is tidy: its names are not empty and no single dots, hold no backslash and have no white space at their ends,
  and double dots stand only in front.\<close>

theorem generated_rule_hits:
  assumes "tree_ok (disk s)" "list_all name_ok repo_root" "generate_rules (disk s) repo_root remote_files = Inr g"
    and "list_all rule_ok (map to_sync_rule (gen_rules g))"
    and "write_text False (mapping_path repo_root) (write_mapping_file (map to_sync_rule (gen_rules g))) s = Some (Inr (), s')"
  shows "read_mapping (disk s') repo_root = Inr (map to_sync_rule (gen_rules g))
    \<and> (\<forall>item \<in> set (gen_rules g). tidy (gr_remote_path item) \<and> \<not> has_glob_magic (gr_source item)
          \<and> expanduser env (gr_source item) = gr_source item
        \<longrightarrow> (\<exists>l. rr_entries (expand_rule env (disk s') (to_sync_rule item) repo_root) = [(l, gr_remote_path item)]
              \<and> fs_file (disk s') l \<noteq> None \<and> last l = posix_basename (gr_remote_path item)))"
proof -
  have "name_ok MAPPING_FILENAME" by code_simp
  then have m: "resolve_parts (mapping_path repo_root) = mapping_path repo_root"
    using assms(2) by (simp add: resolve_names mapping_path_def)
  have "fs_write False (mapping_path repo_root) (write_mapping_file (map to_sync_rule (gen_rules g))) (Some (disk s)) = Inr (disk s')"
    using assms(5) unfolding write_text_def m by (auto split: sum.splits)
  note w = fs_write_lookup[OF this]
  have "read_mapping (disk s') repo_root = load_mapping_file (Some (write_mapping_file (map to_sync_rule (gen_rules g))))"
    using w by (simp add: read_mapping_def fs_file_def fs_at_def m)
  moreover have "\<exists>l. rr_entries (expand_rule env (disk s') (to_sync_rule item) repo_root) = [(l, gr_remote_path item)]
      \<and> fs_file (disk s') l \<noteq> None \<and> last l = posix_basename (gr_remote_path item)"
    if "item \<in> set (gen_rules g)" "tidy (gr_remote_path item)" "\<not> has_glob_magic (gr_source item)"
      "expanduser env (gr_source item) = gr_source item" for item
  proof -
    from made_rule_hits[OF assms(1-3) that] obtain l c where l: "resolve_parts l = l" "l \<noteq> mapping_path repo_root"
      "fs_lookup (disk s) l = Some (FFile c)" "last l = posix_basename (gr_remote_path item)"
      and hit: "\<And>d'. fs_lookup d' l = Some (FFile c)
        \<Longrightarrow> rr_entries (expand_rule env d' (to_sync_rule item) repo_root) = [(l, gr_remote_path item)]" by blast
    have "fs_lookup (disk s') l = Some (FFile c)" using w l(2,3) by blast
    then show ?thesis using hit l(1,4) by (intro exI[of _ l]) (simp add: fs_file_def fs_at_def)
  qed
  ultimately show ?thesis using rules_file_reads_back[OF assms(4)] by simp
qed

text \<open>A repository with two figures of the same name, and a project that holds one of them.\<close>

definition sample_tree :: fsnode where
  "sample_tree = FDir [(''r'', FDir [(''a.pdf'', FFile ''old''), (''figs'', FDir [(''a.pdf'', FFile ''new'')]),
     (''b[1].pdf'', FFile ''x''), (''.git'', FDir [(''c.pdf'', FFile ''y'')])])]"

definition sample_files :: file_map where
  "sample_files = [(''figs/a.pdf'', \<lparr>re_kind = ''file'', re_entity = JObj [(''_id'', JStr ''f1'')]\<rparr>)]"

definition sample_rule :: generated_rule where
  "sample_rule = \<lparr>gr_source = ''figs/a.pdf'', gr_target_dir = ''figs'', gr_remote_path = ''figs/a.pdf'', gr_local_path = ''/r/figs/a.pdf''\<rparr>"

definition no_surroundings :: "nat surroundings" where
  "no_surroundings = \<lparr>http = (\<lambda>_ _ w. (Inl ConnectionError, w)), new_session = (\<lambda>w. (w, Suc w)), set_cookie = (\<lambda>_ _ _ _ w. w),
     clock = (\<lambda>w. (real w, Suc w)), ask = (\<lambda>_ _ w. (Inl OSError, w)), json_loads = (\<lambda>_. Inl ValueError), json_dumps = (\<lambda>_. []),
     json_pretty = (\<lambda>_. []), py_str = (\<lambda>_. []), html_unescape = (\<lambda>x. x), guess_type = (\<lambda>_. None), utf8 = (\<lambda>x. x),
     expanduser = (\<lambda>x. x), frame_sep = CHR 0xFF\<rparr>"

definition sample_generated :: generated where
  "sample_generated = \<lparr>gen_rules = [sample_rule], skipped_missing = [],
     resolved_ambiguous = [(''figs/a.pdf'', [''figs'', ''a.pdf''], [[''a.pdf''], [''figs'', ''a.pdf'']])]\<rparr>"

definition sample_helper :: "nat helper" where
  "sample_helper = \<lparr>outside = 0, sent = [], logs = [], disk = sample_tree\<rparr>"

definition sample_written :: "nat helper" where
  "sample_written = sample_helper\<lparr>disk := (case fs_write False [''r'', MAPPING_FILENAME]
     (write_mapping_file [to_sync_rule sample_rule]) (Some sample_tree) of Inr d \<Rightarrow> d | Inl _ \<Rightarrow> sample_tree)\<rparr>"

theorem generated_rule_hits_witness:
  "read_mapping (disk sample_written) [''r''] = Inr [\<lparr>sr_source = ''figs/a.pdf'', sr_target_dir = ''figs'', sr_exclude = []\<rparr>]
    \<and> (\<exists>l. rr_entries (expand_rule no_surroundings (disk sample_written) (to_sync_rule sample_rule) [''r'']) = [(l, ''figs/a.pdf'')]
        \<and> fs_file (disk sample_written) l \<noteq> None \<and> last l = ''a.pdf'')"
proof -
  have ok: "tree_ok (disk sample_helper)" "list_all name_ok [''r'']" by code_simp+
  have gen: "generate_rules (disk sample_helper) [''r''] sample_files = Inr sample_generated" by code_simp
  have fits: "list_all rule_ok (map to_sync_rule (gen_rules sample_generated))" by code_simp
  have written: "write_text False (mapping_path [''r'']) (write_mapping_file (map to_sync_rule (gen_rules sample_generated))) sample_helper
      = Some (Inr (), sample_written)"
    by code_simp
  have side: "tidy (gr_remote_path sample_rule)" "\<not> has_glob_magic (gr_source sample_rule)" by code_simp+
  have user: "expanduser no_surroundings (gr_source sample_rule) = gr_source sample_rule" by (simp add: no_surroundings_def)
  have vals: "gr_remote_path sample_rule = ''figs/a.pdf''" "posix_basename ''figs/a.pdf'' = ''a.pdf''" by code_simp+
  have one: "gen_rules sample_generated = [sample_rule]" by (simp add: sample_generated_def)
  have "to_sync_rule sample_rule = \<lparr>sr_source = ''figs/a.pdf'', sr_target_dir = ''figs'', sr_exclude = []\<rparr>"
    by (simp add: to_sync_rule_def sample_rule_def)
  with generated_rule_hits[OF ok gen fits written, of no_surroundings] side user show ?thesis
    unfolding one by (simp add: vals)
qed

text \<open>A file whose name has a bracket gets a rule that reads as a pattern and matches nothing.\<close>

lemma bracket_rule_misses:
  "rr_entries (expand_rule no_surroundings sample_tree \<lparr>sr_source = ''b[1].pdf'', sr_target_dir = [], sr_exclude = []\<rparr> [''r'']) = []
    \<and> generate_rules sample_tree [''r''] [(''b[1].pdf'', \<lparr>re_kind = ''file'', re_entity = JNull\<rparr>)]
      = Inr \<lparr>gen_rules = [\<lparr>gr_source = ''b[1].pdf'', gr_target_dir = [], gr_remote_path = ''b[1].pdf'', gr_local_path = ''/r/b[1].pdf''\<rparr>],
          skipped_missing = [], resolved_ambiguous = []\<rparr>"
  by code_simp

text \<open>The directories of the project keep their case in the score while the local ones are lowered: a directory with a
  capital letter never counts as shared, and the file at the top wins.\<close>

lemma capital_directory_loses:
  "select_pdf_match ''/r'' ''Figs/a.pdf'' [[''Figs'', ''a.pdf''], [''a.pdf'']] = Inr [''a.pdf'']
   \<and> select_pdf_match ''/r'' ''figs/a.pdf'' [[''figs'', ''a.pdf''], [''a.pdf'']] = Inr [''figs'', ''a.pdf'']"
  by code_simp

text \<open>A directory name that ends in white space is planned as it is but uploaded, and read back, without it.\<close>

lemma spaced_directory_differs:
  "join_remote [[], ''x /y.pdf''] = ''x /y.pdf'' \<and> normalize_remote_path (posix_dirname ''x /y.pdf'') = ''x'' \<and> \<not> tidy ''x /y.pdf''"
  by code_simp

end
