(* ===== verification/StoreFacts.thy ===== *)
theory StoreFacts
  imports OverleafFacts PlanFacts
begin

text \<open>
  What a run of the helper does to the files of the project. The server is unknown code: \<open>store\<close> is what is assumed to be
  visible of it, a tree of folders with files at paths in it, and \<open>serves\<close> states the documented effect of each request on
  that view. Then a real run leaves every planned file with its local content at its path and every other file alone, and a
  dry run predicts the report of the real one.
\<close>

section \<open>The view of the server\<close>

text \<open>The content at each path of names from the root folder, the path of each file identifier, and the path of each folder
  identifier.\<close>

record store =
  stored :: "string list \<Rightarrow> string option"
  live :: "string \<Rightarrow> string list option"
  folder_at :: "string \<Rightarrow> string list option"

definition ok_response :: "response \<Rightarrow> bool" where
  "ok_response res \<longleftrightarrow> \<not> (400 \<le> rs_status res \<and> rs_status res < 600)"

definition quiet_server :: "'w surroundings \<Rightarrow> ('w \<Rightarrow> store) \<Rightarrow> bool" where
  "quiet_server env V \<longleftrightarrow> (\<forall>w. V (snd (clock env w)) = V w) \<and> (\<forall>w. V (snd (new_session env w)) = V w)
     \<and> (\<forall>sid n v dom_name w. V (set_cookie env sid n v dom_name w) = V w)
     \<and> (\<forall>sid q w. \<not> changes_project q \<longrightarrow> V (snd (http env sid q w)) = V w)"

text \<open>Putting a file at a path replaces what was there; identifiers of other files stay valid.\<close>

definition file_put :: "string list \<Rightarrow> string \<Rightarrow> store \<Rightarrow> store \<Rightarrow> bool" where
  "file_put k content v v' \<longleftrightarrow> stored v' = (stored v)(k \<mapsto> content) \<and> folder_at v' = folder_at v
     \<and> (\<forall>i k'. live v i = Some k' \<longrightarrow> k' \<noteq> k \<longrightarrow> live v' i = Some k')"

text \<open>A download returns the content at the path of the file. An upload and a new document land under the given name in the
  folder with the given identifier. A new folder is a child, under the given name, of the folder with the given identifier,
  and has an identifier that was not in use. Nothing is promised for a parent that is not a folder of the project.\<close>

definition serves :: "'w surroundings \<Rightarrow> client \<Rightarrow> string \<Rightarrow> ('w \<Rightarrow> store) \<Rightarrow> bool" where
  "serves env c pid V \<longleftrightarrow> quiet_server env V
     \<and> (\<forall>w i res w' k. http env (session c) (download_request env c pid i) w = (Inr res, w') \<and> ok_response res
          \<and> live (V w) (fmt env i) = Some k \<longrightarrow> stored (V w) k = Some (rs_content res))
     \<and> (\<forall>w i n b res w' q. http env (session c) (upload_request env c pid i n b) w = (Inr res, w') \<and> ok_response res
          \<and> folder_at (V w) (fmt env i) = Some q \<longrightarrow> file_put (q @ [n]) b (V w) (V w'))
     \<and> (\<forall>w i n res w' q. http env (session c) (doc_request c pid i n) w = (Inr res, w') \<and> ok_response res
          \<and> folder_at (V w) (fmt env i) = Some q \<longrightarrow> file_put (q @ [n]) [] (V w) (V w'))
     \<and> (\<forall>w i n res w' f x q. http env (session c) (folder_request c pid i n) w = (Inr res, w') \<and> ok_response res
          \<and> json_loads env (rs_text res) = Inr f \<and> jfield f ''_id'' = Inr x \<and> folder_at (V w) (fmt env i) = Some q
          \<longrightarrow> folder_at (V w) (fmt env x) = None \<and> folder_at (V w') = (folder_at (V w))(fmt env x \<mapsto> q @ [n])
            \<and> stored (V w') = stored (V w) \<and> live (V w') = live (V w))"

definition keeps_store :: "'w surroundings \<Rightarrow> ('w \<Rightarrow> store) \<Rightarrow> 'w helper \<Rightarrow> 'w helper \<Rightarrow> bool" where
  "keeps_store env V s s' \<longleftrightarrow> (quiet_server env V \<longrightarrow> V (outside s') = V (outside s)) \<and> disk s' = disk s"

interpretation keeping: quiet_steps "keeps_store env V" env for env :: "'w surroundings" and V
proof
  show "guarantees (keeps_store env V) (send env sid q)" if "\<not> changes_project q" for sid q
    using that by (auto simp: guarantees_def keeps_store_def quiet_server_def send_def Let_def split: prod.splits) (metis snd_conv)
  show "guarantees (keeps_store env V) (time_time env)"
    by (auto simp: guarantees_def keeps_store_def quiet_server_def time_time_def Let_def split: prod.splits) (metis snd_conv)
qed (auto simp: guarantees_def keeps_store_def quiet_server_def log_line_def act_put_def)

lemma quiet_step:
  assumes "guarantees (keeps_store env V) m" "m s = Some (r, s')" "quiet_server env V"
  shows "V (outside s') = V (outside s)" "disk s' = disk s"
  using assms by (auto simp: guarantees_def keeps_store_def)

section \<open>The effect of a request\<close>

lemma send_InrE:
  assumes "send env sid q s = Some (Inr res, s')"
  obtains w where "http env sid q (outside s) = (Inr res, w)" "ok_response res" "outside s' = w" "disk s' = disk s"
  using assms by (auto simp: send_def Let_def ok_response_def res_bind_eq_Inr split: prod.splits if_splits)

lemma upload_stores:
  assumes "serves env c pid V" "upload_file env c pid i n b s = Some (Inr j, s')" "folder_at (V (outside s)) (fmt env i) = Some q"
  shows "file_put (q @ [n]) b (V (outside s)) (V (outside s')) \<and> disk s' = disk s"
proof -
  from assms(2)[unfolded upload_file_def] obtain res t
    where "send env (session c) (upload_request env c pid i n b) s = Some (Inr res, t)" "s' = t"
    by (auto elim!: act_bind_InrE simp: act_lift_def)
  moreover from this obtain w where "http env (session c) (upload_request env c pid i n b) (outside s) = (Inr res, w)" "ok_response res"
      "outside s' = w" "disk s' = disk s"
    by (auto elim!: send_InrE)
  ultimately show ?thesis
    using assms(1)[unfolded serves_def, THEN conjunct2, THEN conjunct2, THEN conjunct1, rule_format, of i n b "outside s" res w q]
      assms(3) by simp
qed

lemma doc_stores:
  assumes "serves env c pid V" "add_doc env c pid i n s = Some (Inr j, s')" "folder_at (V (outside s)) (fmt env i) = Some q"
  shows "file_put (q @ [n]) [] (V (outside s)) (V (outside s')) \<and> disk s' = disk s"
proof -
  from assms(2)[unfolded add_doc_def] obtain res t
    where "send env (session c) (doc_request c pid i n) s = Some (Inr res, t)" "s' = t"
    by (auto elim!: act_bind_InrE simp: act_lift_def doc_request_def)
  moreover from this obtain w where "http env (session c) (doc_request c pid i n) (outside s) = (Inr res, w)" "ok_response res"
      "outside s' = w" "disk s' = disk s"
    by (auto elim!: send_InrE)
  ultimately show ?thesis
    using assms(1)[unfolded serves_def, THEN conjunct2, THEN conjunct2, THEN conjunct2, THEN conjunct1, rule_format, of i n "outside s" res w q]
      assms(3) by simp
qed

lemma folder_added:
  assumes "serves env c pid V" "add_folder env c pid i n s = Some (Inr f, s')" "jfield f ''_id'' = Inr x"
    and "folder_at (V (outside s)) (fmt env i) = Some q"
  shows "folder_at (V (outside s)) (fmt env x) = None
    \<and> folder_at (V (outside s')) = (folder_at (V (outside s)))(fmt env x \<mapsto> q @ [n])
    \<and> stored (V (outside s')) = stored (V (outside s)) \<and> live (V (outside s')) = live (V (outside s)) \<and> disk s' = disk s"
proof -
  from assms(2)[unfolded add_folder_def] obtain res t
    where "send env (session c) (folder_request c pid i n) s = Some (Inr res, t)" "s' = t" "json_loads env (rs_text res) = Inr f"
    by (auto elim!: act_bind_InrE simp: act_lift_def folder_request_def)
  moreover from this obtain w where "http env (session c) (folder_request c pid i n) (outside s) = (Inr res, w)" "ok_response res"
      "outside s' = w" "disk s' = disk s"
    by (auto elim!: send_InrE)
  ultimately show ?thesis
    using assms(1)[unfolded serves_def, THEN conjunct2, THEN conjunct2, THEN conjunct2, THEN conjunct2, rule_format, of i n "outside s" res w f x q]
      assms(3,4) by simp
qed

section \<open>Folders\<close>

text \<open>The dictionary of the client names each folder by its path in the project.\<close>

definition folders_ok :: "'w surroundings \<Rightarrow> folder_map \<Rightarrow> store \<Rightarrow> bool" where
  "folders_ok env folders v \<longleftrightarrow> (\<forall>d f i. dict_get folders d = Some f \<longrightarrow> jfield f ''_id'' = Inr i
     \<longrightarrow> folder_at v (fmt env i) = Some (names_of d))"

text \<open>A folder that is resolved is the one of its path, created on the way if it was missing.\<close>

lemma folder_resolved:
  assumes "serves env c pid V" "resolve_remote_folder_id env c pid folders d s = Some (Inr (i, folders'), s')"
    and "folders_ok env folders (V (outside s))" "tidy_names (names_of d)"
  shows "folder_at (V (outside s')) (fmt env i) = Some (names_of d)
    \<and> folders_ok env folders' (V (outside s')) \<and> stored (V (outside s')) = stored (V (outside s))
    \<and> live (V (outside s')) = live (V (outside s)) \<and> disk s' = disk s"
  using assms
proof (induction env c pid folders d arbitrary: s s' i folders' rule: resolve_remote_folder_id.induct)
  case (1 env c pid folders d)
  have d: "normalize_remote_path d = d" using tidy_normal[OF 1(5)] by (simp add: join_names)
  show ?case
  proof (cases "dict_get folders d")
    case (Some f)
    then have "jfield f ''_id'' = Inr i" "folders' = folders" "s' = s"
      using 1(3) by (auto simp: resolve_remote_folder_id.simps[of env c pid folders d] act_lift_def res_bind_eq_Inr d)
    then show ?thesis using Some 1(4) by (auto simp: folders_ok_def)
  next
    case None
    have ne: "d \<noteq> []"
      using 1(3) None by (auto simp: resolve_remote_folder_id.simps[of env c pid folders d] act_lift_def d)
    have "tidy d" using 1(5) ne by (simp add: tidy_def)
    note t = tidy_parts[OF this]
    from 1(3) None ne have "act_bind (resolve_remote_folder_id env c pid folders (posix_dirname d))
             (\<lambda>(parent_id, folders).
           act_bind (add_folder env c pid parent_id (posix_basename d)) (\<lambda>folder.
           act_lift (res_bind (jfield folder ''_id'') (\<lambda>i. Inr (i, dict_set d folder folders))))) s = Some (Inr (i, folders'), s')"
      by (simp add: resolve_remote_folder_id.simps[of env c pid folders d] Let_def d t(3))
    then obtain pf u where pf: "resolve_remote_folder_id env c pid folders (posix_dirname d) s = Some (Inr pf, u)"
      and more: "(case pf of (parent_id, folders) \<Rightarrow> act_bind (add_folder env c pid parent_id (posix_basename d)) (\<lambda>folder.
           act_lift (res_bind (jfield folder ''_id'') (\<lambda>i. Inr (i, dict_set d folder folders))))) u = Some (Inr (i, folders'), s')"
      by (rule act_bind_InrE)
    obtain j f1 where pf': "pf = (j, f1)" by (cases pf)
    from more[unfolded pf' prod.case] obtain f u' where add: "add_folder env c pid j (posix_basename d) u = Some (Inr f, u')"
      and "act_lift (res_bind (jfield f ''_id'') (\<lambda>i. Inr (i, dict_set d f f1))) u' = Some (Inr (i, folders'), s')"
      by (rule act_bind_InrE)
    then have f: "jfield f ''_id'' = Inr i" "folders' = dict_set d f f1" "s' = u'" by (auto simp: act_lift_def res_bind_eq_Inr)
    have IH: "folder_at (V (outside u)) (fmt env j) = Some (names_of (posix_dirname d)) \<and> folders_ok env f1 (V (outside u))
        \<and> stored (V (outside u)) = stored (V (outside s)) \<and> live (V (outside u)) = live (V (outside s)) \<and> disk u = disk s"
      using 1(1)[OF d[symmetric] None ne 1(2), unfolded t(3), OF pf[unfolded pf'] 1(4) t(2)] .
    note new = folder_added[OF 1(2) add f(1) IH[THEN conjunct1]]
    have "folders_ok env folders' (V (outside s'))"
      unfolding folders_ok_def
    proof (intro allI impI)
      fix d' f' i' assume "dict_get folders' d' = Some f'" "jfield f' ''_id'' = Inr i'"
      then show "folder_at (V (outside s')) (fmt env i') = Some (names_of d')"
        using new IH f t(1) unfolding folders_ok_def by (cases "d' = d") (fastforce simp: dict_get_set)+
    qed
    then show ?thesis using IH new f(3) t(1) by simp
  qed
qed

section \<open>One file\<close>

definition doc_at :: "file_map \<Rightarrow> string \<Rightarrow> bool" where
  "doc_at rfs p \<longleftrightarrow> (case dict_get rfs p of Some e \<Rightarrow> re_kind e \<noteq> ''file'' | None \<Rightarrow> False)"

text \<open>The identifier of a file of the project belongs to its path.\<close>

definition entry_ok :: "'w surroundings \<Rightarrow> file_map \<Rightarrow> store \<Rightarrow> string \<Rightarrow> bool" where
  "entry_ok env rfs v p \<longleftrightarrow> (\<forall>e. dict_get rfs p = Some e \<longrightarrow> re_kind e = ''file'' \<longrightarrow>
     (\<exists>i. jfield (re_entity e) ''_id'' = Inr i \<and> live v (fmt env i) = Some (names_of p)))"

datatype verdict = New | Changed | Same

definition verdict :: "file_map \<Rightarrow> store \<Rightarrow> fsnode \<Rightarrow> string \<times> string list \<Rightarrow> verdict" where
  "verdict rfs v d item =
    (case dict_get rfs (fst item) of
       None \<Rightarrow> New
     | Some _ \<Rightarrow> if stored v (names_of (fst item)) = fs_file d (snd item) then Same else Changed)"

definition note_verdict :: "verdict \<Rightarrow> string \<Rightarrow> sync_report \<Rightarrow> sync_report" where
  "note_verdict x p report =
    (case x of New \<Rightarrow> report\<lparr>uploaded := uploaded report @ [p]\<rparr> | Changed \<Rightarrow> report\<lparr>changed := changed report @ [p]\<rparr>
     | Same \<Rightarrow> report\<lparr>same := same report @ [p]\<rparr>)"

text \<open>A report without the documents among its unchanged files; a document is never among the others.\<close>

definition on_files :: "file_map \<Rightarrow> sync_report \<Rightarrow> sync_report" where
  "on_files rfs report = report\<lparr>same := filter (\<lambda>p. \<not> doc_at rfs p) (same report)\<rparr>"

lemma on_files_verdict: "\<not> doc_at rfs p \<Longrightarrow> on_files rfs (note_verdict x p report) = note_verdict x p (on_files rfs report)"
  by (cases x) (simp_all add: on_files_def note_verdict_def)

text \<open>What one file may do: nothing in a dry run and for a document, otherwise it puts the content at its path.\<close>

definition step_effect :: "file_map \<Rightarrow> bool \<Rightarrow> string \<Rightarrow> string \<Rightarrow> store \<Rightarrow> store \<Rightarrow> bool" where
  "step_effect rfs dry p content v v' \<longleftrightarrow>
     (if dry \<or> doc_at rfs p then v' = v
      else stored v' = (stored v)(names_of p \<mapsto> content)
          \<and> (\<forall>i k'. live v i = Some k' \<longrightarrow> k' \<noteq> names_of p \<longrightarrow> live v' i = Some k'))"

lemma log_outside: "log_line l s = Some (r, s') \<Longrightarrow> outside s' = outside s \<and> disk s' = disk s \<and> r = Inr ()"
  by (auto simp: log_line_def act_put_def)

text \<open>Resolving the folder and putting the file there.\<close>

lemma put_effect:
  assumes "serves env c pid V" "folders_ok env folders (V (outside s))"
    and "\<And>i t u x q. put i t = Some (Inr x, u) \<Longrightarrow> folder_at (V (outside t)) (fmt env i) = Some q \<Longrightarrow>
      file_put (q @ [posix_basename p]) content (V (outside t)) (V (outside u)) \<and> disk u = disk t"
    and run: "act_bind (resolve_remote_folder_id env c pid folders (normalize_remote_path (posix_dirname p))) (\<lambda>(i, folders).
        act_bind (put i) (\<lambda>_. act_bind (log_line l) (\<lambda>_. act_ret folders))) s = Some (Inr folders', s')"
    and "\<not> dry" "\<not> doc_at rfs p" "tidy p"
  shows "folders_ok env folders' (V (outside s')) \<and> step_effect rfs dry p content (V (outside s)) (V (outside s')) \<and> disk s' = disk s"
proof -
  note t = tidy_parts[OF assms(7)]
  from run[unfolded t(3)] obtain ip t where ip: "resolve_remote_folder_id env c pid folders (posix_dirname p) s = Some (Inr ip, t)"
    and more: "(case ip of (i, folders) \<Rightarrow> act_bind (put i) (\<lambda>_. act_bind (log_line l) (\<lambda>_. act_ret folders))) t = Some (Inr folders', s')"
    by (rule act_bind_InrE)
  obtain i f1 where i: "ip = (i, f1)" by (cases ip)
  note res = folder_resolved[OF assms(1) ip[unfolded i] assms(2) t(2)]
  from more[unfolded i prod.case] obtain x u where put: "put i t = Some (Inr x, u)"
    and "act_bind (log_line l) (\<lambda>_. act_ret f1) u = Some (Inr folders', s')" by (rule act_bind_InrE)
  then have u: "outside s' = outside u" "disk s' = disk u" "folders' = f1"
    by (auto simp: act_ret_def elim!: act_bind_InrE dest!: log_outside)
  have eff: "file_put (names_of p) content (V (outside t)) (V (outside u)) \<and> disk u = disk t"
    unfolding t(1) by (rule assms(3)[OF put res[THEN conjunct1]])
  then show ?thesis using res u assms(5,6) unfolding step_effect_def file_put_def folders_ok_def by simp
qed

lemma serves_download:
  assumes "serves env c pid V" "http env (session c) (download_request env c pid i) w = (Inr res, w')" "ok_response res"
    and "live (V w) (fmt env i) = Some k"
  shows "stored (V w) k = Some (rs_content res)"
  using assms(1)[unfolded serves_def, THEN conjunct2, THEN conjunct1, rule_format, of i w res w' k] assms(2-4) by simp

lemma bytes_read:
  assumes "serves env c pid V" "remote_entry_bytes env c pid e s = Some (Inr b, t)" "re_kind e = ''file''"
    and "jfield (re_entity e) ''_id'' = Inr i" "live (V (outside s)) (fmt env i) = Some k"
  shows "stored (V (outside s)) k = Some b"
proof -
  from assms(2) have "download_file env c pid i s = Some (Inr b, t)"
    by (simp add: remote_entry_bytes_def assms(3,4) act_bind_def act_lift_def)
  then obtain res u where "send env (session c) (download_request env c pid i) s = Some (Inr res, u)" "b = rs_content res"
    by (auto simp: download_file_def act_ret_def elim!: act_bind_InrE)
  moreover from this obtain w where "http env (session c) (download_request env c pid i) (outside s) = (Inr res, w)" "ok_response res"
    by (auto elim!: send_InrE)
  ultimately show ?thesis using serves_download[OF assms(1) _ _ assms(5)] by simp
qed

lemma quiet_effect: "dry \<or> doc_at rfs p \<Longrightarrow> step_effect rfs dry p content v v"
  by (auto simp: step_effect_def)

abbreviation noted where
  "noted rfs v d item report \<equiv>
    (if doc_at rfs (fst item) then report else note_verdict (verdict rfs v d item) (fst item) report)"

lemma transfer_effect:
  assumes srv: "serves env c pid V" and tidy: "tidy p" and fo: "folders_ok env folders (V (outside s))"
    and eo: "entry_ok env rfs (V (outside s)) p" and content: "fs_file (disk s) l = Some content"
    and run: "transfer env c pid rfs dry p l content (folders, report) s = Some (Inr (folders', report'), s')"
  shows "folders_ok env folders' (V (outside s')) \<and> step_effect rfs dry p content (V (outside s)) (V (outside s')) \<and> disk s' = disk s
    \<and> on_files rfs report' = noted rfs (V (outside s)) (disk s) (p, l) (on_files rfs report)"
proof (cases "dict_get rfs p")
  case None
  then have nd: "\<not> doc_at rfs p" by (simp add: doc_at_def)
  have v: "note_verdict (verdict rfs (V (outside s)) (disk s) (p, l)) p report = report\<lparr>uploaded := uploaded report @ [p]\<rparr>"
    using None by (simp add: verdict_def note_verdict_def)
  show ?thesis
  proof (cases dry)
    case True
    then have "folders' = folders \<and> report' = report\<lparr>uploaded := uploaded report @ [p]\<rparr> \<and> outside s' = outside s \<and> disk s' = disk s"
      using run None by (auto simp: transfer_def act_ret_def elim!: act_bind_InrE dest!: log_outside)
    then show ?thesis using quiet_effect[of dry] True fo nd by (simp add: v[symmetric] on_files_verdict)
  next
    case False
    from run None False obtain f1 where new: "send_new env c pid folders l p content s = Some (Inr f1, s')"
      and f1: "folders' = f1" "report' = report\<lparr>uploaded := uploaded report @ [p]\<rparr>"
      by (auto simp: transfer_def act_ret_def elim!: act_bind_InrE)
    have "folders_ok env f1 (V (outside s')) \<and> step_effect rfs dry p content (V (outside s)) (V (outside s')) \<and> disk s' = disk s"
      by (rule put_effect[OF srv fo _ new[unfolded send_new_def] False nd tidy])
        (use upload_stores[OF srv] doc_stores[OF srv] in \<open>auto split: if_splits\<close>)
    then show ?thesis using f1 nd by (simp add: v[symmetric] on_files_verdict)
  qed
next
  case (Some e)
  from run Some obtain b t where b: "remote_entry_bytes env c pid e s = Some (Inr b, t)"
    and more: "(if b = content then
           act_bind (log_line (Info (''[same] '' @ p))) (\<lambda>_. act_ret (folders, report\<lparr>same := same report @ [p]\<rparr>))
         else if re_kind e \<noteq> ''file'' then
           act_bind (log_line (Warning (''Skip replace for remote doc '' @ p @ ''; only file replacement is implemented.'')))
             (\<lambda>_. act_ret (folders, report))
         else
           (let report = report\<lparr>changed := changed report @ [p]\<rparr> in
            if dry then act_bind (log_line (arrow_line ''replace'' l p)) (\<lambda>_. act_ret (folders, report))
            else act_bind (send_changed env c pid folders l p content) (\<lambda>folders. act_ret (folders, report)))) t
      = Some (Inr (folders', report'), s')"
    by (auto simp: transfer_def elim!: act_bind_InrE)
  have q: "quiet_server env V" by (rule srv[unfolded serves_def, THEN conjunct1])
  note t = quiet_step[OF keeping.entry_bytes b q]
  show ?thesis
  proof (cases "re_kind e = ''file''")
    case False
    then have doc: "doc_at rfs p" using Some by (simp add: doc_at_def)
    have "folders' = folders \<and> outside s' = outside t \<and> disk s' = disk t \<and> on_files rfs report' = on_files rfs report"
      using more False doc by (auto simp: act_ret_def on_files_def split: if_splits elim!: act_bind_InrE dest!: log_outside)
    then show ?thesis using quiet_effect doc fo t by simp
  next
    case True
    then have nd: "\<not> doc_at rfs p" using Some by (simp add: doc_at_def)
    from eo Some True obtain i where k: "jfield (re_entity e) ''_id'' = Inr i" "live (V (outside s)) (fmt env i) = Some (names_of p)"
      unfolding entry_ok_def by blast
    have st: "stored (V (outside s)) (names_of p) = Some b" by (rule bytes_read[OF srv b True k])
    have v: "verdict rfs (V (outside s)) (disk s) (p, l) = (if b = content then Same else Changed)"
      using Some st content by (simp add: verdict_def)
    consider "b = content" | "b \<noteq> content" dry | "b \<noteq> content" "\<not> dry" by blast
    then show ?thesis
    proof cases
      case 1
      then have r: "folders' = folders \<and> report' = report\<lparr>same := same report @ [p]\<rparr> \<and> outside s' = outside t \<and> disk s' = disk t"
        using more by (auto simp: act_ret_def elim!: act_bind_InrE dest!: log_outside)
      have "(stored (V (outside s)))(names_of p \<mapsto> content) = stored (V (outside s))" using st 1 by auto
      then have "step_effect rfs dry p content (V (outside s)) (V (outside s))" by (auto simp: step_effect_def)
      then show ?thesis using r t v nd 1 fo by (simp add: note_verdict_def on_files_def)
    next
      case 2
      then have r: "folders' = folders \<and> report' = report\<lparr>changed := changed report @ [p]\<rparr> \<and> outside s' = outside t \<and> disk s' = disk t"
        using more True by (auto simp: act_ret_def Let_def elim!: act_bind_InrE dest!: log_outside)
      then show ?thesis using quiet_effect[of dry] 2 t v nd fo by (simp add: note_verdict_def on_files_def)
    next
      case 3
      from more True 3 obtain f1 where ch: "send_changed env c pid folders l p content t = Some (Inr f1, s')"
        and f1: "folders' = f1" "report' = report\<lparr>changed := changed report @ [p]\<rparr>"
        by (auto simp: act_ret_def Let_def elim!: act_bind_InrE)
      have "folders_ok env f1 (V (outside s')) \<and> step_effect rfs dry p content (V (outside t)) (V (outside s')) \<and> disk s' = disk t"
        by (rule put_effect[OF srv _ _ ch[unfolded send_changed_def] 3(2) nd tidy])
          (use upload_stores[OF srv] fo t in auto)
      then show ?thesis using f1 v t nd 3 by (simp add: note_verdict_def on_files_def)
    qed
  qed
qed

section \<open>A run\<close>

lemma entry_effect:
  assumes srv: "serves env c pid V" and tidy: "tidy p" and fo: "folders_ok env folders (V (outside s))"
    and eo: "entry_ok env rfs (V (outside s)) p"
    and run: "sync_entry env c pid rfs dry (p, l) (folders, report) s = Some (Inr (folders', report'), s')"
  shows "\<exists>content. fs_file (disk s) l = Some content \<and> folders_ok env folders' (V (outside s'))
    \<and> step_effect rfs dry p content (V (outside s)) (V (outside s')) \<and> disk s' = disk s
    \<and> on_files rfs report' = noted rfs (V (outside s)) (disk s) (p, l) (on_files rfs report)"
proof -
  from run[unfolded sync_entry_def Let_def prod.case] obtain content t where b: "read_bytes l s = Some (Inr content, t)"
    and tr: "transfer env c pid rfs dry p l content (folders, report) t = Some (Inr (folders', report'), s')"
    by (rule act_bind_InrE)
  from read_bytes_file[OF b] have f: "fs_file (disk s) l = Some content" and t: "t = s" by blast+
  show ?thesis using transfer_effect[OF srv tidy fo eo f tr[unfolded t]] f by blast
qed

text \<open>What one file does is out of the way of the others.\<close>

lemma names_inj: "names_of p = names_of q \<Longrightarrow> p = q"
  by (metis join_names)

lemma step_keeps:
  assumes eff: "step_effect rfs dry p content v v1" and "p' \<noteq> p" and eo: "entry_ok env rfs v p'"
  shows "entry_ok env rfs v1 p' \<and> verdict rfs v1 d (p', l) = verdict rfs v d (p', l)"
proof -
  have ne: "names_of p' \<noteq> names_of p" using names_inj assms(2) by blast
  have "stored v1 (names_of p') = stored v (names_of p')" and "live v i = Some (names_of p') \<Longrightarrow> live v1 i = Some (names_of p')" for i
    using eff ne unfolding step_effect_def by (auto split: if_splits)
  then show ?thesis using eo unfolding entry_ok_def verdict_def by (fastforce split: option.splits)
qed

abbreviation verdicts where
  "verdicts rfs v d items report \<equiv> fold (noted rfs v d) items report"

lemma verdicts_cong:
  "(\<And>item. item \<in> set items \<Longrightarrow> verdict rfs v1 d item = verdict rfs v d item)
    \<Longrightarrow> verdicts rfs v1 d items report = verdicts rfs v d items report"
  by (induction items arbitrary: report) auto

lemma run_effect:
  assumes srv: "serves env c pid V" and d: "distinct (map fst items)" and tidy: "\<forall>item \<in> set items. tidy (fst item)"
    and fo: "folders_ok env folders (V (outside s))" and eo: "\<forall>item \<in> set items. entry_ok env rfs (V (outside s)) (fst item)"
    and run: "act_fold (sync_entry env c pid rfs dry) items (folders, report) s = Some (Inr (folders', report'), s')"
  shows "disk s' = disk s
    \<and> (\<forall>(p, l) \<in> set items. \<not> dry \<and> \<not> doc_at rfs p \<longrightarrow>
        fs_file (disk s) l \<noteq> None \<and> stored (V (outside s')) (names_of p) = fs_file (disk s) l)
    \<and> (\<forall>k. (\<forall>(p, l) \<in> set items. \<not> doc_at rfs p \<longrightarrow> names_of p \<noteq> k) \<longrightarrow> stored (V (outside s')) k = stored (V (outside s)) k)
    \<and> on_files rfs report' = verdicts rfs (V (outside s)) (disk s) items (on_files rfs report)"
  using d tidy fo eo run
proof (induction items arbitrary: folders report s)
  case Nil
  then show ?case by (simp add: act_ret_def)
next
  case (Cons item items)
  obtain p l where item: "item = (p, l)" by (cases item)
  from Cons.prems(5)[unfolded act_fold.simps] obtain st1 t where one: "sync_entry env c pid rfs dry item (folders, report) s = Some (Inr st1, t)"
    and more: "act_fold (sync_entry env c pid rfs dry) items st1 t = Some (Inr (folders', report'), s')" by (rule act_bind_InrE)
  obtain f1 r1 where st1: "st1 = (f1, r1)" by (cases st1)
  have tp: "tidy p" and ep: "entry_ok env rfs (V (outside s)) p" using Cons.prems(2,4) by (auto simp: item)
  obtain content where c: "fs_file (disk s) l = Some content" and f1: "folders_ok env f1 (V (outside t))"
    and eff: "step_effect rfs dry p content (V (outside s)) (V (outside t))" and dt: "disk t = disk s"
    and r1: "on_files rfs r1 = noted rfs (V (outside s)) (disk s) (p, l) (on_files rfs report)"
    using entry_effect[OF srv tp Cons.prems(3) ep one[unfolded st1 item]] by blast
  have ne: "fst i \<noteq> p" if "i \<in> set items" for i using Cons.prems(1) that by (auto simp: item)
  have keep: "entry_ok env rfs (V (outside t)) (fst i)
      \<and> verdict rfs (V (outside t)) (disk s) i = verdict rfs (V (outside s)) (disk s) i" if "i \<in> set items" for i
    using step_keeps[OF eff ne[OF that], of env "disk s" "snd i"] Cons.prems(4) that by simp
  have rest: "disk s' = disk t"
    "\<forall>(p, l) \<in> set items. \<not> dry \<and> \<not> doc_at rfs p \<longrightarrow>
        fs_file (disk t) l \<noteq> None \<and> stored (V (outside s')) (names_of p) = fs_file (disk t) l"
    "\<forall>k. (\<forall>(p, l) \<in> set items. \<not> doc_at rfs p \<longrightarrow> names_of p \<noteq> k) \<longrightarrow> stored (V (outside s')) k = stored (V (outside t)) k"
    "on_files rfs report' = verdicts rfs (V (outside t)) (disk t) items (on_files rfs r1)"
    using Cons.IH[OF _ _ f1 _ more[unfolded st1]] Cons.prems(1,2) keep by (simp_all add: item)
  have head: "stored (V (outside s')) (names_of p) = Some content" if nd: "\<not> dry" "\<not> doc_at rfs p"
  proof -
    have "\<forall>(q, m) \<in> set items. \<not> doc_at rfs q \<longrightarrow> names_of q \<noteq> names_of p" using names_inj ne by fastforce
    then have "stored (V (outside s')) (names_of p) = stored (V (outside t)) (names_of p)" using rest(3) by blast
    then show ?thesis using eff nd by (simp add: step_effect_def)
  qed
  have untouched: "stored (V (outside s')) k = stored (V (outside s)) k"
    if k: "\<forall>(q, m) \<in> set (item # items). \<not> doc_at rfs q \<longrightarrow> names_of q \<noteq> k" for k
  proof -
    have "stored (V (outside s')) k = stored (V (outside t)) k" using rest(3)[rule_format, of k] k by simp
    also have "\<dots> = stored (V (outside s)) k" using eff k by (auto simp: step_effect_def item split: if_splits)
    finally show ?thesis .
  qed
  have "on_files rfs report' = verdicts rfs (V (outside s)) (disk s) items (on_files rfs r1)"
    unfolding rest(4) dt by (rule verdicts_cong) (use keep in blast)
  then have rep: "on_files rfs report' = verdicts rfs (V (outside s)) (disk s) (item # items) (on_files rfs report)"
    using r1 by (simp add: item)
  have all: "\<forall>(q, m) \<in> set (item # items). \<not> dry \<and> \<not> doc_at rfs q \<longrightarrow>
        fs_file (disk s) m \<noteq> None \<and> stored (V (outside s')) (names_of q) = fs_file (disk s) m"
    using rest(2) head c dt by (simp add: item)
  show ?case by (intro conjI allI impI) (simp only: rest(1) dt, rule all, erule untouched, rule rep)
qed

section \<open>A run completes\<close>

text \<open>A server that answers every request, the posts that change the project with JSON, and a new folder with its
  identifier.\<close>

definition answers :: "'w surroundings \<Rightarrow> client \<Rightarrow> string \<Rightarrow> bool" where
  "answers env c pid \<longleftrightarrow>
     (\<forall>sid q w. \<exists>res w'. http env sid q w = (Inr res, w') \<and> ok_response res
        \<and> (changes_project q \<and> rq_method q = ''POST'' \<longrightarrow> (\<exists>x. json_loads env (rs_text res) = Inr x)))
   \<and> (\<forall>i n w res w' x. http env (session c) (folder_request c pid i n) w = (Inr res, w') \<and> json_loads env (rs_text res) = Inr x
        \<longrightarrow> (\<exists>y. jfield x ''_id'' = Inr y))"

definition has_ids :: "folder_map \<Rightarrow> bool" where
  "has_ids folders \<longleftrightarrow> dict_get folders [] \<noteq> None \<and> (\<forall>d f. dict_get folders d = Some f \<longrightarrow> (\<exists>i. jfield f ''_id'' = Inr i))"

lemma send_returns:
  assumes "answers env c pid"
  obtains res t where "send env sid q s = Some (Inr res, t)" "http env sid q (outside s) = (Inr res, outside t)" "disk t = disk s"
    "changes_project q \<and> rq_method q = ''POST'' \<longrightarrow> (\<exists>x. json_loads env (rs_text res) = Inr x)"
proof -
  obtain res w where r: "http env sid q (outside s) = (Inr res, w)" "ok_response res"
      "changes_project q \<and> rq_method q = ''POST'' \<longrightarrow> (\<exists>x. json_loads env (rs_text res) = Inr x)"
    using assms unfolding answers_def by blast
  then have "send env sid q s = Some (Inr res, s\<lparr>outside := w, sent := sent s @ [q]\<rparr>)"
    by (auto simp: send_def ok_response_def Let_def)
  then show thesis by (rule that) (use r in simp_all)
qed

lemma changing_returns:
  assumes "answers env c pid" "changes_project q" "rq_method q = ''POST''"
  shows "\<exists>x t. act_bind (send env sid q) (\<lambda>res. act_lift (json_loads env (rs_text res))) s = Some (Inr x, t) \<and> disk t = disk s"
proof -
  obtain res t where "send env sid q s = Some (Inr res, t)" "disk t = disk s" "\<exists>x. json_loads env (rs_text res) = Inr x"
    using send_returns[OF assms(1), of sid q s] assms(2,3) by metis
  then show ?thesis by (auto simp: act_bind_def act_lift_def)
qed

lemma folder_returns:
  assumes "answers env c pid"
  shows "\<exists>x i t. add_folder env c pid j n s = Some (Inr x, t) \<and> jfield x ''_id'' = Inr i \<and> disk t = disk s"
proof -
  have q: "changes_project (folder_request c pid j n) \<and> rq_method (folder_request c pid j n) = ''POST''"
    by (simp add: changes_project_def folder_request_def post_json_def dict_get_def)
  obtain res t where r: "send env (session c) (folder_request c pid j n) s = Some (Inr res, t)"
      "http env (session c) (folder_request c pid j n) (outside s) = (Inr res, outside t)" "disk t = disk s"
      "\<exists>x. json_loads env (rs_text res) = Inr x"
    using send_returns[OF assms, of "session c" "folder_request c pid j n" s] q by metis
  then obtain x where x: "json_loads env (rs_text res) = Inr x" by blast
  then obtain y where "jfield x ''_id'' = Inr y" using assms r(2) unfolding answers_def by blast
  then show ?thesis
    using r(1,3) x by (auto simp: add_folder_def folder_request_def act_bind_def act_lift_def)
qed

lemma doc_returns: "answers env c pid \<Longrightarrow> \<exists>x t. add_doc env c pid j n s = Some (Inr x, t) \<and> disk t = disk s"
  unfolding add_doc_def by (rule changing_returns) (simp_all add: changes_project_def post_json_def dict_get_def)

lemma upload_returns: "answers env c pid \<Longrightarrow> \<exists>x t. upload_file env c pid j n b s = Some (Inr x, t) \<and> disk t = disk s"
  unfolding upload_file_def by (rule changing_returns) (simp_all add: changes_project_def upload_request_def Let_def)

lemma resolve_returns:
  assumes "answers env c pid" "has_ids folders"
  shows "\<exists>i f t. resolve_remote_folder_id env c pid folders d s = Some (Inr (i, f), t) \<and> has_ids f \<and> disk t = disk s"
  using assms
proof (induction env c pid folders d rule: resolve_remote_folder_id.induct)
  case (1 env c pid folders d)
  let ?d = "normalize_remote_path d"
  show ?case
  proof (cases "dict_get folders ?d")
    case (Some f)
    then obtain i where "jfield f ''_id'' = Inr i" using 1(3) by (auto simp: has_ids_def)
    then show ?thesis using Some 1(3) by (auto simp: resolve_remote_folder_id.simps[of env c pid folders d] act_lift_def)
  next
    case None
    then have ne: "?d \<noteq> []" using 1(3) by (auto simp: has_ids_def)
    from 1(1)[OF refl None ne 1(2,3)] obtain j f1 t where up:
      "resolve_remote_folder_id env c pid folders (normalize_remote_path (posix_dirname ?d)) s = Some (Inr (j, f1), t)"
      and f1: "has_ids f1" "disk t = disk s" by blast
    obtain x i u where add: "add_folder env c pid j (posix_basename ?d) t = Some (Inr x, u)" "jfield x ''_id'' = Inr i" "disk u = disk t"
      using folder_returns[OF 1(2)] by blast
    have "resolve_remote_folder_id env c pid folders d s = Some (Inr (i, dict_set ?d x f1), u)"
      using None ne up add by (simp add: resolve_remote_folder_id.simps[of env c pid folders d] Let_def act_bind_def act_lift_def)
    moreover have "has_ids (dict_set ?d x f1)" using f1(1) add(2) by (auto simp: has_ids_def dict_get_set)
    ultimately show ?thesis using f1(2) add(3) by auto
  qed
qed

text \<open>A planned file is a file on both sides, as far as it exists remotely.\<close>

definition sendable :: "file_map \<Rightarrow> fsnode \<Rightarrow> string \<times> string list \<Rightarrow> bool" where
  "sendable rfs d item \<longleftrightarrow> fs_file d (snd item) \<noteq> None
     \<and> (case dict_get rfs (fst item) of None \<Rightarrow> True | Some e \<Rightarrow> re_kind e = ''file'' \<and> \<not> isl (jfield (re_entity e) ''_id''))"

lemma sending_returns:
  assumes "answers env c pid" "has_ids folders"
    and "\<And>i t. \<exists>x u. put i t = Some (Inr x, u) \<and> disk u = disk t"
  shows "\<exists>f t. act_bind (resolve_remote_folder_id env c pid folders d) (\<lambda>(i, folders).
      act_bind (put i) (\<lambda>_. act_bind (log_line l) (\<lambda>_. act_ret folders))) s = Some (Inr f, t) \<and> has_ids f \<and> disk t = disk s"
proof -
  obtain i f t where r: "resolve_remote_folder_id env c pid folders d s = Some (Inr (i, f), t)" "has_ids f" "disk t = disk s"
    using resolve_returns[OF assms(1,2)] by blast
  obtain x u where "put i t = Some (Inr x, u)" "disk u = disk t" using assms(3) by blast
  then show ?thesis using r by (auto simp: act_bind_def act_ret_def log_line_def act_put_def)
qed

lemma entry_returns:
  assumes a: "answers env c pid" "has_ids folders" and i: "sendable rfs (disk s) item"
  shows "\<exists>f r t. sync_entry env c pid rfs dry item (folders, report) s = Some (Inr (f, r), t) \<and> has_ids f \<and> disk t = disk s"
proof -
  obtain p l where item: "item = (p, l)" by (cases item)
  obtain content where c: "fs_file (disk s) l = Some content" using i by (auto simp: sendable_def item)
  then have rd: "read_bytes l s = Some (Inr content, s)"
    by (auto simp: read_bytes_def fs_file_def split: option.splits fsnode.splits)
  have new: "\<exists>f t. send_new env c pid folders l p content s = Some (Inr f, t) \<and> has_ids f \<and> disk t = disk s" for s
    unfolding send_new_def
    by (rule sending_returns[OF a], cases "content = []") (use doc_returns[OF a(1)] upload_returns[OF a(1)] in \<open>fastforce\<close>)+
  have ch: "\<exists>f t. send_changed env c pid folders l p content s = Some (Inr f, t) \<and> has_ids f \<and> disk t = disk s" for s
    unfolding send_changed_def
    by (rule sending_returns[OF a]) (use upload_returns[OF a(1)] in \<open>fastforce\<close>)
  have "\<exists>f r t. transfer env c pid rfs dry p l content (folders, report) s = Some (Inr (f, r), t) \<and> has_ids f \<and> disk t = disk s"
  proof (cases "dict_get rfs p")
    case None
    then show ?thesis
      using new[of s] a(2)
      by (cases dry) (auto simp: transfer_def act_bind_def act_ret_def log_line_def act_put_def)
  next
    case (Some e)
    then have e: "re_kind e = ''file''" and "\<exists>x. jfield (re_entity e) ''_id'' = Inr x"
      using i by (auto simp: sendable_def item isl_def split: sum.splits) (metis sum.exhaust)
    then obtain x where x: "jfield (re_entity e) ''_id'' = Inr x" by blast
    obtain res t where "send env (session c) (download_request env c pid x) s = Some (Inr res, t)" "disk t = disk s"
      by (rule send_returns[OF a(1), of "session c" "download_request env c pid x" s])
    then have b: "remote_entry_bytes env c pid e s = Some (Inr (rs_content res), t)" "disk t = disk s"
      by (simp_all add: remote_entry_bytes_def e x act_bind_def act_lift_def download_file_def act_ret_def)
    then show ?thesis
      using Some e ch[of t] a(2)
      by (cases "rs_content res = content"; cases dry)
        (auto simp: transfer_def act_bind_def act_ret_def log_line_def act_put_def Let_def)
  qed
  then show ?thesis using rd by (simp add: sync_entry_def item act_bind_def)
qed

text \<open>C22: A run over files completes. Suppose the server answers every request: the posts that change the project with JSON,
  a new folder with its identifier. Suppose every planned local file exists, the project has its root folder and all folders
  and planned files of the project have identifiers, and no planned path is a document of the project, whose text would
  have to be awaited from the socket. Then the transfer ends normally, without an exception and without waiting, dry or
  not.\<close>

theorem sync_completes:
  assumes "answers env c pid" "has_ids folders" "\<forall>item \<in> set pl. sendable rfs (disk s) item"
  shows "\<exists>folders' report' s'. sync_planned env c pid rfs dry pl (folders, report) s = Some (Inr (folders', report'), s')"
proof -
  have "\<exists>f r t. act_fold (sync_entry env c pid rfs dry) items (folders, report) s = Some (Inr (f, r), t)"
    if "\<forall>item \<in> set items. sendable rfs (disk s) item" for items
    using assms(2) that
  proof (induction items arbitrary: folders report s)
    case (Cons item items)
    have "sendable rfs (disk s) item" using Cons.prems(2) by simp
    from entry_returns[OF assms(1) Cons.prems(1) this]
    obtain f r t where one: "sync_entry env c pid rfs dry item (folders, report) s = Some (Inr (f, r), t)" "has_ids f" "disk t = disk s"
      by blast
    then show ?case using Cons.IH[OF one(2), of t r] Cons.prems(2) by (simp add: act_bind_def)
  qed (simp add: act_ret_def)
  then show ?thesis unfolding sync_planned_def using assms(3) by simp
qed

lemma sorted_plan: "dict_ok pl \<Longrightarrow> distinct (map fst (sort_key fst pl))"
proof -
  assume "dict_ok pl"
  moreover have "mset (map fst (sort_key fst pl)) = mset (map fst pl)" by simp
  ultimately show ?thesis unfolding dict_ok_def by (metis mset_eq_imp_distinct_iff)
qed

text \<open>C18: A real run leaves the project as planned. Suppose the server does with each request what its interface documents,
  the tree that was read from it is the tree of the project, and every planned path is tidy: its names are not empty and
  no single dots, hold no backslash and have no white space at their ends, and double dots stand only in front. Then after
  the transfer the project holds at every planned path that is not a document, name by name from the root folder, the
  content of the local file planned for it, and no other path of the project has changed.\<close>

theorem sync_stores_plan:
  assumes "serves env c pid V" "folders_ok env folders (V (outside s))" "dict_ok pl"
    and "\<forall>(p, l) \<in> set pl. tidy p \<and> entry_ok env rfs (V (outside s)) p"
    and "sync_planned env c pid rfs False pl (folders, report) s = Some (Inr (folders', report'), s')"
  shows "(\<forall>(p, l) \<in> set pl. \<not> doc_at rfs p \<longrightarrow>
      fs_file (disk s) l \<noteq> None \<and> stored (V (outside s')) (names_of p) = fs_file (disk s) l)
    \<and> (\<forall>k. (\<forall>(p, l) \<in> set pl. \<not> doc_at rfs p \<longrightarrow> names_of p \<noteq> k)
        \<longrightarrow> stored (V (outside s')) k = stored (V (outside s)) k)"
proof -
  have sorted_pl: "distinct (map fst (sort_key fst pl))" "\<forall>item \<in> set (sort_key fst pl). tidy (fst item)"
    "\<forall>item \<in> set (sort_key fst pl). entry_ok env rfs (V (outside s)) (fst item)"
    using sorted_plan[OF assms(3)] assms(4) by auto
  note eff = run_effect[OF assms(1) sorted_pl(1,2) assms(2) sorted_pl(3) assms(5)[unfolded sync_planned_def]]
  from eff show ?thesis unfolding set_sort by blast
qed

text \<open>C21: A dry run predicts the real one. Suppose both start from the same state, the server does what its interface
  documents, the tree that was read from it is the tree of the project and the planned paths are tidy. If both end normally,
  they report the same files as new and the same files as changed, in the same order, and the same files as unchanged up to
  documents of the project, whose text each run reads anew; and the dry run leaves the project as it is.\<close>

theorem dry_run_predicts:
  assumes "serves env c pid V" "folders_ok env folders (V (outside s))" "dict_ok pl"
    and "\<forall>(p, l) \<in> set pl. tidy p \<and> entry_ok env rfs (V (outside s)) p"
    and "sync_planned env c pid rfs True pl (folders, report) s = Some (Inr (folders1, report1), s1)"
    and "sync_planned env c pid rfs False pl (folders, report) s = Some (Inr (folders2, report2), s2)"
  shows "uploaded report1 = uploaded report2 \<and> changed report1 = changed report2 \<and> missing report1 = missing report2
    \<and> filter (\<lambda>p. \<not> doc_at rfs p) (same report1) = filter (\<lambda>p. \<not> doc_at rfs p) (same report2)
    \<and> V (outside s1) = V (outside s)"
proof -
  have "on_files rfs report' = verdicts rfs (V (outside s)) (disk s) (sort_key fst pl) (on_files rfs report)"
    if "sync_planned env c pid rfs dry pl (folders, report) s = Some (Inr (folders', report'), s')" for dry folders' report' s'
  proof -
    have sorted_pl: "distinct (map fst (sort_key fst pl))" "\<forall>item \<in> set (sort_key fst pl). tidy (fst item)"
      "\<forall>item \<in> set (sort_key fst pl). entry_ok env rfs (V (outside s)) (fst item)"
      using sorted_plan[OF assms(3)] assms(4) by auto
    from run_effect[OF assms(1) sorted_pl(1,2) assms(2) sorted_pl(3) that[unfolded sync_planned_def]] show ?thesis by blast
  qed
  from this[OF assms(5)] this[OF assms(6)] have "on_files rfs report1 = on_files rfs report2" by simp
  then have "uploaded report1 = uploaded report2 \<and> changed report1 = changed report2 \<and> missing report1 = missing report2
    \<and> filter (\<lambda>p. \<not> doc_at rfs p) (same report1) = filter (\<lambda>p. \<not> doc_at rfs p) (same report2)"
    by (cases report1; cases report2) (simp add: on_files_def)
  moreover have "guarantees (keeps_store env V) (sync_planned env c pid rfs True pl (folders, report))"
    unfolding sync_planned_def by (intro keeping.rules keeping.dry_entry)
  from quiet_step(1)[OF this assms(5)] have "V (outside s1) = V (outside s)"
    using assms(1)[unfolded serves_def, THEN conjunct1] .
  ultimately show ?thesis by blast
qed

section \<open>A small server\<close>

text \<open>A server that keeps files in a list by path, hands out folder identifiers longer than all it has, and does what its
  interface says.\<close>

record mem =
  mem_files :: "(string list \<times> string) list"
  mem_ids :: "(string \<times> string list) list"
  mem_folders :: "(string \<times> string list) list"

definition mem_view :: "mem \<Rightarrow> store" where
  "mem_view m = \<lparr>stored = map_of (mem_files m), 
     live = (\<lambda>i. case map_of (mem_ids m) i of Some k \<Rightarrow> if map_of (mem_files m) k = None then None else Some k | None \<Rightarrow> None),
     folder_at = map_of (mem_folders m)\<rparr>"

definition text_of :: "jval \<Rightarrow> string" where
  "text_of v = (case v of JStr s \<Rightarrow> s | _ \<Rightarrow> [])"

definition reply :: "string \<Rightarrow> response res" where
  "reply t = Inr \<lparr>rs_status = 200, rs_text = t, rs_content = t\<rparr>"

definition file_url :: string where "file_url = ''http://h/project/p/file/''"

definition put_under :: "string \<Rightarrow> string \<Rightarrow> string \<Rightarrow> mem \<Rightarrow> mem" where
  "put_under i n content m = (case map_of (mem_folders m) i of None \<Rightarrow> m | Some q \<Rightarrow> m\<lparr>mem_files := (q @ [n], content) # mem_files m\<rparr>)"

definition fresh_id :: "mem \<Rightarrow> string" where
  "fresh_id m = replicate (Suc (sum_list (map (\<lambda>(i, _). length i) (mem_folders m)))) (CHR ''x'')"

lemma fresh_id: "map_of (mem_folders m) (fresh_id m) = None"
proof -
  have "length i \<le> sum_list (map (\<lambda>(i, _). length i) ds)" if "(i, q) \<in> set ds" for i and q :: "string list" and ds
    using that by (induction ds) auto
  from this[of "fresh_id m" _ "mem_folders m"] have "(fresh_id m, q) \<notin> set (mem_folders m)" for q
    by (auto simp: fresh_id_def)
  then show ?thesis by (metis map_of_SomeD option.exhaust)
qed

definition mem_http :: "nat \<Rightarrow> request \<Rightarrow> mem \<Rightarrow> response res \<times> mem" where
  "mem_http sid q m =
    (case rq_body q of
       FormBody flds fs \<Rightarrow>
         (reply ''f'', put_under (dict_get_or flds ''targetFolderId'' []) (dict_get_or flds ''name'' [])
            (case fs of (_, _, content) # _ \<Rightarrow> content | [] \<Rightarrow> []) m)
     | JsonBody (JObj d) \<Rightarrow>
         (case dict_get d ''name'' of
            None \<Rightarrow> (reply ''p'', m)
          | Some n \<Rightarrow>
              (let i = text_of (dict_get_or d ''parent_folder_id'' JNull) in
               if ends_with ''/folder'' (rq_url q)
               then (reply (fresh_id m), case map_of (mem_folders m) i of None \<Rightarrow> m
                       | Some q \<Rightarrow> m\<lparr>mem_folders := (fresh_id m, q @ [text_of n]) # mem_folders m\<rparr>)
               else (reply ''d'', put_under i (text_of n) [] m)))
     | _ \<Rightarrow>
         (case Option.bind (map_of (mem_ids m) (drop (length file_url) (rq_url q))) (map_of (mem_files m)) of
            Some content \<Rightarrow> (reply content, m)
          | None \<Rightarrow> (reply [], m)))"

definition mem_env :: "mem surroundings" where
  "mem_env = \<lparr>http = mem_http, new_session = (\<lambda>m. (0, m)), set_cookie = (\<lambda>_ _ _ _ m. m),
     clock = (\<lambda>m. (0, m)), ask = (\<lambda>_ _ m. (Inr [], m)), json_loads = (\<lambda>t. Inr (JObj [(''_id'', JStr t)])), json_dumps = (\<lambda>_. []),
     json_pretty = (\<lambda>_. []), py_str = (\<lambda>_. []), html_unescape = (\<lambda>x. x), guess_type = (\<lambda>_. None), utf8 = (\<lambda>x. x),
     expanduser = (\<lambda>x. x), frame_sep = CHR 0xFF\<rparr>"

definition mem_client :: client where
  "mem_client = \<lparr>base_url = ''http://h/'', origin = ''http://h'', host = ''h'', cookie = [], session = 0, csrf_token = ''t'',
     user_id = [], user_email = [], current_project_id = ''p''\<rparr>"

lemma mem_fmt: "fmt mem_env v = text_of v"
  by (simp add: fmt_def mem_env_def text_of_def split: jval.splits)

lemma mem_http_eq: "http mem_env = mem_http"
  by (simp add: mem_env_def)

lemma mem_answers: "answers mem_env mem_client ''p''"
  unfolding answers_def mem_http_eq
  by (auto simp: mem_http_def reply_def ok_response_def mem_env_def jfield_def dict_get_def Let_def
      split: rbody.split jval.split option.split)

lemma put_under_put: "folder_at (mem_view m) i = Some q \<Longrightarrow> file_put (q @ [n]) b (mem_view m) (mem_view (put_under i n b m))"
  by (auto simp: file_put_def mem_view_def put_under_def split: option.splits if_splits)

lemma mem_serves: "serves mem_env mem_client ''p'' mem_view"
  unfolding serves_def
proof (intro conjI allI impI; (elim conjE)?)
  show "quiet_server mem_env mem_view"
    unfolding quiet_server_def mem_http_eq
    by (auto simp: mem_env_def mem_http_def changes_project_def Let_def split: rbody.splits jval.splits option.splits)
next
  fix w i res w' k
  assume h: "http mem_env (session mem_client) (download_request mem_env mem_client ''p'' i) w = (Inr res, w')"
    and l: "live (mem_view w) (fmt mem_env i) = Some k"
  have "drop (length file_url) (rq_url (download_request mem_env mem_client ''p'' i)) = text_of i"
    by (simp add: download_request_def get_request_def mem_client_def file_url_def mem_fmt)
  moreover have "rq_body (download_request mem_env mem_client ''p'' i) = NoBody"
    by (simp add: download_request_def get_request_def)
  ultimately show "stored (mem_view w) k = Some (rs_content res)"
    using h l unfolding mem_http_eq mem_fmt
    by (auto simp: mem_http_def mem_view_def reply_def Let_def split: option.splits if_splits)
next
  fix w i n b res w' q
  assume "http mem_env (session mem_client) (upload_request mem_env mem_client ''p'' i n b) w = (Inr res, w')"
    and q: "folder_at (mem_view w) (fmt mem_env i) = Some q"
  then have "w' = put_under (text_of i) n b w"
    unfolding mem_http_eq by (auto simp: mem_http_def upload_request_def mem_fmt reply_def Let_def dict_get_or_def dict_get_def)
  then show "file_put (q @ [n]) b (mem_view w) (mem_view w')" using put_under_put q by (simp add: mem_fmt)
next
  fix w i n res w' q
  assume "http mem_env (session mem_client) (doc_request mem_client ''p'' i n) w = (Inr res, w')"
    and q: "folder_at (mem_view w) (fmt mem_env i) = Some q"
  then have "w' = put_under (text_of i) n [] w"
    unfolding mem_http_eq
    by (auto simp: mem_http_def doc_request_def post_json_def mem_client_def reply_def Let_def dict_get_or_def dict_get_def text_of_def
        ends_with_def starts_with_def)
  then show "file_put (q @ [n]) [] (mem_view w) (mem_view w')" using put_under_put q by (simp add: mem_fmt)
next
  fix w i n res w' f x q
  assume h: "http mem_env (session mem_client) (folder_request mem_client ''p'' i n) w = (Inr res, w')"
    and j: "json_loads mem_env (rs_text res) = Inr f" "jfield f ''_id'' = Inr x"
    and q: "folder_at (mem_view w) (fmt mem_env i) = Some q"
  have "rs_text res = fresh_id w \<and> w' = w\<lparr>mem_folders := (fresh_id w, q @ [n]) # mem_folders w\<rparr>"
    using h q unfolding mem_http_eq
    by (auto simp: mem_http_def folder_request_def post_json_def mem_client_def reply_def Let_def dict_get_or_def dict_get_def
        ends_with_def starts_with_def mem_fmt mem_view_def text_of_def)
  moreover have "x = JStr (rs_text res)" using j by (auto simp: mem_env_def jfield_def dict_get_def)
  ultimately show "folder_at (mem_view w) (fmt mem_env x) = None"
    "folder_at (mem_view w') = (folder_at (mem_view w))(fmt mem_env x \<mapsto> q @ [n])"
    "stored (mem_view w') = stored (mem_view w)" "live (mem_view w') = live (mem_view w)"
    using fresh_id[of w] by (auto simp: mem_view_def fmt_def fun_eq_iff split: option.splits)
qed

text \<open>One file is up to date, one has changed, one is new and needs two folders.\<close>

definition sample_folders :: folder_map where
  "sample_folders = [([], JObj [(''_id'', JStr ''r'')]), (''figs'', JObj [(''_id'', JStr ''g'')])]"

definition mem_remote :: file_map where
  "mem_remote = [(''a.pdf'', \<lparr>re_kind = ''file'', re_entity = JObj [(''_id'', JStr ''1'')]\<rparr>),
     (''figs/b.pdf'', \<lparr>re_kind = ''file'', re_entity = JObj [(''_id'', JStr ''2'')]\<rparr>)]"

definition mem_plan :: "(string, string list) dict" where
  "mem_plan = [(''figs/new/c.pdf'', [''c.pdf'']), (''a.pdf'', [''a.pdf'']), (''figs/b.pdf'', [''b.pdf''])]"

definition mem_state :: "mem helper" where
  "mem_state = \<lparr>outside = \<lparr>mem_files = [([''a.pdf''], ''A''), ([''figs'', ''b.pdf''], ''B''), ([''figs'', ''z.pdf''], ''Z'')],
      mem_ids = [(''1'', [''a.pdf'']), (''2'', [''figs'', ''b.pdf''])], mem_folders = [(''r'', []), (''g'', [''figs''])]\<rparr>,
    sent = [], logs = [],
    disk = FDir [(''a.pdf'', FFile ''A''), (''b.pdf'', FFile ''new B''), (''c.pdf'', FFile ''C'')]\<rparr>"

definition no_report :: sync_report where
  "no_report = \<lparr>changed = [], uploaded = [], missing = [], same = []\<rparr>"

lemma mem_start:
  "folders_ok mem_env sample_folders (mem_view (outside mem_state))" "dict_ok mem_plan" "has_ids sample_folders"
  "\<forall>(p, l) \<in> set mem_plan. tidy p \<and> entry_ok mem_env mem_remote (mem_view (outside mem_state)) p"
  "\<forall>item \<in> set mem_plan. sendable mem_remote (disk mem_state) item"
proof -
  have names: "names_of ''figs'' = [''figs'']" "names_of [] = []" "names_of ''a.pdf'' = [''a.pdf'']"
    "names_of ''figs/b.pdf'' = [''figs'', ''b.pdf'']" by code_simp+
  show "folders_ok mem_env sample_folders (mem_view (outside mem_state))"
    unfolding folders_ok_def using names
    by (auto simp: mem_view_def mem_state_def sample_folders_def dict_get_def jfield_def fmt_def split: if_splits)
  show "dict_ok mem_plan" by code_simp
  show "has_ids sample_folders" by (auto simp: has_ids_def sample_folders_def dict_get_def jfield_def split: if_splits)
  show "\<forall>item \<in> set mem_plan. sendable mem_remote (disk mem_state) item" by code_simp
  have t: "tidy ''figs/new/c.pdf''" "tidy ''a.pdf''" "tidy ''figs/b.pdf''" by code_simp+
  have e: "entry_ok mem_env mem_remote (mem_view (outside mem_state)) p" if "p \<in> {''figs/new/c.pdf'', ''a.pdf'', ''figs/b.pdf''}" for p
    using that names
    by (auto simp: entry_ok_def mem_remote_def dict_get_def jfield_def mem_view_def mem_state_def fmt_def)
  show "\<forall>(p, l) \<in> set mem_plan. tidy p \<and> entry_ok mem_env mem_remote (mem_view (outside mem_state)) p"
    using t e by (simp add: mem_plan_def)
qed

theorem sync_completes_witness:
  "\<exists>folders' report' s'. sync_planned mem_env mem_client ''p'' mem_remote False mem_plan (sample_folders, no_report) mem_state
     = Some (Inr (folders', report'), s')"
  by (rule sync_completes[OF mem_answers mem_start(3,5)])

definition mem_run :: "bool \<Rightarrow> ((folder_map \<times> sync_report) res \<times> mem helper) option" where
  "mem_run dry = sync_planned mem_env mem_client ''p'' mem_remote dry mem_plan (sample_folders, no_report) mem_state"

lemma mem_report:
  "map_option (\<lambda>(r, s). (map_sum id snd r, mem_files (outside s))) (mem_run False)
    = Some (Inr \<lparr>changed = [''figs/b.pdf''], uploaded = [''figs/new/c.pdf''], missing = [], same = [''a.pdf'']\<rparr>,
        [([''figs'', ''new'', ''c.pdf''], ''C''), ([''figs'', ''b.pdf''], ''new B''), ([''a.pdf''], ''A''), ([''figs'', ''b.pdf''], ''B''),
         ([''figs'', ''z.pdf''], ''Z'')])"
  by code_simp

lemma mem_run_result: "\<exists>f r s'. mem_run dry = Some (Inr (f, r), s')"
proof -
  have "case mem_run dry of Some (Inr _, _) \<Rightarrow> True | _ \<Rightarrow> False" by (cases dry) (simp only:, code_simp)+
  then show ?thesis by (auto split: option.splits sum.splits)
qed

theorem sync_stores_plan_witness:
  "\<exists>f r s'. mem_run False = Some (Inr (f, r), s')
    \<and> stored (mem_view (outside s')) [''figs'', ''new'', ''c.pdf''] = Some ''C''
    \<and> stored (mem_view (outside s')) [''figs'', ''z.pdf''] = Some ''Z''"
proof -
  obtain f r s' where run: "mem_run False = Some (Inr (f, r), s')" using mem_run_result by blast
  have nd: "\<not> doc_at mem_remote p" for p by (simp add: doc_at_def mem_remote_def dict_get_def)
  have names: "names_of ''figs/new/c.pdf'' = [''figs'', ''new'', ''c.pdf'']" "names_of ''a.pdf'' = [''a.pdf'']"
    "names_of ''figs/b.pdf'' = [''figs'', ''b.pdf'']" by code_simp+
  have c: "fs_file (disk mem_state) [''c.pdf''] = Some ''C''" by code_simp
  have z: "stored (mem_view (outside mem_state)) [''figs'', ''z.pdf''] = Some ''Z''" by (simp add: mem_view_def mem_state_def)
  have other: "\<forall>(p, l) \<in> set mem_plan. \<not> doc_at mem_remote p \<longrightarrow> names_of p \<noteq> [''figs'', ''z.pdf'']"
    by (simp add: mem_plan_def names)
  note res = sync_stores_plan[OF mem_serves mem_start(1,2,4) run[unfolded mem_run_def]]
  have "(''figs/new/c.pdf'', [''c.pdf'']) \<in> set mem_plan" by (simp add: mem_plan_def)
  then have "stored (mem_view (outside s')) [''figs'', ''new'', ''c.pdf''] = Some ''C''"
    using res[THEN conjunct1] nd c names(1) by force
  moreover have "stored (mem_view (outside s')) [''figs'', ''z.pdf''] = Some ''Z''"
    using res[THEN conjunct2, THEN spec, THEN mp, OF other] z by simp
  ultimately show ?thesis using run by blast
qed

theorem dry_run_predicts_witness:
  "\<exists>f1 f2 r1 r2 s1 s2. mem_run True = Some (Inr (f1, r1), s1) \<and> mem_run False = Some (Inr (f2, r2), s2)
    \<and> uploaded r1 = uploaded r2 \<and> changed r1 = changed r2 \<and> mem_view (outside s1) = mem_view (outside mem_state)"
proof -
  obtain f1 r1 s1 where dry: "mem_run True = Some (Inr (f1, r1), s1)" using mem_run_result by blast
  obtain f2 r2 s2 where real: "mem_run False = Some (Inr (f2, r2), s2)" using mem_run_result by blast
  from dry_run_predicts[OF mem_serves mem_start(1,2,4) dry[unfolded mem_run_def] real[unfolded mem_run_def]] dry real
  show ?thesis by blast
qed

end
