(* ===== verification/OverleafRun.thy ===== *)
theory OverleafRun
  imports StoreFacts
begin

text \<open>
  The helper from end to end: its socket.io requests come to an end, whole runs on a scripted server as instances of the
  theorems of \<open>OverleafFacts\<close>, and what the account configuration and the menus do.
\<close>

section \<open>Requests come to an end\<close>

text \<open>The clock never goes back, every request takes at least \<open>\<delta>\<close>, and no payload makes the decoder loop.\<close>

definition advancing :: "'w surroundings \<Rightarrow> ('w \<Rightarrow> real) \<Rightarrow> real \<Rightarrow> bool" where
  "advancing env now \<delta> \<longleftrightarrow> 0 < \<delta> \<and> (\<forall>w. now w \<le> fst (clock env w) \<and> now w \<le> now (snd (clock env w)))
     \<and> (\<forall>sid q w. now w + \<delta> \<le> now (snd (http env sid q w)))
     \<and> (\<forall>sid q w res. fst (http env sid q w) = Inr res \<longrightarrow> decode_socketio_payload (frame_sep env) (rs_text res) \<noteq> None)"

definition later :: "('w \<Rightarrow> real) \<Rightarrow> real \<Rightarrow> 'w helper \<Rightarrow> ('a res \<times> 'w helper) option \<Rightarrow> bool" where
  "later now d s r \<longleftrightarrow> (\<exists>x s'. r = Some (x, s') \<and> now (outside s) + d \<le> now (outside s'))"

lemma later_time: "advancing env now \<delta> \<Longrightarrow> \<exists>t s'. time_time env s = Some (Inr t, s') \<and> now (outside s) \<le> t \<and> now (outside s) \<le> now (outside s')"
proof -
  assume a: "advancing env now \<delta>"
  obtain t w where c: "clock env (outside s) = (t, w)" by fastforce
  then have "now (outside s) \<le> t \<and> now (outside s) \<le> now w" using a unfolding advancing_def by (metis fst_conv snd_conv)
  then show ?thesis by (simp add: time_time_def c)
qed

lemma later_poll:
  assumes a: "advancing env now \<delta>"
  shows "later now \<delta> s (socketio_poll env c u s)"
proof -
  obtain t s1 where t: "time_time env s = Some (Inr t, s1)" "now (outside s) \<le> now (outside s1)" using later_time[OF a] by blast
  let ?q = "get_request (u @ ''&t='' @ millis t) (headers c [] True) 30"
  obtain r w where h: "http env (session c) ?q (outside s1) = (r, w)" by fastforce
  then have w: "now (outside s1) + \<delta> \<le> now w" using a unfolding advancing_def by (metis snd_conv)
  have dec: "decode_socketio_payload (frame_sep env) (rs_text res) \<noteq> None" if "r = Inr res" for res
    using a h that unfolding advancing_def by (metis fst_conv)
  let ?s2 = "s1\<lparr>outside := w, sent := sent s1 @ [?q]\<rparr>"
  have "\<exists>x. socketio_poll env c u s = Some (x, ?s2)"
  proof (cases "res_bind r (\<lambda>res. if 400 \<le> rs_status res \<and> rs_status res < 600 then Inl HTTPError else Inr res)")
    case (Inl e)
    then show ?thesis using t h by (simp add: socketio_poll_def act_bind_def send_def Let_def)
  next
    case (Inr res)
    then have "r = Inr res" by (cases r) (auto split: if_splits)
    from dec[OF this] obtain ps where "decode_socketio_payload (frame_sep env) (rs_text res) = Some ps" by blast
    then show ?thesis using t h Inr
      by (cases "res_bind ps (res_map (decode_socketio_packet env))")
        (auto simp: socketio_poll_def act_bind_def send_def Let_def decode_packets_def act_lift_def act_ret_def)
  qed
  then show ?thesis using t w unfolding later_def by auto
qed

lemma await_returns:
  assumes a: "advancing env now \<delta>"
  shows "deadline \<le> now (outside s) + real n * \<delta> \<Longrightarrow> await_packet env c u wanted deadline s \<noteq> None"
proof (induction n arbitrary: s)
  case n: (Suc n)
  obtain t s1 where t: "time_time env s = Some (Inr t, s1)" "now (outside s) \<le> now (outside s1)" using later_time[OF a] by blast
  obtain r s2 where p: "socketio_poll env c u s1 = Some (r, s2)" "now (outside s1) + \<delta> \<le> now (outside s2)"
    using later_poll[OF a] unfolding later_def by blast
  have "deadline \<le> now (outside s2) + real n * \<delta>" using n.prems t(2) p(2) by (simp add: algebra_simps)
  from n.IH[OF this] show ?case
    using t(1) p(1) by (subst await_packet.simps) (auto simp: act_bind_def act_lift_def act_ret_def split: sum.split option.split)
next
  case 0
  obtain t s1 where "time_time env s = Some (Inr t, s1)" "now (outside s) \<le> t" using later_time[OF a] by blast
  then show ?case using 0 by (subst await_packet.simps) (simp add: act_bind_def act_lift_def)
qed

lemma act_bind_returns: "m s \<noteq> None \<Longrightarrow> (\<And>x t. f x t \<noteq> None) \<Longrightarrow> act_bind m f s \<noteq> None"
  by (auto simp: act_bind_def split: option.split sum.split prod.split)

lemma request_returns:
  assumes a: "advancing env now \<delta>"
  shows "socketio_request env c pid payload wanted s \<noteq> None"
proof -
  have time: "time_time env s \<noteq> None" for s using later_time[OF a] by fastforce
  have snd: "send env sid q s \<noteq> None" for sid q s by (simp add: send_def Let_def split: prod.split)
  have poll: "socketio_poll env c u s \<noteq> None" for u s using later_poll[OF a] unfolding later_def by fastforce
  have await: "await_packet env c u wanted deadline s \<noteq> None" for u deadline s
  proof -
    obtain n where "(deadline - now (outside s)) / \<delta> \<le> real n" using real_arch_simple by blast
    then have "deadline \<le> now (outside s) + real n * \<delta>" using a by (simp add: advancing_def divide_le_eq algebra_simps)
    then show ?thesis by (rule await_returns[OF a])
  qed
  show ?thesis
    unfolding socketio_request_def socketio_open_def socketio_post_def Let_def
    by (intro act_bind_returns time snd poll await) (simp_all add: act_ret_def)
qed

text \<open>C25: Every socket.io request comes to an end. If the clock advances and no payload makes the frame decoder loop, joining
  a project and reading a document return, with a value or an exception, whatever packets the server sends.\<close>

theorem socket_requests_return:
  assumes "advancing env now \<delta>"
  shows "join_project env c pid s \<noteq> None \<and> join_doc env c i s \<noteq> None"
  unfolding join_project_def join_doc_def socketio_request_event_def socketio_request_ack_def
  by (intro conjI act_bind_returns request_returns[OF assms]) (auto simp: act_lift_def)

definition ticking :: "real surroundings" where
  "ticking = \<lparr>http = (\<lambda>_ _ w. (Inr \<lparr>rs_status = 200, rs_text = ''2::'', rs_content = []\<rparr>, w + 1)), new_session = (\<lambda>w. (0, w)),
     set_cookie = (\<lambda>_ _ _ _ w. w), clock = (\<lambda>w. (w, w)), ask = (\<lambda>_ _ w. (Inr [], w)), json_loads = (\<lambda>_. Inl ValueError),
     json_dumps = (\<lambda>_. ''{}''), json_pretty = (\<lambda>_. []), py_str = (\<lambda>_. []), html_unescape = (\<lambda>x. x), guess_type = (\<lambda>_. None),
     utf8 = (\<lambda>x. x), expanduser = (\<lambda>x. x), frame_sep = CHR 0xFF\<rparr>"

theorem socket_requests_return_witness:
  "let s = \<lparr>outside = 0, sent = [], logs = [], disk = FDir []\<rparr>
   in join_project ticking mem_client ''p'' s \<noteq> None \<and> join_doc ticking mem_client (JStr ''d'') s \<noteq> None"
  unfolding Let_def
proof (rule socket_requests_return)
  have "decode_socketio_payload (CHR 0xFF) ''2::'' = Some (Inr [''2::''])" by code_simp
  then show "advancing ticking (\<lambda>w. w) 1" by (simp add: advancing_def ticking_def)
qed


section \<open>A scripted server\<close>

text \<open>It answers the requests with given texts, one after the other.\<close>

definition script_json :: "string \<Rightarrow> jval res" where
  "script_json t =
    (if t = ''projects'' then Inr (JObj [(''projects'', JList [JObj [(''id'', JStr ''p''), (''name'', JStr ''paper'')]])])
     else if t = ''joined'' then Inr (JObj [(''name'', JStr ''joinProjectResponse''),
       (''args'', JList [JObj [(''project'', JObj [(''rootFolder'', JList [JObj [(''_id'', JStr ''r''),
          (''folders'', JList [JObj [(''_id'', JStr ''g''), (''name'', JStr ''figs''),
             (''fileRefs'', JList [JObj [(''_id'', JStr ''2''), (''name'', JStr ''b.pdf'')]])]]),
          (''docs'', JList [JObj [(''_id'', JStr ''0''), (''name'', JStr ''main.tex'')]]),
          (''fileRefs'', JList [JObj [(''_id'', JStr ''1''), (''name'', JStr ''a.pdf'')]])]])])]])])
     else Inr (JObj [(''_id'', JStr t)]))"

definition script_env :: "string list surroundings" where
  "script_env = \<lparr>http = (\<lambda>_ _ w. case w of [] \<Rightarrow> (Inl ConnectionError, []) | t # ts \<Rightarrow> (Inr \<lparr>rs_status = 200, rs_text = t, rs_content = t\<rparr>, ts)),
     new_session = (\<lambda>w. (0, w)), set_cookie = (\<lambda>_ _ _ _ w. w), clock = (\<lambda>w. (0, w)), ask = (\<lambda>_ _ w. (Inr [], w)),
     json_loads = script_json, json_dumps = (\<lambda>_. ''{}''), json_pretty = (\<lambda>_. []), py_str = (\<lambda>_. []), html_unescape = (\<lambda>x. x),
     guess_type = (\<lambda>_. None), utf8 = (\<lambda>x. x), expanduser = (\<lambda>x. x), frame_sep = CHR 0xFF\<rparr>"

definition meta_tag :: "string \<Rightarrow> string \<Rightarrow> string" where
  "meta_tag name v = ''<meta name='' @ [quot] @ name @ [quot] @ '' content='' @ [quot] @ v @ [quot] @ ''>''"

definition script_opening :: "string list" where
  "script_opening = [concat (map (\<lambda>(n, v). meta_tag n v) [(''ol-user_id'', ''u''), (''ol-usersEmail'', ''e''), (''ol-csrfToken'', ''t'')]),
     [], ''projects'', ''sid:60:60:xhr-polling'', ''1::'', ''1'', ''5:::joined'']"

definition script_account :: account_config where
  "script_account = \<lparr>server_url = ''https://www.o.com'', ac_cookie = ''s=1'', project_id = ''p'', project_name = ''paper''\<rparr>"

definition script_rules :: "sync_rule list" where
  "script_rules = [\<lparr>sr_source = ''out/*.pdf'', sr_target_dir = ''figs'', sr_exclude = []\<rparr>,
     \<lparr>sr_source = ''a.pdf'', sr_target_dir = [], sr_exclude = []\<rparr>]"

definition script_state :: "string list \<Rightarrow> string list helper" where
  "script_state ts = \<lparr>outside = script_opening @ ts, sent = [], logs = [],
     disk = FDir [(''r'', FDir [(''a.pdf'', FFile ''A''), (''out'', FDir [(''b.pdf'', FFile ''B''), (''c.pdf'', FFile ''C'')])])]\<rparr>"

definition script_run :: "bool \<Rightarrow> string list \<Rightarrow> (sync_report res \<times> string list helper) option" where
  "script_run dry ts = run_sync script_env script_account [''r''] script_rules dry (script_state ts)"

lemma script_dry:
  "map_option (\<lambda>(r, s). (r, outside s)) (script_run True [''A'', ''old''])
    = Some (Inr \<lparr>changed = [''figs/b.pdf''], uploaded = [''figs/c.pdf''], missing = [], same = [''a.pdf'']\<rparr>, [])"
  by code_simp

lemma script_real:
  "map_option (\<lambda>(r, s). (r, outside s, length (filter changes_project (sent s)))) (script_run False [''A'', ''old'', ''ok'', ''ok''])
    = Some (Inr \<lparr>changed = [''figs/b.pdf''], uploaded = [''figs/c.pdf''], missing = [], same = [''a.pdf'']\<rparr>, [], 2)"
  by code_simp

theorem dry_run_changes_nothing_witness:
  "\<exists>r s'. script_run True [''A'', ''old''] = Some (Inr r, s') \<and> uploaded r = [''figs/c.pdf''] \<and> changed r = [''figs/b.pdf'']
    \<and> list_all (\<lambda>q. \<not> changes_project q) (sent s')"
proof -
  obtain s' where run: "script_run True [''A'', ''old'']
      = Some (Inr \<lparr>changed = [''figs/b.pdf''], uploaded = [''figs/c.pdf''], missing = [], same = [''a.pdf'']\<rparr>, s')"
    using script_dry by auto
  have "list_all (\<lambda>q. \<not> changes_project q) (sent s')"
    using dry_run_changes_nothing[OF run[unfolded script_run_def]] by (simp add: script_state_def)
  then show ?thesis using run by simp
qed


section \<open>Menus and the account configuration\<close>

lemma choose_number_range: "choose_number env n s = Some (Inr i, s') \<Longrightarrow> i < n"
proof -
  have "\<forall>i. fst y = Inr i \<longrightarrow> i < n" if "choose_number env n s = Some y" for env :: "'w surroundings" and n s y
  proof (rule choose_number.raw_induct[OF _ that, where P = "\<lambda>env n s y. \<forall>i. fst y = Inr i \<longrightarrow> i < n"], goal_cases)
    case (1 go env n s y)
    then obtain r t where a: "ask_user env False ''Select number: '' s = Some (r, t)"
      by (auto simp: act_bind_def split: option.splits)
    show ?case
    proof (cases r)
      case (Inl e)
      then show ?thesis using 1(2) a by (auto simp: act_bind_def)
    next
      case (Inr raw)
      show ?thesis
      proof (cases "\<exists>idx. py_int (str_strip raw) = Inr idx \<and> 1 \<le> idx \<and> idx \<le> int n")
        case True
        then show ?thesis using 1(2) a Inr by (auto simp: act_bind_def act_ret_def)
      next
        case False
        then have "go env n t = Some y"
          using 1(2) a Inr by (cases "py_int (str_strip raw)") (auto simp: act_bind_def split: if_splits)
        then show ?thesis using 1(1) by blast
      qed
    qed
  qed
  from this[of env n s "(Inr i, s')"] show "choose_number env n s = Some (Inr i, s') \<Longrightarrow> i < n" by simp
qed

lemma empty_menu_waits:
  assumes "\<forall>w. \<not> isl (fst (ask env False ''Select number: '' w))"
  shows "choose_number env 0 s = None"
proof -
  have "env' = env \<longrightarrow> n \<noteq> 0" if "choose_number env' n s = Some y" for env' n s y
  proof (rule choose_number.raw_induct[OF _ that, where P = "\<lambda>env' n s y. env' = env \<longrightarrow> n \<noteq> 0"], intro impI notI, goal_cases)
    case (1 go env' n s y)
    obtain r w where a: "ask env False ''Select number: '' (outside s) = (r, w)" by fastforce
    then obtain raw where raw: "r = Inr raw" using assms by (metis fst_conv isl_def sum.exhaust)
    have user: "ask_user env False ''Select number: '' s = Some (Inr raw, s\<lparr>outside := w\<rparr>)" using a raw by (simp add: ask_user_def)
    have "go env 0 (s\<lparr>outside := w\<rparr>) = Some y"
      using 1(2) unfolding 1(3,4) by (cases "py_int (str_strip raw)") (auto simp: act_bind_def user split: if_splits)
    then show False using 1(1) by blast
  qed
  then show ?thesis by fastforce
qed

text \<open>A menu gives an index of its list or keeps asking; an empty one never returns at a terminal that keeps answering.\<close>

lemma menu_choice:
  assumes "\<forall>w. \<not> isl (fst (ask env False ''Select number: '' w))"
  shows "prompt_choice env items s = Some (Inr i, s') \<Longrightarrow> i < length items" and "prompt_choice env [] s = None"
  using choose_number_range empty_menu_waits[OF assms] by (simp_all add: prompt_choice_def)

text \<open>With \<^verbatim>\<open>--bootstrap-account\<close> a saved server and a saved cookie are used without a question; only the project is asked
  for.\<close>

definition saved_config :: jval where
  "saved_config = JObj [(''server_url'', JStr ''https://old.org''), (''cookie'', JStr ''s=old''), (''project_id'', JStr ''x''),
     (''project_name'', JStr ''y'')]"

definition config_env :: "string list surroundings" where
  "config_env = script_env\<lparr>ask := (\<lambda>_ _ w. (Inr ''1'', w)),
     json_loads := (\<lambda>t. if t = ''cfg'' then Inr saved_config else script_json t)\<rparr>"

lemma bootstrap_keeps_login:
  "map_option fst (load_global_config config_env [''c''] True ((script_state [])\<lparr>disk := FDir [(''c'', FFile ''cfg'')]\<rparr>))
    = Some (Inr \<lparr>server_url = ''https://old.org'', ac_cookie = ''s=old'', project_id = ''p'', project_name = ''paper''\<rparr>)"
  by code_simp

text \<open>A repository whose own path holds a glob character: its patterns match nothing.\<close>

lemma bracket_root_misses:
  "rr_entries (expand_rule script_env (FDir [(''p[1]'', FDir [(''a.pdf'', FFile ''A'')])])
      \<lparr>sr_source = ''*.pdf'', sr_target_dir = [], sr_exclude = []\<rparr> [''p[1]'']) = []
   \<and> rr_entries (expand_rule script_env (FDir [(''p1'', FDir [(''a.pdf'', FFile ''A'')])])
      \<lparr>sr_source = ''*.pdf'', sr_target_dir = [], sr_exclude = []\<rparr> [''p1'']) = [([''p1'', ''a.pdf''], ''a.pdf'')]"
  by code_simp

end
