(* ===== verification/Spec2Isabelle.thy ===== *)
theory Spec2Isabelle
  imports MonitorLoop EffectFacts TrafficMains StatMains OverleafRun
begin

text \<open>
  \<^bold>\<open>Verification of Paraleon's control plane.\<close>

  Paraleon tunes the congestion-control parameters of a simulated RDMA network while the simulation runs. The C++
  simulator (ns-3) writes monitoring files and reads a parameter file; everything that decides what is written there is
  Python, and is modelled here.

  \<^bold>\<open>The parts and how they interact.\<close>
  \<^item> \<^verbatim>\<open>traffic_gen/*.py\<close> writes flow files. \<^verbatim>\<open>run.py\<close> reads topology and flow file, writes the configuration, starts
    simulator and tuner with the settings in environment variables, and records a manifest.
  \<^item> \<^verbatim>\<open>scratch/tuning.py\<close> is the tuner: a monitor loop turns flow reports into a flow ratio, and starts a tuning thread
    when the ratio has moved; the thread anneals the parameter vector against a utility measured from throughput, RTT
    and PFC files, and logs every cycle.
  \<^item> \<^verbatim>\<open>analysis/*.py\<close> reads the tuner's log, the manifests and the simulator's completion times back.
  \<^item> \<^verbatim>\<open>tools/overleaf_push/overleaf_push.py\<close> copies result figures into a paper on an Overleaf server, by rules in a file.

  \<^bold>\<open>Theories\<close> (sources under \<^verbatim>\<open>src/\<close>).
  \<^item> \<open>Prelude\<close>: exceptions as values (\<open>pyerr + 'a\<close>), dictionaries in insertion order, floats with their special values,
    \<^verbatim>\<open>round\<close>. \<open>PyText\<close>: the string, number and formatting operations of Python, with the round trips of printing and
    parsing numbers.
  \<^item> \<open>TunerParams\<close> (\<^verbatim>\<open>scratch/tuning.py\<close>: parameter table, mutation, parameter file). Locale \<open>ecn_table\<close>: the laws of a
    parameter table, interpreted on the real one. Mutated vectors stay in bounds and follow the guided direction; the
    parameter file reads back; the direction cap stays between its limits.
  \<^item> \<open>FlowObservation\<close> (\<^verbatim>\<open>tuning.py\<close>: sketch and host reports to flow ratios). Locale \<open>flow_observer\<close>, interpreted on both
    monitoring paths: what an observer promises the monitor loop. Host detection is sound, flows are classified in at most
    one class, the table update is pointwise.
  \<^item> \<open>Metrics\<close> (\<^verbatim>\<open>tuning.py\<close>: utility, mode, throughput, RTT, PFC window and cursor, waiting for snapshots). Locale
    \<open>poll_loop\<close>, interpreted on both waiting loops: they return when the trace advances.
  \<^item> \<open>TunerLog\<close> (\<^verbatim>\<open>tuning.py\<close>: every logging function). The monitor file is a table.
  \<^item> \<open>TunerSession\<close> (\<^verbatim>\<open>tuning.py\<close>: \<^verbatim>\<open>aggressive_tuning\<close>, \<^verbatim>\<open>conservative_tuning\<close>, \<^verbatim>\<open>start_tuning\<close>). Actions on the
    tuner's state that may raise or not return, with total-correctness triples. A session returns, and what it does is
    an annealing run (\<open>anneals\<close>): it measures each candidate while the parameter file holds it, accepts by the Metropolis
    rule, and leaves the best accepted solution of that run in the parameter file.
  \<^item> \<open>MonitorLoop\<close> (\<^verbatim>\<open>tuning.py\<close>: the main loop, and its interleaving with the tuning thread as the step relation
    \<open>sys_step\<close> with its reachable states). At most one tuning thread; a crashed one ends tuning for good;
    the unprotected reads of the shared ratios can race with the loop, and only the race makes their total zero.
  \<^item> \<open>Settings\<close> (\<^verbatim>\<open>tuning.py\<close>: environment variables and start-up checks), \<open>RunArgs\<close>, \<open>RunSetup\<close>, \<open>RunMain\<close> (\<^verbatim>\<open>run.py\<close>:
    argument types, run directories, inputs, configuration, controller command, environment, processes, manifest). What
    \<^verbatim>\<open>run.py\<close> passes the tuner accepts; both agree on the number of links; no controller outlives its run.
  \<^item> \<open>LogAnalysis\<close>, \<open>LogRoundTrip\<close>, \<open>RoundRecords\<close> (\<^verbatim>\<open>analysis/tuning_effect.py\<close>, \<^verbatim>\<open>utility_components_plot.py\<close>,
    \<^verbatim>\<open>direction_cap_history.py\<close>). A log of any number of summaries reads back entry by entry; locale
    \<open>label_search\<close>, interpreted on the four labels searched for: the right value is found; the direction cap rebuilt from
    the log of a session is the tuner's.
  \<^item> \<open>Traffic\<close>, \<open>TrafficLoad\<close>, \<open>TrafficMains\<close> (\<^verbatim>\<open>traffic_gen/gen_traffic.py\<close>, \<^verbatim>\<open>gen_llm_onoff_topo_s.py\<close>,
    \<^verbatim>\<open>llm_traffic_gen.py\<close>, the two load drivers, \<^verbatim>\<open>plot_flow_size_cdf.py\<close>). Generated workloads stay in their window and on
    target, the generator returns, the all-to-all workload has every pair in every round at the time of that round, a finished driver leaves one workload per load
    that \<^verbatim>\<open>run.py\<close> accepts, and dynamic traffic goes between different systems.
  \<^item> \<open>FctStats\<close>, \<open>Frontier\<close> (\<^verbatim>\<open>analysis/normalized_fct.py\<close>, \<^verbatim>\<open>pareto_frontier_plot.py\<close>, \<^verbatim>\<open>plot_fct_cdf.py\<close>,
    \<^verbatim>\<open>plot_throughput_norm.py\<close>). Every flow is filed in the bucket of its size, and each bucket shows the average and the interpolated percentile of
    its own slowdowns;
    locale \<open>dominance\<close>, interpreted on the comparison of experiments: the frontier is exact.

  \<^item> \<open>LogMains\<close>, \<open>EffectFacts\<close>, \<open>StatMains\<close>: the main functions of all these scripts, with the points of every figure. What
    \<^verbatim>\<open>tuning_effect.py\<close> and \<^verbatim>\<open>direction_cap_history.py\<close> draw from a log of the tuner is what the tuner logged; a curve of
    \<^verbatim>\<open>plot_fct_cdf.py\<close> is the distribution of the completion times in its file.
  \<^item> \<open>Actions\<close>: programs that change a state, may raise and may not return, with total-correctness triples and the locale
    \<open>step_relation\<close> for what every step preserves. The tuning thread and the Overleaf helper are such programs. \<open>Workspace\<close>:
    the state of a script, its files and its lines of output; \<open>step_relation\<close> is interpreted on the files it may change.
  \<^item> \<open>RemotePaths\<close>, \<open>RemotePathFacts\<close> (\<^verbatim>\<open>overleaf_push.py\<close>: paths, patterns, cookies, rules file, frames), \<open>OverleafClient\<close>
    (the requests and the socket.io dialogue), \<open>LocalTree\<close> (local files, globbing, rules, plan), \<open>OverleafSync\<close> (project tree,
    transfer, \<^verbatim>\<open>run_sync\<close>), \<open>OverleafMain\<close> (generated rules, account configuration, \<^verbatim>\<open>main\<close>).
  \<^item> \<open>OverleafFacts\<close>: locale \<open>quiet_steps\<close>, interpreted on the requests sent and on the view of the server: which requests a
    run may send, for any server (\<open>planned_request\<close>: uploads with their content, empty documents, the folders on the way). \<open>PlanFacts\<close>: a plan is exact, a generated rule hits its file. \<open>StoreFacts\<close>: what a run does
    to the project of a server that keeps its documented interface (\<open>serves\<close>: files by the path of their
    folder in the folder tree), with a small server as instance. \<open>OverleafRun\<close>:
    the dialogues end; whole runs on a scripted server.

  \<^bold>\<open>State and effects.\<close> Global variables are records passed along; the files a component reads are inputs (a sequence of
  contents where they change while the program runs), the files it writes are values in its state or result. Random numbers
  are streams with a position, so that the theorems hold for every seed. Exceptions are \<open>Inl\<close> values. Finite floating-point
  arithmetic is exact real arithmetic; infinities and \<^verbatim>\<open>nan\<close> follow the IEEE comparison rules where a setting, a
  report or a log can hold them. Printing a float with \<^verbatim>\<open>repr\<close> is a parameter.

  \<^bold>\<open>Loops and fuel.\<close> Loops over data are structural. The polling loops, the cooling loop, the arrival loops and the
  dialogues of the Overleaf helper may run for ever and are \<^verbatim>\<open>partial_function (option)\<close>; that they return is proved (a
  trace that advances, a cooling rate below one, gaps that keep coming, a clock that advances). \<open>generate_flows\<close> retries by
  recursion: its depth argument is the interpreter's recursion limit, and the result \<open>RecursionError\<close> is part of the model; what it returns is right for every depth.

  \<^bold>\<open>Not modelled.\<close> The bytes of figures and tables (a figure is its title, labels and points; what matplotlib and pandas
  make of it is a parameter); pandas' and json's parsers (their results are inputs); argparse (the parsed arguments are
  inputs); symbolic links; the text of an exception in a log line; a killed
  process that is still there five seconds later; Python functions that are never called; the C++
  simulator, and the generated bindings, build and test drivers that come with ns-3, which are not this program's own
  and make up nearly all of the Python files of the repository. Of the Overleaf helper the web server, the cookie jar, the terminal and
  the clock are parameters (\<open>surroundings\<close>) acting on an unknown outside state.
\<close>

end
